(* ===== verification/U2_Prelude.thy ===== *)
theory U2_Prelude
  imports Complex_Main
begin

text \<open>
  Shared vocabulary of the development: JavaScript values, exceptions as values, the
  state-and-exception combinators the database code is written with, SQL statements over
  tables kept as lists of rows in insertion order, and the string functions the code uses.

  Conventions.
  \<^item> A JavaScript value that may be \<open>undefined\<close> is an option: \<open>None\<close> is \<open>undefined\<close>.
  \<^item> A number is a rational: every finite double is one, and nothing modelled here depends
    on rounding.
  \<^item> A string is a list of 8-bit characters (the code's strings are UTF-16); what is
    modelled depends on ASCII characters only.
  \<^item> An instant is a number of milliseconds (\<open>int\<close>). The code stores
    \<open>Date.toISOString()\<close> texts, whose string order is the order of the instants for the
    years 0 to 9999.
  \<^item> A column that holds JSON text is the value itself: \<open>JSON.parse\<close> inverts
    \<open>JSON.stringify\<close> on the values stored.
\<close>

section \<open>Collections of facts\<close>

named_theorems js_simps \<open>evaluation of JavaScript primitives\<close>
named_theorems sql_simps \<open>SQL statements over lists of rows\<close>
named_theorems keys_keep \<open>an UPDATE statement keeps the primary key of each row\<close>

section \<open>JavaScript values\<close>

text \<open>
  \<open>JNative\<close> is a member that every plain object inherits from \<open>Object.prototype\<close>: a
  property read on an object can return one, so the model keeps it.
\<close>

datatype jsval =
    JNull
  | JBool bool
  | JNum rat
  | JStr string
  | JArr "jsval list"
  | JObj "(string \<times> jsval) list"
  | JNative string

fun truthy :: "jsval option \<Rightarrow> bool" where
  "truthy None = False"
| "truthy (Some JNull) = False"
| "truthy (Some (JBool b)) = b"
| "truthy (Some (JNum n)) = (n \<noteq> 0)"
| "truthy (Some (JStr s)) = (s \<noteq> [])"
| "truthy (Some v) = True"

fun is_mapping :: "jsval option \<Rightarrow> bool" where
  "is_mapping (Some (JObj ps)) = True"
| "is_mapping _ = False"

definition object_prototype_keys :: "string list" where
  "object_prototype_keys =
     [''constructor'', ''__defineGetter__'', ''__defineSetter__'', ''hasOwnProperty'',
      ''__lookupGetter__'', ''__lookupSetter__'', ''isPrototypeOf'', ''propertyIsEnumerable'',
      ''toString'', ''valueOf'', ''__proto__'', ''toLocaleString'']"

text \<open>
  \<open>js_get v k\<close> is the optional-chaining read \<open>v?.[k]\<close>: \<open>undefined\<close> on \<open>null\<close> and
  \<open>undefined\<close>, own properties first, then what \<open>Object.prototype\<close> holds. Own index keys of
  arrays and strings are never read this way by the modelled code.
\<close>

fun js_get :: "jsval option \<Rightarrow> string \<Rightarrow> jsval option" where
  "js_get None k = None"
| "js_get (Some JNull) k = None"
| "js_get (Some (JObj ps)) k =
     (case map_of ps k of
        Some v \<Rightarrow> Some v
      | None \<Rightarrow> if k \<in> set object_prototype_keys then Some (JNative k) else None)"
| "js_get (Some v) k = (if k \<in> set object_prototype_keys then Some (JNative k) else None)"

text \<open>\<open>js_put\<close> is a property write on an association list: in place when the key exists.\<close>

fun js_put :: "string \<Rightarrow> 'v \<Rightarrow> (string \<times> 'v) list \<Rightarrow> (string \<times> 'v) list" where
  "js_put k v [] = [(k, v)]"
| "js_put k v ((k', v') # ps) = (if k = k' then (k', v) # ps else (k', v') # js_put k v ps)"

text \<open>Object spread \<open>{ ...a, ...b }\<close>.\<close>

fun js_spread :: "(string \<times> 'v) list \<Rightarrow> (string \<times> 'v) list \<Rightarrow> (string \<times> 'v) list" where
  "js_spread a [] = a"
| "js_spread a ((k, v) # b) = js_spread (js_put k v a) b"

lemma map_of_js_put [js_simps, simp]: "map_of (js_put k v ps) = (map_of ps)(k \<mapsto> v)"
  by (induction ps) auto

lemma map_of_js_spread [js_simps]:
  "distinct (map fst b) \<Longrightarrow> map_of (js_spread a b) = map_of a ++ map_of b"
proof (induction b arbitrary: a)
  case Nil
  then show ?case by simp
next
  case (Cons p b)
  obtain k v where p: "p = (k, v)" by (cases p)
  from Cons.prems p have "map_of b k = None" by (simp add: map_of_eq_None_iff)
  with Cons p show ?case by (auto simp: map_add_def fun_eq_iff split: option.splits)
qed

lemma js_put_keys: "set (map fst (js_put k v ps)) = insert k (set (map fst ps))"
  by (induction k v ps rule: js_put.induct) auto

lemma distinct_js_put: "distinct (map fst ps) \<Longrightarrow> distinct (map fst (js_put k v ps))"
proof (induction k v ps rule: js_put.induct)
  case (2 k v k' v' ps)
  then show ?case using js_put_keys [of k v ps] by auto
qed simp

lemma distinct_js_spread: "distinct (map fst a) \<Longrightarrow> distinct (map fst (js_spread a b))"
  by (induction a b rule: js_spread.induct) (simp_all add: distinct_js_put)

lemma truthy_Some_JStr [simp]: "truthy (Some (JStr s)) \<longleftrightarrow> s \<noteq> []"
  by simp

section \<open>Exceptions as values\<close>

datatype js_error =
    TypeError string
  | Error string
  | CodedError string string   \<comment> \<open>\<open>error.code\<close> and the message (or \<open>error.reason\<close>)\<close>
  | HttpError nat string       \<comment> \<open>\<open>error.status\<close> and the message\<close>
  | SqlError string            \<comment> \<open>a constraint SQLite refuses\<close>

type_synonym 'a res = "js_error + 'a"

text \<open>\<open>error.message\<close>.\<close>

definition error_message :: "js_error \<Rightarrow> string" where
  "error_message e = (case e of TypeError m \<Rightarrow> m | Error m \<Rightarrow> m | CodedError c m \<Rightarrow> m | HttpError n m \<Rightarrow> m | SqlError m \<Rightarrow> m)"

text \<open>An effectful operation: the database it leaves, and a result or an exception.\<close>

type_synonym ('s, 'a) eff = "'s \<Rightarrow> 'a res \<times> 's"

definition ret :: "'a \<Rightarrow> ('s, 'a) eff" where
  "ret x s = (Inr x, s)"

definition throw :: "js_error \<Rightarrow> ('s, 'a) eff" where
  "throw e s = (Inl e, s)"

definition bindE :: "('s, 'a) eff \<Rightarrow> ('a \<Rightarrow> ('s, 'b) eff) \<Rightarrow> ('s, 'b) eff" where
  "bindE m f s = (case m s of (Inl e, s') \<Rightarrow> (Inl e, s') | (Inr x, s') \<Rightarrow> f x s')"

text \<open>\<open>withTransaction\<close>: BEGIN, then COMMIT, or ROLLBACK and rethrow.\<close>

definition withTransaction :: "('s, 'a) eff \<Rightarrow> ('s, 'a) eff" where
  "withTransaction m s = (case m s of (Inl e, s') \<Rightarrow> (Inl e, s) | (Inr x, s') \<Rightarrow> (Inr x, s'))"

lemmas eff_defs = ret_def throw_def bindE_def withTransaction_def

lemma withTransaction_rollback:
  "fst (withTransaction m s) = Inl e \<Longrightarrow> snd (withTransaction m s) = s"
  by (auto simp: withTransaction_def split: prod.splits sum.splits)

section \<open>SQL over lists of rows\<close>

definition sql_update :: "('r \<Rightarrow> bool) \<Rightarrow> ('r \<Rightarrow> 'r) \<Rightarrow> 'r list \<Rightarrow> 'r list" where
  "sql_update P f rows = map (\<lambda>r. if P r then f r else r) rows"

definition sql_changes :: "('r \<Rightarrow> bool) \<Rightarrow> 'r list \<Rightarrow> nat" where
  "sql_changes P rows = length (filter P rows)"

definition sql_get :: "('r \<Rightarrow> bool) \<Rightarrow> 'r list \<Rightarrow> 'r option" where
  "sql_get P rows = List.find P rows"

text \<open>\<open>ORDER BY le LIMIT 1\<close>: a least row, the earliest inserted among equals.\<close>

fun sql_first_by :: "('r \<Rightarrow> 'r \<Rightarrow> bool) \<Rightarrow> 'r list \<Rightarrow> 'r option" where
  "sql_first_by lt [] = None"
| "sql_first_by lt (r # rs) =
     (case sql_first_by lt rs of
        None \<Rightarrow> Some r
      | Some r' \<Rightarrow> if lt r' r then Some r' else Some r)"

lemma sql_first_by_mem: "sql_first_by lt rs = Some r \<Longrightarrow> r \<in> set rs"
  by (induction rs arbitrary: r) (auto split: option.splits if_splits)

lemma sql_first_by_None: "sql_first_by lt rs = None \<longleftrightarrow> rs = []"
  by (induction rs) (auto split: option.splits)

lemma sql_first_by_least:
  assumes "\<And>a b. lt a b \<longleftrightarrow> k a < (k b :: 'k :: linorder)"
    and "sql_first_by lt rs = Some r" and "x \<in> set rs"
  shows "k r \<le> k x"
  using assms(2,3)
proof (induction rs arbitrary: r x)
  case Nil
  then show ?case by simp
next
  case (Cons a rs)
  show ?case
  proof (cases "sql_first_by lt rs")
    case None
    with Cons.prems show ?thesis by (auto simp: sql_first_by_None)
  next
    case (Some b)
    with Cons.IH have b: "\<forall>y\<in>set rs. k b \<le> k y" by blast
    from Cons.prems(1) Some have r: "r = (if k b < k a then b else a)"
      using assms(1) [of b a] by (simp split: if_splits)
    show ?thesis
    proof (cases "k b < k a")
      case True
      with r b Cons.prems(2) show ?thesis by auto
    next
      case False
      with r b Cons.prems(2) show ?thesis by (auto intro: order_trans simp: not_less)
    qed
  qed
qed

lemma sql_get_SomeD: "sql_get P rows = Some r \<Longrightarrow> r \<in> set rows \<and> P r"
  by (auto simp: sql_get_def find_Some_iff)

lemma sql_get_None_iff: "sql_get P rows = None \<longleftrightarrow> (\<forall>r\<in>set rows. \<not> P r)"
  by (auto simp: sql_get_def find_None_iff)

lemma sql_get_Nil [simp]: "sql_get P [] = None"
  by (simp add: sql_get_def)

lemma sql_get_Cons [simp]: "sql_get P (r # rs) = (if P r then Some r else sql_get P rs)"
  by (simp add: sql_get_def)

lemma sql_get_append:
  "sql_get P (xs @ ys) = (case sql_get P xs of Some r \<Rightarrow> Some r | None \<Rightarrow> sql_get P ys)"
  by (induction xs) auto

lemma set_sql_update: "set (sql_update P f rows) = (\<lambda>r. if P r then f r else r) ` set rows"
  by (simp add: sql_update_def)

lemma length_sql_update [simp]: "length (sql_update P f rows) = length rows"
  by (simp add: sql_update_def)

lemma sql_update_Nil [simp]: "sql_update P f [] = []"
  by (simp add: sql_update_def)

lemma sql_update_Cons [simp]:
  "sql_update P f (r # rs) = (if P r then f r else r) # sql_update P f rs"
  by (simp add: sql_update_def)

lemma sql_changes_0_iff: "sql_changes P rows = 0 \<longleftrightarrow> (\<forall>r\<in>set rows. \<not> P r)"
  by (simp add: sql_changes_def filter_empty_conv)

lemma sql_update_none: "sql_changes P rows = 0 \<Longrightarrow> sql_update P f rows = rows"
  by (simp add: sql_changes_0_iff sql_update_def map_idI)

lemma list_all_imp: "list_all P xs \<Longrightarrow> (\<And>x. P x \<Longrightarrow> Q x) \<Longrightarrow> list_all Q xs"
  by (auto simp: list_all_iff)

section \<open>Tables with a primary key\<close>

text \<open>
  The contract an UPDATE statement has with its table: it may rewrite any column but the
  primary key. The lemmas of the locale are what the stores use of a table.
\<close>

locale keyed_update =
  fixes key :: "'r \<Rightarrow> 'k"
    and upd :: "'p \<Rightarrow> 'r \<Rightarrow> 'r"
  assumes key_upd: "key (upd p r) = key r"
begin

lemma map_key_update: "map key (sql_update P (upd p) rows) = map key rows"
  by (simp add: sql_update_def key_upd)

lemma distinct_keys_update:
  "distinct (map key rows) \<Longrightarrow> distinct (map key (sql_update P (upd p) rows))"
  by (simp add: map_key_update)

lemma get_after_update:
  "sql_get (\<lambda>r. key r = k) (sql_update P (upd p) rows) =
     map_option (\<lambda>r. if P r then upd p r else r) (sql_get (\<lambda>r. key r = k) rows)"
  by (induction rows) (auto simp: key_upd)

lemma get_other_key:
  assumes "\<And>r. P r \<Longrightarrow> key r \<noteq> k"
  shows "sql_get (\<lambda>r. key r = k) (sql_update P (upd p) rows) = sql_get (\<lambda>r. key r = k) rows"
  using assms by (induction rows) (auto simp: key_upd)

end

text \<open>With distinct keys a row is determined by its key, and a keyed UPDATE changes one row.\<close>

lemma key_unique:
  "distinct (map key rows) \<Longrightarrow> r \<in> set rows \<Longrightarrow> r' \<in> set rows \<Longrightarrow> key r = key r' \<Longrightarrow> r = r'"
  by (auto simp: distinct_map dest: inj_onD)

lemma sql_get_key:
  "distinct (map key rows) \<Longrightarrow> r \<in> set rows \<Longrightarrow> sql_get (\<lambda>x. key x = key r) rows = Some r"
  by (induction rows) (auto simp: image_iff)

lemma sql_changes_keyed:
  assumes "distinct (map key rows)" and "\<And>r. P r \<Longrightarrow> key r = k"
  shows "sql_changes P rows \<le> 1"
  using assms
proof (induction rows)
  case Nil
  then show ?case by (simp add: sql_changes_def)
next
  case (Cons r rows)
  show ?case
  proof (cases "P r")
    case True
    with Cons.prems have "\<forall>x\<in>set rows. \<not> P x" by force
    then have "filter P rows = []" by simp
    with True show ?thesis by (simp add: sql_changes_def)
  next
    case False
    with Cons show ?thesis by (simp add: sql_changes_def)
  qed
qed

lemma sql_changes_1_ex: "sql_changes P rows = 1 \<Longrightarrow> \<exists>r\<in>set rows. P r"
  using sql_changes_0_iff [of P rows] by fastforce

section \<open>Invariants of transition systems\<close>

text \<open>
  Each stateful component gives a start state, a step relation and an invariant. The
  locale lifts one-step preservation to every state a run can reach.
\<close>

inductive run_of :: "('s \<Rightarrow> 's \<Rightarrow> bool) \<Rightarrow> 's \<Rightarrow> 's \<Rightarrow> bool" for step where
  run_start: "run_of step s s"
| run_more: "run_of step s t \<Longrightarrow> step t u \<Longrightarrow> run_of step s u"

locale invariant_system =
  fixes inv :: "'s \<Rightarrow> bool"
    and step :: "'s \<Rightarrow> 's \<Rightarrow> bool"
  assumes step_inv: "inv s \<Longrightarrow> step s t \<Longrightarrow> inv t"
begin

lemma run_inv: "run_of step s t \<Longrightarrow> inv s \<Longrightarrow> inv t"
  by (induction rule: run_of.induct) (auto intro: step_inv)

lemma run_preserves:
  assumes "\<And>s t. inv s \<Longrightarrow> step s t \<Longrightarrow> Q s \<Longrightarrow> Q t" and "run_of step s t" and "inv s" and "Q s"
  shows "Q t"
  using assms(2,3,4)
  by (induction rule: run_of.induct) (auto intro: assms(1) run_inv)

end

section \<open>Strings\<close>

definition starts_with :: "string \<Rightarrow> string \<Rightarrow> bool" where
  "starts_with s p \<longleftrightarrow> take (length p) s = p"

definition ends_with :: "string \<Rightarrow> string \<Rightarrow> bool" where
  "ends_with s p \<longleftrightarrow> length p \<le> length s \<and> drop (length s - length p) s = p"

fun split_on :: "char \<Rightarrow> string \<Rightarrow> string list" where
  "split_on c [] = [[]]"
| "split_on c (x # xs) =
     (if x = c then [] # split_on c xs
      else (case split_on c xs of [] \<Rightarrow> [[x]] | w # ws \<Rightarrow> (x # w) # ws))"

fun join_with :: "string \<Rightarrow> string list \<Rightarrow> string" where
  "join_with sep [] = []"
| "join_with sep [w] = w"
| "join_with sep (w # ws) = w @ sep @ join_with sep ws"

lemma split_on_nonempty [simp]: "split_on c s \<noteq> []"
  by (induction s) (auto split: list.splits)

lemma join_split_on: "join_with [c] (split_on c s) = s"
proof (induction s)
  case Nil
  then show ?case by simp
next
  case (Cons x xs)
  obtain w ws where "split_on c xs = w # ws" by (cases "split_on c xs") auto
  with Cons show ?case by (cases ws) auto
qed

lemma starts_with_append [simp]: "starts_with (p @ s) p"
  by (simp add: starts_with_def)

lemma ends_with_append [simp]: "ends_with (s @ p) p"
  by (simp add: ends_with_def)

text \<open>\<open>xs[i]\<close> of JavaScript: \<open>undefined\<close> past the end.\<close>

definition js_nth :: "'a list \<Rightarrow> nat \<Rightarrow> 'a option" where
  "js_nth xs i = (if i < length xs then Some (xs ! i) else None)"

fun nat_str :: "nat \<Rightarrow> string" where
  "nat_str n = (if n < 10 then [char_of (48 + n)] else nat_str (n div 10) @ [char_of (48 + n mod 10)])"

declare nat_str.simps [simp del]

text \<open>\<open>String(n)\<close> of an integer.\<close>

definition int_str :: "int \<Rightarrow> string" where
  "int_str n = (if n < 0 then ''-'' @ nat_str (nat (- n)) else nat_str (nat n))"

section \<open>String(value)\<close>

text \<open>
  Decimal digits of a fraction in \<open>[0, 1)\<close>, at most as many as the fuel; 17 digits are all a
  double prints.
\<close>

fun frac_digits :: "nat \<Rightarrow> rat \<Rightarrow> string" where
  "frac_digits 0 q = []"
| "frac_digits (Suc n) q =
     (if q = 0 then [] else (let d = nat \<lfloor>q * 10\<rfloor> in char_of (48 + d) # frac_digits n (q * 10 - rat_of_nat d)))"

definition num_str :: "rat \<Rightarrow> string" where
  "num_str q =
     (let a = \<bar>q\<bar>; i = \<lfloor>a\<rfloor>; f = a - of_int i; body = nat_str (nat i) @ (if f = 0 then [] else ''.'' @ frac_digits 17 f)
      in if q < 0 then ''-'' @ body else body)"

fun js_str :: "jsval \<Rightarrow> string" where
  "js_str JNull = ''null''"
| "js_str (JBool b) = (if b then ''true'' else ''false'')"
| "js_str (JNum n) = num_str n"
| "js_str (JStr s) = s"
| "js_str (JArr vs) = join_with '','' (map (\<lambda>v. if v = JNull then [] else js_str v) vs)"
| "js_str (JObj ps) = ''[object Object]''"
| "js_str (JNative k) =
     (if k = ''__proto__'' then ''[object Object]''
      else ''function '' @ (if k = ''constructor'' then ''Object'' else k) @ ''() { [native code] }'')"

fun js_typeof :: "jsval option \<Rightarrow> string" where
  "js_typeof None = ''undefined''"
| "js_typeof (Some (JBool b)) = ''boolean''"
| "js_typeof (Some (JNum n)) = ''number''"
| "js_typeof (Some (JStr s)) = ''string''"
| "js_typeof (Some (JNative k)) = (if k = ''__proto__'' then ''object'' else ''function'')"
| "js_typeof (Some v) = ''object''"

section \<open>JSON.stringify(value)\<close>

definition hex_digit :: "nat \<Rightarrow> char" where
  "hex_digit n = char_of (if n < 10 then 48 + n else 87 + n)"

definition json_char :: "char \<Rightarrow> string" where
  "json_char c =
     (let n = of_char c :: nat; bs = [char_of (92 :: nat)] in
      if n = 34 \<or> n = 92 then bs @ [c]
      else if n = 8 then bs @ ''b'' else if n = 12 then bs @ ''f'' else if n = 10 then bs @ ''n''
      else if n = 13 then bs @ ''r'' else if n = 9 then bs @ ''t''
      else if n < 32 then bs @ ''u00'' @ [hex_digit (n div 16), hex_digit (n mod 16)]
      else [c])"

definition json_quote :: "string \<Rightarrow> string" where
  "json_quote s = [char_of (34 :: nat)] @ concat (map json_char s) @ [char_of (34 :: nat)]"

text \<open>\<open>JSON.stringify\<close> of a value that \<open>JSON.parse\<close> can give.\<close>

fun json_text :: "jsval \<Rightarrow> string" where
  "json_text (JStr s) = json_quote s"
| "json_text (JArr vs) = ''['' @ join_with '','' (map json_text vs) @ '']''"
| "json_text (JObj ps) = ''{'' @ join_with '','' (map (\<lambda>p. json_quote (fst p) @ '':'' @ json_text (snd p)) ps) @ ''}''"
| "json_text v = js_str v"

section \<open>White space, case and search\<close>

definition js_space :: "char \<Rightarrow> bool" where
  "js_space c \<longleftrightarrow> (of_char c :: nat) \<in> {9, 10, 11, 12, 13, 32, 160}"

definition js_trim :: "string \<Rightarrow> string" where
  "js_trim s = rev (dropWhile js_space (rev (dropWhile js_space s)))"

definition lower_char :: "char \<Rightarrow> char" where
  "lower_char c = (let n = of_char c :: nat in if 65 \<le> n \<and> n \<le> 90 then char_of (n + 32) else c)"

fun has_infix :: "string \<Rightarrow> string \<Rightarrow> bool" where
  "has_infix p [] = (p = [])"
| "has_infix p (c # cs) = (starts_with (c # cs) p \<or> has_infix p cs)"

definition upper_char :: "char \<Rightarrow> char" where
  "upper_char c = (let n = of_char c :: nat in if 97 \<le> n \<and> n \<le> 122 then char_of (n - 32) else c)"

end
