(* ===== verification/U2_Policy.thy ===== *)
theory U2_Policy
  imports U2_Prelude
begin

text \<open>
  The action policy: \<open>server/policy/policies-loader.js\<close> (validation of the vault policy and
  the merge over the home policy) and the decision procedure of
  \<open>server/policy/policy-engine.js\<close>. The YAML parser (js-yaml) and the file system are
  outside the model: a loaded file is its parsed value, and the states the vault file can
  be in are a datatype. Object keys are never \<open>__proto__\<close>.
\<close>

section \<open>Tools and evaluations\<close>

datatype category = CatRead | CatDraft | CatConsequential

record tool =
  t_name :: string
  t_domain :: string
  t_category :: category
  t_supportsIdempotency :: bool
  t_requiresAccountBinding :: bool

text \<open>
  \<open>autonomyLevel\<close> is a number, or a member of \<open>Object.prototype\<close> when a policy level is the
  name of one, or what \<open>Math.max\<close> makes of that.
\<close>

datatype autonomy = Level int | Inherited | NaN

record evaluation =
  autonomyLevel :: autonomy
  requiresApproval :: bool
  blocked :: bool
  ev_domain :: string
  ev_rule :: string
  ev_reason :: string

text \<open>What is done with a proposal: executed at once only if neither flag is set.\<close>

definition executes :: "evaluation \<Rightarrow> bool" where
  "executes e \<longleftrightarrow> \<not> blocked e \<and> \<not> requiresApproval e"

section \<open>Loading the policies\<close>

record policy_set =
  policies :: jsval
  vaultPolicyInvalid :: bool

definition LEVEL_KEYS :: "string list" where
  "LEVEL_KEYS = [''always'', ''autonomous'', ''confirm'', ''never'']"

text \<open>The levels one operation rule holds; anything that is neither text nor mapping gives \<open>[null]\<close>.\<close>

fun rule_levels :: "jsval \<Rightarrow> jsval list" where
  "rule_levels (JStr s) = [JStr s]"
| "rule_levels (JObj ps) = map snd ps"
| "rule_levels _ = [JNull]"

fun level_ok :: "jsval \<Rightarrow> bool" where
  "level_ok (JStr s) \<longleftrightarrow> s \<in> set LEVEL_KEYS"
| "level_ok _ \<longleftrightarrow> False"

fun check_operations :: "string \<Rightarrow> (string \<times> jsval) list \<Rightarrow> unit res" where
  "check_operations domain [] = Inr ()"
| "check_operations domain ((operation, rule) # rest) =
     (if list_all level_ok (rule_levels rule) then check_operations domain rest
      else Inl (Error (domain @ ''.'' @ operation @ '': use always, autonomous, confirm or never'')))"

fun check_domains :: "(string \<times> jsval) list \<Rightarrow> unit res" where
  "check_domains [] = Inr ()"
| "check_domains ((domain, JObj operations) # rest) =
     (case check_operations domain operations of
        Inl e \<Rightarrow> Inl e
      | Inr _ \<Rightarrow> check_domains rest)"
| "check_domains ((domain, _) # rest) = Inl (Error (domain @ '': must map operations to policy levels''))"

definition validatePolicies :: "jsval \<Rightarrow> unit res" where
  "validatePolicies pols =
     (case pols of
        JObj domains \<Rightarrow> check_domains domains
      | _ \<Rightarrow> Inl (Error ''policies.yaml must map domains to operations''))"

text \<open>
  What \<open>lstat\<close> and \<open>yaml.load\<close> give for \<open><vault>/policies.yaml\<close>: no file, or a file with its
  kind, its size and its parse (\<open>Inl\<close> a parser message, \<open>Inr\<close> the value).
\<close>

datatype vault_file =
    VaultMissing
  | VaultPresent bool nat "string + jsval"   \<comment> \<open>\<open>isFile()\<close>, size, parse\<close>

definition entries :: "jsval \<Rightarrow> (string \<times> jsval) list" where
  "entries v = (case v of JObj ps \<Rightarrow> ps | _ \<Rightarrow> [])"

definition merge_domain :: "jsval \<Rightarrow> string \<times> jsval \<Rightarrow> (string \<times> jsval) list \<Rightarrow> (string \<times> jsval) list" where
  "merge_domain home p merged =
     js_put (fst p)
       (JObj (js_spread (case map_of (entries home) (fst p) of Some (JObj ops) \<Rightarrow> ops | _ \<Rightarrow> [])
                        (entries (snd p)))) merged"

definition merge_policies :: "jsval \<Rightarrow> jsval \<Rightarrow> jsval" where
  "merge_policies home vault = JObj (fold (merge_domain home) (entries vault) (entries home))"

text \<open>\<open>home\<close> is what the home file parses to, \<open>|| {}\<close> applied.\<close>

definition loadPolicies :: "jsval \<Rightarrow> vault_file \<Rightarrow> policy_set" where
  "loadPolicies home vf =
     (case vf of
        VaultMissing \<Rightarrow> \<lparr>policies = home, vaultPolicyInvalid = False\<rparr>
      | VaultPresent isFile bytes parsed \<Rightarrow>
          let failClosed = \<lparr>policies = JObj (entries home), vaultPolicyInvalid = True\<rparr> in
          if \<not> isFile then failClosed
          else if bytes > 64 * 1024 then failClosed
          else (case parsed of
                  Inl _ \<Rightarrow> failClosed
                | Inr value \<Rightarrow>
                    let vault = (if value = JNull then JObj [] else value) in
                    (case validatePolicies vault of
                       Inl _ \<Rightarrow> failClosed
                     | Inr _ \<Rightarrow> \<lparr>policies = merge_policies home vault, vaultPolicyInvalid = False\<rparr>)))"

section \<open>The decision procedure\<close>

definition operation_of :: "tool \<Rightarrow> string" where
  "operation_of t = (case js_nth (split_on CHR ''.'' (t_name t)) 1 of Some op \<Rightarrow> op | None \<Rightarrow> ''undefined'')"

text \<open>The evaluation context: \<open>context.category\<close> and \<open>context.event.category\<close>.\<close>

record eval_context =
  cx_category :: "string option"
  cx_event_category :: "string option"

definition resolveSubCategory :: "eval_context \<Rightarrow> string option" where
  "resolveSubCategory c =
     (case cx_category c of
        Some (x # xs) \<Rightarrow> Some (x # xs)
      | _ \<Rightarrow> (case cx_event_category c of Some (x # xs) \<Rightarrow> Some (x # xs) | _ \<Rightarrow> None))"

text \<open>
  \<open>LEVELS[levelKey] ?? 3\<close> and \<open>REQUIRES_APPROVAL[levelKey] ?? true\<close>: the key is converted to
  a property name, and both objects inherit from \<open>Object.prototype\<close>.
\<close>

definition level_number :: "jsval \<Rightarrow> autonomy" where
  "level_number k =
     (let s = js_str k in
      if s = ''always'' then Level 0
      else if s = ''autonomous'' then Level 4
      else if s = ''confirm'' then Level 3
      else if s = ''never'' then Level 5
      else if s \<in> set object_prototype_keys then Inherited
      else Level 3)"

definition level_requires_approval :: "jsval \<Rightarrow> bool" where
  "level_requires_approval k = (js_str k \<noteq> ''always'' \<and> js_str k \<noteq> ''autonomous'')"

definition describeReason :: "jsval \<Rightarrow> string \<Rightarrow> string \<Rightarrow> string" where
  "describeReason k domain operation =
     (let op = domain @ ''.'' @ operation in
      if k = JStr ''always'' then op @ '' is always allowed.''
      else if k = JStr ''autonomous'' then op @ '' is configured for delegated autonomy.''
      else if k = JStr ''confirm'' then op @ '' requires explicit confirmation per policy.''
      else if k = JStr ''never'' then op @ '' is blocked by policy (never).''
      else op @ '' defaulted to confirm (unrecognized policy value \"'' @ js_str k @ ''\").'')"

text \<open>The level key and the rule text an operation policy resolves to.\<close>

definition resolve_level :: "string \<Rightarrow> string \<Rightarrow> jsval \<Rightarrow> eval_context \<Rightarrow> jsval \<times> string" where
  "resolve_level domain operation opPolicy cx =
     (let op = domain @ ''.'' @ operation; fallback = (JStr ''confirm'', op @ '':fallback-confirm'') in
      if js_typeof (Some opPolicy) = ''string'' then (opPolicy, op @ '':'' @ js_str opPolicy)
      else if js_typeof (Some opPolicy) = ''object'' \<and> opPolicy \<noteq> JNull then
        (case resolveSubCategory cx of
           None \<Rightarrow> fallback
         | Some sub \<Rightarrow>
             (case js_get (Some opPolicy) sub of
                Some k \<Rightarrow> (k, op @ ''.'' @ sub @ '':'' @ js_str k)
              | None \<Rightarrow>
                  (case js_get (Some opPolicy) ''default'' of
                     Some k \<Rightarrow> (k, op @ ''.default:'' @ js_str k)
                   | None \<Rightarrow> fallback)))
      else fallback)"

text \<open>A broken vault policy turns \<open>always\<close> and \<open>autonomous\<close> into \<open>confirm\<close>.\<close>

definition fail_closed_level :: "bool \<Rightarrow> jsval \<times> string \<Rightarrow> jsval \<times> string" where
  "fail_closed_level invalid kr =
     (if invalid \<and> (fst kr = JStr ''always'' \<or> fst kr = JStr ''autonomous'')
      then (JStr ''confirm'', snd kr @ '':vault-policy-invalid'')
      else kr)"

definition op_policy :: "policy_set \<Rightarrow> string \<Rightarrow> string \<Rightarrow> jsval option" where
  "op_policy ps domain operation = js_get (js_get (Some (policies ps)) domain) operation"

definition policy_evaluate :: "policy_set \<Rightarrow> tool \<Rightarrow> eval_context \<Rightarrow> evaluation" where
  "policy_evaluate ps t cx =
     (let domain = t_domain t; operation = operation_of t; op = domain @ ''.'' @ operation in
      if t_category t = CatRead then
        \<lparr>autonomyLevel = Level 0, requiresApproval = False, blocked = False, ev_domain = domain,
         ev_rule = ''read:always'', ev_reason = ''Read-only tools are always allowed in Phase 1.''\<rparr>
      else
        (case op_policy ps domain operation of
           None \<Rightarrow>
             \<lparr>autonomyLevel = Level 3, requiresApproval = True, blocked = False, ev_domain = domain,
              ev_rule = op @ '':missing'',
              ev_reason = ''No policy configured for '' @ op @ ''; defaulting to confirm.''\<rparr>
         | Some opPolicy \<Rightarrow>
             let (k, rule) = fail_closed_level (vaultPolicyInvalid ps) (resolve_level domain operation opPolicy cx) in
             \<lparr>autonomyLevel = level_number k,
              requiresApproval = level_requires_approval k,
              blocked = (k = JStr ''never''),
              ev_domain = domain,
              ev_rule = rule,
              ev_reason = (if ends_with rule '':vault-policy-invalid''
                           then ''Your vault policies.yaml is invalid, so '' @ op @ '' requires confirmation until it is fixed.''
                           else describeReason k domain operation)\<rparr>))"

text \<open>The level a consequential or draft tool resolves to, when a rule exists.\<close>

definition effective_level :: "policy_set \<Rightarrow> tool \<Rightarrow> eval_context \<Rightarrow> jsval option" where
  "effective_level ps t cx =
     map_option (\<lambda>opPolicy. fst (fail_closed_level (vaultPolicyInvalid ps)
         (resolve_level (t_domain t) (operation_of t) opPolicy cx)))
       (op_policy ps (t_domain t) (operation_of t))"

section \<open>Facts about levels\<close>

lemma js_str_native_not_level:
  "js_str (JNative k) \<noteq> ''always'' \<and> js_str (JNative k) \<noteq> ''autonomous''"
  by simp

lemma js_get_own:
  "js_get (Some v) k = Some w \<Longrightarrow> \<not> (\<exists>n. w = JNative n) \<Longrightarrow> \<exists>ps. v = JObj ps \<and> map_of ps k = Some w"
  by (cases v) (auto split: option.splits if_splits)

lemma executes_policy_evaluate:
  "executes (policy_evaluate ps t cx) \<longleftrightarrow>
     t_category t = CatRead \<or>
     (\<exists>k. effective_level ps t cx = Some k \<and> \<not> level_requires_approval k)"
  by (auto simp: executes_def policy_evaluate_def effective_level_def Let_def level_requires_approval_def
      split: option.splits prod.splits)

lemma blocked_policy_evaluate:
  "blocked (policy_evaluate ps t cx) \<longleftrightarrow>
     t_category t \<noteq> CatRead \<and> effective_level ps t cx = Some (JStr ''never'')"
  by (auto simp: policy_evaluate_def effective_level_def Let_def split: option.splits prod.splits)

lemma ev_domain_policy_evaluate [simp]: "ev_domain (policy_evaluate ps t cx) = t_domain t"
  by (simp add: policy_evaluate_def Let_def split: option.splits prod.splits)

text \<open>Where a level without approval can come from: a value the policy itself holds.\<close>

definition rule_value :: "jsval \<Rightarrow> eval_context \<Rightarrow> jsval \<Rightarrow> bool" where
  "rule_value opPolicy cx k \<longleftrightarrow>
     opPolicy = k \<or>
     (\<exists>ps sub. opPolicy = JObj ps \<and> resolveSubCategory cx = Some sub \<and>
        (map_of ps sub = Some k \<or> map_of ps sub = None \<and> map_of ps ''default'' = Some k))"

lemma fail_closed_level_same:
  "\<not> level_requires_approval (fst (fail_closed_level b kr)) \<Longrightarrow> fail_closed_level b kr = kr"
  by (auto simp: fail_closed_level_def level_requires_approval_def split: if_splits)

lemma resolve_level_own:
  assumes "\<not> level_requires_approval (fst (resolve_level d op v cx))"
  shows "rule_value v cx (fst (resolve_level d op v cx))"
proof -
  let ?k = "fst (resolve_level d op v cx)"
  from assms have nat: "\<nexists>n. ?k = JNative n"
    using js_str_native_not_level by (auto simp: level_requires_approval_def)
  have nc: "?k \<noteq> JStr ''confirm''"
    using assms by (auto simp: level_requires_approval_def)
  show ?thesis
  proof (cases "js_typeof (Some v) = ''string''")
    case True
    then show ?thesis by (simp add: resolve_level_def rule_value_def)
  next
    case False
    with nc obtain sub where ob: "js_typeof (Some v) = ''object''" "v \<noteq> JNull"
      and sub: "resolveSubCategory cx = Some sub"
      by (cases "resolveSubCategory cx") (auto simp: resolve_level_def Let_def split: if_splits)
    show ?thesis
    proof (cases "js_get (Some v) sub")
      case (Some k)
      with False ob sub have k: "?k = k" by (simp add: resolve_level_def Let_def)
      with Some nat js_get_own [of v sub k] sub show ?thesis
        by (auto simp: rule_value_def)
    next
      case None
      with False ob sub nc obtain k where dk: "js_get (Some v) ''default'' = Some k"
        by (cases "js_get (Some v) ''default''") (auto simp: resolve_level_def Let_def)
      with None False ob sub have k: "?k = k" by (simp add: resolve_level_def Let_def)
      with dk nat js_get_own [of v "''default''" k] obtain ps
        where "v = JObj ps" "map_of ps ''default'' = Some k" by auto
      moreover from None this(1) have "map_of ps sub = None"
        by (auto split: option.splits)
      ultimately show ?thesis using sub k by (auto simp: rule_value_def)
    qed
  qed
qed

text \<open>
  C1. No silent autonomy. A tool that is not read-only executes without approval only if the
  loaded policy itself holds, for exactly this domain and operation and for the category
  derived from server-side context (or its default), a value that spells \<open>always\<close> or
  \<open>autonomous\<close>; a missing rule, an unknown level, a non-textual rule and a name inherited
  from \<open>Object.prototype\<close> all ask.
\<close>

theorem policy_no_silent_autonomy:
  assumes "executes (policy_evaluate ps t cx)" and "t_category t \<noteq> CatRead"
  shows "\<exists>v k. op_policy ps (t_domain t) (operation_of t) = Some v \<and> rule_value v cx k \<and>
           (js_str k = ''always'' \<or> js_str k = ''autonomous'')"
proof -
  from assms obtain v where v: "op_policy ps (t_domain t) (operation_of t) = Some v"
    and k: "\<not> level_requires_approval (fst (fail_closed_level (vaultPolicyInvalid ps)
              (resolve_level (t_domain t) (operation_of t) v cx)))"
    by (auto simp: executes_policy_evaluate effective_level_def)
  let ?r = "resolve_level (t_domain t) (operation_of t) v cx"
  from fail_closed_level_same [OF k] k have "\<not> level_requires_approval (fst ?r)" by simp
  with resolve_level_own have "rule_value v cx (fst ?r)" by blast
  with v \<open>\<not> level_requires_approval (fst ?r)\<close> show ?thesis
    by (auto simp: level_requires_approval_def)
qed

definition ex_tool :: "string \<Rightarrow> string \<Rightarrow> tool" where
  "ex_tool name domain = \<lparr>t_name = name, t_domain = domain, t_category = CatConsequential,
     t_supportsIdempotency = False, t_requiresAccountBinding = False\<rparr>"

definition ex_context :: "string \<Rightarrow> eval_context" where
  "ex_context c = \<lparr>cx_category = Some c, cx_event_category = None\<rparr>"

definition ex_policies :: policy_set where
  "ex_policies = \<lparr>policies = JObj [(''email'', JObj [(''send'', JObj [(''friends'', JStr ''autonomous''),
      (''legal'', JStr ''never'')])])], vaultPolicyInvalid = False\<rparr>"

lemmas policy_eval_simps =
  executes_def policy_evaluate_def op_policy_def operation_of_def js_nth_def resolve_level_def
  resolveSubCategory_def fail_closed_level_def level_requires_approval_def level_number_def
  ex_tool_def ex_context_def ex_policies_def Let_def object_prototype_keys_def

theorem policy_no_silent_autonomy_witness:
  "executes (policy_evaluate ex_policies (ex_tool ''email.send'' ''email'') (ex_context ''friends'')) \<and>
   (\<exists>v k. op_policy ex_policies ''email'' ''send'' = Some v \<and> rule_value v (ex_context ''friends'') k \<and>
      (js_str k = ''always'' \<or> js_str k = ''autonomous''))"
proof -
  let ?t = "ex_tool ''email.send'' ''email''"
  have e: "executes (policy_evaluate ex_policies ?t (ex_context ''friends''))"
    by (simp add: policy_eval_simps)
  have c: "t_category ?t \<noteq> CatRead" by (simp add: ex_tool_def)
  have n: "t_domain ?t = ''email''" "operation_of ?t = ''send''"
    by (simp_all add: ex_tool_def operation_of_def js_nth_def)
  show ?thesis
    using e policy_no_silent_autonomy [OF e c] unfolding n by (rule conjI)
qed

section \<open>A broken vault policy fails closed\<close>

text \<open>A rule whose levels are texts: a text, or a mapping of texts.\<close>

fun textual_rule :: "jsval \<Rightarrow> bool" where
  "textual_rule (JStr s) = True"
| "textual_rule (JObj ps) = list_all (\<lambda>p. js_typeof (Some (snd p)) = ''string'') ps"
| "textual_rule _ = False"

fun textual_domain :: "jsval \<Rightarrow> bool" where
  "textual_domain (JObj ops) = list_all (\<lambda>p. textual_rule (snd p)) ops"
| "textual_domain _ = False"

definition textual_policies :: "jsval \<Rightarrow> bool" where
  "textual_policies v = list_all (\<lambda>p. textual_domain (snd p)) (entries v)"

lemma js_typeof_string: "js_typeof (Some v) = ''string'' \<longleftrightarrow> (\<exists>s. v = JStr s)"
  by (cases v) auto

lemma map_of_snd: "map_of ps k = Some v \<Longrightarrow> list_all (\<lambda>p. Q (snd p)) ps \<Longrightarrow> Q v"
  by (induction ps) (auto split: if_splits)

lemma level_without_approval_is_text:
  "js_typeof (Some k) = ''string'' \<Longrightarrow> \<not> level_requires_approval k \<Longrightarrow>
     k = JStr ''always'' \<or> k = JStr ''autonomous''"
  by (auto simp: js_typeof_string level_requires_approval_def)

lemma rule_value_textual:
  "textual_rule v \<Longrightarrow> rule_value v cx k \<Longrightarrow> \<not> level_requires_approval k \<Longrightarrow> js_typeof (Some k) = ''string''"
  by (cases v) (auto simp: rule_value_def level_requires_approval_def
      dest: map_of_snd [where Q = "\<lambda>v. js_typeof (Some v) = ''string''"])

lemma op_policy_own:
  assumes "op_policy ps d op = Some v" and "textual_policies (policies ps)"
    and "\<nexists>n. v = JNative n"
  shows "textual_rule v"
proof -
  from assms(1) obtain dom where d: "js_get (Some (policies ps)) d = Some dom"
    and op: "js_get (Some dom) op = Some v"
    by (cases "js_get (Some (policies ps)) d") (auto simp: op_policy_def)
  from js_get_own [OF op assms(3)] obtain ops where dom: "dom = JObj ops" "map_of ops op = Some v"
    by blast
  with js_get_own [OF d] obtain doms where "policies ps = JObj doms" "map_of doms d = Some dom"
    by blast
  with assms(2) have "textual_domain dom"
    by (auto simp: textual_policies_def entries_def dest: map_of_snd [where Q = textual_domain])
  with dom show ?thesis by (auto dest: map_of_snd [where Q = textual_rule])
qed

lemma invalid_vault_asks:
  assumes "vaultPolicyInvalid ps" and "textual_policies (policies ps)" and "t_category t \<noteq> CatRead"
  shows "requiresApproval (policy_evaluate ps t cx)"
proof (rule ccontr)
  assume na: "\<not> ?thesis"
  then obtain v where v: "op_policy ps (t_domain t) (operation_of t) = Some v"
    and lv: "\<not> level_requires_approval (fst (fail_closed_level True
               (resolve_level (t_domain t) (operation_of t) v cx)))"
    using assms(1,3) by (auto simp: policy_evaluate_def Let_def split: option.splits prod.splits)
  let ?r = "resolve_level (t_domain t) (operation_of t) v cx"
  from fail_closed_level_same [OF lv] lv have r: "\<not> level_requires_approval (fst ?r)"
    and eq: "fail_closed_level True ?r = ?r" by simp_all
  note rv = resolve_level_own [OF r]
  have "\<nexists>n. v = JNative n"
    using rv r js_str_native_not_level by (auto simp: rule_value_def level_requires_approval_def)
  from rule_value_textual [OF op_policy_own [OF v assms(2) this] rv r]
  have "fst ?r = JStr ''always'' \<or> fst ?r = JStr ''autonomous''"
    using r by (rule level_without_approval_is_text)
  with eq show False by (auto simp: fail_closed_level_def prod_eq_iff)
qed

text \<open>What can be wrong with the vault file.\<close>

definition vault_broken :: "vault_file \<Rightarrow> bool" where
  "vault_broken vf =
     (case vf of
        VaultMissing \<Rightarrow> False
      | VaultPresent isFile bytes parsed \<Rightarrow>
          \<not> isFile \<or> bytes > 64 * 1024 \<or>
          (case parsed of Inl _ \<Rightarrow> True
           | Inr v \<Rightarrow> (\<exists>e. validatePolicies (if v = JNull then JObj [] else v) = Inl e)))"

lemma loadPolicies_broken:
  "vault_broken vf \<Longrightarrow> loadPolicies home vf = \<lparr>policies = JObj (entries home), vaultPolicyInvalid = True\<rparr>"
  by (auto simp: vault_broken_def loadPolicies_def Let_def split: vault_file.splits sum.splits)

lemma textual_entries [simp]: "textual_policies (JObj (entries v)) = textual_policies v"
  by (simp add: textual_policies_def entries_def)



text \<open>
  The home policy is not validated, and its levels are used as property names: a level
  written as a one-element list, \<open>friends: [autonomous]\<close>, is granted like the text, and it
  is granted even when the vault policy is broken and the engine is meant to ask.
\<close>

theorem list_level_escapes_fail_closed:
  "executes (policy_evaluate
     (loadPolicies (JObj [(''email'', JObj [(''send'', JObj [(''friends'', JArr [JStr ''autonomous''])])])])
        (VaultPresent True 70000 (Inr (JObj []))))
     (ex_tool ''email.send'' ''email'') (ex_context ''friends''))"
  by (simp add: loadPolicies_def entries_def policy_eval_simps)

section \<open>The vault policy overrides per operation\<close>

lemma check_operations_ok:
  "check_operations d ops = Inr u \<longleftrightarrow> list_all (\<lambda>p. list_all level_ok (rule_levels (snd p))) ops"
  by (induction d ops rule: check_operations.induct) auto

lemma check_domains_ok:
  "check_domains ds = Inr u \<longleftrightarrow>
     list_all (\<lambda>p. \<exists>ops. snd p = JObj ops \<and> list_all (\<lambda>q. list_all level_ok (rule_levels (snd q))) ops) ds"
proof (induction ds rule: check_domains.induct)
  case (2 domain operations rest)
  then show ?case
    using check_operations_ok [of domain operations "()"]
    by (cases "check_operations domain operations") auto
qed (auto simp: list_all_iff)

lemma level_ok_text: "level_ok v \<Longrightarrow> js_typeof (Some v) = ''string''"
  by (cases v) auto

lemma level_ok_rule_textual: "list_all level_ok (rule_levels r) \<Longrightarrow> textual_rule r"
  by (cases r) (auto simp: list_all_iff dest: level_ok_text)

lemma checked_domain_textual:
  "\<exists>ops. v = JObj ops \<and> list_all (\<lambda>q. list_all level_ok (rule_levels (snd q))) ops \<Longrightarrow> textual_domain v"
  by (auto elim!: list_all_imp intro: level_ok_rule_textual)

lemma validated_textual: "validatePolicies v = Inr u \<Longrightarrow> textual_policies v"
  by (auto simp: validatePolicies_def check_domains_ok textual_policies_def entries_def
      split: jsval.splits elim!: list_all_imp intro: checked_domain_textual)

lemma map_of_fold_merge:
  assumes "distinct (map fst vs)"
  shows "map_of (fold (merge_domain home) vs acc) d =
    (case map_of vs d of
       None \<Rightarrow> map_of acc d
     | Some ops \<Rightarrow> Some (JObj (js_spread (case map_of (entries home) d of Some (JObj o') \<Rightarrow> o' | _ \<Rightarrow> [])
                                          (entries ops))))"
  using assms
proof (induction vs arbitrary: acc)
  case Nil
  then show ?case by simp
next
  case (Cons p vs)
  obtain k v where p: "p = (k, v)" by (cases p)
  from Cons.prems p have "map_of vs k = None" by (simp add: map_of_eq_None_iff)
  with Cons p show ?case by (auto simp: merge_domain_def split: option.splits)
qed

text \<open>
  Merging the owner's vault policy over the home policy. A rule the vault states for a
  domain and operation is the effective rule, whatever the home policy says; an operation
  the vault does not mention keeps the home rule, its sibling operations being kept too.
\<close>

theorem vault_rule_overrides:
  assumes "validatePolicies (JObj vs) = Inr ()" and "distinct (map fst vs)"
    and "map_of vs d = Some (JObj ops)" and "distinct (map fst ops)"
    and "bytes \<le> 64 * 1024" and "map_of (entries home) d = Some (JObj hops)"
  shows "op_policy (loadPolicies home (VaultPresent True bytes (Inr (JObj vs)))) d op =
           (case map_of ops op of Some r \<Rightarrow> Some r | None \<Rightarrow> js_get (Some (JObj hops)) op)"
proof -
  from assms(1,5) have l: "loadPolicies home (VaultPresent True bytes (Inr (JObj vs))) =
      \<lparr>policies = merge_policies home (JObj vs), vaultPolicyInvalid = False\<rparr>"
    by (simp add: loadPolicies_def)
  have e: "entries (JObj vs) = vs" "entries (JObj ops) = ops" by (simp_all add: entries_def)
  have "map_of (fold (merge_domain home) vs (entries home)) d = Some (JObj (js_spread hops ops))"
    by (simp add: map_of_fold_merge [OF assms(2)] assms(3,6) e)
  moreover have "map_of (js_spread hops ops) = map_of hops ++ map_of ops"
    by (rule map_of_js_spread) (rule assms(4))
  ultimately show ?thesis
    by (auto simp: op_policy_def l merge_policies_def e map_add_def split: option.splits)
qed

theorem vault_rule_overrides_witness:
  "op_policy (loadPolicies (policies ex_policies)
       (VaultPresent True 100 (Inr (JObj [(''email'', JObj [(''draft'', JStr ''never'')])])))) ''email'' ''draft''
     = Some (JStr ''never'') \<and>
   op_policy (loadPolicies (policies ex_policies)
       (VaultPresent True 100 (Inr (JObj [(''email'', JObj [(''draft'', JStr ''never'')])])))) ''email'' ''send''
     = Some (JObj [(''friends'', JStr ''autonomous''), (''legal'', JStr ''never'')])"
proof -
  let ?vs = "[(''email'', JObj [(''draft'', JStr ''never'')])]"
  have v: "validatePolicies (JObj ?vs) = Inr ()"
    by (simp add: validatePolicies_def LEVEL_KEYS_def)
  have h: "map_of (entries (policies ex_policies)) ''email'' =
      Some (JObj [(''send'', JObj [(''friends'', JStr ''autonomous''), (''legal'', JStr ''never'')])])"
    by (simp add: ex_policies_def entries_def)
  show ?thesis
    using vault_rule_overrides [OF v, of "''email''" "[(''draft'', JStr ''never'')]" 100, OF _ _ _ _ h]
    by simp
qed

end
