(* ===== verification/U2_Schema.thy ===== *)
theory U2_Schema
  imports U2_Policy
begin

text \<open>
  The tables of \<open>server/db/schema.sql\<close> that the action path reads and writes, as records of
  their rows, and the database as the record of these tables. A table is the list of its
  rows in insertion order. \<open>events\<close> is what \<open>EventBus.publish\<close> appends to the event log.
\<close>

section \<open>Status values\<close>

datatype action_status =
  APending | AApproved | ABlocked | AExecuted | AFailed | ACancelled | ARejected

datatype queue_status =
  Queued | Leased | Executing | Retry_wait | Completed | Failed | Dead_letter | Cancelled

datatype error_class =
  Retryable | Non_retryable | Authentication_required | Owner_attention_required
| Recovery_review_required | Outcome_uncertain

datatype attempt_status = AtExecuting | AtCompleted | AtFailed

text \<open>
  The texts a run step's status takes: its own, the status of its action, the status of its
  queue row, and those \<open>currentStepStatus\<close> derives.
\<close>

datatype step_status =
  S_planned | S_waiting_dependency | S_running | S_interrupted | S_budget_exhausted | S_skipped
| S_pending | S_approved | S_blocked | S_executed | S_failed | S_cancelled | S_rejected
| S_queued | S_leased | S_executing | S_retry_wait | S_completed | S_dead_letter
| S_waiting_for_action | S_needs_attention | S_outcome_uncertain | S_waiting_for_approval
| S_retrying | S_planning

datatype run_status =
  R_planning | R_running | R_ready_to_continue | R_waiting_for_action | R_waiting_for_approval
| R_waiting_for_dependency | R_interrupted | R_needs_attention | R_cancelling | R_cancelled
| R_budget_exhausted | R_completed | R_failed

datatype goal_status = G_draft | G_active | G_paused | G_cancelled

datatype wake_status = W_pending | W_started | W_cancelled | W_blocked

section \<open>Rows\<close>

record actor =
  actor_type :: string
  actor_id :: string

record smtp_identity =
  smtp_instanceId :: string
  smtp_credentialRevision :: int
  smtp_from :: string

record account_binding =
  ab_providerId :: string
  ab_instanceId :: string
  ab_smtpIdentity :: "smtp_identity option"

text \<open>The account captured for an action: \<open>binding\<close> and \<open>error\<close>.\<close>

type_synonym account_context = "account_binding option \<times> string option"

record action_row =
  a_id :: string
  a_requested_by :: string
  a_request_text :: "string option"
  a_model :: "string option"
  a_tool :: string
  a_arguments :: jsval
  a_reasoning_summary :: "string option"
  a_policy_domain :: "string option"
  a_policy_rule :: "string option"
  a_autonomy_level :: "int option"
  a_requires_approval :: bool
  a_status :: action_status
  a_approved_by :: "string option"
  a_approved_at :: "int option"
  a_rejected_by :: "string option"
  a_rejected_at :: "int option"
  a_result :: "jsval option"
  a_correlation_id :: "string option"
  a_contextProvenance :: "jsval list"
  a_accountBinding :: "account_binding option"
  a_packageContext :: "jsval option"
  a_created_at :: int
  a_updated_at :: int

record queue_row =
  q_id :: string
  q_action_id :: string
  q_correlation_id :: "string option"
  q_tool :: string
  q_arguments :: jsval
  q_idempotency_key :: string
  q_status :: queue_status
  q_attempt_count :: nat
  q_next_attempt_at :: int
  q_lease_owner :: "string option"
  q_lease_expires_at :: "int option"
  q_last_error :: "string option"
  q_error_class :: "error_class option"
  q_approval_reference :: "string option"
  q_policy_decision_reference :: "string option"
  q_actor :: "actor option"
  q_created_at :: int
  q_updated_at :: int

record attempt_row =
  t_id :: string
  t_queue_id :: string
  t_attempt_number :: nat
  t_lease_owner :: string
  t_status :: attempt_status
  t_started_at :: int
  t_finished_at :: "int option"
  t_error :: "string option"
  t_error_class :: "error_class option"

record run_row =
  r_id :: string
  r_correlation_id :: string
  r_actor_id :: string
  r_objective :: string
  r_conversation_id :: "string option"
  r_goal_id :: "string option"
  r_goal_revision :: "int option"
  r_status :: run_status
  r_objective_status :: string
  r_model_call_count :: nat
  r_token_limit :: nat
  r_input_tokens :: nat
  r_output_tokens :: nat
  r_metered_model_calls :: nat
  r_voice_confidence :: "rat option"
  r_continuation_after_step :: "nat option"
  r_continuation_claimed :: bool
  r_cancel_requested_at :: "int option"
  r_cancelled_by :: "string option"
  r_step_limit :: nat
  r_step_count :: nat
  r_elapsed_limit_ms :: int
  r_deadline_at :: "int option"
  r_budget_stop_reason :: "string option"
  r_output_private :: bool
  r_reasoning_summary :: "string option"
  r_response :: "string option"
  r_created_at :: int
  r_updated_at :: int

record step_row =
  s_run_id :: string
  s_index :: nat
  s_tool :: string
  s_arguments :: jsval
  s_depends_on :: "nat list"
  s_context_provenance :: "jsval list"
  s_account_context :: "account_context option"
  s_model_id :: "string option"
  s_status :: step_status
  s_action_id :: "string option"
  s_created_at :: int
  s_updated_at :: int

record budgets =
  maxRuns :: int
  maxModelCalls :: int
  maxTokens :: int

record goal_row =
  g_id :: string
  g_owner_id :: string
  g_objective :: string
  g_completion_criteria :: "string list"
  g_constraints :: "string list"
  g_domains :: "string list"
  g_consequential :: bool
  g_budgets :: budgets
  g_status :: goal_status
  g_revision :: int
  g_created_at :: int
  g_updated_at :: int

record wake_row =
  w_id :: string
  w_goal_id :: string
  w_goal_revision :: int
  w_trigger_id :: string
  w_fire_at :: int
  w_status :: wake_status
  w_run_id :: "string option"
  w_blocker :: "string option"
  w_created_at :: int
  w_updated_at :: int

record research_row =
  rs_id :: string
  rs_goal_id :: string
  rs_goal_revision :: int
  rs_interval_hours :: int
  rs_max_passes :: int
  rs_scheduled_passes :: int
  rs_successful_passes :: int
  rs_wake_id :: string
  rs_status :: string
  rs_blocker :: "string option"
  rs_checked_at :: int
  rs_created_at :: int
  rs_updated_at :: int

record trigger_row =
  tr_id :: string
  tr_name :: string
  tr_kind :: string
  tr_enabled :: bool
  tr_config :: jsval
  tr_last_fired_at :: "int option"
  tr_next_check_at :: "int option"
  tr_lease_owner :: "string option"
  tr_lease_expires_at :: "int option"
  tr_source :: string
  tr_created_at :: int
  tr_updated_at :: int

record calendar_row =
  ce_id :: string
  ce_source :: string
  ce_category :: "string option"

record event =
  e_type :: string
  e_source :: string
  e_actor :: "actor option"
  e_subject_id :: string
  e_data :: "(string \<times> jsval) list"
  e_correlation_id :: "string option"
  e_provenance :: string

section \<open>The database\<close>

record db =
  actions :: "action_row list"
  queue :: "queue_row list"
  attempts :: "attempt_row list"
  runs :: "run_row list"
  steps :: "step_row list"
  goals :: "goal_row list"
  wakes :: "wake_row list"
  researches :: "research_row list"
  triggers :: "trigger_row list"
  calendar_events :: "calendar_row list"
  events :: "event list"

definition empty_db :: db where
  "empty_db = \<lparr>actions = [], queue = [], attempts = [], runs = [], steps = [], goals = [],
     wakes = [], researches = [], triggers = [], calendar_events = [], events = []\<rparr>"

text \<open>\<open>EventBus.publish\<close> of \<open>server/events/event-bus.js\<close>: the row appended to the log.\<close>

definition publish :: "event \<Rightarrow> db \<Rightarrow> db" where
  "publish e s = s\<lparr>events := events s @ [e]\<rparr>"

lemma publish_sel [simp]:
  "actions (publish e s) = actions s" "queue (publish e s) = queue s"
  "attempts (publish e s) = attempts s" "runs (publish e s) = runs s"
  "steps (publish e s) = steps s" "goals (publish e s) = goals s"
  "wakes (publish e s) = wakes s" "researches (publish e s) = researches s"
  "triggers (publish e s) = triggers s" "calendar_events (publish e s) = calendar_events s"
  "events (publish e s) = events s @ [e]"
  by (simp_all add: publish_def)

end
