(* ===== verification/U2_Audit.thy ===== *)
theory U2_Audit
  imports U2_Schema
begin

text \<open>
  The audit trail of \<open>server/policy/policy-engine.js\<close>: \<open>recordAudit\<close>, \<open>updateAgentAction\<close>,
  \<open>getAgentAction\<close> and \<open>listPendingActions\<close> over the table \<open>agent_actions\<close>. The fresh id that
  \<open>newId\<close> makes and the clock reading are arguments.
\<close>

record audit_input =
  au_id :: "string option"
  au_requestedBy :: string
  au_requestText :: "string option"
  au_model :: "string option"
  au_tool :: string
  au_arguments :: jsval
  au_reasoningSummary :: "string option"
  au_policyDomain :: "string option"
  au_policyRule :: "string option"
  au_autonomyLevel :: autonomy
  au_requiresApproval :: bool
  au_status :: action_status
  au_correlationId :: "string option"
  au_contextProvenance :: "jsval list"
  au_accountBinding :: "account_binding option"
  au_packageContext :: "jsval option"

definition getAgentAction :: "string \<Rightarrow> db \<Rightarrow> action_row option" where
  "getAgentAction aid s = sql_get (\<lambda>r. a_id r = aid) (actions s)"

definition listPendingActions :: "db \<Rightarrow> action_row list" where
  "listPendingActions s = sort_key (\<lambda>r. - a_created_at r) (filter (\<lambda>r. a_status r = APending) (actions s))"

definition audit_row :: "audit_input \<Rightarrow> string \<Rightarrow> int option \<Rightarrow> int \<Rightarrow> action_row" where
  "audit_row i aid level now =
     \<lparr>a_id = aid, a_requested_by = au_requestedBy i, a_request_text = au_requestText i,
      a_model = au_model i, a_tool = au_tool i, a_arguments = au_arguments i,
      a_reasoning_summary = au_reasoningSummary i, a_policy_domain = au_policyDomain i,
      a_policy_rule = au_policyRule i, a_autonomy_level = level,
      a_requires_approval = au_requiresApproval i, a_status = au_status i,
      a_approved_by = None, a_approved_at = None, a_rejected_by = None, a_rejected_at = None,
      a_result = None, a_correlation_id = au_correlationId i,
      a_contextProvenance = au_contextProvenance i, a_accountBinding = au_accountBinding i,
      a_packageContext = au_packageContext i, a_created_at = now, a_updated_at = now\<rparr>"

text \<open>
  A function is no SQLite parameter, so an inherited autonomy level makes the INSERT throw;
  \<open>NaN\<close> is stored as NULL.
\<close>

definition audit_id :: "string \<Rightarrow> audit_input \<Rightarrow> string" where
  "audit_id newid i = (case au_id i of Some (c # cs) \<Rightarrow> c # cs | _ \<Rightarrow> newid)"

definition recordAudit :: "string \<Rightarrow> int \<Rightarrow> audit_input \<Rightarrow> (db, action_row) eff" where
  "recordAudit newid now i s =
     (let aid = audit_id newid i in
      case au_autonomyLevel i of
        Inherited \<Rightarrow> (Inl (TypeError ''Provided value cannot be bound to SQLite parameter''), s)
      | lvl \<Rightarrow>
          if getAgentAction aid s \<noteq> None then (Inl (SqlError ''UNIQUE constraint failed: agent_actions.id''), s)
          else let r = audit_row i aid (case lvl of Level n \<Rightarrow> Some n | _ \<Rightarrow> None) now in
            (Inr r, s\<lparr>actions := actions s @ [r]\<rparr>))"

record action_patch =
  p_status :: "action_status option"
  p_approvedBy :: "string option"
  p_approvedAt :: "int option"
  p_rejectedBy :: "string option"
  p_rejectedAt :: "int option"
  p_result :: "jsval option"

definition no_patch :: action_patch where
  "no_patch = \<lparr>p_status = None, p_approvedBy = None, p_approvedAt = None, p_rejectedBy = None,
     p_rejectedAt = None, p_result = None\<rparr>"

definition or_else :: "'a option \<Rightarrow> 'a option \<Rightarrow> 'a option" where
  "or_else a b = (case a of Some x \<Rightarrow> Some x | None \<Rightarrow> b)"

text \<open>A result that is falsy once parsed is written back as NULL when the patch has none.\<close>

definition patch_action :: "action_patch \<times> int \<Rightarrow> action_row \<Rightarrow> action_row" where
  "patch_action pn r =
     (case pn of (p, now) \<Rightarrow>
      r\<lparr>a_status := (case p_status p of Some st \<Rightarrow> st | None \<Rightarrow> a_status r),
        a_approved_by := or_else (p_approvedBy p) (a_approved_by r),
        a_approved_at := or_else (p_approvedAt p) (a_approved_at r),
        a_rejected_by := or_else (p_rejectedBy p) (a_rejected_by r),
        a_rejected_at := or_else (p_rejectedAt p) (a_rejected_at r),
        a_result := (case p_result p of
                       Some v \<Rightarrow> Some v
                     | None \<Rightarrow> if truthy (a_result r) then a_result r else None),
        a_updated_at := now\<rparr>)"

definition updateAgentAction :: "string \<Rightarrow> action_patch \<Rightarrow> int \<Rightarrow> db \<Rightarrow> action_row option \<times> db" where
  "updateAgentAction aid p now s =
     (case getAgentAction aid s of
        None \<Rightarrow> (None, s)
      | Some _ \<Rightarrow>
          let s' = s\<lparr>actions := sql_update (\<lambda>r. a_id r = aid) (patch_action (p, now)) (actions s)\<rparr>
          in (getAgentAction aid s', s'))"

text \<open>\<open>{ error: message }\<close>, the result the worker records for a stopped action.\<close>

definition error_result :: "string \<Rightarrow> jsval" where
  "error_result msg = JObj [(''error'', JStr msg)]"

abbreviation set_status :: "action_status \<Rightarrow> action_patch" where
  "set_status st \<equiv> no_patch\<lparr>p_status := Some st\<rparr>"

abbreviation set_failure :: "action_status \<Rightarrow> string \<Rightarrow> action_patch" where
  "set_failure st msg \<equiv> no_patch\<lparr>p_status := Some st, p_result := Some (error_result msg)\<rparr>"

section \<open>The audit table as a keyed table\<close>

interpretation act: keyed_update a_id patch_action
  by unfold_locales (auto simp: patch_action_def split: prod.splits)

lemma a_tool_patch [simp]:
  "a_tool (patch_action p r) = a_tool r" "a_arguments (patch_action p r) = a_arguments r"
  "a_id (patch_action p r) = a_id r" "a_created_at (patch_action p r) = a_created_at r"
  "a_accountBinding (patch_action p r) = a_accountBinding r"
  "a_packageContext (patch_action p r) = a_packageContext r"
  "a_policy_rule (patch_action p r) = a_policy_rule r"
  by (auto simp: patch_action_def split: prod.splits)

definition actions_ok :: "db \<Rightarrow> bool" where
  "actions_ok s \<longleftrightarrow> distinct (map a_id (actions s))"

lemma updateAgentAction_frame [simp]:
  "queue (snd (updateAgentAction aid p now s)) = queue s"
  "attempts (snd (updateAgentAction aid p now s)) = attempts s"
  "runs (snd (updateAgentAction aid p now s)) = runs s"
  "steps (snd (updateAgentAction aid p now s)) = steps s"
  "goals (snd (updateAgentAction aid p now s)) = goals s"
  "wakes (snd (updateAgentAction aid p now s)) = wakes s"
  "events (snd (updateAgentAction aid p now s)) = events s"
  "calendar_events (snd (updateAgentAction aid p now s)) = calendar_events s"
  by (simp_all add: updateAgentAction_def Let_def split: option.splits)

lemma actions_updateAgentAction:
  "actions (snd (updateAgentAction aid p now s)) =
     sql_update (\<lambda>r. a_id r = aid) (patch_action (p, now)) (actions s)"
proof (cases "getAgentAction aid s")
  case None
  then have "sql_changes (\<lambda>r. a_id r = aid) (actions s) = 0"
    by (simp add: getAgentAction_def sql_get_None_iff sql_changes_0_iff)
  with None show ?thesis by (simp add: updateAgentAction_def sql_update_none)
next
  case (Some r)
  then show ?thesis by (simp add: updateAgentAction_def Let_def)
qed

lemma getAgentAction_update:
  "getAgentAction bid (snd (updateAgentAction aid p now s)) =
     map_option (\<lambda>r. if bid = aid then patch_action (p, now) r else r) (getAgentAction bid s)"
proof -
  have "getAgentAction bid (snd (updateAgentAction aid p now s)) =
      map_option (\<lambda>r. if a_id r = aid then patch_action (p, now) r else r) (getAgentAction bid s)"
    unfolding getAgentAction_def actions_updateAgentAction by (rule act.get_after_update)
  also have "\<dots> = map_option (\<lambda>r. if bid = aid then patch_action (p, now) r else r) (getAgentAction bid s)"
    by (cases "getAgentAction bid s") (auto simp: getAgentAction_def dest: sql_get_SomeD)
  finally show ?thesis .
qed

lemma getAgentAction_id: "getAgentAction aid s = Some a \<Longrightarrow> a_id a = aid"
  by (auto simp: getAgentAction_def dest: sql_get_SomeD)

lemma updateAgentAction_ok: "actions_ok s \<Longrightarrow> actions_ok (snd (updateAgentAction aid p now s))"
  by (simp add: actions_ok_def actions_updateAgentAction act.distinct_keys_update)

lemma audit_row_sel [simp]:
  "a_id (audit_row i aid l now) = aid" "a_status (audit_row i aid l now) = au_status i"
  "a_arguments (audit_row i aid l now) = au_arguments i" "a_tool (audit_row i aid l now) = au_tool i"
  "a_approved_at (audit_row i aid l now) = None" "a_created_at (audit_row i aid l now) = now"
  "a_accountBinding (audit_row i aid l now) = au_accountBinding i"
  "a_packageContext (audit_row i aid l now) = au_packageContext i"
  by (simp_all add: audit_row_def)

lemma recordAudit_cases:
  "recordAudit newid now i s = (res, s') \<Longrightarrow>
     (\<exists>e. res = Inl e) \<and> s' = s \<or>
     (\<exists>l. res = Inr (audit_row i (audit_id newid i) l now) \<and>
          s' = s\<lparr>actions := actions s @ [audit_row i (audit_id newid i) l now]\<rparr> \<and>
          getAgentAction (audit_id newid i) s = None)"
  by (auto simp: recordAudit_def Let_def split: autonomy.splits if_splits)

lemma recordAudit_ok:
  "recordAudit newid now i s = (res, s') \<Longrightarrow> actions_ok s \<Longrightarrow> actions_ok s'"
  by (drule recordAudit_cases) (force simp: actions_ok_def getAgentAction_def sql_get_None_iff)


end
