(* ===== verification/U2_Queue.thy ===== *)
theory U2_Queue
  imports U2_Audit
begin

text \<open>
  The durable action queue of \<open>server/agent/action-queue-store.js\<close>: one definition per
  exported function, over the tables \<open>action_queue\<close> and \<open>action_attempts\<close>. Ids from \<open>newId\<close>
  and clock readings are arguments; \<open>toDate\<close> never fails on an instant. Foreign keys and
  UNIQUE constraints of the schema are branches.
\<close>

section \<open>Keys, errors and delays\<close>

definition actionIdempotencyKey :: "string \<Rightarrow> string option \<Rightarrow> string \<Rightarrow> string res" where
  "actionIdempotencyKey tool correlationId actionId =
     (if tool = [] \<or> actionId = [] then Inl (TypeError ''tool and actionId are required for an idempotency key'')
      else Inr (tool @ '':'' @ (case correlationId of Some (c # cs) \<Rightarrow> c # cs | _ \<Rightarrow> actionId) @ '':'' @ actionId))"

text \<open>\<open>boundedError\<close>: the message, or \<open>Unknown error\<close> for \<open>null\<close>, cut at 1000 characters.\<close>

definition boundedError :: "string option \<Rightarrow> string" where
  "boundedError e = take 1000 (case e of Some m \<Rightarrow> m | None \<Rightarrow> ''Unknown error'')"

definition retryDelayMs :: "int \<Rightarrow> int \<Rightarrow> int \<Rightarrow> int res" where
  "retryDelayMs attemptNumber baseDelayMs maxDelayMs =
     (if attemptNumber < 1 then Inl (TypeError ''attemptNumber must be a positive integer'')
      else if baseDelayMs \<le> 0 \<or> maxDelayMs \<le> 0 then Inl (TypeError ''retry delays must be positive'')
      else Inr (min maxDelayMs (baseDelayMs * 2 ^ nat (attemptNumber - 1))))"

section \<open>Reading the tables\<close>

definition getQueuedAction :: "string \<Rightarrow> db \<Rightarrow> queue_row option" where
  "getQueuedAction qid s = sql_get (\<lambda>q. q_id q = qid) (queue s)"

definition getQueuedActionByActionId :: "string \<Rightarrow> db \<Rightarrow> queue_row option" where
  "getQueuedActionByActionId aid s = sql_get (\<lambda>q. q_action_id q = aid) (queue s)"

definition listQueuedActions :: "queue_status option \<Rightarrow> db \<Rightarrow> queue_row list" where
  "listQueuedActions st s =
     sort_key q_created_at (case st of Some x \<Rightarrow> filter (\<lambda>q. q_status q = x) (queue s) | None \<Rightarrow> queue s)"

definition getActionAttempt :: "string \<Rightarrow> db \<Rightarrow> attempt_row option" where
  "getActionAttempt tid s = sql_get (\<lambda>t. t_id t = tid) (attempts s)"

definition listActionAttempts :: "string \<Rightarrow> db \<Rightarrow> attempt_row list" where
  "listActionAttempts qid s = sort_key t_attempt_number (filter (\<lambda>t. t_queue_id t = qid) (attempts s))"

section \<open>Enqueueing\<close>

record enqueue_input =
  en_actionId :: string
  en_correlationId :: "string option"
  en_tool :: string
  en_arguments :: jsval
  en_idempotencyKey :: "string option"
  en_approvalReference :: "string option"
  en_policyDecisionReference :: "string option"
  en_actor :: "actor option"

definition queue_row_of :: "string \<Rightarrow> int \<Rightarrow> enqueue_input \<Rightarrow> string \<Rightarrow> queue_row" where
  "queue_row_of newid now i key =
     \<lparr>q_id = newid, q_action_id = en_actionId i, q_correlation_id = en_correlationId i,
      q_tool = en_tool i, q_arguments = en_arguments i, q_idempotency_key = key,
      q_status = Queued, q_attempt_count = 0, q_next_attempt_at = now, q_lease_owner = None,
      q_lease_expires_at = None, q_last_error = None, q_error_class = None,
      q_approval_reference = en_approvalReference i,
      q_policy_decision_reference = en_policyDecisionReference i, q_actor = en_actor i,
      q_created_at = now, q_updated_at = now\<rparr>"

text \<open>\<open>INSERT ... ON CONFLICT(action_id) DO NOTHING\<close>; every other constraint raises.\<close>

definition enqueueAction :: "string \<Rightarrow> int \<Rightarrow> enqueue_input \<Rightarrow> (db, queue_row option) eff" where
  "enqueueAction newid now i s =
     (if en_actionId i = [] \<or> en_tool i = [] then (Inl (TypeError ''actionId and tool are required''), s)
      else
        (case (case en_idempotencyKey i of
                 Some (c # cs) \<Rightarrow> Inr (c # cs)
               | _ \<Rightarrow> actionIdempotencyKey (en_tool i) (en_correlationId i) (en_actionId i)) of
           Inl e \<Rightarrow> (Inl e, s)
         | Inr key \<Rightarrow>
             if getQueuedActionByActionId (en_actionId i) s \<noteq> None
             then (Inr (getQueuedActionByActionId (en_actionId i) s), s)
             else if getQueuedAction newid s \<noteq> None
             then (Inl (SqlError ''UNIQUE constraint failed: action_queue.id''), s)
             else if sql_get (\<lambda>q. q_idempotency_key q = key) (queue s) \<noteq> None
             then (Inl (SqlError ''UNIQUE constraint failed: action_queue.idempotency_key''), s)
             else if getAgentAction (en_actionId i) s = None
             then (Inl (SqlError ''FOREIGN KEY constraint failed''), s)
             else let s' = s\<lparr>queue := queue s @ [queue_row_of newid now i key]\<rparr>
                  in (Inr (getQueuedActionByActionId (en_actionId i) s'), s')))"

section \<open>Stopping, cancelling, requeueing\<close>

definition cancel_row :: "int \<Rightarrow> queue_row \<Rightarrow> queue_row" where
  "cancel_row now q = q\<lparr>q_status := Cancelled, q_last_error := Some ''Run cancelled before attempt'',
     q_error_class := Some Non_retryable, q_updated_at := now\<rparr>"

definition cancelUnstartedAction :: "string \<Rightarrow> int \<Rightarrow> db \<Rightarrow> queue_row option \<times> db" where
  "cancelUnstartedAction aid now s =
     (let P = (\<lambda>q. q_action_id q = aid \<and> q_status q \<in> {Queued, Retry_wait} \<and>
                sql_get (\<lambda>a. a_id a = aid \<and> a_status a \<noteq> AExecuted) (actions s) \<noteq> None)
      in case sql_get P (queue s) of
           None \<Rightarrow> (None, s)
         | Some q \<Rightarrow>
             (Some (cancel_row now q),
              s\<lparr>queue := sql_update P (cancel_row now) (queue s),
                actions := sql_update (\<lambda>a. a_id a = aid)
                  (\<lambda>a. a\<lparr>a_status := ACancelled, a_updated_at := now\<rparr>) (actions s)\<rparr>))"

definition stop_row :: "queue_status \<times> string \<times> error_class option \<times> int \<Rightarrow> queue_row \<Rightarrow> queue_row" where
  "stop_row p q = (case p of (st, err, cls, now) \<Rightarrow>
     q\<lparr>q_status := st, q_lease_owner := None, q_lease_expires_at := None, q_last_error := Some err,
       q_error_class := cls, q_updated_at := now\<rparr>)"

definition stopLeasedAction ::
  "string \<Rightarrow> string \<Rightarrow> queue_status \<Rightarrow> string option \<Rightarrow> error_class option \<Rightarrow> int \<Rightarrow> (db, queue_row option) eff" where
  "stopLeasedAction qid leaseOwner st err cls now s =
     (if st \<notin> {Failed, Cancelled, Dead_letter} then (Inl (TypeError ''Invalid stop status''), s)
      else
        let P = (\<lambda>q. q_id q = qid \<and> q_status q = Leased \<and> q_lease_owner q = Some leaseOwner) in
        if sql_changes P (queue s) \<noteq> 1
        then (Inl (Error (''Queued action '' @ qid @ '' is not leased to '' @ leaseOwner)), s)
        else let s' = s\<lparr>queue := sql_update P (stop_row (st, boundedError err, cls, now)) (queue s)\<rparr>
             in (Inr (getQueuedAction qid s'), s'))"

definition requeue_row :: "string option \<times> string option \<times> int \<Rightarrow> queue_row \<Rightarrow> queue_row" where
  "requeue_row p q = (case p of (appr, pol, now) \<Rightarrow>
     q\<lparr>q_status := Queued, q_next_attempt_at := now, q_lease_owner := None, q_lease_expires_at := None,
       q_last_error := None, q_error_class := None,
       q_approval_reference := or_else appr (q_approval_reference q),
       q_policy_decision_reference := or_else pol (q_policy_decision_reference q), q_updated_at := now\<rparr>)"

definition requeueAction ::
  "string \<Rightarrow> string option \<Rightarrow> string option \<Rightarrow> int \<Rightarrow> (db, queue_row option) eff" where
  "requeueAction qid appr pol now s =
     (let cls = (case getQueuedAction qid s of Some q \<Rightarrow> q_error_class q | None \<Rightarrow> None) in
      if cls = Some Recovery_review_required
      then (Inl (Error ''Restored action requires owner review and a fresh proposal; archived authorization cannot be retried''), s)
      else if cls = Some Outcome_uncertain
      then (Inl (Error ''Action delivery outcome is uncertain; reconcile the original outcome before any fresh proposal; this action cannot be requeued''), s)
      else
        let P = (\<lambda>q. q_id q = qid \<and> q_status q \<in> {Failed, Cancelled}) in
        if sql_changes P (queue s) \<noteq> 1
        then (Inl (Error (''Queued action '' @ qid @ '' cannot be requeued from its current state'')), s)
        else let s' = s\<lparr>queue := sql_update P (requeue_row (appr, pol, now)) (queue s)\<rparr>
             in (Inr (getQueuedAction qid s'), s'))"

section \<open>Leases\<close>

text \<open>A row that may be claimed: waiting and due, or held under a lease that has expired.\<close>

definition due :: "int \<Rightarrow> queue_row \<Rightarrow> bool" where
  "due now q \<longleftrightarrow>
     (q_status q \<in> {Queued, Retry_wait} \<and> q_next_attempt_at q \<le> now) \<or>
     (q_status q \<in> {Leased, Executing} \<and> (case q_lease_expires_at q of Some e \<Rightarrow> e \<le> now | None \<Rightarrow> False))"

definition lease_row :: "string \<times> int \<times> int \<Rightarrow> queue_row \<Rightarrow> queue_row" where
  "lease_row p q = (case p of (owner, expires, now) \<Rightarrow>
     q\<lparr>q_status := Leased, q_lease_owner := Some owner, q_lease_expires_at := Some expires, q_updated_at := now\<rparr>)"

definition expire_attempt :: "int \<Rightarrow> attempt_row \<Rightarrow> attempt_row" where
  "expire_attempt now t = t\<lparr>t_status := AtFailed, t_finished_at := Some now,
     t_error := Some ''lease expired'', t_error_class := Some Retryable\<rparr>"

definition close_attempts :: "string \<Rightarrow> int \<Rightarrow> attempt_row list \<Rightarrow> attempt_row list" where
  "close_attempts qid now = sql_update (\<lambda>t. t_queue_id t = qid \<and> t_status t = AtExecuting) (expire_attempt now)"

definition take_lease :: "(queue_row \<Rightarrow> bool) \<Rightarrow> string \<Rightarrow> int \<Rightarrow> int \<Rightarrow> db \<Rightarrow> queue_row option \<times> db" where
  "take_lease P owner leaseMs now s =
     (case sql_get P (queue s) of
        None \<Rightarrow> (None, s)
      | Some q \<Rightarrow>
          (Some (lease_row (owner, now + leaseMs, now) q),
           s\<lparr>queue := sql_update P (lease_row (owner, now + leaseMs, now)) (queue s),
             attempts := close_attempts (q_id q) now (attempts s)\<rparr>))"

definition queue_before :: "queue_row \<Rightarrow> queue_row \<Rightarrow> bool" where
  "queue_before a b \<longleftrightarrow>
     q_next_attempt_at a < q_next_attempt_at b \<or>
     q_next_attempt_at a = q_next_attempt_at b \<and> q_created_at a < q_created_at b"

definition leaseNextAction :: "string \<Rightarrow> int \<Rightarrow> int \<Rightarrow> (db, queue_row option) eff" where
  "leaseNextAction owner leaseMs now s =
     (if owner = [] then (Inl (TypeError ''leaseOwner is required''), s)
      else if leaseMs \<le> 0 then (Inl (TypeError ''leaseMs must be positive''), s)
      else
        (case sql_first_by queue_before (filter (due now) (queue s)) of
           None \<Rightarrow> (Inr None, s)
         | Some c \<Rightarrow> (let (r, s') = take_lease (\<lambda>q. q_id q = q_id c \<and> due now q) owner leaseMs now s
                     in (Inr r, s'))))"

definition leaseActionByActionId :: "string \<Rightarrow> string \<Rightarrow> int \<Rightarrow> int \<Rightarrow> (db, queue_row option) eff" where
  "leaseActionByActionId aid owner leaseMs now s =
     (if aid = [] \<or> owner = [] then (Inl (TypeError ''actionId and leaseOwner are required''), s)
      else let (r, s') = take_lease (\<lambda>q. q_action_id q = aid \<and> due now q) owner leaseMs now s
           in (Inr r, s'))"

definition renew_row :: "int \<times> int \<Rightarrow> queue_row \<Rightarrow> queue_row" where
  "renew_row p q = (case p of (expires, now) \<Rightarrow> q\<lparr>q_lease_expires_at := Some expires, q_updated_at := now\<rparr>)"

definition renewActionLease :: "string \<Rightarrow> string \<Rightarrow> int \<Rightarrow> int \<Rightarrow> (db, bool) eff" where
  "renewActionLease qid owner leaseMs now s =
     (if qid = [] \<or> owner = [] then (Inl (TypeError ''queueId and leaseOwner are required''), s)
      else if leaseMs \<le> 0 then (Inl (TypeError ''leaseMs must be positive''), s)
      else
        let P = (\<lambda>q. q_id q = qid \<and> q_status q \<in> {Leased, Executing} \<and> q_lease_owner q = Some owner) in
        (Inr (sql_changes P (queue s) = 1), s\<lparr>queue := sql_update P (renew_row (now + leaseMs, now)) (queue s)\<rparr>))"

section \<open>Attempts\<close>

definition begin_row :: "nat \<times> int \<Rightarrow> queue_row \<Rightarrow> queue_row" where
  "begin_row p q = (case p of (n, now) \<Rightarrow> q\<lparr>q_status := Executing, q_attempt_count := n, q_updated_at := now\<rparr>)"

definition new_attempt :: "string \<Rightarrow> string \<Rightarrow> nat \<Rightarrow> string \<Rightarrow> int \<Rightarrow> attempt_row" where
  "new_attempt tid qid n owner now =
     \<lparr>t_id = tid, t_queue_id = qid, t_attempt_number = n, t_lease_owner = owner, t_status = AtExecuting,
      t_started_at = now, t_finished_at = None, t_error = None, t_error_class = None\<rparr>"

definition beginActionAttempt :: "string \<Rightarrow> string \<Rightarrow> string \<Rightarrow> int \<Rightarrow> (db, attempt_row option) eff" where
  "beginActionAttempt newid qid owner now s =
     (if qid = [] \<or> owner = [] then (Inl (TypeError ''queueId and leaseOwner are required''), s)
      else
        (case getQueuedAction qid s of
           None \<Rightarrow> (Inl (Error (''No such queued action: '' @ qid)), s)
         | Some q \<Rightarrow>
             if q_status q \<noteq> Leased \<or> q_lease_owner q \<noteq> Some owner \<or>
                (case q_lease_expires_at q of Some e \<Rightarrow> e \<le> now | None \<Rightarrow> False)
             then (Inl (Error (''Queued action '' @ qid @ '' is not leased to '' @ owner)), s)
             else let n = Suc (q_attempt_count q) in
               if getActionAttempt newid s \<noteq> None
               then (Inl (SqlError ''UNIQUE constraint failed: action_attempts.id''), s)
               else if sql_get (\<lambda>t. t_queue_id t = qid \<and> t_attempt_number t = n) (attempts s) \<noteq> None
               then (Inl (SqlError ''UNIQUE constraint failed: action_attempts.queue_id, action_attempts.attempt_number''), s)
               else let s' = s\<lparr>attempts := attempts s @ [new_attempt newid qid n owner now],
                               queue := sql_update (\<lambda>q. q_id q = qid) (begin_row (n, now)) (queue s)\<rparr>
                    in (Inr (getActionAttempt newid s'), s')))"

record settlement =
  se_queueStatus :: queue_status
  se_attemptStatus :: attempt_status
  se_error :: "string option"
  se_errorClass :: "error_class option"
  se_nextAttemptAt :: "int option"

definition settle_row :: "settlement \<times> int \<Rightarrow> queue_row \<Rightarrow> queue_row" where
  "settle_row p q = (case p of (se, now) \<Rightarrow>
     q\<lparr>q_status := se_queueStatus se,
       q_next_attempt_at := (case se_nextAttemptAt se of Some n \<Rightarrow> n | None \<Rightarrow> q_next_attempt_at q),
       q_lease_owner := None, q_lease_expires_at := None, q_last_error := se_error se,
       q_error_class := se_errorClass se, q_updated_at := now\<rparr>)"

definition settle_attempt_row :: "settlement \<times> int \<Rightarrow> attempt_row \<Rightarrow> attempt_row" where
  "settle_attempt_row p t = (case p of (se, now) \<Rightarrow>
     t\<lparr>t_status := se_attemptStatus se, t_finished_at := Some now, t_error := se_error se,
       t_error_class := se_errorClass se\<rparr>)"

definition settleAttempt :: "string \<Rightarrow> string \<Rightarrow> settlement \<Rightarrow> int \<Rightarrow> (db, queue_row option) eff" where
  "settleAttempt tid owner se now s =
     (if owner = [] then (Inl (TypeError ''leaseOwner is required''), s)
      else
        (case getActionAttempt tid s of
           None \<Rightarrow> (Inl (Error (''No such action attempt: '' @ tid)), s)
         | Some t \<Rightarrow>
             if t_status t \<noteq> AtExecuting \<or> t_lease_owner t \<noteq> owner
             then (Inl (Error (''Action attempt '' @ tid @ '' is not executing for '' @ owner)), s)
             else
               let P = (\<lambda>q. q_id q = t_queue_id t \<and> q_status q = Executing \<and> q_lease_owner q = Some owner) in
               if sql_changes P (queue s) \<noteq> 1
               then (Inl (Error (''Lease for action attempt '' @ tid @ '' is no longer owned by '' @ owner)), s)
               else let s' = s\<lparr>queue := sql_update P (settle_row (se, now)) (queue s),
                               attempts := sql_update (\<lambda>t. t_id t = tid \<and> t_status t = AtExecuting)
                                             (settle_attempt_row (se, now)) (attempts s)\<rparr>
                    in (Inr (getQueuedAction (t_queue_id t) s'), s')))"

definition completeActionAttempt :: "string \<Rightarrow> string \<Rightarrow> int \<Rightarrow> (db, queue_row option) eff" where
  "completeActionAttempt tid owner now =
     settleAttempt tid owner
       \<lparr>se_queueStatus = Completed, se_attemptStatus = AtCompleted, se_error = None,
        se_errorClass = None, se_nextAttemptAt = None\<rparr> now"

text \<open>\<open>None\<close> as the error class is a text that is none of \<open>ACTION_ERROR_CLASSES\<close>.\<close>

record fail_options =
  fo_maxAttempts :: int
  fo_baseDelayMs :: int
  fo_maxDelayMs :: int

definition default_fail_options :: fail_options where
  "default_fail_options = \<lparr>fo_maxAttempts = 5, fo_baseDelayMs = 1000, fo_maxDelayMs = 60000\<rparr>"

definition failActionAttempt ::
  "string \<Rightarrow> string \<Rightarrow> string option \<Rightarrow> error_class option \<Rightarrow> fail_options \<Rightarrow> int \<Rightarrow> (db, queue_row option) eff" where
  "failActionAttempt tid owner err cls fo now s =
     (case cls of
        None \<Rightarrow> (Inl (TypeError ''Unknown action error class''), s)
      | Some c \<Rightarrow>
          if fo_maxAttempts fo < 1 then (Inl (TypeError ''maxAttempts must be a positive integer''), s)
          else
            (case getActionAttempt tid s of
               None \<Rightarrow> (Inl (Error (''No such action attempt: '' @ tid)), s)
             | Some t \<Rightarrow>
                 let n = int (t_attempt_number t);
                     retryable = (c = Retryable \<and> n < fo_maxAttempts fo);
                     exhausted = (c = Retryable \<and> \<not> retryable);
                     queueStatus = (if retryable then Retry_wait else if exhausted then Dead_letter else Failed);
                     settle = (\<lambda>nextAttemptAt.
                       settleAttempt tid owner
                         \<lparr>se_queueStatus = queueStatus, se_attemptStatus = AtFailed,
                          se_error = Some (boundedError err), se_errorClass = Some c,
                          se_nextAttemptAt = Some nextAttemptAt\<rparr> now s)
                 in if retryable then
                      (case retryDelayMs n (fo_baseDelayMs fo) (fo_maxDelayMs fo) of
                         Inl e \<Rightarrow> (Inl e, s)
                       | Inr d \<Rightarrow> settle (now + d))
                    else settle now))"

end
