(* ===== verification/U2_Runs.thy ===== *)
theory U2_Runs
  imports U2_Queue "HOL-Library.List_Lexorder" "HOL-Library.Char_ord"
begin

text \<open>
  Agent runs: \<open>server/agent/run-store.js\<close>, over the tables \<open>agent_runs\<close>, \<open>agent_run_steps\<close>,
  \<open>goals\<close> and \<open>goal_wakes\<close>. A clock reading that decides a race is an argument of its own; the
  readings one call makes only for its answer are one instant. Texts are compared as SQLite
  compares them, character by character.
\<close>

section \<open>Usage of a goal\<close>

definition finished_run :: "run_status \<Rightarrow> bool" where
  "finished_run st \<longleftrightarrow> st \<in> {R_completed, R_failed, R_cancelled, R_budget_exhausted}"

record goal_usage =
  gu_runs :: nat
  gu_modelCalls :: nat
  gu_tokens :: nat
  gu_unfinished :: nat

definition goal_runs :: "string \<Rightarrow> db \<Rightarrow> run_row list" where
  "goal_runs goalId s = filter (\<lambda>r. r_goal_id r = Some goalId) (runs s)"

definition goalUsage :: "string \<Rightarrow> db \<Rightarrow> goal_usage" where
  "goalUsage goalId s =
     (let rows = goal_runs goalId s in
      \<lparr>gu_runs = length rows, gu_modelCalls = sum_list (map r_model_call_count rows),
       gu_tokens = sum_list (map (\<lambda>r. r_input_tokens r + r_output_tokens r) rows),
       gu_unfinished = length (filter (\<lambda>r. \<not> finished_run (r_status r)) rows)\<rparr>)"

definition get_run_row :: "string \<Rightarrow> db \<Rightarrow> run_row option" where
  "get_run_row runId s = sql_get (\<lambda>r. r_id r = runId) (runs s)"

definition get_goal_row :: "string \<Rightarrow> db \<Rightarrow> goal_row option" where
  "get_goal_row goalId s = sql_get (\<lambda>g. g_id g = goalId) (goals s)"

section \<open>Starting a run\<close>

record run_input =
  ri_correlationId :: string
  ri_actorId :: string
  ri_objective :: string
  ri_voice :: "rat option"
  ri_conversationId :: "string option"
  ri_goalId :: "string option"
  ri_goalWakeId :: "string option"

definition DEFAULT_RUN_STEP_LIMIT :: nat where
  "DEFAULT_RUN_STEP_LIMIT = 16"

definition DEFAULT_RUN_ELAPSED_MS :: int where
  "DEFAULT_RUN_ELAPSED_MS = 86400000"

definition activate_goal :: "int \<Rightarrow> goal_row \<Rightarrow> goal_row" where
  "activate_goal now g = g\<lparr>g_status := G_active, g_updated_at := now\<rparr>"

definition start_goal :: "string \<Rightarrow> string \<Rightarrow> int \<Rightarrow> (db, int) eff" where
  "start_goal goalId actorId now s =
     (case get_goal_row goalId s of
        None \<Rightarrow> (Inl (HttpError 404 ''Goal not found''), s)
      | Some g \<Rightarrow>
          let spent = goalUsage goalId s; b = g_budgets g in
          if g_owner_id g \<noteq> actorId then (Inl (HttpError 404 ''Goal not found''), s)
          else if g_status g \<notin> {G_draft, G_active}
          then (Inl (HttpError 409 ''Goal cannot start a run in its current state''), s)
          else if g_domains g = []
          then (Inl (HttpError 409 ''Select at least one intended domain before running this goal''), s)
          else if gu_unfinished spent \<noteq> 0
          then (Inl (HttpError 409 ''A goal run is still unfinished; inspect or resolve it before starting another''), s)
          else if int (gu_runs spent) \<ge> maxRuns b \<or> int (gu_modelCalls spent) \<ge> maxModelCalls b \<or>
                  int (gu_tokens spent) \<ge> maxTokens b
          then (Inl (HttpError 409 ''Goal budget exhausted; revise or review the goal before another run''), s)
          else (Inr (g_revision g),
                s\<lparr>goals := sql_update (\<lambda>g. g_id g = goalId) (activate_goal now) (goals s)\<rparr>))"

definition start_wake :: "string \<times> int \<Rightarrow> wake_row \<Rightarrow> wake_row" where
  "start_wake p w = (case p of (runId, now) \<Rightarrow> w\<lparr>w_status := W_started, w_run_id := Some runId, w_updated_at := now\<rparr>)"

definition consume_wake ::
  "string \<Rightarrow> string option \<Rightarrow> int option \<Rightarrow> string \<Rightarrow> int \<Rightarrow> (db, unit) eff" where
  "consume_wake wakeId goalId revision runId now s =
     (let P = (\<lambda>w. w_id w = wakeId \<and> Some (w_goal_id w) = goalId \<and> Some (w_goal_revision w) = revision \<and>
                w_status w = W_pending \<and> w_fire_at w \<le> now) in
      if sql_changes P (wakes s) \<noteq> 1
      then (Inl (HttpError 409 ''Goal wake is not due or has already been consumed''), s)
      else if sql_get (\<lambda>w. \<not> P w \<and> w_run_id w = Some runId) (wakes s) \<noteq> None
      then (Inl (SqlError ''UNIQUE constraint failed: goal_wakes.run_id''), s)
      else (Inr (), s\<lparr>wakes := sql_update P (start_wake (runId, now)) (wakes s)\<rparr>))"

definition new_run :: "string \<Rightarrow> int \<Rightarrow> int \<Rightarrow> run_input \<Rightarrow> int option \<Rightarrow> run_row" where
  "new_run newid now clock i revision =
     \<lparr>r_id = newid, r_correlation_id = ri_correlationId i, r_actor_id = ri_actorId i,
      r_objective = ri_objective i, r_conversation_id = ri_conversationId i, r_goal_id = ri_goalId i,
      r_goal_revision = revision, r_status = R_planning, r_objective_status = ''unverified'',
      r_model_call_count = 0, r_token_limit = 20000, r_input_tokens = 0, r_output_tokens = 0,
      r_metered_model_calls = 0, r_voice_confidence = ri_voice i, r_continuation_after_step = None,
      r_continuation_claimed = False, r_cancel_requested_at = None, r_cancelled_by = None,
      r_step_limit = DEFAULT_RUN_STEP_LIMIT, r_step_count = 0, r_elapsed_limit_ms = DEFAULT_RUN_ELAPSED_MS,
      r_deadline_at = Some (clock + DEFAULT_RUN_ELAPSED_MS), r_budget_stop_reason = None,
      r_output_private = True, r_reasoning_summary = None, r_response = None,
      r_created_at = now, r_updated_at = now\<rparr>"

definition insert_run :: "run_row \<Rightarrow> (db, unit) eff" where
  "insert_run r s =
     (if get_run_row (r_id r) s \<noteq> None then (Inl (SqlError ''UNIQUE constraint failed: agent_runs.id''), s)
      else if sql_get (\<lambda>x. r_correlation_id x = r_correlation_id r) (runs s) \<noteq> None
      then (Inl (SqlError ''UNIQUE constraint failed: agent_runs.correlation_id''), s)
      else (Inr (), s\<lparr>runs := runs s @ [r]\<rparr>))"

text \<open>A text that is empty is falsy, so it takes the branch of a missing one.\<close>

definition createRun :: "string \<Rightarrow> int \<Rightarrow> int \<Rightarrow> run_input \<Rightarrow> (db, string) eff" where
  "createRun newid now clock i =
     withTransaction
       (bindE (case ri_goalId i of
                 Some (c # cs) \<Rightarrow> bindE (start_goal (c # cs) (ri_actorId i) now) (\<lambda>rev. ret (Some rev))
               | _ \<Rightarrow> ret None) (\<lambda>revision.
        bindE (case ri_goalWakeId i of
                 Some (c # cs) \<Rightarrow> consume_wake (c # cs) (ri_goalId i) revision newid now
               | _ \<Rightarrow> ret ()) (\<lambda>_.
        bindE (insert_run (new_run newid now clock i revision)) (\<lambda>_.
        ret newid))))"

section \<open>Recording a plan\<close>

record plan_action =
  pa_tool :: string
  pa_arguments :: jsval
  pa_dependsOn :: "nat list"

record plan =
  pl_actions :: "plan_action list"
  pl_reasoning :: "string option"
  pl_continue :: bool

definition next_step_index :: "string \<Rightarrow> db \<Rightarrow> nat" where
  "next_step_index runId s =
     (case map s_index (filter (\<lambda>t. s_run_id t = runId) (steps s)) of
        [] \<Rightarrow> 0
      | is \<Rightarrow> Suc (fold max is 0))"

definition step_of_action ::
  "string \<Rightarrow> nat \<Rightarrow> jsval list \<Rightarrow> account_context option list \<Rightarrow> string option \<Rightarrow> int \<Rightarrow> nat \<times> plan_action \<Rightarrow> step_row" where
  "step_of_action runId base provenance accounts modelId now p =
     (case p of (index, a) \<Rightarrow>
      \<lparr>s_run_id = runId, s_index = base + index, s_tool = pa_tool a, s_arguments = pa_arguments a,
       s_depends_on = map (\<lambda>d. base + d) (pa_dependsOn a), s_context_provenance = provenance,
       s_account_context = (case js_nth accounts index of Some v \<Rightarrow> v | None \<Rightarrow> None),
       s_model_id = modelId, s_status = S_planned, s_action_id = None, s_created_at = now, s_updated_at = now\<rparr>)"

definition plan_run :: "plan \<times> nat \<times> int \<Rightarrow> run_row \<Rightarrow> run_row" where
  "plan_run p r = (case p of (pl, base, now) \<Rightarrow>
     r\<lparr>r_status := R_running, r_reasoning_summary := pl_reasoning pl,
       r_continuation_after_step := (if pl_continue pl \<and> pl_actions pl \<noteq> []
                                     then Some (base + length (pl_actions pl) - 1) else None),
       r_continuation_claimed := False, r_updated_at := now\<rparr>)"

definition recordRunPlan ::
  "string \<Rightarrow> plan \<Rightarrow> jsval list \<Rightarrow> account_context option list \<Rightarrow> string option \<Rightarrow> int \<Rightarrow> (db, nat) eff" where
  "recordRunPlan runId pl provenance accounts modelId now s =
     (let base = next_step_index runId s in
      if pl_actions pl \<noteq> [] \<and> get_run_row runId s = None
      then (Inl (SqlError ''FOREIGN KEY constraint failed''), s)
      else (Inr base,
            s\<lparr>steps := steps s @ map (step_of_action runId base provenance accounts modelId now)
                                   (zip [0..<length (pl_actions pl)] (pl_actions pl)),
              runs := sql_update (\<lambda>r. r_id r = runId) (plan_run (pl, base, now)) (runs s)\<rparr>))"

definition recordOutputClassification :: "string \<Rightarrow> string option \<Rightarrow> db \<Rightarrow> db" where
  "recordOutputClassification runId classification s =
     (if classification \<noteq> Some ''private''
      then s\<lparr>runs := sql_update (\<lambda>r. r_id r = runId) (\<lambda>r. r\<lparr>r_output_private := False\<rparr>) (runs s)\<rparr>
      else s)"

definition getOutputClassification :: "string \<Rightarrow> db \<Rightarrow> string" where
  "getOutputClassification runId s =
     (case get_run_row runId s of
        Some r \<Rightarrow> if r_output_private r then ''private'' else ''sensitive''
      | None \<Rightarrow> ''sensitive'')"

section \<open>Budgets\<close>

definition budgetError :: "string \<Rightarrow> js_error" where
  "budgetError reason = CodedError ''RUN_BUDGET_EXHAUSTED'' reason"

definition deadline_passed :: "int \<Rightarrow> run_row \<Rightarrow> bool" where
  "deadline_passed now r = (case r_deadline_at r of Some d \<Rightarrow> d \<le> now | None \<Rightarrow> False)"

text \<open>\<open>deadline_at > ?\<close> of SQL is not true of NULL.\<close>

definition deadline_ahead :: "int \<Rightarrow> run_row \<Rightarrow> bool" where
  "deadline_ahead now r = (case r_deadline_at r of Some d \<Rightarrow> now < d | None \<Rightarrow> False)"

definition goal_current :: "run_row \<Rightarrow> goal_row \<Rightarrow> bool" where
  "goal_current r g \<longleftrightarrow> g_status g = G_active \<and> Some (g_revision g) = r_goal_revision r"

definition getBudgetStopReason :: "string \<Rightarrow> int \<Rightarrow> db \<Rightarrow> string option" where
  "getBudgetStopReason runId now s =
     (case get_run_row runId s of
        None \<Rightarrow> Some ''run_unavailable''
      | Some r \<Rightarrow>
          if deadline_passed now r then Some ''elapsed_limit''
          else if r_step_count r \<ge> r_step_limit r then Some ''step_limit''
          else if r_input_tokens r + r_output_tokens r \<ge> r_token_limit r then Some ''token_limit''
          else (case r_goal_id r of
                  Some (c # cs) \<Rightarrow>
                    (case get_goal_row (c # cs) s of
                       None \<Rightarrow> Some ''goal_unavailable''
                     | Some g \<Rightarrow>
                         if \<not> goal_current r g then Some ''goal_unavailable''
                         else if int (gu_tokens (goalUsage (c # cs) s)) \<ge> maxTokens (g_budgets g)
                         then Some ''goal_token_limit'' else None)
                | _ \<Rightarrow> None))"

definition getGoalModelCallStopReason :: "string \<Rightarrow> db \<Rightarrow> string option" where
  "getGoalModelCallStopReason runId s =
     (case get_run_row runId s of
        None \<Rightarrow> None
      | Some r \<Rightarrow>
          (case r_goal_id r of
             Some (c # cs) \<Rightarrow>
               (case get_goal_row (c # cs) s of
                  None \<Rightarrow> Some ''goal_unavailable''
                | Some g \<Rightarrow>
                    if \<not> goal_current r g then Some ''goal_unavailable''
                    else if int (gu_modelCalls (goalUsage (c # cs) s)) \<ge> maxModelCalls (g_budgets g)
                    then Some ''goal_model_call_limit'' else None)
           | _ \<Rightarrow> None))"

definition count_model_call :: "int \<Rightarrow> run_row \<Rightarrow> run_row" where
  "count_model_call now r = r\<lparr>r_model_call_count := Suc (r_model_call_count r), r_updated_at := now\<rparr>"

definition within_budget :: "int \<Rightarrow> run_row \<Rightarrow> bool" where
  "within_budget now r \<longleftrightarrow> r_cancel_requested_at r = None \<and> r_step_count r < r_step_limit r \<and>
     r_input_tokens r + r_output_tokens r < r_token_limit r \<and> deadline_ahead now r"

text \<open>\<open>t1\<close> is the clock reading of \<open>getBudgetStopReason\<close>, \<open>now\<close> the later one.\<close>

definition beginModelCall :: "string \<Rightarrow> nat \<Rightarrow> int \<Rightarrow> int \<Rightarrow> (db, unit) eff" where
  "beginModelCall runId limit t1 now s =
     (case getBudgetStopReason runId t1 s of
        Some reason \<Rightarrow> (Inl (budgetError reason), s)
      | None \<Rightarrow>
          (case getGoalModelCallStopReason runId s of
             Some reason \<Rightarrow> (Inl (budgetError reason), s)
           | None \<Rightarrow>
               let P = (\<lambda>r. r_id r = runId \<and> r_model_call_count r < limit \<and>
                          r_status r \<in> {R_planning, R_running} \<and> within_budget now r) in
               if sql_changes P (runs s) \<noteq> 1
               then (Inl (CodedError ''MODEL_CALL_LIMIT'' ''Run model-call limit reached''), s)
               else (Inr (), s\<lparr>runs := sql_update P (count_model_call now) (runs s)\<rparr>)))"

definition getModelCallCount :: "string \<Rightarrow> db \<Rightarrow> nat" where
  "getModelCallCount runId s = (case get_run_row runId s of Some r \<Rightarrow> r_model_call_count r | None \<Rightarrow> 0)"

definition meter_run :: "nat \<times> nat \<times> int \<Rightarrow> run_row \<Rightarrow> run_row" where
  "meter_run p r = (case p of (i, out, now) \<Rightarrow>
     r\<lparr>r_input_tokens := r_input_tokens r + i, r_output_tokens := r_output_tokens r + out,
       r_metered_model_calls := Suc (r_metered_model_calls r), r_updated_at := now\<rparr>)"

text \<open>
  \<open>None\<close> is a count that is no safe integer. An exhausted budget is reported after the
  transaction has committed; every other failure becomes one error.
\<close>

definition recordModelUsage :: "string \<Rightarrow> int option \<Rightarrow> int option \<Rightarrow> int \<Rightarrow> int \<Rightarrow> (db, unit) eff" where
  "recordModelUsage runId inputTokens outputTokens now t2 s =
     (case (inputTokens, outputTokens) of
        (Some i, Some out) \<Rightarrow>
          if i < 0 \<or> out < 0 \<or> i > 10000000 \<or> out > 10000000
          then (Inl (CodedError ''MODEL_USAGE_INVALID'' ''Invalid model usage''), s)
          else
            let P = (\<lambda>r. r_id r = runId \<and> r_status r \<in> {R_planning, R_running} \<and>
                       r_metered_model_calls r < r_model_call_count r);
                s' = s\<lparr>runs := sql_update P (meter_run (nat i, nat out, now)) (runs s)\<rparr> in
            if sql_changes P (runs s) \<noteq> 1
            then (Inl (CodedError ''MODEL_USAGE_RECORD_FAILED'' ''Model usage could not be recorded''), s)
            else (case getBudgetStopReason runId t2 s' of
                    Some reason \<Rightarrow> (Inl (budgetError reason), s')
                  | None \<Rightarrow> (Inr (), s'))
      | _ \<Rightarrow> (Inl (CodedError ''MODEL_USAGE_INVALID'' ''Invalid model usage''), s))"

definition count_step :: "int \<Rightarrow> run_row \<Rightarrow> run_row" where
  "count_step now r = r\<lparr>r_step_count := Suc (r_step_count r), r_updated_at := now\<rparr>"

definition claim_step :: "string \<times> int \<Rightarrow> step_row \<Rightarrow> step_row" where
  "claim_step p t = (case p of (actionId, now) \<Rightarrow>
     t\<lparr>s_status := S_running, s_action_id := Some actionId, s_updated_at := now\<rparr>)"

text \<open>\<open>t1\<close> is the reading of the first \<open>getBudgetStopReason\<close>, \<open>t3\<close> that of the second.\<close>

definition beginRunStep :: "string \<Rightarrow> string \<Rightarrow> nat \<Rightarrow> int \<Rightarrow> int \<Rightarrow> int \<Rightarrow> (db, string) eff" where
  "beginRunStep actionId runId index t1 now t3 s =
     (case getBudgetStopReason runId t1 s of
        Some reason \<Rightarrow> (Inl (budgetError reason), s)
      | None \<Rightarrow>
          let P = (\<lambda>r. r_id r = runId \<and> within_budget now r);
              Q = (\<lambda>t. s_run_id t = runId \<and> s_index t = index \<and> s_status t \<in> {S_planned, S_waiting_dependency}) in
          if sql_changes P (runs s) \<noteq> 1
          then (Inl (budgetError (case getBudgetStopReason runId t3 s of Some r \<Rightarrow> r | None \<Rightarrow> ''run_unavailable'')), s)
          else if sql_changes Q (steps s) \<noteq> 1 then (Inl (Error ''Run step is no longer planned''), s)
          else if sql_get (\<lambda>t. \<not> Q t \<and> s_action_id t = Some actionId) (steps s) \<noteq> None
          then (Inl (SqlError ''UNIQUE constraint failed: agent_run_steps.action_id''), s)
          else (Inr actionId,
                s\<lparr>runs := sql_update P (count_step now) (runs s),
                  steps := sql_update Q (claim_step (actionId, now)) (steps s)\<rparr>))"

definition isRunDeadlineExpired :: "string \<Rightarrow> int \<Rightarrow> db \<Rightarrow> bool" where
  "isRunDeadlineExpired runId now s =
     (case get_run_row runId s of Some r \<Rightarrow> deadline_passed now r | None \<Rightarrow> False)"

section \<open>Reading a run\<close>

fun step_of_action_status :: "action_status \<Rightarrow> step_status" where
  "step_of_action_status APending = S_pending"
| "step_of_action_status AApproved = S_approved"
| "step_of_action_status ABlocked = S_blocked"
| "step_of_action_status AExecuted = S_executed"
| "step_of_action_status AFailed = S_failed"
| "step_of_action_status ACancelled = S_cancelled"
| "step_of_action_status ARejected = S_rejected"

text \<open>The columns the join of \<open>getRun\<close> adds to a step.\<close>

record step_join =
  j_action :: "action_row option"
  j_queue :: "queue_row option"
  j_expired :: bool

definition join_step :: "db \<Rightarrow> step_row \<Rightarrow> step_join" where
  "join_step s t =
     (let a = Option.bind (s_action_id t) (\<lambda>aid. getAgentAction aid s);
          q = Option.bind (s_action_id t) (\<lambda>aid. getQueuedActionByActionId aid s) in
      \<lparr>j_action = a, j_queue = q,
       j_expired = (case q of None \<Rightarrow> False
                    | Some r \<Rightarrow> \<exists>x\<in>set (attempts s). t_queue_id x = q_id r \<and> t_error x = Some ''lease expired'')\<rparr>)"

definition currentStepStatus :: "step_row \<Rightarrow> step_join \<Rightarrow> step_status" where
  "currentStepStatus t j =
     (let qs = map_option q_status (j_queue j); qc = Option.bind (j_queue j) q_error_class in
      if s_action_id t \<in> {None, Some []} then (if s_status t = S_running then S_interrupted else s_status t)
      else (case j_action j of
              None \<Rightarrow> S_interrupted
            | Some a \<Rightarrow>
                let st = a_status a in
                if st = ARejected then S_rejected
                else if st = ABlocked then S_blocked
                else if st = AExecuted then S_executed
                else if qs = Some Completed then S_executed
                else if qc \<in> {Some Recovery_review_required, Some Outcome_uncertain} \<or>
                        a_rejected_by a = Some ''system:recovery'' then S_outcome_uncertain
                else if st = ACancelled \<and> j_expired j then S_outcome_uncertain
                else if st = ACancelled \<and> (qs = None \<or> qs = Some Cancelled) then S_cancelled
                else if st = AApproved \<and> qs = None then S_needs_attention
                else if qs \<in> {Some Queued, Some Leased, Some Executing, Some Retry_wait} then S_waiting_for_action
                else if j_expired j \<and> qs \<in> {Some Failed, Some Cancelled} then S_outcome_uncertain
                else if qs \<in> {Some Failed, Some Cancelled} then S_needs_attention
                else step_of_action_status st))"

definition TERMINAL :: "step_status list" where
  "TERMINAL = [S_executed, S_blocked, S_failed, S_cancelled, S_rejected, S_skipped]"

definition classifyRun :: "step_status list \<Rightarrow> bool \<Rightarrow> bool \<Rightarrow> bool \<Rightarrow> run_status" where
  "classifyRun sts hasContinuation cancellationRequested budgetStopped =
     (let has = (\<lambda>x. x \<in> set sts); some_of = (\<lambda>xs. \<exists>x\<in>set sts. x \<in> set xs) in
      if cancellationRequested then
        (if has S_outcome_uncertain \<or> has S_needs_attention \<or> has S_interrupted then R_needs_attention
         else if some_of [S_waiting_for_action, S_approved, S_queued, S_running, S_retrying, S_pending] then R_cancelling
         else R_cancelled)
      else if has S_planning \<or> has S_planned then R_running
      else if has S_interrupted then R_interrupted
      else if has S_needs_attention then R_needs_attention
      else if has S_outcome_uncertain then R_needs_attention
      else if budgetStopped \<and> \<not> some_of [S_waiting_for_action, S_approved, S_queued, S_running, S_retrying]
      then R_budget_exhausted
      else if has S_waiting_for_approval \<or> has S_pending then R_waiting_for_approval
      else if has S_waiting_dependency then R_waiting_for_dependency
      else if has S_waiting_for_action \<or> has S_approved \<or> has S_queued \<or> has S_running \<or> has S_retrying
      then R_waiting_for_action
      else if \<exists>x\<in>set sts. x \<in> set TERMINAL \<and> x \<noteq> S_executed then R_failed
      else if hasContinuation then R_ready_to_continue else R_completed)"

definition run_steps :: "string \<Rightarrow> db \<Rightarrow> step_row list" where
  "run_steps runId s = sort_key s_index (filter (\<lambda>t. s_run_id t = runId) (steps s))"

definition current_status :: "db \<Rightarrow> step_row \<Rightarrow> step_status" where
  "current_status s t = currentStepStatus t (join_step s t)"

definition truthy_text :: "string option \<Rightarrow> bool" where
  "truthy_text x \<longleftrightarrow> (case x of Some (c # cs) \<Rightarrow> True | _ \<Rightarrow> False)"

definition run_status_now :: "run_row \<Rightarrow> step_status list \<Rightarrow> run_status" where
  "run_status_now r sts =
     (if (r_cancel_requested_at r = None \<and> r_status r \<in> {R_planning, R_running, R_failed}) \<or>
         (sts = [] \<and> r_cancel_requested_at r = None)
      then r_status r
      else classifyRun sts (r_continuation_after_step r \<noteq> None) (r_cancel_requested_at r \<noteq> None)
             (truthy_text (r_budget_stop_reason r)))"

record step_view =
  sv_index :: nat
  sv_tool :: string
  sv_dependsOn :: "nat list"
  sv_status :: step_status
  sv_actionId :: "string option"

record run_view =
  rv_id :: string
  rv_goalId :: "string option"
  rv_goalRevision :: "int option"
  rv_correlationId :: string
  rv_status :: run_status
  rv_objectiveStatus :: string
  rv_modelCalls :: nat
  rv_continuationReady :: bool
  rv_cancellationRequested :: bool
  rv_cancelRequestedAt :: "int option"
  rv_stepsUsed :: nat
  rv_stepLimit :: nat
  rv_inputTokens :: nat
  rv_outputTokens :: nat
  rv_totalTokens :: nat
  rv_tokenLimit :: nat
  rv_meteredCalls :: nat
  rv_usageComplete :: bool
  rv_elapsedMs :: int
  rv_elapsedLimitMs :: int
  rv_deadlineAt :: "int option"
  rv_currentLimit :: "string option"
  rv_stopReason :: "string option"
  rv_steps :: "step_view list"
  rv_createdAt :: int
  rv_updatedAt :: int

definition view_of :: "run_row \<Rightarrow> step_row list \<Rightarrow> step_status list \<Rightarrow> run_status \<Rightarrow> int \<Rightarrow> run_view" where
  "view_of r ts sts st now =
     (let terminal = finished_run st; usageEnd = (if terminal \<and> r_status r = st then r_updated_at r else now) in
      \<lparr>rv_id = r_id r, rv_goalId = r_goal_id r, rv_goalRevision = r_goal_revision r,
       rv_correlationId = r_correlation_id r, rv_status = st, rv_objectiveStatus = r_objective_status r,
       rv_modelCalls = r_model_call_count r, rv_continuationReady = (st = R_ready_to_continue),
       rv_cancellationRequested = (r_cancel_requested_at r \<noteq> None), rv_cancelRequestedAt = r_cancel_requested_at r,
       rv_stepsUsed = r_step_count r, rv_stepLimit = r_step_limit r, rv_inputTokens = r_input_tokens r,
       rv_outputTokens = r_output_tokens r, rv_totalTokens = r_input_tokens r + r_output_tokens r,
       rv_tokenLimit = r_token_limit r, rv_meteredCalls = r_metered_model_calls r,
       rv_usageComplete = (r_metered_model_calls r = r_model_call_count r),
       rv_elapsedMs = max 0 (usageEnd - r_created_at r), rv_elapsedLimitMs = r_elapsed_limit_ms r,
       rv_deadlineAt = r_deadline_at r,
       rv_currentLimit = (if terminal \<and> \<not> truthy_text (r_budget_stop_reason r) then None
                          else if deadline_passed now r then Some ''elapsed_limit''
                          else if r_step_count r \<ge> r_step_limit r then Some ''step_limit''
                          else if r_input_tokens r + r_output_tokens r \<ge> r_token_limit r then Some ''token_limit''
                          else None),
       rv_stopReason = r_budget_stop_reason r,
       rv_steps = map (\<lambda>(t, x). \<lparr>sv_index = s_index t, sv_tool = s_tool t, sv_dependsOn = s_depends_on t,
                                 sv_status = x, sv_actionId = s_action_id t\<rparr>) (zip ts sts),
       rv_createdAt = r_created_at r, rv_updatedAt = (if r_status r \<noteq> st then now else r_updated_at r)\<rparr>)"

definition set_step_status :: "step_status \<times> int \<Rightarrow> step_row \<Rightarrow> step_row" where
  "set_step_status p t = (case p of (st, now) \<Rightarrow> t\<lparr>s_status := st, s_updated_at := now\<rparr>)"

definition set_run_status :: "run_status \<times> int \<Rightarrow> run_row \<Rightarrow> run_row" where
  "set_run_status p r = (case p of (st, now) \<Rightarrow> r\<lparr>r_status := st, r_updated_at := now\<rparr>)"

text \<open>
  Reading a run writes back what it derives: the steps whose status moved, and the run's. A
  step is keyed by run and index, so the write-back loop is one UPDATE.
\<close>

definition refresh_step :: "db \<Rightarrow> string \<Rightarrow> int \<Rightarrow> step_row \<Rightarrow> step_row" where
  "refresh_step s runId now t =
     (if s_run_id t = runId \<and> current_status s t \<noteq> s_status t then set_step_status (current_status s t, now) t else t)"

definition getRun :: "string \<Rightarrow> int \<Rightarrow> db \<Rightarrow> run_view option \<times> db" where
  "getRun runId now s =
     (case get_run_row runId s of
        None \<Rightarrow> (None, s)
      | Some r \<Rightarrow>
          let ts = run_steps runId s; sts = map (current_status s) ts; st = run_status_now r sts;
              s' = s\<lparr>steps := map (refresh_step s runId now) (steps s),
                     runs := (if r_status r \<noteq> st
                              then sql_update (\<lambda>r. r_id r = runId) (set_run_status (st, now)) (runs s)
                              else runs s)\<rparr>
          in (Some (view_of r ts sts st now), s'))"

section \<open>Stopping and finishing\<close>

definition exhaust_run :: "string \<times> int \<Rightarrow> run_row \<Rightarrow> run_row" where
  "exhaust_run p r = (case p of (reason, now) \<Rightarrow>
     r\<lparr>r_budget_stop_reason := (case r_budget_stop_reason r of Some x \<Rightarrow> Some x | None \<Rightarrow> Some reason),
       r_continuation_after_step := None, r_continuation_claimed := False, r_status := R_budget_exhausted,
       r_response := Some ''Run budget exhausted. Completed or in-flight actions were not replayed; the objective is not verified.'',
       r_updated_at := now\<rparr>)"

text \<open>A step of the run that has not been given an action.\<close>

definition unstarted_step :: "string \<Rightarrow> step_row \<Rightarrow> bool" where
  "unstarted_step runId t \<longleftrightarrow>
     s_run_id t = runId \<and> s_action_id t = None \<and> s_status t \<in> {S_planned, S_waiting_dependency}"

definition markBudgetExhausted :: "string \<Rightarrow> string \<Rightarrow> int \<Rightarrow> int \<Rightarrow> db \<Rightarrow> run_view option \<times> db" where
  "markBudgetExhausted runId reason now t2 s =
     getRun runId t2
       (s\<lparr>runs := sql_update (\<lambda>r. r_id r = runId \<and> r_cancel_requested_at r = None) (exhaust_run (reason, now)) (runs s),
          steps := sql_update (unstarted_step runId) (set_step_status (S_budget_exhausted, now)) (steps s)\<rparr>)"

definition getRunExecution :: "string \<Rightarrow> db \<Rightarrow> (run_row \<times> step_row list) option" where
  "getRunExecution runId s = map_option (\<lambda>r. (r, run_steps runId s)) (get_run_row runId s)"

definition findRunByAction :: "string \<Rightarrow> db \<Rightarrow> string option" where
  "findRunByAction actionId s = map_option s_run_id (sql_get (\<lambda>t. s_action_id t = Some actionId) (steps s))"

definition clear_run :: "int \<Rightarrow> run_row \<Rightarrow> run_row" where
  "clear_run now r = r\<lparr>r_continuation_after_step := None, r_continuation_claimed := False, r_updated_at := now\<rparr>"

definition clearContinuation :: "string \<Rightarrow> int \<Rightarrow> db \<Rightarrow> db" where
  "clearContinuation runId now s = s\<lparr>runs := sql_update (\<lambda>r. r_id r = runId) (clear_run now) (runs s)\<rparr>"

definition claim_run :: "int \<Rightarrow> run_row \<Rightarrow> run_row" where
  "claim_run now r = r\<lparr>r_status := R_planning, r_continuation_claimed := True, r_updated_at := now\<rparr>"

definition claimContinuation :: "string \<Rightarrow> int \<Rightarrow> int \<Rightarrow> db \<Rightarrow> bool \<times> db" where
  "claimContinuation runId t1 now s =
     (case getRun runId t1 s of
        (None, s') \<Rightarrow> (False, s')
      | (Some v, s') \<Rightarrow>
          if rv_status v \<noteq> R_ready_to_continue then (False, s')
          else let P = (\<lambda>r. r_id r = runId \<and> r_status r = R_ready_to_continue \<and> \<not> r_continuation_claimed r \<and>
                          r_continuation_after_step r \<noteq> None \<and> r_cancel_requested_at r = None)
               in (sql_changes P (runs s') = 1, s'\<lparr>runs := sql_update P (claim_run now) (runs s')\<rparr>))"

definition isCancellationRequested :: "string \<Rightarrow> db \<Rightarrow> bool" where
  "isCancellationRequested runId s =
     (case get_run_row runId s of Some r \<Rightarrow> r_cancel_requested_at r \<noteq> None | None \<Rightarrow> False)"

definition cancel_run :: "string \<times> int \<Rightarrow> run_row \<Rightarrow> run_row" where
  "cancel_run p r = (case p of (who, now) \<Rightarrow>
     r\<lparr>r_cancel_requested_at := (case r_cancel_requested_at r of Some x \<Rightarrow> Some x | None \<Rightarrow> Some now),
       r_cancelled_by := (case r_cancelled_by r of Some x \<Rightarrow> Some x | None \<Rightarrow> Some who),
       r_continuation_after_step := None, r_continuation_claimed := False, r_updated_at := now\<rparr>)"

definition requestRunCancellation :: "string \<Rightarrow> string \<Rightarrow> int \<Rightarrow> int \<Rightarrow> int \<Rightarrow> db \<Rightarrow> run_view option \<times> db" where
  "requestRunCancellation runId cancelledBy t1 now t3 s =
     (case getRun runId t1 s of
        (None, s') \<Rightarrow> (None, s')
      | (Some v, s') \<Rightarrow>
          if rv_status v \<in> {R_completed, R_failed} then (Some v, s')
          else getRun runId t3
                 (s'\<lparr>runs := sql_update (\<lambda>r. r_id r = runId) (cancel_run (cancelledBy, now)) (runs s'),
                     steps := sql_update (unstarted_step runId) (set_step_status (S_cancelled, now)) (steps s')\<rparr>))"

definition recordRunStepOutcome :: "string \<Rightarrow> nat \<Rightarrow> step_status \<Rightarrow> int \<Rightarrow> db \<Rightarrow> db" where
  "recordRunStepOutcome runId index st now s =
     s\<lparr>steps := sql_update (\<lambda>t. s_run_id t = runId \<and> s_index t = index) (set_step_status (st, now)) (steps s)\<rparr>"

definition finish_run_row :: "run_status \<times> string option \<times> int \<Rightarrow> run_row \<Rightarrow> run_row" where
  "finish_run_row p r = (case p of (st, response, now) \<Rightarrow> r\<lparr>r_status := st, r_response := response, r_updated_at := now\<rparr>)"

definition finishRun :: "string \<Rightarrow> string option \<Rightarrow> int \<Rightarrow> db \<Rightarrow> run_status \<times> db" where
  "finishRun runId response now s =
     (let r = get_run_row runId s;
          st = classifyRun (map s_status (run_steps runId s))
                 (Option.bind r r_continuation_after_step \<noteq> None) (Option.bind r r_cancel_requested_at \<noteq> None)
                 (truthy_text (Option.bind r r_budget_stop_reason))
      in (st, s\<lparr>runs := sql_update (\<lambda>r. r_id r = runId) (finish_run_row (st, response, now)) (runs s)\<rparr>))"

definition fail_run_row :: "string option \<times> int \<Rightarrow> run_row \<Rightarrow> run_row" where
  "fail_run_row p r = (case p of (response, now) \<Rightarrow>
     r\<lparr>r_status := R_failed, r_response := or_else response (r_response r), r_updated_at := now\<rparr>)"

definition failRun :: "string \<Rightarrow> string option \<Rightarrow> int \<Rightarrow> db \<Rightarrow> db" where
  "failRun runId response now s = s\<lparr>runs := sql_update (\<lambda>r. r_id r = runId) (fail_run_row (response, now)) (runs s)\<rparr>"

section \<open>Lists of runs and recovery\<close>

text \<open>\<open>getRun\<close> over a list of ids, the writes of one visible to the next.\<close>

fun get_runs :: "string list \<Rightarrow> int \<Rightarrow> db \<Rightarrow> run_view option list \<times> db" where
  "get_runs [] now s = ([], s)"
| "get_runs (i # is) now s =
     (let (v, s') = getRun i now s; (vs, s'') = get_runs is now s' in (v # vs, s''))"

text \<open>\<open>Math.min(Math.max(Number(limit) || 20, 1), 50)\<close> of an integer.\<close>

definition bounded_limit :: "int \<Rightarrow> int \<Rightarrow> nat" where
  "bounded_limit limit most = nat (min most (max 1 (if limit = 0 then 20 else limit)))"

definition listRuns :: "int \<Rightarrow> int \<Rightarrow> db \<Rightarrow> run_view option list \<times> db" where
  "listRuns limit now s =
     get_runs (map r_id (take (bounded_limit limit 50) (sort_key (\<lambda>r. - r_created_at r) (runs s)))) now s"

definition wakeable :: "run_row \<Rightarrow> bool" where
  "wakeable r \<longleftrightarrow> r_cancel_requested_at r = None \<and>
     r_status r \<in> {R_waiting_for_action, R_waiting_for_dependency, R_ready_to_continue, R_interrupted}"

definition listRunWakeCandidates :: "string \<Rightarrow> int \<Rightarrow> db \<Rightarrow> string list" where
  "listRunWakeCandidates afterId limit s =
     (let n = bounded_limit limit 20; ids = sort (map r_id (filter wakeable (runs s)));
          rows = take n (filter (\<lambda>i. afterId < i) ids)
      in if rows \<noteq> [] \<or> afterId = [] then rows else take n ids)"

definition reconcileInterruptedRuns :: "int \<Rightarrow> int \<Rightarrow> db \<Rightarrow> db" where
  "reconcileInterruptedRuns now t2 s =
     (let s1 = s\<lparr>steps := sql_update (\<lambda>t. s_action_id t = None \<and> s_status t \<in> {S_planned, S_running})
                            (set_step_status (S_interrupted, now)) (steps s),
                 runs := sql_update (\<lambda>r. r_status r = R_interrupted \<and> r_continuation_after_step r \<noteq> None)
                           (\<lambda>r. r\<lparr>r_continuation_claimed := False\<rparr>)
                           (sql_update (\<lambda>r. r_status r \<in> {R_planning, R_running})
                              (set_run_status (R_interrupted, now)) (runs s))\<rparr>
      in snd (get_runs (map r_id (filter (\<lambda>r. r_status r \<in> {R_interrupted, R_waiting_for_action, R_waiting_for_approval})
                                  (runs s1))) t2 s1))"

end
