(* ===== verification/U2_Runs_Safety.thy ===== *)
theory U2_Runs_Safety
  imports U2_Runs
begin

text \<open>
  Safety of the run store over arbitrary interleavings of its operations with anything that
  leaves its two tables alone (queue, audit and goal operations): budgets are never exceeded,
  a step is started at most once, a requested cancellation is final, and a run is reported
  completed only when every step has executed.
\<close>

section \<open>Operations as steps\<close>

text \<open>
  \<open>MAX_MODEL_CALLS_PER_MESSAGE\<close> of \<open>server/agent/agent.js\<close> is the limit its only caller passes
  to \<open>beginModelCall\<close>. For a step it has not started the agent records \<open>cancelled\<close>, \<open>skipped\<close> or
  \<open>waiting_dependency\<close>, and for one it has started the outcome of its action, which is none of
  \<open>planned\<close> and \<open>waiting_dependency\<close>; ids made by \<open>newId\<close> and stop reasons are not empty.
\<close>

definition MAX_MODEL_CALLS_PER_MESSAGE :: nat where
  "MAX_MODEL_CALLS_PER_MESSAGE = 3"

inductive run_op :: "db \<Rightarrow> db \<Rightarrow> bool" where
  op_other: "runs t = runs s \<Longrightarrow> steps t = steps s \<Longrightarrow> run_op s t"
| op_create: "run_op s (snd (createRun nid now clock i s))"
| op_plan: "run_op s (snd (recordRunPlan rid pl prov accs mid now s))"
| op_classify: "run_op s (recordOutputClassification rid c s)"
| op_model: "run_op s (snd (beginModelCall rid MAX_MODEL_CALLS_PER_MESSAGE t1 now s))"
| op_usage: "run_op s (snd (recordModelUsage rid i out now t2 s))"
| op_step: "aid \<noteq> [] \<Longrightarrow> run_op s (snd (beginRunStep aid rid ix t1 now t3 s))"
| op_exhaust: "reason \<noteq> [] \<Longrightarrow> run_op s (snd (markBudgetExhausted rid reason now t2 s))"
| op_clear: "run_op s (clearContinuation rid now s)"
| op_claim: "run_op s (snd (claimContinuation rid t1 now s))"
| op_cancel_run: "run_op s (snd (requestRunCancellation rid who t1 now t3 s))"
| op_outcome: "(\<And>t. t \<in> set (steps s) \<Longrightarrow> s_run_id t = rid \<Longrightarrow> s_index t = ix \<Longrightarrow>
      if s_action_id t = None then st \<in> {S_cancelled, S_skipped, S_waiting_dependency}
      else st \<notin> {S_planned, S_waiting_dependency}) \<Longrightarrow>
    run_op s (recordRunStepOutcome rid ix st now s)"
| op_finish: "run_op s (snd (finishRun rid resp now s))"
| op_failrun: "run_op s (failRun rid resp now s)"
| op_read: "run_op s (snd (getRun rid now s))"
| op_list: "run_op s (snd (listRuns limit now s))"
| op_reconcile: "run_op s (reconcileInterruptedRuns now t2 s)"

section \<open>What an operation keeps of a row\<close>

definition keep_run :: "run_row \<Rightarrow> run_row \<Rightarrow> bool" where
  "keep_run r r' \<longleftrightarrow> r_id r' = r_id r \<and> r_goal_id r' = r_goal_id r \<and> r_goal_revision r' = r_goal_revision r \<and>
     r_step_limit r' = r_step_limit r \<and> r_token_limit r' = r_token_limit r \<and> r_deadline_at r' = r_deadline_at r \<and>
     r_step_count r' = r_step_count r \<and>
     (r_metered_model_calls r \<le> r_model_call_count r \<and> r_model_call_count r \<le> MAX_MODEL_CALLS_PER_MESSAGE \<longrightarrow>
        r_metered_model_calls r' \<le> r_model_call_count r' \<and> r_model_call_count r' \<le> MAX_MODEL_CALLS_PER_MESSAGE) \<and>
     r_model_call_count r \<le> r_model_call_count r' \<and>
     r_input_tokens r + r_output_tokens r \<le> r_input_tokens r' + r_output_tokens r' \<and>
     (r_cancel_requested_at r \<noteq> None \<longrightarrow> r_cancel_requested_at r' = r_cancel_requested_at r) \<and>
     (truthy_text (r_budget_stop_reason r) \<longrightarrow> r_budget_stop_reason r' = r_budget_stop_reason r) \<and>
     (r_budget_stop_reason r \<noteq> Some [] \<longrightarrow> r_budget_stop_reason r' \<noteq> Some [])"

text \<open>A step without an action has one of six statuses; a step that may still be started has none.\<close>

definition step_ok :: "step_row \<Rightarrow> bool" where
  "step_ok t \<longleftrightarrow>
     (case s_action_id t of
        None \<Rightarrow> s_status t \<in> {S_planned, S_waiting_dependency, S_cancelled, S_skipped, S_interrupted, S_budget_exhausted}
      | Some aid \<Rightarrow> aid \<noteq> [] \<and> s_status t \<notin> {S_planned, S_waiting_dependency})"

definition stopped_step :: "step_row \<Rightarrow> bool" where
  "stopped_step t \<longleftrightarrow> s_action_id t = None \<and> s_status t = S_budget_exhausted"

definition keep_step :: "step_row \<Rightarrow> step_row \<Rightarrow> bool" where
  "keep_step t t' \<longleftrightarrow> s_run_id t' = s_run_id t \<and> s_index t' = s_index t \<and> s_tool t' = s_tool t \<and>
     s_arguments t' = s_arguments t \<and> s_action_id t' = s_action_id t \<and> (step_ok t \<longrightarrow> step_ok t') \<and>
     (stopped_step t' \<longrightarrow> stopped_step t)"

definition keeps :: "db \<Rightarrow> db \<Rightarrow> bool" where
  "keeps s s' \<longleftrightarrow> list_all2 keep_run (runs s) (runs s') \<and> list_all2 keep_step (steps s) (steps s')"

lemma keep_refl [simp]: "keep_run r r" "keep_step t t"
  by (auto simp: keep_run_def keep_step_def)

lemma keep_run_trans: "keep_run a b \<Longrightarrow> keep_run b c \<Longrightarrow> keep_run a c"
  by (auto simp: keep_run_def)

lemma keep_step_trans: "keep_step a b \<Longrightarrow> keep_step b c \<Longrightarrow> keep_step a c"
  by (auto simp: keep_step_def)

lemma keeps_refl [simp]: "keeps s s"
  by (simp add: keeps_def list_all2_refl)

lemma keeps_trans: "keeps a b \<Longrightarrow> keeps b c \<Longrightarrow> keeps a c"
  unfolding keeps_def by (blast intro: list_all2_trans keep_run_trans keep_step_trans)

lemma list_all2_update: "(\<And>r. P r \<Longrightarrow> R r (f r)) \<Longrightarrow> (\<And>r. R r r) \<Longrightarrow> list_all2 R rows (sql_update P f rows)"
  by (induction rows) auto

lemma keeps_update:
  "(\<And>r. P r \<Longrightarrow> keep_run r (f r)) \<Longrightarrow> (\<And>t. Q t \<Longrightarrow> keep_step t (g t)) \<Longrightarrow>
     keeps s (s\<lparr>runs := sql_update P f (runs s), steps := sql_update Q g (steps s)\<rparr>)"
  by (simp add: keeps_def list_all2_update)

lemma keeps_update_runs: "(\<And>r. P r \<Longrightarrow> keep_run r (f r)) \<Longrightarrow> keeps s (s\<lparr>runs := sql_update P f (runs s)\<rparr>)"
  by (simp add: keeps_def list_all2_update list_all2_refl)

lemma keeps_update_steps: "(\<And>t. Q t \<Longrightarrow> keep_step t (g t)) \<Longrightarrow> keeps s (s\<lparr>steps := sql_update Q g (steps s)\<rparr>)"
  by (simp add: keeps_def list_all2_update list_all2_refl)

lemmas run_row_defs = plan_run_def count_model_call_def meter_run_def exhaust_run_def clear_run_def claim_run_def
  cancel_run_def set_run_status_def finish_run_row_def fail_run_row_def

lemma keep_run_rows [simp]:
  "keep_run r (plan_run p r)" "keep_run r (clear_run now r)" "keep_run r (claim_run now r)"
  "keep_run r (cancel_run c r)" "keep_run r (set_run_status x r)" "keep_run r (finish_run_row y r)"
  "keep_run r (fail_run_row z r)" "keep_run r (r\<lparr>r_output_private := b\<rparr>)" "keep_run r (r\<lparr>r_continuation_claimed := b\<rparr>)"
  by (auto simp: keep_run_def run_row_defs truthy_text_def split: prod.splits option.splits)

lemma keep_run_exhaust: "reason \<noteq> [] \<Longrightarrow> keep_run r (exhaust_run (reason, now) r)"
  by (auto simp: keep_run_def exhaust_run_def truthy_text_def split: option.splits)

lemma step_of_action_status_started: "step_of_action_status st \<noteq> S_planned" "step_of_action_status st \<noteq> S_waiting_dependency"
  by (cases st; simp)+

lemma current_status_started:
  assumes "s_action_id t = Some aid" and "aid \<noteq> []"
  shows "current_status s t \<noteq> S_planned \<and> current_status s t \<noteq> S_waiting_dependency"
proof -
  from assms have f: "s_action_id t \<notin> {None, Some []}" by simp
  show ?thesis
    unfolding current_status_def currentStepStatus_def Let_def if_not_P [OF f]
    by (cases "j_action (join_step s t)") (simp_all add: step_of_action_status_started)
qed

lemma current_status_unstarted:
  "s_action_id t = None \<Longrightarrow> current_status s t = (if s_status t = S_running then S_interrupted else s_status t)"
  by (simp add: current_status_def currentStepStatus_def)

lemma keep_step_set:
  "(if s_action_id t = None then st \<in> {S_cancelled, S_skipped, S_waiting_dependency, S_interrupted}
    else st \<notin> {S_planned, S_waiting_dependency}) \<Longrightarrow> keep_step t (set_step_status (st, now) t)"
  by (auto simp: keep_step_def set_step_status_def step_ok_def stopped_step_def split: option.splits if_splits)

lemma keep_step_refresh: "keep_step t (refresh_step s rid now t)"
proof (cases "s_action_id t")
  case None
  then show ?thesis
    using current_status_unstarted [of t s]
    by (auto simp: refresh_step_def keep_step_def set_step_status_def step_ok_def stopped_step_def)
next
  case (Some aid)
  then show ?thesis
    using current_status_started [of t aid s]
    by (auto simp: refresh_step_def keep_step_def set_step_status_def step_ok_def stopped_step_def)
qed

lemma getRun_keeps: "keeps s (snd (getRun rid now s))"
proof (cases "get_run_row rid s")
  case None
  then show ?thesis by (simp add: getRun_def)
next
  case (Some r)
  have "list_all2 keep_step (steps s) (map (refresh_step s rid now) (steps s))"
    by (simp add: list_all2_conv_all_nth keep_step_refresh)
  with Some show ?thesis
    by (auto simp: getRun_def Let_def keeps_def list_all2_refl intro: list_all2_update)
qed

lemma get_runs_keeps: "keeps s (snd (get_runs is now s))"
proof (induction "is" arbitrary: s)
  case (Cons i "is")
  then show ?case using getRun_keeps keeps_trans by (fastforce simp: case_prod_beta Let_def)
qed simp

lemma claimContinuation_keeps: "keeps s (snd (claimContinuation rid t1 now s))"
proof -
  obtain v s' where g: "getRun rid t1 s = (v, s')" by (cases "getRun rid t1 s")
  with getRun_keeps [of s rid t1] have k: "keeps s s'" by simp
  show ?thesis
  proof (cases v)
    case None
    with g k show ?thesis by (simp add: claimContinuation_def)
  next
    case (Some x)
    with g k show ?thesis
      by (auto simp: claimContinuation_def Let_def intro!: keeps_trans [OF k] keeps_update_runs)
  qed
qed

lemma requestRunCancellation_keeps: "keeps s (snd (requestRunCancellation rid who t1 now t3 s))"
proof -
  obtain v s' where g: "getRun rid t1 s = (v, s')" by (cases "getRun rid t1 s")
  with getRun_keeps [of s rid t1] have k: "keeps s s'" by simp
  let ?s = "s'\<lparr>runs := sql_update (\<lambda>r. r_id r = rid) (cancel_run (who, now)) (runs s'),
               steps := sql_update (unstarted_step rid) (set_step_status (S_cancelled, now)) (steps s')\<rparr>"
  have "keeps s' ?s" by (rule keeps_update) (auto simp: unstarted_step_def intro!: keep_step_set)
  then have "keeps s (snd (getRun rid t3 ?s))" using k getRun_keeps keeps_trans by blast
  with g k show ?thesis by (auto simp: requestRunCancellation_def split: option.splits)
qed

lemma reconcileInterruptedRuns_keeps: "keeps s (reconcileInterruptedRuns now t2 s)"
proof -
  let ?s = "s\<lparr>steps := sql_update (\<lambda>t. s_action_id t = None \<and> s_status t \<in> {S_planned, S_running})
                            (set_step_status (S_interrupted, now)) (steps s),
              runs := sql_update (\<lambda>r. r_status r = R_interrupted \<and> r_continuation_after_step r \<noteq> None)
                           (\<lambda>r. r\<lparr>r_continuation_claimed := False\<rparr>)
                           (sql_update (\<lambda>r. r_status r \<in> {R_planning, R_running})
                              (set_run_status (R_interrupted, now)) (runs s))\<rparr>"
  let ?u = "s\<lparr>runs := sql_update (\<lambda>r. r_status r \<in> {R_planning, R_running}) (set_run_status (R_interrupted, now)) (runs s),
              steps := sql_update (\<lambda>t. s_action_id t = None \<and> s_status t \<in> {S_planned, S_running})
                            (set_step_status (S_interrupted, now)) (steps s)\<rparr>"
  have "keeps s ?u" by (rule keeps_update) (auto intro!: keep_step_set)
  moreover have "keeps ?u (?u\<lparr>runs := sql_update (\<lambda>r. r_status r = R_interrupted \<and> r_continuation_after_step r \<noteq> None)
                           (\<lambda>r. r\<lparr>r_continuation_claimed := False\<rparr>) (runs ?u)\<rparr>)"
    by (rule keeps_update_runs) simp
  ultimately have "keeps s ?s" using keeps_trans by fastforce
  from keeps_trans [OF this get_runs_keeps] show ?thesis
    by (simp add: reconcileInterruptedRuns_def Let_def)
qed

section \<open>The invariant\<close>

definition run_row_ok :: "run_row \<Rightarrow> bool" where
  "run_row_ok r \<longleftrightarrow> r_step_count r \<le> r_step_limit r \<and> r_metered_model_calls r \<le> r_model_call_count r \<and>
     r_model_call_count r \<le> MAX_MODEL_CALLS_PER_MESSAGE \<and> r_step_limit r = DEFAULT_RUN_STEP_LIMIT \<and>
     r_budget_stop_reason r \<noteq> Some []"

definition started_steps :: "string \<Rightarrow> step_row list \<Rightarrow> nat" where
  "started_steps rid ts = length (filter (\<lambda>t. s_run_id t = rid \<and> s_action_id t \<noteq> None) ts)"

definition step_key :: "step_row \<Rightarrow> string \<times> nat" where
  "step_key t = (s_run_id t, s_index t)"

text \<open>A step stopped by a budget belongs to a run that has a stop reason or was cancelled.\<close>

definition halted_run :: "run_row \<Rightarrow> bool" where
  "halted_run r \<longleftrightarrow> truthy_text (r_budget_stop_reason r) \<or> r_cancel_requested_at r \<noteq> None"

definition stop_ok :: "run_row list \<Rightarrow> step_row \<Rightarrow> bool" where
  "stop_ok rs t \<longleftrightarrow> (stopped_step t \<longrightarrow> (\<forall>r\<in>set rs. r_id r = s_run_id t \<longrightarrow> halted_run r))"

definition run_inv :: "run_row list \<Rightarrow> step_row list \<Rightarrow> bool" where
  "run_inv rs ts \<longleftrightarrow> distinct (map r_id rs) \<and> distinct (map step_key ts) \<and>
     (\<forall>r\<in>set rs. run_row_ok r \<and> started_steps (r_id r) ts \<le> r_step_count r) \<and>
     (\<forall>t\<in>set ts. step_ok t \<and> s_run_id t \<in> r_id ` set rs \<and> stop_ok rs t)"

definition runs_ok :: "db \<Rightarrow> bool" where
  "runs_ok s \<longleftrightarrow> run_inv (runs s) (steps s)"

lemma keep_run_list: "list_all2 keep_run rs rs' \<Longrightarrow> map r_id rs' = map r_id rs"
  by (induction rule: list_all2_induct) (auto simp: keep_run_def)

lemma keep_step_list:
  "list_all2 keep_step ts ts' \<Longrightarrow> map step_key ts' = map step_key ts \<and> started_steps rid ts' = started_steps rid ts"
  by (induction rule: list_all2_induct) (auto simp: keep_step_def step_key_def started_steps_def)

lemma list_all2_memD: "list_all2 R xs ys \<Longrightarrow> y \<in> set ys \<Longrightarrow> \<exists>x\<in>set xs. R x y"
  by (induction rule: list_all2_induct) auto

lemma list_all2_memD1: "list_all2 R xs ys \<Longrightarrow> x \<in> set xs \<Longrightarrow> \<exists>y\<in>set ys. R x y"
  by (induction rule: list_all2_induct) auto

lemma keeps_runs_ok:
  assumes "keeps s s'" and "runs_ok s"
  shows "runs_ok s'"
proof -
  from assms have r: "list_all2 keep_run (runs s) (runs s')" and t: "list_all2 keep_step (steps s) (steps s')"
    and inv: "run_inv (runs s) (steps s)" by (auto simp: keeps_def runs_ok_def)
  have ids: "r_id ` set (runs s') = r_id ` set (runs s)"
    using keep_run_list [OF r] by (metis list.set_map)
  have "run_row_ok r' \<and> started_steps (r_id r') (steps s') \<le> r_step_count r'" if "r' \<in> set (runs s')" for r'
  proof -
    from list_all2_memD [OF r that] obtain x where x: "x \<in> set (runs s)" "keep_run x r'" by blast
    with inv have "run_row_ok x" "started_steps (r_id x) (steps s) \<le> r_step_count x" by (auto simp: run_inv_def)
    with x(2) show ?thesis using keep_step_list [OF t, of "r_id x"] by (simp add: keep_run_def run_row_ok_def)
  qed
  moreover have "step_ok t' \<and> s_run_id t' \<in> r_id ` set (runs s') \<and> stop_ok (runs s') t'" if "t' \<in> set (steps s')" for t'
  proof -
    from list_all2_memD [OF t that] obtain x where x: "x \<in> set (steps s)" "keep_step x t'" by blast
    with inv have xs: "step_ok x" "s_run_id x \<in> r_id ` set (runs s)" "stop_ok (runs s) x" by (auto simp: run_inv_def)
    have "halted_run r'" if r': "r' \<in> set (runs s')" "r_id r' = s_run_id t'" and st: "stopped_step t'" for r'
    proof -
      from list_all2_memD [OF r r'(1)] obtain y where y: "y \<in> set (runs s)" "keep_run y r'" by blast
      with xs(3) x(2) r'(2) st have "halted_run y" by (auto simp: stop_ok_def keep_step_def keep_run_def)
      with y(2) show ?thesis by (auto simp: halted_run_def keep_run_def)
    qed
    with x(2) ids xs show ?thesis by (auto simp: keep_step_def stop_ok_def)
  qed
  ultimately show ?thesis
    using inv keep_run_list [OF r] keep_step_list [OF t] by (simp add: runs_ok_def run_inv_def)
qed

section \<open>The three operations that do more\<close>

lemma withTransaction_snd: "snd (withTransaction m s) = s \<or> (\<exists>x. m s = (Inr x, snd (withTransaction m s)))"
  by (auto simp: withTransaction_def split: prod.splits sum.splits)

lemma start_goal_frame: "start_goal g a now s = (x, s') \<Longrightarrow> runs s' = runs s \<and> steps s' = steps s"
  by (auto simp: start_goal_def Let_def split: option.splits if_splits)

lemma consume_wake_frame: "consume_wake w g rv r now s = (x, s') \<Longrightarrow> runs s' = runs s \<and> steps s' = steps s"
  by (auto simp: consume_wake_def Let_def split: if_splits)

lemma createRun_cases:
  assumes "createRun nid now clock i s = (x, s')"
  shows "(\<exists>e. x = Inl e) \<and> s' = s \<or>
         x = Inr nid \<and> steps s' = steps s \<and> get_run_row nid s = None \<and>
           (\<exists>rv. runs s' = runs s @ [new_run nid now clock i rv])"
  using assms
  by (auto simp: createRun_def eff_defs insert_run_def get_run_row_def new_run_def
      dest!: start_goal_frame consume_wake_frame split: prod.splits sum.splits option.splits list.splits if_splits)

lemma createRun_ok: "runs_ok s \<Longrightarrow> runs_ok (snd (createRun nid now clock i s))"
proof -
  assume ok: "runs_ok s"
  obtain x s' where c: "createRun nid now clock i s = (x, s')" by (cases "createRun nid now clock i s")
  from createRun_cases [OF c] show ?thesis
  proof (elim disjE conjE exE)
    fix e assume "s' = s" with c ok show ?thesis by simp
  next
    fix rv assume st: "steps s' = steps s" and n: "get_run_row nid s = None"
      and r: "runs s' = runs s @ [new_run nid now clock i rv]"
    from n have "nid \<notin> r_id ` set (runs s)" by (auto simp: get_run_row_def sql_get_None_iff)
    moreover from ok this have "started_steps nid (steps s) = 0"
      by (auto simp: runs_ok_def run_inv_def started_steps_def filter_empty_conv)
    ultimately show ?thesis
      using ok c st r by (auto simp: runs_ok_def run_inv_def new_run_def run_row_ok_def DEFAULT_RUN_STEP_LIMIT_def stop_ok_def)
  qed
qed

lemma beginModelCall_keeps: "keeps s (snd (beginModelCall rid MAX_MODEL_CALLS_PER_MESSAGE t1 now s))"
  by (auto simp: beginModelCall_def Let_def keep_run_def count_model_call_def
      intro!: keeps_update_runs split: option.splits)

lemma recordModelUsage_keeps: "keeps s (snd (recordModelUsage rid i out now t2 s))"
  by (auto simp: recordModelUsage_def Let_def keep_run_def meter_run_def
      intro!: keeps_update_runs split: option.splits)

lemma fold_max_ge: "(m :: nat) \<le> fold max xs m" "x \<in> set xs \<Longrightarrow> x \<le> fold max xs m"
proof (induction xs arbitrary: m)
  case (Cons y xs)
  { case 1 from Cons(1) [of "max y m"] show ?case by simp }
  { case 2 with Cons(1) [of "max y m"] Cons(2) [of "max y m"] show ?case by (auto simp: max_def) }
qed simp_all

lemma next_step_index_fresh: "t \<in> set (steps s) \<Longrightarrow> s_run_id t = rid \<Longrightarrow> s_index t < next_step_index rid s"
proof -
  assume t: "t \<in> set (steps s)" "s_run_id t = rid"
  let ?is = "map s_index (filter (\<lambda>t. s_run_id t = rid) (steps s))"
  from t have m: "s_index t \<in> set ?is" by auto
  then have "next_step_index rid s = Suc (fold max ?is 0)" by (cases ?is) (auto simp: next_step_index_def)
  with fold_max_ge(2) [OF m, of 0] show ?thesis by simp
qed

lemma step_key_new: "map step_key (map (step_of_action rid base prov accs mid now) (zip [0..<length as] as)) =
  map (\<lambda>i. (rid, base + i)) [0..<length as]"
  by (rule nth_equalityI) (auto simp: step_key_def step_of_action_def)

lemma new_steps_planned:
  "t \<in> set (map (step_of_action rid base prov accs mid now) (zip is as)) \<Longrightarrow>
     step_ok t \<and> s_run_id t = rid \<and> s_action_id t = None \<and> \<not> stopped_step t \<and> (\<exists>i. s_index t = base + i)"
  by (auto simp: step_of_action_def step_ok_def stopped_step_def)

lemma run_inv_append_planned:
  assumes "run_inv rs ts" and "\<And>t. t \<in> set us \<Longrightarrow> step_ok t \<and> s_run_id t \<in> r_id ` set rs \<and> s_action_id t = None \<and> \<not> stopped_step t"
    and "distinct (map step_key us)" and "step_key ` set us \<inter> step_key ` set ts = {}"
  shows "run_inv rs (ts @ us)"
proof -
  have "started_steps rid us = 0" for rid
    using assms(2) by (auto simp: started_steps_def filter_empty_conv)
  then have "started_steps rid (ts @ us) = started_steps rid ts" for rid
    by (simp add: started_steps_def)
  moreover have "distinct (map step_key (ts @ us))"
    using assms by (auto simp: run_inv_def)
  ultimately show ?thesis using assms(1,2) by (auto simp: run_inv_def stop_ok_def)
qed

lemma recordRunPlan_ok:
  assumes ok: "runs_ok s"
  shows "runs_ok (snd (recordRunPlan rid pl prov accs mid now s))"
proof -
  let ?base = "next_step_index rid s"
  let ?new = "map (step_of_action rid ?base prov accs mid now) (zip [0..<length (pl_actions pl)] (pl_actions pl))"
  let ?u = "s\<lparr>runs := sql_update (\<lambda>r. r_id r = rid) (plan_run (pl, ?base, now)) (runs s)\<rparr>"
  have "keeps s ?u" by (rule keeps_update_runs) simp
  then have u: "runs_ok ?u" by (rule keeps_runs_ok [OF _ ok])
  have ids: "r_id ` set (runs ?u) = r_id ` set (runs s)"
    using keep_run_list \<open>keeps s ?u\<close> unfolding keeps_def by (metis list.set_map)
  have "run_inv (runs ?u) (steps s @ ?new)" if ex: "pl_actions pl = [] \<or> get_run_row rid s \<noteq> None"
  proof (rule run_inv_append_planned)
    show "run_inv (runs ?u) (steps s)" using u by (simp add: runs_ok_def)
    show "distinct (map step_key ?new)"
      unfolding step_key_new by (simp add: distinct_map inj_on_def)
    show "step_key ` set ?new \<inter> step_key ` set (steps s) = {}"
    proof -
      have "False" if "t \<in> set ?new" "u \<in> set (steps s)" "step_key t = step_key u" for t u
        using new_steps_planned [OF that(1)] next_step_index_fresh [OF that(2), of rid] that(3)
        by (auto simp: step_key_def)
      then show ?thesis by blast
    qed
    show "step_ok t \<and> s_run_id t \<in> r_id ` set (runs ?u) \<and> s_action_id t = None \<and> \<not> stopped_step t" if "t \<in> set ?new" for t
    proof -
      from that have "pl_actions pl \<noteq> []" by auto
      with ex have "rid \<in> r_id ` set (runs s)" by (auto simp: get_run_row_def dest: sql_get_SomeD)
      with new_steps_planned [OF that] show ?thesis unfolding ids by simp
    qed
  qed
  with ok show ?thesis
    by (auto simp: recordRunPlan_def Let_def runs_ok_def)
qed

lemma claim_step_sel: "s_run_id (claim_step p t) = s_run_id t" "s_action_id (claim_step p t) \<noteq> None"
  by (auto simp: claim_step_def split: prod.splits)

lemma started_steps_claim:
  assumes "distinct (map step_key ts)" and "\<And>t. Q t \<Longrightarrow> step_key t = (rid, ix)"
  shows "started_steps k (sql_update Q (claim_step p) ts) \<le> started_steps k ts + (if k = rid then 1 else 0)"
  using assms
proof (induction ts)
  case (Cons t ts)
  show ?case
  proof (cases "Q t")
    case True
    with Cons.prems have "\<forall>x\<in>set ts. \<not> Q x" by force
    then have "sql_update Q (claim_step p) ts = ts" by (simp add: sql_update_def map_idI)
    moreover from True Cons.prems(2) have "s_run_id t = rid" by (auto simp: step_key_def)
    ultimately show ?thesis using True claim_step_sel [of p t] by (auto simp: started_steps_def)
  next
    case False
    with Cons show ?thesis by (auto simp: started_steps_def)
  qed
qed (simp add: started_steps_def)

lemma beginRunStep_cases:
  assumes "beginRunStep aid rid ix t1 now t3 s = (x, s')"
  shows "(\<exists>e. x = Inl e) \<and> s' = s \<or>
    x = Inr aid \<and>
    sql_changes (\<lambda>r. r_id r = rid \<and> within_budget now r) (runs s) = 1 \<and>
    sql_changes (\<lambda>t. s_run_id t = rid \<and> s_index t = ix \<and> s_status t \<in> {S_planned, S_waiting_dependency}) (steps s) = 1 \<and>
    s' = s\<lparr>runs := sql_update (\<lambda>r. r_id r = rid \<and> within_budget now r) (count_step now) (runs s),
           steps := sql_update (\<lambda>t. s_run_id t = rid \<and> s_index t = ix \<and> s_status t \<in> {S_planned, S_waiting_dependency})
                      (claim_step (aid, now)) (steps s)\<rparr>"
  using assms by (auto simp: beginRunStep_def Let_def split: option.splits if_splits)

lemma count_step_sel [simp]: "halted_run (count_step now r) = halted_run r" "r_id (count_step now r) = r_id r"
  by (simp_all add: halted_run_def count_step_def)

lemma beginRunStep_ok:
  assumes ok: "runs_ok s" and aid: "aid \<noteq> []"
  shows "runs_ok (snd (beginRunStep aid rid ix t1 now t3 s))"
proof -
  obtain x s' where c: "beginRunStep aid rid ix t1 now t3 s = (x, s')" by (cases "beginRunStep aid rid ix t1 now t3 s")
  let ?P = "\<lambda>r. r_id r = rid \<and> within_budget now r"
  let ?Q = "\<lambda>t. s_run_id t = rid \<and> s_index t = ix \<and> s_status t \<in> {S_planned, S_waiting_dependency}"
  let ?rs = "sql_update ?P (count_step now) (runs s)"
  let ?ts = "sql_update ?Q (claim_step (aid, now)) (steps s)"
  from ok have inv: "run_inv (runs s) (steps s)" by (simp add: runs_ok_def)
  have "run_inv ?rs ?ts" if ch: "sql_changes ?P (runs s) = 1"
  proof -
    have ids: "map r_id ?rs = map r_id (runs s)" by (auto simp: sql_update_def count_step_def)
    have keys: "map step_key ?ts = map step_key (steps s)" by (auto simp: sql_update_def claim_step_def step_key_def)
    from sql_changes_1_ex [OF ch] obtain r0 where r0: "r0 \<in> set (runs s)" "?P r0" by blast
    have "run_row_ok r \<and> started_steps (r_id r) ?ts \<le> r_step_count r" if "r \<in> set ?rs" for r
    proof -
      from that obtain y where y: "y \<in> set (runs s)" "r = (if ?P y then count_step now y else y)"
        by (auto simp: set_sql_update)
      have same: "r_id y = rid \<Longrightarrow> y = r0"
        using key_unique [of r_id "runs s" y r0] inv y(1) r0 by (auto simp: run_inv_def)
      have "started_steps (r_id y) ?ts \<le> started_steps (r_id y) (steps s) + (if r_id y = rid then 1 else 0)"
        by (rule started_steps_claim [where ix = ix]) (use inv in \<open>auto simp: run_inv_def step_key_def\<close>)
      moreover from inv y(1) have "run_row_ok y" "started_steps (r_id y) (steps s) \<le> r_step_count y"
        by (auto simp: run_inv_def)
      ultimately show ?thesis
        using y(2) same r0(2) by (auto simp: run_row_ok_def count_step_def within_budget_def split: if_splits)
    qed
    moreover have "step_ok t \<and> s_run_id t \<in> r_id ` set ?rs \<and> stop_ok ?rs t" if "t \<in> set ?ts" for t
    proof -
      from that obtain y where y: "y \<in> set (steps s)" "t = (if ?Q y then claim_step (aid, now) y else y)"
        by (auto simp: set_sql_update)
      have "r_id ` set ?rs = r_id ` set (runs s)" using ids by (metis list.set_map)
      moreover have "stop_ok ?rs t"
      proof (cases "?Q y")
        case True
        with y(2) show ?thesis by (simp add: stop_ok_def stopped_step_def claim_step_def)
      next
        case False
        then have "t = y" using y(2) by auto
        with y(1) inv have "stop_ok (runs s) t" by (simp add: run_inv_def)
        then show ?thesis by (auto simp: stop_ok_def set_sql_update)
      qed
      ultimately show ?thesis using inv y aid by (auto simp: run_inv_def claim_step_def step_ok_def)
    qed
    ultimately show ?thesis using inv unfolding run_inv_def ids keys by blast
  qed
  with beginRunStep_cases [OF c] c ok show ?thesis by (auto simp: runs_ok_def)
qed

lemma exhaust_run_halted:
  "reason \<noteq> [] \<Longrightarrow> r_budget_stop_reason r \<noteq> Some [] \<Longrightarrow> truthy_text (r_budget_stop_reason (exhaust_run (reason, now) r))"
  by (cases reason; cases "r_budget_stop_reason r"; cases "the (r_budget_stop_reason r)")
    (auto simp: exhaust_run_def truthy_text_def)

lemma markBudgetExhausted_ok:
  assumes ok: "runs_ok s" and reason: "reason \<noteq> []"
  shows "runs_ok (snd (markBudgetExhausted rid reason now t2 s))"
proof -
  let ?rs = "sql_update (\<lambda>r. r_id r = rid \<and> r_cancel_requested_at r = None) (exhaust_run (reason, now)) (runs s)"
  let ?ts = "sql_update (unstarted_step rid) (set_step_status (S_budget_exhausted, now)) (steps s)"
  have "keeps s (s\<lparr>runs := ?rs\<rparr>)" by (rule keeps_update_runs) (simp add: keep_run_exhaust reason)
  from keeps_runs_ok [OF this ok] have inv: "run_inv ?rs (steps s)" by (simp add: runs_ok_def)
  have halted: "halted_run r" if r: "r \<in> set ?rs" "r_id r = rid" for r
  proof -
    from r(1) obtain y where y: "y \<in> set (runs s)"
      "r = (if r_id y = rid \<and> r_cancel_requested_at y = None then exhaust_run (reason, now) y else y)"
      by (auto simp: set_sql_update)
    from ok y(1) have "r_budget_stop_reason y \<noteq> Some []" by (auto simp: runs_ok_def run_inv_def run_row_ok_def)
    with y(2) r(2) exhaust_run_halted [OF reason, of y now] show ?thesis by (auto simp: halted_run_def split: if_splits)
  qed
  have keys: "map step_key ?ts = map step_key (steps s)"
    by (auto simp: sql_update_def set_step_status_def step_key_def)
  have started: "started_steps k ?ts = started_steps k (steps s)" for k
    by (induction "steps s") (auto simp: started_steps_def sql_update_def set_step_status_def filter_map comp_def)
  have "step_ok t \<and> s_run_id t \<in> r_id ` set ?rs \<and> stop_ok ?rs t" if "t \<in> set ?ts" for t
  proof -
    from that obtain y where y: "y \<in> set (steps s)"
      "t = (if unstarted_step rid y then set_step_status (S_budget_exhausted, now) y else y)" by (auto simp: set_sql_update)
    with inv have "step_ok y" "s_run_id y \<in> r_id ` set ?rs" "stop_ok ?rs y" by (auto simp: run_inv_def)
    with y(2) halted show ?thesis
      by (auto simp: set_step_status_def step_ok_def stop_ok_def unstarted_step_def)
  qed
  with inv keys started have "run_inv ?rs ?ts" unfolding run_inv_def by simp
  then have "runs_ok (s\<lparr>runs := ?rs, steps := ?ts\<rparr>)" by (simp add: runs_ok_def)
  from keeps_runs_ok [OF getRun_keeps this] show ?thesis by (simp add: markBudgetExhausted_def)
qed

lemma simple_ops_keep:
  "keeps s (recordOutputClassification rid c s)" "keeps s (clearContinuation rid now s)"
  "keeps s (snd (finishRun rid resp now s))" "keeps s (failRun rid resp now s)"
  by (auto simp: recordOutputClassification_def clearContinuation_def finishRun_def failRun_def Let_def
      intro!: keeps_update_runs)

lemma listRuns_keeps: "keeps s (snd (listRuns limit now s))"
  unfolding listRuns_def by (rule get_runs_keeps)

lemma run_op_ok: "run_op s t \<Longrightarrow> runs_ok s \<Longrightarrow> runs_ok t"
proof (induction rule: run_op.induct)
  case (op_other t s)
  then show ?case by (simp add: runs_ok_def)
next
  case (op_outcome s rid ix st now)
  have "keep_step t (set_step_status (st, now) t)" if "t \<in> set (steps s)" "s_run_id t = rid" "s_index t = ix" for t
    using op_outcome.hyps [OF that] by (intro keep_step_set) (auto split: if_splits)
  then have "keeps s (recordRunStepOutcome rid ix st now s)"
    by (auto simp: recordRunStepOutcome_def keeps_def list_all2_refl list_all2_conv_all_nth sql_update_def)
  then show ?case using op_outcome.prems by (rule keeps_runs_ok)
qed (blast intro: createRun_ok recordRunPlan_ok beginRunStep_ok
      keeps_runs_ok [OF beginModelCall_keeps] keeps_runs_ok [OF recordModelUsage_keeps]
      markBudgetExhausted_ok keeps_runs_ok [OF claimContinuation_keeps]
      keeps_runs_ok [OF requestRunCancellation_keeps] keeps_runs_ok [OF getRun_keeps]
      keeps_runs_ok [OF reconcileInterruptedRuns_keeps] keeps_runs_ok [OF listRuns_keeps]
      keeps_runs_ok [OF simple_ops_keep(1)] keeps_runs_ok [OF simple_ops_keep(2)]
      keeps_runs_ok [OF simple_ops_keep(3)] keeps_runs_ok [OF simple_ops_keep(4)])+

interpretation rsys: invariant_system runs_ok run_op
  by unfold_locales (rule run_op_ok)

definition reachable_runs :: "db \<Rightarrow> bool" where
  "reachable_runs s \<longleftrightarrow> run_of run_op empty_db s"

lemma runs_ok_empty: "runs_ok empty_db"
  by (simp add: runs_ok_def run_inv_def empty_db_def)

lemma reachable_runs_ok: "reachable_runs s \<Longrightarrow> runs_ok s"
  by (auto simp: reachable_runs_def intro: rsys.run_inv runs_ok_empty)

section \<open>Budgets\<close>

text \<open>
  C7. Budgets of a run. In every state the run store can reach, a run has been charged at
  most 16 steps and at most 3 model calls, no more calls are metered than were made, and no
  more of its steps have been given an action than steps were charged.
\<close>

theorem run_budgets_hold:
  assumes "reachable_runs s" and "r \<in> set (runs s)"
  shows "r_step_count r \<le> 16 \<and> r_model_call_count r \<le> 3 \<and> r_metered_model_calls r \<le> r_model_call_count r \<and>
         length (filter (\<lambda>t. s_run_id t = r_id r \<and> s_action_id t \<noteq> None) (steps s)) \<le> r_step_count r"
  using reachable_runs_ok [OF assms(1)] assms(2)
  by (auto simp: runs_ok_def run_inv_def run_row_ok_def started_steps_def DEFAULT_RUN_STEP_LIMIT_def
      MAX_MODEL_CALLS_PER_MESSAGE_def)

section \<open>Rows over time\<close>

lemma keeps_rows:
  assumes k: "keeps s t"
  shows "r \<in> set (runs s) \<Longrightarrow> \<exists>r'\<in>set (runs t). r_id r' = r_id r \<and>
           (r_cancel_requested_at r \<noteq> None \<longrightarrow> r_cancel_requested_at r' \<noteq> None)"
    and "x \<in> set (steps s) \<Longrightarrow> \<exists>x'\<in>set (steps t). step_key x' = step_key x \<and>
           (s_action_id x \<noteq> None \<longrightarrow> s_action_id x' = s_action_id x)"
proof -
  assume "r \<in> set (runs s)"
  with k list_all2_memD1 [of keep_run "runs s" "runs t" r] obtain r' where "r' \<in> set (runs t)" "keep_run r r'"
    by (auto simp: keeps_def)
  then show "\<exists>r'\<in>set (runs t). r_id r' = r_id r \<and> (r_cancel_requested_at r \<noteq> None \<longrightarrow> r_cancel_requested_at r' \<noteq> None)"
    by (auto simp: keep_run_def intro!: bexI [of _ r'])
next
  assume "x \<in> set (steps s)"
  with k list_all2_memD1 [of keep_step "steps s" "steps t" x] obtain x' where "x' \<in> set (steps t)" "keep_step x x'"
    by (auto simp: keeps_def)
  then show "\<exists>x'\<in>set (steps t). step_key x' = step_key x \<and> (s_action_id x \<noteq> None \<longrightarrow> s_action_id x' = s_action_id x)"
    by (auto simp: keep_step_def step_key_def intro!: bexI [of _ x'])
qed

lemma update_rows:
  assumes "\<And>r. P r \<Longrightarrow> key (f r) = key r \<and> (c r \<noteq> None \<longrightarrow> c (f r) = c r)" and "r \<in> set rows"
  shows "\<exists>r'\<in>set (sql_update P f rows). key r' = key r \<and> (c r \<noteq> None \<longrightarrow> c r' = c r)"
proof -
  let ?r = "if P r then f r else r"
  have "?r \<in> set (sql_update P f rows)" using assms(2) by (auto simp: set_sql_update)
  moreover have "key ?r = key r \<and> (c r \<noteq> None \<longrightarrow> c ?r = c r)" using assms(1) by auto
  ultimately show ?thesis by blast
qed

lemma createRun_rows:
  "r \<in> set (runs s) \<Longrightarrow> r \<in> set (runs (snd (createRun nid now clock i s)))"
  "steps (snd (createRun nid now clock i s)) = steps s"
  using createRun_cases [of nid now clock i s] by (cases "createRun nid now clock i s"; force)+

lemma recordRunPlan_rows:
  "r \<in> set (runs s) \<Longrightarrow> \<exists>r'\<in>set (runs (snd (recordRunPlan rid pl prov accs mid now s))). r_id r' = r_id r \<and>
     (r_cancel_requested_at r \<noteq> None \<longrightarrow> r_cancel_requested_at r' \<noteq> None)"
  "x \<in> set (steps s) \<Longrightarrow> x \<in> set (steps (snd (recordRunPlan rid pl prov accs mid now s)))"
  using update_rows [of "\<lambda>r. r_id r = rid" r_id "plan_run (pl, next_step_index rid s, now)" r_cancel_requested_at r "runs s"]
  by (auto simp: recordRunPlan_def Let_def plan_run_def)

lemma beginRunStep_rows:
  assumes ok: "runs_ok s"
  shows "r \<in> set (runs s) \<Longrightarrow> \<exists>r'\<in>set (runs (snd (beginRunStep aid rid ix t1 now t3 s))). r_id r' = r_id r \<and>
     (r_cancel_requested_at r \<noteq> None \<longrightarrow> r_cancel_requested_at r' \<noteq> None)"
  and "x \<in> set (steps s) \<Longrightarrow> \<exists>x'\<in>set (steps (snd (beginRunStep aid rid ix t1 now t3 s))). step_key x' = step_key x \<and>
     (s_action_id x \<noteq> None \<longrightarrow> s_action_id x' = s_action_id x)"
proof -
  obtain y s' where c: "beginRunStep aid rid ix t1 now t3 s = (y, s')" by (cases "beginRunStep aid rid ix t1 now t3 s")
  let ?P = "\<lambda>r. r_id r = rid \<and> within_budget now r"
  let ?Q = "\<lambda>t. s_run_id t = rid \<and> s_index t = ix \<and> s_status t \<in> {S_planned, S_waiting_dependency}"
  show "\<exists>r'\<in>set (runs (snd (beginRunStep aid rid ix t1 now t3 s))). r_id r' = r_id r \<and>
     (r_cancel_requested_at r \<noteq> None \<longrightarrow> r_cancel_requested_at r' \<noteq> None)" if "r \<in> set (runs s)"
    using beginRunStep_cases [OF c] c that update_rows [of ?P r_id "count_step now" r_cancel_requested_at, OF _ that]
    by (auto simp: count_step_def)
  have "\<exists>x'\<in>set (sql_update ?Q (claim_step (aid, now)) (steps s)). step_key x' = step_key x \<and>
     (s_action_id x \<noteq> None \<longrightarrow> s_action_id x' = s_action_id x)" if x: "x \<in> set (steps s)"
  proof (cases "?Q x")
    case True
    with ok x have "s_action_id x = None" by (auto simp: runs_ok_def run_inv_def step_ok_def split: option.splits)
    moreover have "claim_step (aid, now) x \<in> set (sql_update ?Q (claim_step (aid, now)) (steps s))"
      using True x by (force simp: set_sql_update)
    moreover have "step_key (claim_step (aid, now) x) = step_key x" by (simp add: claim_step_def step_key_def)
    ultimately show ?thesis by (intro bexI [of _ "claim_step (aid, now) x"]) auto
  next
    case False
    then have "x \<in> set (sql_update ?Q (claim_step (aid, now)) (steps s))" using x by (force simp: set_sql_update)
    then show ?thesis by blast
  qed
  then show "\<exists>x'\<in>set (steps (snd (beginRunStep aid rid ix t1 now t3 s))). step_key x' = step_key x \<and>
     (s_action_id x \<noteq> None \<longrightarrow> s_action_id x' = s_action_id x)" if "x \<in> set (steps s)"
    using beginRunStep_cases [OF c] c that by auto
qed

lemma markBudgetExhausted_rows:
  "r \<in> set (runs s) \<Longrightarrow> \<exists>r'\<in>set (runs (snd (markBudgetExhausted rid reason now t2 s))). r_id r' = r_id r \<and>
     (r_cancel_requested_at r \<noteq> None \<longrightarrow> r_cancel_requested_at r' \<noteq> None)"
  "x \<in> set (steps s) \<Longrightarrow> \<exists>x'\<in>set (steps (snd (markBudgetExhausted rid reason now t2 s))). step_key x' = step_key x \<and>
     (s_action_id x \<noteq> None \<longrightarrow> s_action_id x' = s_action_id x)"
proof -
  let ?u = "s\<lparr>runs := sql_update (\<lambda>r. r_id r = rid \<and> r_cancel_requested_at r = None) (exhaust_run (reason, now)) (runs s),
          steps := sql_update (unstarted_step rid) (set_step_status (S_budget_exhausted, now)) (steps s)\<rparr>"
  note k = keeps_rows [OF getRun_keeps [of ?u rid t2]]
  { assume r: "r \<in> set (runs s)"
    from update_rows [of "\<lambda>r. r_id r = rid \<and> r_cancel_requested_at r = None" r_id "exhaust_run (reason, now)" r_cancel_requested_at, OF _ r]
    obtain r' where r': "r' \<in> set (runs ?u)" "r_id r' = r_id r" "r_cancel_requested_at r \<noteq> None \<longrightarrow> r_cancel_requested_at r' \<noteq> None"
      by (auto simp: exhaust_run_def)
    from k(1) [OF r'(1)] obtain r'' where "r'' \<in> set (runs (snd (markBudgetExhausted rid reason now t2 s)))"
      "r_id r'' = r_id r'" "r_cancel_requested_at r' \<noteq> None \<longrightarrow> r_cancel_requested_at r'' \<noteq> None"
      unfolding markBudgetExhausted_def by blast
    with r'(2,3) show "\<exists>r'\<in>set (runs (snd (markBudgetExhausted rid reason now t2 s))). r_id r' = r_id r \<and>
     (r_cancel_requested_at r \<noteq> None \<longrightarrow> r_cancel_requested_at r' \<noteq> None)"
      by (intro bexI [of _ r'']) auto }
  { assume x: "x \<in> set (steps s)"
    from update_rows [of "unstarted_step rid" step_key "set_step_status (S_budget_exhausted, now)" s_action_id, OF _ x]
    obtain x' where x': "x' \<in> set (steps ?u)" "step_key x' = step_key x" "s_action_id x \<noteq> None \<longrightarrow> s_action_id x' = s_action_id x"
      by (auto simp: set_step_status_def step_key_def)
    from k(2) [OF x'(1)] obtain x'' where "x'' \<in> set (steps (snd (markBudgetExhausted rid reason now t2 s)))"
      "step_key x'' = step_key x'" "s_action_id x' \<noteq> None \<longrightarrow> s_action_id x'' = s_action_id x'"
      unfolding markBudgetExhausted_def by blast
    with x'(2,3) show "\<exists>x'\<in>set (steps (snd (markBudgetExhausted rid reason now t2 s))). step_key x' = step_key x \<and>
     (s_action_id x \<noteq> None \<longrightarrow> s_action_id x' = s_action_id x)"
      by (intro bexI [of _ x'']) auto }
qed

lemma outcome_rows:
  "x \<in> set (steps s) \<Longrightarrow> \<exists>x'\<in>set (steps (recordRunStepOutcome rid ix st now s)). step_key x' = step_key x \<and>
     (s_action_id x \<noteq> None \<longrightarrow> s_action_id x' = s_action_id x)"
  "runs (recordRunStepOutcome rid ix st now s) = runs s"
  using update_rows [of "\<lambda>t. s_run_id t = rid \<and> s_index t = ix" step_key "set_step_status (st, now)" s_action_id x "steps s"]
  by (auto simp: recordRunStepOutcome_def set_step_status_def step_key_def)

text \<open>What every operation keeps: a cancellation request, and the action a step was given.\<close>

lemma run_op_run:
  "run_op s t \<Longrightarrow> runs_ok s \<Longrightarrow> r \<in> set (runs s) \<Longrightarrow> \<exists>r'\<in>set (runs t). r_id r' = r_id r \<and>
     (r_cancel_requested_at r \<noteq> None \<longrightarrow> r_cancel_requested_at r' \<noteq> None)"
proof (induction rule: run_op.induct)
  case (op_other t s)
  then show ?case by auto
next
  case (op_create s nid now clock i)
  then show ?case using createRun_rows(1) by blast
next
  case (op_plan s rid pl prov accs mid now)
  then show ?case by (blast intro: recordRunPlan_rows(1))
next
  case (op_step aid s rid ix t1 now t3)
  then show ?case by (blast intro: beginRunStep_rows(1))
next
  case (op_exhaust reason s rid now t2)
  then show ?case by (blast intro: markBudgetExhausted_rows(1))
next
  case (op_outcome s rid ix st now)
  then show ?case by (auto simp: outcome_rows(2))
qed (blast intro: keeps_rows(1) beginModelCall_keeps recordModelUsage_keeps claimContinuation_keeps
      requestRunCancellation_keeps getRun_keeps reconcileInterruptedRuns_keeps listRuns_keeps simple_ops_keep)+

lemma run_op_step:
  "run_op s t \<Longrightarrow> runs_ok s \<Longrightarrow> x \<in> set (steps s) \<Longrightarrow> \<exists>x'\<in>set (steps t). step_key x' = step_key x \<and>
     (s_action_id x \<noteq> None \<longrightarrow> s_action_id x' = s_action_id x)"
proof (induction rule: run_op.induct)
  case (op_other t s)
  then show ?case by auto
next
  case (op_create s nid now clock i)
  then show ?case by (auto simp: createRun_rows(2))
next
  case (op_plan s rid pl prov accs mid now)
  then show ?case using recordRunPlan_rows(2) by blast
next
  case (op_step aid s rid ix t1 now t3)
  then show ?case by (blast intro: beginRunStep_rows(2))
next
  case (op_exhaust reason s rid now t2)
  then show ?case by (blast intro: markBudgetExhausted_rows(2))
next
  case (op_outcome s rid ix st now)
  then show ?case by (blast intro: outcome_rows(1))
qed (blast intro: keeps_rows(2) beginModelCall_keeps recordModelUsage_keeps claimContinuation_keeps
      requestRunCancellation_keeps getRun_keeps reconcileInterruptedRuns_keeps listRuns_keeps simple_ops_keep)+

lemma run_row_unique:
  "runs_ok s \<Longrightarrow> r \<in> set (runs s) \<Longrightarrow> r' \<in> set (runs s) \<Longrightarrow> r_id r = r_id r' \<Longrightarrow> r = r'"
  by (auto simp: runs_ok_def run_inv_def intro: key_unique [of r_id])

lemma get_run_row_mem: "runs_ok s \<Longrightarrow> r \<in> set (runs s) \<Longrightarrow> get_run_row (r_id r) s = Some r"
  unfolding get_run_row_def runs_ok_def run_inv_def by (auto intro: sql_get_key)

lemma get_run_rowD: "get_run_row rid s = Some r \<Longrightarrow> r \<in> set (runs s) \<and> r_id r = rid"
  by (auto simp: get_run_row_def dest: sql_get_SomeD)

section \<open>Cancellation is final\<close>

definition cancelled :: "string \<Rightarrow> db \<Rightarrow> bool" where
  "cancelled rid s \<longleftrightarrow> (\<exists>r\<in>set (runs s). r_id r = rid \<and> r_cancel_requested_at r \<noteq> None)"

lemma isCancellationRequested_iff: "runs_ok s \<Longrightarrow> isCancellationRequested rid s \<longleftrightarrow> cancelled rid s"
  by (auto simp: isCancellationRequested_def cancelled_def split: option.splits
      dest: get_run_rowD get_run_row_mem)

lemma cancelled_all: "runs_ok s \<Longrightarrow> cancelled rid s \<Longrightarrow> r \<in> set (runs s) \<Longrightarrow> r_id r = rid \<Longrightarrow> r_cancel_requested_at r \<noteq> None"
  by (auto simp: cancelled_def dest: run_row_unique)

lemma cancelled_op: "runs_ok s \<Longrightarrow> run_op s t \<Longrightarrow> cancelled rid s \<Longrightarrow> cancelled rid t"
  unfolding cancelled_def by (metis run_op_run)

lemma cancelled_keeps: "keeps s t \<Longrightarrow> cancelled rid s \<Longrightarrow> cancelled rid t"
  unfolding cancelled_def by (metis keeps_rows(1))

lemma cancelled_no_changes:
  assumes "runs_ok s" and "cancelled rid s" and "\<And>r. P r \<Longrightarrow> r_id r = rid \<and> r_cancel_requested_at r = None"
  shows "sql_changes P (runs s) = 0"
  unfolding sql_changes_0_iff using cancelled_all [OF assms(1,2)] assms(3) by blast

lemma cancelled_claim:
  assumes "runs_ok s" and "cancelled rid s"
  shows "fst (claimContinuation rid t1 now s) = False"
proof -
  obtain v s' where g: "getRun rid t1 s = (v, s')" by (cases "getRun rid t1 s")
  with getRun_keeps [of s rid t1] have "keeps s s'" by simp
  with assms have "runs_ok s'" "cancelled rid s'" by (blast intro: keeps_runs_ok cancelled_keeps)+
  from cancelled_no_changes [OF this, of "\<lambda>r. r_id r = rid \<and> r_status r = R_ready_to_continue \<and> \<not> r_continuation_claimed r \<and>
      r_continuation_after_step r \<noteq> None \<and> r_cancel_requested_at r = None"] g
  show ?thesis by (auto simp: claimContinuation_def Let_def split: option.splits)
qed

text \<open>
  C6. Cancellation is final. Once a run's cancellation has been requested, after any further
  operations it still is, and no model call, no step and no continuation of that run can be
  started: each call is refused and changes nothing.
\<close>

theorem cancelled_run_starts_nothing:
  assumes "reachable_runs s" and "isCancellationRequested rid s" and "run_of run_op s t"
  shows "isCancellationRequested rid t \<and>
         (\<exists>e. beginModelCall rid limit t1 now t = (Inl e, t)) \<and>
         (\<exists>e. beginRunStep aid rid ix t1 now t3 t = (Inl e, t)) \<and>
         fst (claimContinuation rid t1 now t) = False"
proof -
  have ok: "runs_ok s" by (rule reachable_runs_ok [OF assms(1)])
  have okt: "runs_ok t" by (rule rsys.run_inv [OF assms(3) ok])
  have "cancelled rid s" using assms(2) isCancellationRequested_iff [OF ok] by simp
  with ok assms(3) have c: "cancelled rid t" by (blast intro: rsys.run_preserves cancelled_op)
  have m: "sql_changes (\<lambda>r. r_id r = rid \<and> r_model_call_count r < limit \<and>
      r_status r \<in> {R_planning, R_running} \<and> within_budget now r) (runs t) = 0"
    by (rule cancelled_no_changes [OF okt c]) (simp add: within_budget_def)
  have b: "sql_changes (\<lambda>r. r_id r = rid \<and> within_budget now r) (runs t) = 0"
    by (rule cancelled_no_changes [OF okt c]) (simp add: within_budget_def)
  show ?thesis
    using isCancellationRequested_iff [OF okt] c cancelled_claim [OF okt c] m b
    by (auto simp: beginModelCall_def beginRunStep_def Let_def split: option.splits)
qed

section \<open>A step is started once\<close>

definition started_as :: "string \<times> nat \<Rightarrow> string \<Rightarrow> db \<Rightarrow> bool" where
  "started_as k a s \<longleftrightarrow> (\<exists>x\<in>set (steps s). step_key x = k \<and> s_action_id x = Some a)"

lemma started_op: "runs_ok s \<Longrightarrow> run_op s t \<Longrightarrow> started_as k a s \<Longrightarrow> started_as k a t"
  unfolding started_as_def by (metis option.distinct(1) run_op_step)

text \<open>
  A step is started once. After \<open>beginRunStep\<close> has given a step its action id, and after
  any further operations, the step still has that id, and every other attempt to start it
  is refused and changes nothing.
\<close>

theorem step_started_once:
  assumes "reachable_runs s" and "aid \<noteq> []" and "beginRunStep aid rid ix t1 now t3 s = (Inr aid, s')"
    and "run_of run_op s' t"
  shows "(\<exists>x\<in>set (steps t). s_run_id x = rid \<and> s_index x = ix \<and> s_action_id x = Some aid) \<and>
         (\<exists>e. beginRunStep aid' rid ix t1' now' t3' t = (Inl e, t))"
proof -
  have ok: "runs_ok s" by (rule reachable_runs_ok [OF assms(1)])
  have ok': "runs_ok s'" using beginRunStep_ok [OF ok assms(2), of rid ix t1 now t3] assms(3) by simp
  have okt: "runs_ok t" by (rule rsys.run_inv [OF assms(4) ok'])
  let ?Q = "\<lambda>x. s_run_id x = rid \<and> s_index x = ix \<and> s_status x \<in> {S_planned, S_waiting_dependency}"
  from beginRunStep_cases [OF assms(3)] have ch: "sql_changes ?Q (steps s) = 1"
    and s': "steps s' = sql_update ?Q (claim_step (aid, now)) (steps s)" by auto
  from sql_changes_1_ex [OF ch] obtain y where y: "y \<in> set (steps s)" "?Q y" by blast
  then have "claim_step (aid, now) y \<in> set (steps s')" unfolding s' set_sql_update by force
  moreover have "step_key (claim_step (aid, now) y) = (rid, ix)" "s_action_id (claim_step (aid, now) y) = Some aid"
    using y by (auto simp: claim_step_def step_key_def)
  ultimately have "started_as (rid, ix) aid s'" unfolding started_as_def by blast
  then have "started_as (rid, ix) aid t"
    by (rule rsys.run_preserves [where Q = "started_as (rid, ix) aid", rotated 3]) (use started_op assms(4) ok' in blast)+
  then obtain x where x: "x \<in> set (steps t)" "s_run_id x = rid" "s_index x = ix" "s_action_id x = Some aid"
    by (auto simp: started_as_def step_key_def)
  have "\<not> ?Q z" if z: "z \<in> set (steps t)" for z
  proof
    assume "?Q z"
    with z x okt have "z = x" by (auto simp: runs_ok_def run_inv_def step_key_def intro: key_unique [of step_key])
    with \<open>?Q z\<close> x okt show False by (auto simp: runs_ok_def run_inv_def step_ok_def)
  qed
  then have "sql_changes ?Q (steps t) = 0" by (auto simp: sql_changes_0_iff)
  with x show ?thesis by (auto simp: beginRunStep_def Let_def split: option.splits)
qed

section \<open>What a completed run means\<close>

lemma classifyRun_completed:
  "classifyRun sts c False b = R_completed \<Longrightarrow> x \<in> set sts \<Longrightarrow>
     x \<in> {S_executed, S_budget_exhausted, S_leased, S_executing, S_retry_wait, S_completed, S_dead_letter}"
  by (cases x) (auto simp: classifyRun_def TERMINAL_def Let_def split: if_splits)

lemma classifyRun_completed_running:
  "classifyRun sts c k b = R_completed \<Longrightarrow> \<not> k \<and> (b \<longrightarrow> (\<exists>x\<in>set sts. x \<in> {S_waiting_for_action, S_approved, S_queued, S_running, S_retrying}))"
  by (auto simp: classifyRun_def Let_def split: if_splits)

lemma current_status_executed:
  assumes "s_action_id x = Some aid" and "aid \<noteq> []"
    and "current_status s x \<in> {S_executed, S_budget_exhausted, S_leased, S_executing, S_retry_wait, S_completed, S_dead_letter}"
  shows "(\<exists>a. getAgentAction aid s = Some a \<and> a_status a = AExecuted) \<or>
         (\<exists>q. getQueuedActionByActionId aid s = Some q \<and> q_status q = Completed)"
proof -
  have "step_of_action_status st \<in> {S_executed, S_budget_exhausted, S_leased, S_executing, S_retry_wait, S_completed, S_dead_letter}
      \<Longrightarrow> st = AExecuted" for st by (cases st) auto
  with assms show ?thesis
    by (auto simp: current_status_def currentStepStatus_def join_step_def Let_def split: option.splits if_splits)
qed

text \<open>
  C8. What a completed run means. When \<open>getRun\<close> reports a run with steps as completed, no
  cancellation was requested, and every step of it was given an action that has executed
  or whose queue row is completed.
\<close>

theorem completed_run_executed_every_step:
  assumes "reachable_runs s" and "getRun rid now s = (Some v, s')" and "rv_status v = R_completed"
    and "x \<in> set (steps s)" and "s_run_id x = rid"
  shows "\<not> rv_cancellationRequested v \<and>
         (\<exists>aid. s_action_id x = Some aid \<and>
            ((\<exists>a. getAgentAction aid s = Some a \<and> a_status a = AExecuted) \<or>
             (\<exists>q. getQueuedActionByActionId aid s = Some q \<and> q_status q = Completed)))"
proof -
  have ok: "runs_ok s" by (rule reachable_runs_ok [OF assms(1)])
  let ?sts = "map (current_status s) (run_steps rid s)"
  from assms(2,3) obtain r where r: "get_run_row rid s = Some r" "run_status_now r ?sts = R_completed"
    "rv_cancellationRequested v = (r_cancel_requested_at r \<noteq> None)"
    by (auto simp: getRun_def view_of_def Let_def split: option.splits)
  have mem: "x \<in> set (run_steps rid s)" using assms(4,5) by (simp add: run_steps_def)
  then have "?sts \<noteq> []" by auto
  with r(2) have cl: "classifyRun ?sts (r_continuation_after_step r \<noteq> None) (r_cancel_requested_at r \<noteq> None)
      (truthy_text (r_budget_stop_reason r)) = R_completed"
    by (auto simp: run_status_now_def split: if_splits)
  note cc = classifyRun_completed_running [OF cl]
  from cl cc have cl': "classifyRun ?sts (r_continuation_after_step r \<noteq> None) False
      (truthy_text (r_budget_stop_reason r)) = R_completed" by simp
  note c = classifyRun_completed [OF cl']
  have nb: "\<not> truthy_text (r_budget_stop_reason r)"
  proof
    assume "truthy_text (r_budget_stop_reason r)"
    with cc obtain y where "y \<in> set ?sts" "y \<in> {S_waiting_for_action, S_approved, S_queued, S_running, S_retrying}" by blast
    with c [of y] show False by auto
  qed
  have xs: "current_status s x \<in> {S_executed, S_budget_exhausted, S_leased, S_executing, S_retry_wait, S_completed, S_dead_letter}"
    by (rule c) (use mem in auto)
  have so: "step_ok x" "stop_ok (runs s) x" using ok assms(4) by (auto simp: runs_ok_def run_inv_def)
  show ?thesis
  proof (cases "s_action_id x")
    case None
    with xs so(1) have "stopped_step x"
      by (auto simp: current_status_unstarted step_ok_def stopped_step_def split: if_splits)
    with so(2) get_run_rowD [OF r(1)] assms(5) nb cc show ?thesis by (auto simp: stop_ok_def halted_run_def)
  next
    case (Some aid)
    with so(1) have "aid \<noteq> []" by (simp add: step_ok_def)
    from current_status_executed [OF Some this xs] Some cc r(3) show ?thesis by auto
  qed
qed

section \<open>Goal budgets\<close>

lemma count_model_call_sel: "r_goal_id (count_model_call now r) = r_goal_id r"
  "r_model_call_count (count_model_call now r) = Suc (r_model_call_count r)"
  by (simp_all add: count_model_call_def)

lemma sum_list_update_one:
  assumes "distinct (map r_id rs)" and "\<And>r. P r \<Longrightarrow> r_id r = rid \<and> r_goal_id r = Some g" and "sql_changes P rs = 1"
  shows "sum_list (map r_model_call_count (filter (\<lambda>r. r_goal_id r = Some g) (sql_update P (count_model_call now) rs))) =
         Suc (sum_list (map r_model_call_count (filter (\<lambda>r. r_goal_id r = Some g) rs)))"
  using assms
proof (induction rs)
  case (Cons r rs)
  show ?case
  proof (cases "P r")
    case True
    with Cons.prems have "\<forall>x\<in>set rs. \<not> P x" by (force simp: image_iff)
    then have "sql_update P (count_model_call now) rs = rs" by (simp add: sql_update_def map_idI)
    with True Cons.prems(2) [OF True] show ?thesis by (simp add: count_model_call_sel)
  next
    case False
    with Cons show ?thesis by (simp add: sql_changes_def)
  qed
qed (simp add: sql_changes_def)

text \<open>
  Model-call budget of a goal. When a model call of a run that belongs to a goal is
  allowed, the goal is active at the revision the run was started for, exactly one call is
  charged, and the calls of all runs of the goal together stay within its budget.
\<close>

theorem model_call_within_goal_budget:
  assumes "reachable_runs s" and "beginModelCall rid limit t1 now s = (Inr (), s')"
    and "get_run_row rid s = Some r" and "r_goal_id r = Some g" and "g \<noteq> []"
  shows "\<exists>goal. get_goal_row g s = Some goal \<and> g_status goal = G_active \<and> Some (g_revision goal) = r_goal_revision r \<and>
           gu_modelCalls (goalUsage g s') = Suc (gu_modelCalls (goalUsage g s)) \<and>
           int (gu_modelCalls (goalUsage g s')) \<le> maxModelCalls (g_budgets goal)"
proof -
  let ?P = "\<lambda>r. r_id r = rid \<and> r_model_call_count r < limit \<and> r_status r \<in> {R_planning, R_running} \<and> within_budget now r"
  have ok: "runs_ok s" by (rule reachable_runs_ok [OF assms(1)])
  from assms(2) have gs: "getGoalModelCallStopReason rid s = None" and ch: "sql_changes ?P (runs s) = 1"
    and s': "s' = s\<lparr>runs := sql_update ?P (count_model_call now) (runs s)\<rparr>"
    by (auto simp: beginModelCall_def Let_def split: option.splits if_splits)
  obtain c cs where g: "g = c # cs" using assms(5) by (cases g) auto
  from gs assms(3,4) g obtain goal where goal: "get_goal_row g s = Some goal" "goal_current r goal"
    "int (gu_modelCalls (goalUsage g s)) < maxModelCalls (g_budgets goal)"
    by (auto simp: getGoalModelCallStopReason_def split: option.splits if_splits)
  have P: "r_id x = rid \<and> r_goal_id x = Some g" if "?P x" "x \<in> set (runs s)" for x
    using that assms(4) get_run_rowD [OF assms(3)] run_row_unique [OF ok, of x r] by auto
  let ?P' = "\<lambda>x. ?P x \<and> r_goal_id x = Some g"
  have same: "sql_update ?P f (runs s) = sql_update ?P' f (runs s)" "sql_changes ?P (runs s) = sql_changes ?P' (runs s)" for f
    using P by (auto simp: sql_update_def sql_changes_def intro: arg_cong [where f = length] filter_cong)
  have "gu_modelCalls (goalUsage g s') = Suc (gu_modelCalls (goalUsage g s))"
    unfolding s' same(1) goalUsage_def goal_runs_def Let_def
    using sum_list_update_one [of "runs s" ?P' rid g now] ok ch same(2)
    by (simp add: runs_ok_def run_inv_def)
  with goal show ?thesis by (auto simp: goal_current_def)
qed

section \<open>Runs that wait for a retry\<close>

lemma classifyRun_retry:
  "set sts \<subseteq> {S_executed, S_retry_wait, S_dead_letter} \<Longrightarrow> classifyRun sts False False False = R_completed"
  by (auto simp: classifyRun_def TERMINAL_def Let_def subset_iff)

lemma set_run_steps: "set (run_steps rid s) = {t \<in> set (steps s). s_run_id t = rid}"
  by (auto simp: run_steps_def)

lemma wake_candidates_wakeable: "set (listRunWakeCandidates after limit s) \<subseteq> r_id ` set (filter wakeable (runs s))"
proof -
  let ?ids = "sort (map r_id (filter wakeable (runs s)))"
  have "set ?ids = r_id ` set (filter wakeable (runs s))" by simp
  moreover have "set (take n (filter Q ?ids)) \<subseteq> set ?ids" "set (take n ?ids) \<subseteq> set ?ids" for n Q
    using set_take_subset [of n "filter Q ?ids"] set_take_subset [of n ?ids] filter_is_subset [of Q ?ids] by blast+
  moreover have "set (if b then xs else ys) \<subseteq> A" if "set xs \<subseteq> A" "set ys \<subseteq> A" for b and xs ys :: "string list" and A
    using that by simp
  ultimately show ?thesis unfolding listRunWakeCandidates_def Let_def by metis
qed

text \<open>
  The status texts of the queue are not those the run store knows: a worker reports an
  action that will be retried as \<open>retry_wait\<close> (and one given up as \<open>dead_letter\<close>), the agent
  stores that text as the outcome of the step, and \<open>classifyRun\<close> looks for \<open>retrying\<close>. So
  \<open>finishRun\<close> records a run with such a step as completed, and the run is no candidate for
  being woken when the retry is done.
\<close>

theorem retry_wait_run_recorded_completed:
  assumes "reachable_runs s" and "get_run_row rid s = Some r" and "r_cancel_requested_at r = None"
    and "r_budget_stop_reason r = None" and "r_continuation_after_step r = None"
    and "\<forall>t\<in>set (steps s). s_run_id t = rid \<longrightarrow> s_status t \<in> {S_executed, S_retry_wait, S_dead_letter}"
  shows "fst (finishRun rid resp now s) = R_completed \<and>
         rid \<notin> set (listRunWakeCandidates after limit (snd (finishRun rid resp now s)))"
proof -
  have "set (map s_status (run_steps rid s)) \<subseteq> {S_executed, S_retry_wait, S_dead_letter}"
    using assms(6) by (auto simp: set_run_steps)
  from classifyRun_retry [OF this] have c: "fst (finishRun rid resp now s) = R_completed"
    "runs (snd (finishRun rid resp now s)) = sql_update (\<lambda>r. r_id r = rid) (finish_run_row (R_completed, resp, now)) (runs s)"
    using assms(2-5) by (simp_all add: finishRun_def Let_def truthy_text_def)
  have "\<not> wakeable x" if x: "x \<in> set (runs (snd (finishRun rid resp now s)))" "r_id x = rid" for x
  proof -
    from x(1) obtain y where y: "x = (if r_id y = rid then finish_run_row (R_completed, resp, now) y else y)"
      unfolding c(2) set_sql_update by blast
    with x(2) show ?thesis by (cases "r_id y = rid") (simp_all add: finish_run_row_def wakeable_def)
  qed
  then have "rid \<notin> r_id ` set (filter wakeable (runs (snd (finishRun rid resp now s))))" by auto
  with wake_candidates_wakeable [of after limit "snd (finishRun rid resp now s)"] c(1) show ?thesis by blast
qed

section \<open>A concrete run\<close>

text \<open>A run created, planned with one step, its step started; then its action, executed.\<close>

definition ex_run_input :: run_input where
  "ex_run_input = \<lparr>ri_correlationId = ''c'', ri_actorId = ''o'', ri_objective = ''x'', ri_voice = None,
     ri_conversationId = None, ri_goalId = None, ri_goalWakeId = None\<rparr>"

definition ex_plan :: plan where
  "ex_plan = \<lparr>pl_actions = [\<lparr>pa_tool = ''tasks.create'', pa_arguments = JObj [], pa_dependsOn = []\<rparr>],
     pl_reasoning = None, pl_continue = False\<rparr>"

definition ex_created :: db where "ex_created = snd (createRun ''r'' 0 0 ex_run_input empty_db)"
definition ex_planned :: db where "ex_planned = snd (recordRunPlan ''r'' ex_plan [] [] None 1 ex_created)"
definition ex_started :: db where "ex_started = snd (beginRunStep ''a'' ''r'' 0 2 2 2 ex_planned)"

definition ex_planned_run :: run_row where
  "ex_planned_run = plan_run (ex_plan, 0, 1) (new_run ''r'' 0 0 ex_run_input None)"

definition ex_step :: step_row where
  "ex_step = \<lparr>s_run_id = ''r'', s_index = 0, s_tool = ''tasks.create'', s_arguments = JObj [], s_depends_on = [],
     s_context_provenance = [], s_account_context = None, s_model_id = None, s_status = S_planned,
     s_action_id = None, s_created_at = 1, s_updated_at = 1\<rparr>"

lemma ex_created_eq: "ex_created = empty_db\<lparr>runs := [new_run ''r'' 0 0 ex_run_input None]\<rparr>"
  by (simp add: ex_created_def createRun_def eff_defs ex_run_input_def insert_run_def get_run_row_def empty_db_def
      new_run_def)

lemma ex_planned_eq: "ex_planned = empty_db\<lparr>runs := [ex_planned_run], steps := [ex_step]\<rparr>"
  by (simp add: ex_planned_def recordRunPlan_def ex_created_eq ex_plan_def get_run_row_def new_run_def
      next_step_index_def step_of_action_def js_nth_def ex_planned_run_def ex_step_def empty_db_def Let_def)

lemmas ex_run_row = ex_planned_run_def plan_run_def new_run_def ex_plan_def ex_run_input_def
  DEFAULT_RUN_ELAPSED_MS_def DEFAULT_RUN_STEP_LIMIT_def

lemma ex_started_step: "beginRunStep ''a'' ''r'' 0 2 2 2 ex_planned = (Inr ''a'', ex_started)"
  and ex_started_eq: "ex_started = empty_db\<lparr>runs := [count_step 2 ex_planned_run], steps := [claim_step (''a'', 2) ex_step]\<rparr>"
proof -
  have "beginRunStep ''a'' ''r'' 0 2 2 2 ex_planned =
    (Inr ''a'', empty_db\<lparr>runs := [count_step 2 ex_planned_run], steps := [claim_step (''a'', 2) ex_step]\<rparr>)"
    by (simp add: beginRunStep_def ex_planned_eq getBudgetStopReason_def get_run_row_def sql_changes_def ex_step_def
        ex_run_row deadline_passed_def within_budget_def deadline_ahead_def Let_def)
  then show "beginRunStep ''a'' ''r'' 0 2 2 2 ex_planned = (Inr ''a'', ex_started)"
    "ex_started = empty_db\<lparr>runs := [count_step 2 ex_planned_run], steps := [claim_step (''a'', 2) ex_step]\<rparr>"
    by (simp_all add: ex_started_def)
qed

lemma reachable_runs_op: "reachable_runs s \<Longrightarrow> run_op s t \<Longrightarrow> reachable_runs t"
  unfolding reachable_runs_def by (rule run_more)

lemma ex_runs_reachable: "reachable_runs ex_created" "reachable_runs ex_planned" "reachable_runs ex_started"
proof -
  have "reachable_runs empty_db" by (simp add: reachable_runs_def run_start)
  then show c: "reachable_runs ex_created" unfolding ex_created_def by (rule reachable_runs_op) (rule op_create)
  then show p: "reachable_runs ex_planned" unfolding ex_planned_def by (rule reachable_runs_op) (rule op_plan)
  then show "reachable_runs ex_started" unfolding ex_started_def by (rule reachable_runs_op) (rule op_step, simp)
qed

theorem run_budgets_hold_witness:
  "\<exists>r\<in>set (runs ex_started). r_step_count r = 1 \<and> r_model_call_count r \<le> 3"
  using run_budgets_hold [OF ex_runs_reachable(3), of "count_step 2 ex_planned_run"]
  by (simp add: ex_started_eq count_step_def ex_run_row)

theorem step_started_once_witness:
  "\<exists>e. beginRunStep ''b'' ''r'' 0 3 3 3 (failRun ''r'' None 3 ex_started) = (Inl e, failRun ''r'' None 3 ex_started)"
proof -
  have "run_of run_op ex_started (failRun ''r'' None 3 ex_started)"
    by (rule run_more [OF run_start]) (rule op_failrun)
  from step_started_once [OF ex_runs_reachable(2) _ ex_started_step this] show ?thesis by simp
qed

theorem cancelled_run_starts_nothing_witness:
  "\<exists>s. reachable_runs s \<and> isCancellationRequested ''r'' s \<and> (\<exists>e. beginRunStep ''b'' ''r'' 0 9 9 9 s = (Inl e, s))"
proof -
  let ?s = "snd (requestRunCancellation ''r'' ''o'' 4 4 4 ex_planned)"
  have r: "reachable_runs ?s" by (rule reachable_runs_op [OF ex_runs_reachable(2) op_cancel_run])
  have "isCancellationRequested ''r'' ?s"
    by (simp add: requestRunCancellation_def getRun_def ex_planned_eq get_run_row_def run_status_now_def run_steps_def
        isCancellationRequested_def ex_run_row ex_step_def cancel_run_def set_run_status_def view_of_def Let_def)
  with r cancelled_run_starts_nothing [OF r this run_start] show ?thesis by blast
qed

definition ex_done :: db where
  "ex_done = snd (finishRun ''r'' None 5 (recordRunStepOutcome ''r'' 0 S_executed 4
     (ex_started\<lparr>actions := [audit_row (\<lparr>au_id = None, au_requestedBy = [], au_requestText = None, au_model = None,
       au_tool = ''tasks.create'', au_arguments = JObj [], au_reasoningSummary = None, au_policyDomain = None,
       au_policyRule = None, au_autonomyLevel = Level 4, au_requiresApproval = False, au_status = AExecuted,
       au_correlationId = None, au_contextProvenance = [], au_accountBinding = None, au_packageContext = None\<rparr>) ''a'' None 3]\<rparr>)))"

lemma ex_done_reachable: "reachable_runs ex_done"
proof -
  have u: "reachable_runs (ex_started\<lparr>actions := acts\<rparr>)" for acts by (rule reachable_runs_op [OF ex_runs_reachable(3) op_other]) simp_all
  have "reachable_runs (recordRunStepOutcome ''r'' 0 S_executed 4 (ex_started\<lparr>actions := acts\<rparr>))" for acts
    by (rule reachable_runs_op [OF u op_outcome]) (auto simp: ex_started_eq claim_step_def)
  then show ?thesis unfolding ex_done_def by (rule reachable_runs_op) (rule op_finish)
qed

theorem completed_run_executed_every_step_witness:
  "\<exists>v s'. getRun ''r'' 6 ex_done = (Some v, s') \<and> rv_status v = R_completed \<and>
     (\<exists>a. getAgentAction ''a'' ex_done = Some a \<and> a_status a = AExecuted)"
proof -
  obtain v s' where g: "getRun ''r'' 6 ex_done = (Some v, s')" "rv_status v = R_completed"
    by (simp add: getRun_def ex_done_def finishRun_def recordRunStepOutcome_def ex_started_eq get_run_row_def
        run_steps_def run_status_now_def classifyRun_def TERMINAL_def ex_run_row ex_step_def claim_step_def count_step_def
        finish_run_row_def set_step_status_def current_status_def currentStepStatus_def join_step_def getAgentAction_def
        view_of_def truthy_text_def empty_db_def Let_def)
  let ?x = "set_step_status (S_executed, 4) (claim_step (''a'', 2) ex_step)"
  have x: "?x \<in> set (steps ex_done)" "s_run_id ?x = ''r''" "s_action_id ?x = Some ''a''"
    by (simp_all add: ex_done_def finishRun_def recordRunStepOutcome_def ex_started_eq claim_step_def ex_step_def
        set_step_status_def Let_def)
  have "getQueuedActionByActionId ''a'' ex_done = None"
    by (simp add: ex_done_def finishRun_def recordRunStepOutcome_def ex_started_eq empty_db_def
        getQueuedActionByActionId_def Let_def)
  with completed_run_executed_every_step [OF ex_done_reachable g x(1,2)] x(3) g show ?thesis by auto
qed

definition ex_retrying :: db where
  "ex_retrying = recordRunStepOutcome ''r'' 0 S_retry_wait 4 ex_started"

theorem retry_wait_run_recorded_completed_witness:
  "reachable_runs ex_retrying \<and> fst (finishRun ''r'' None 5 ex_retrying) = R_completed"
proof
  show r: "reachable_runs ex_retrying"
    unfolding ex_retrying_def
    by (rule reachable_runs_op [OF ex_runs_reachable(3) op_outcome]) (auto simp: ex_started_eq claim_step_def)
  have "get_run_row ''r'' ex_retrying = Some (count_step 2 ex_planned_run)"
    by (simp add: get_run_row_def ex_retrying_def recordRunStepOutcome_def ex_started_eq ex_run_row)
  from retry_wait_run_recorded_completed [OF r this, of None 5]
  show "fst (finishRun ''r'' None 5 ex_retrying) = R_completed"
    by (simp add: count_step_def ex_run_row ex_retrying_def recordRunStepOutcome_def ex_started_eq set_step_status_def
        claim_step_def ex_step_def)
qed

definition ex_goal :: goal_row where
  "ex_goal = \<lparr>g_id = ''g'', g_owner_id = ''o'', g_objective = ''x'', g_completion_criteria = [''y''], g_constraints = [],
     g_domains = [''web''], g_consequential = False, g_budgets = \<lparr>maxRuns = 2, maxModelCalls = 4, maxTokens = 5000\<rparr>,
     g_status = G_draft, g_revision = 1, g_created_at = 0, g_updated_at = 0\<rparr>"

definition ex_goal_run :: db where
  "ex_goal_run = snd (createRun ''r'' 0 0 (ex_run_input\<lparr>ri_goalId := Some ''g''\<rparr>) (empty_db\<lparr>goals := [ex_goal]\<rparr>))"

lemma ex_goal_run_eq: "ex_goal_run = empty_db\<lparr>goals := [activate_goal 0 ex_goal],
    runs := [new_run ''r'' 0 0 (ex_run_input\<lparr>ri_goalId := Some ''g''\<rparr>) (Some 1)]\<rparr>"
  by (simp add: ex_goal_run_def createRun_def eff_defs ex_run_input_def start_goal_def get_goal_row_def ex_goal_def
      goalUsage_def goal_runs_def insert_run_def get_run_row_def new_run_def empty_db_def Let_def)

theorem model_call_within_goal_budget_witness:
  "\<exists>s'. beginModelCall ''r'' 3 1 1 ex_goal_run = (Inr (), s') \<and> gu_modelCalls (goalUsage ''g'' s') = 1"
proof -
  have "reachable_runs (empty_db\<lparr>goals := [ex_goal]\<rparr>)"
    by (rule reachable_runs_op [of empty_db]) (auto simp: reachable_runs_def run_start intro: op_other)
  then have r: "reachable_runs ex_goal_run" unfolding ex_goal_run_def by (rule reachable_runs_op) (rule op_create)
  let ?r = "new_run ''r'' 0 0 (ex_run_input\<lparr>ri_goalId := Some ''g''\<rparr>) (Some 1)"
  have g: "get_run_row ''r'' ex_goal_run = Some ?r" "r_goal_id ?r = Some ''g''"
    by (simp_all add: get_run_row_def ex_goal_run_eq new_run_def)
  have b: "beginModelCall ''r'' 3 1 1 ex_goal_run = (Inr (), snd (beginModelCall ''r'' 3 1 1 ex_goal_run))"
    by (simp add: beginModelCall_def getBudgetStopReason_def getGoalModelCallStopReason_def get_run_row_def get_goal_row_def
        ex_goal_run_eq new_run_def ex_run_input_def deadline_passed_def goal_current_def goalUsage_def goal_runs_def
        activate_goal_def ex_goal_def within_budget_def deadline_ahead_def sql_changes_def DEFAULT_RUN_ELAPSED_MS_def
        DEFAULT_RUN_STEP_LIMIT_def Let_def)
  have "gu_modelCalls (goalUsage ''g'' ex_goal_run) = 0"
    by (simp add: goalUsage_def goal_runs_def ex_goal_run_eq new_run_def Let_def)
  with model_call_within_goal_budget [OF r b g] b show ?thesis by auto
qed

end
