(* ===== verification/U2_Goals.thy ===== *)
theory U2_Goals
  imports U2_Runs
begin

text \<open>
  Goals: \<open>server/agent/goal-store.js\<close>, over the tables \<open>goals\<close>, \<open>goal_wakes\<close>,
  \<open>goal_research_schedules\<close> and \<open>triggers\<close>, and the redacted evidence view of a goal's run. A
  request body is a JavaScript value. The en dash of two messages is written as a hyphen.
\<close>

section \<open>Validation of a draft\<close>

definition DOMAINS :: "string list" where
  "DOMAINS = [''web'', ''email'', ''calendar'', ''contacts'', ''tasks'']"

definition FIELDS :: "string list" where
  "FIELDS = [''objective'', ''completionCriteria'', ''constraints'', ''permittedScope'', ''budgets'']"

definition boundedText :: "jsval option \<Rightarrow> nat \<Rightarrow> string \<Rightarrow> string res" where
  "boundedText value most field =
     (let err = Inl (HttpError 400 (field @ '' must be 1-'' @ nat_str most @ '' characters'')) in
      case value of
        Some (JStr s) \<Rightarrow> if js_trim s = [] \<or> length s > most then err else Inr (js_trim s)
      | _ \<Rightarrow> err)"

fun map_res :: "('a \<Rightarrow> 'b res) \<Rightarrow> 'a list \<Rightarrow> 'b list res" where
  "map_res f [] = Inr []"
| "map_res f (x # xs) =
     (case f x of
        Inl e \<Rightarrow> Inl e
      | Inr y \<Rightarrow> (case map_res f xs of Inl e \<Rightarrow> Inl e | Inr ys \<Rightarrow> Inr (y # ys)))"

definition boundedTexts :: "jsval option \<Rightarrow> nat \<Rightarrow> nat \<Rightarrow> nat \<Rightarrow> string \<Rightarrow> string list res" where
  "boundedTexts value least most chars field =
     (case value of
        Some (JArr vs) \<Rightarrow>
          if length vs < least \<or> length vs > most
          then Inl (HttpError 400 (field @ '' must have '' @ nat_str least @ ''-'' @ nat_str most @ '' entries''))
          else map_res (\<lambda>v. boundedText (Some v) chars field) vs
      | _ \<Rightarrow> Inl (HttpError 400 (field @ '' must have '' @ nat_str least @ ''-'' @ nat_str most @ '' entries'')))"

text \<open>\<open>Number.isSafeInteger\<close>: the integer a value is, if it is one of at most 53 bits.\<close>

definition safe_integer :: "jsval option \<Rightarrow> int option" where
  "safe_integer v =
     (case v of
        Some (JNum n) \<Rightarrow> if of_int \<lfloor>n\<rfloor> = n \<and> \<bar>\<lfloor>n\<rfloor>\<bar> < 2 ^ 53 then Some \<lfloor>n\<rfloor> else None
      | _ \<Rightarrow> None)"

definition integerBetween :: "jsval option \<Rightarrow> int \<Rightarrow> int \<Rightarrow> int option" where
  "integerBetween v least most =
     (case safe_integer v of Some n \<Rightarrow> if least \<le> n \<and> n \<le> most then Some n else None | None \<Rightarrow> None)"

record goal_draft =
  d_objective :: string
  d_completionCriteria :: "string list"
  d_constraints :: "string list"
  d_domains :: "string list"
  d_consequential :: bool
  d_budgets :: budgets

fun text_list :: "jsval list \<Rightarrow> string list option" where
  "text_list [] = Some []"
| "text_list (JStr s # vs) = map_option ((#) s) (text_list vs)"
| "text_list (_ # vs) = None"

text \<open>The scope: its domains and whether consequential actions are in it.\<close>

definition validScope :: "jsval option \<Rightarrow> (string list \<times> bool) option" where
  "validScope scope =
     (case scope of
        Some (JObj ps) \<Rightarrow>
          if list_all (\<lambda>p. fst p \<in> {''domains'', ''consequentialActions''}) ps then
            (case (js_get scope ''domains'', js_get scope ''consequentialActions'') of
               (Some (JArr vs), Some (JBool b)) \<Rightarrow>
                 (case text_list vs of
                    Some ds \<Rightarrow> if length ds \<le> 5 \<and> set ds \<subseteq> set DOMAINS \<and> distinct ds then Some (ds, b) else None
                  | None \<Rightarrow> None)
             | _ \<Rightarrow> None)
          else None
      | _ \<Rightarrow> None)"

definition validBudgets :: "jsval option \<Rightarrow> budgets option" where
  "validBudgets v =
     (case v of
        Some (JObj ps) \<Rightarrow>
          if list_all (\<lambda>p. fst p \<in> {''maxRuns'', ''maxModelCalls'', ''maxTokens''}) ps then
            (case (integerBetween (js_get v ''maxRuns'') 1 100, integerBetween (js_get v ''maxModelCalls'') 1 300,
                   integerBetween (js_get v ''maxTokens'') 1000 1000000) of
               (Some a, Some b, Some c) \<Rightarrow> Some \<lparr>maxRuns = a, maxModelCalls = b, maxTokens = c\<rparr>
             | _ \<Rightarrow> None)
          else None
      | _ \<Rightarrow> None)"

definition validateDraft :: "jsval \<Rightarrow> goal_draft res" where
  "validateDraft input =
     (case input of
        JObj ps \<Rightarrow>
          if \<not> list_all (\<lambda>p. fst p \<in> set FIELDS) ps then Inl (HttpError 400 ''Invalid goal draft fields'')
          else
            (let get = js_get (Some input) in
             case boundedText (get ''objective'') 2000 ''objective'' of
               Inl e \<Rightarrow> Inl e
             | Inr objective \<Rightarrow>
             (case boundedTexts (get ''completionCriteria'') 1 8 300 ''completionCriteria'' of
               Inl e \<Rightarrow> Inl e
             | Inr criteria \<Rightarrow>
             (case boundedTexts (if get ''constraints'' \<in> {None, Some JNull} then Some (JArr []) else get ''constraints'')
                     0 10 300 ''constraints'' of
               Inl e \<Rightarrow> Inl e
             | Inr constraints \<Rightarrow>
             (case validScope (get ''permittedScope'') of
               None \<Rightarrow> Inl (HttpError 400 ''Invalid permittedScope'')
             | Some (ds, conseq) \<Rightarrow>
             (case validBudgets (get ''budgets'') of
               None \<Rightarrow> Inl (HttpError 400 ''Invalid budgets'')
             | Some b \<Rightarrow>
                 Inr \<lparr>d_objective = objective, d_completionCriteria = criteria, d_constraints = constraints,
                      d_domains = ds, d_consequential = conseq, d_budgets = b\<rparr>)))))
      | _ \<Rightarrow> Inl (HttpError 400 ''Invalid goal draft fields''))"

section \<open>The owner's view of a goal\<close>

record linked_run =
  lr_id :: string
  lr_status :: run_status
  lr_objectiveStatus :: string
  lr_createdAt :: int
  lr_updatedAt :: int

record goal_view =
  gv_goal :: goal_row
  gv_executionEnabled :: bool
  gv_manualRunAvailable :: bool
  gv_nextWakeAt :: "int option"
  gv_researchSchedule :: "research_row option"
  gv_lastWake :: "wake_row option"
  gv_relatedRuns :: "linked_run list"
  gv_spentRuns :: nat
  gv_spentModelCalls :: nat
  gv_spentTokens :: nat
  gv_meteredModelCalls :: nat
  gv_tokenUsageComplete :: bool

definition wake_after :: "wake_row \<Rightarrow> wake_row \<Rightarrow> bool" where
  "wake_after a b \<longleftrightarrow> w_created_at b < w_created_at a \<or> w_created_at a = w_created_at b \<and> w_id b < w_id a"

definition research_after :: "research_row \<Rightarrow> research_row \<Rightarrow> bool" where
  "research_after a b \<longleftrightarrow>
     (let aa = rs_status a = ''active''; ab = rs_status b = ''active'' in
      aa \<and> \<not> ab \<or> aa = ab \<and> (rs_created_at b < rs_created_at a \<or> rs_created_at a = rs_created_at b \<and> rs_id b < rs_id a))"

definition present :: "db \<Rightarrow> goal_row \<Rightarrow> goal_view" where
  "present s g =
     (let rows = goal_runs (g_id g) s; u = goalUsage (g_id g) s; b = g_budgets g;
          metered = sum_list (map r_metered_model_calls rows);
          gw = filter (\<lambda>w. w_goal_id w = g_id g) (wakes s);
          pend = sql_get (\<lambda>w. w_goal_id w = g_id g \<and> w_status w = W_pending) (wakes s);
          research = sql_first_by research_after (filter (\<lambda>x. rs_goal_id x = g_id g) (researches s)) in
      \<lparr>gv_goal = g,
       gv_executionEnabled = (pend \<noteq> None \<or> map_option rs_status research = Some ''active''),
       gv_manualRunAvailable = (g_status g \<in> {G_draft, G_active} \<and> g_domains g \<noteq> [] \<and> gu_unfinished u = 0 \<and>
          int (gu_runs u) < maxRuns b \<and> int (gu_modelCalls u) < maxModelCalls b \<and> int (gu_tokens u) < maxTokens b),
       gv_nextWakeAt = map_option w_fire_at pend, gv_researchSchedule = research,
       gv_lastWake = sql_first_by wake_after gw,
       gv_relatedRuns = map (\<lambda>r. \<lparr>lr_id = r_id r, lr_status = r_status r, lr_objectiveStatus = r_objective_status r,
                                  lr_createdAt = r_created_at r, lr_updatedAt = r_updated_at r\<rparr>)
                            (rev (sort_key r_created_at (sort_key r_id rows))),
       gv_spentRuns = gu_runs u, gv_spentModelCalls = gu_modelCalls u, gv_spentTokens = gu_tokens u,
       gv_meteredModelCalls = metered, gv_tokenUsageComplete = (metered = gu_modelCalls u)\<rparr>)"

definition getGoalDraft :: "string \<Rightarrow> string \<Rightarrow> db \<Rightarrow> goal_view res" where
  "getGoalDraft gid ownerId s =
     (case sql_get (\<lambda>g. g_id g = gid \<and> g_owner_id g = ownerId) (goals s) of
        None \<Rightarrow> Inl (HttpError 404 ''Goal not found'')
      | Some g \<Rightarrow> Inr (present s g))"

definition listGoalDrafts :: "string \<Rightarrow> int \<Rightarrow> db \<Rightarrow> goal_view list" where
  "listGoalDrafts ownerId limit s =
     map (present s) (take (bounded_limit limit 50)
       (rev (sort_key g_updated_at (sort_key g_id (filter (\<lambda>g. g_owner_id g = ownerId) (goals s))))))"

definition goal_of_draft :: "string \<Rightarrow> string \<Rightarrow> goal_draft \<Rightarrow> int \<Rightarrow> goal_row" where
  "goal_of_draft gid ownerId d now =
     \<lparr>g_id = gid, g_owner_id = ownerId, g_objective = d_objective d, g_completion_criteria = d_completionCriteria d,
      g_constraints = d_constraints d, g_domains = d_domains d, g_consequential = d_consequential d,
      g_budgets = d_budgets d, g_status = G_draft, g_revision = 1, g_created_at = now, g_updated_at = now\<rparr>"

definition createGoalDraft :: "string \<Rightarrow> int \<Rightarrow> string \<Rightarrow> jsval \<Rightarrow> (db, goal_view) eff" where
  "createGoalDraft newid now ownerId input s =
     (case validateDraft input of
        Inl e \<Rightarrow> (Inl e, s)
      | Inr d \<Rightarrow>
          if get_goal_row newid s \<noteq> None then (Inl (SqlError ''UNIQUE constraint failed: goals.id''), s)
          else let s' = s\<lparr>goals := goals s @ [goal_of_draft newid ownerId d now]\<rparr>
               in (getGoalDraft newid ownerId s', s'))"

text \<open>What a run sees of its goal; \<open>None\<close> as the status is \<open>missing\<close>.\<close>

record run_goal =
  rg_id :: string
  rg_status :: "goal_status option"
  rg_revision :: "int option"
  rg_runRevision :: "int option"
  rg_domains :: "string list"

definition getGoalForRun :: "string \<Rightarrow> db \<Rightarrow> run_goal option" where
  "getGoalForRun runId s =
     (case get_run_row runId s of
        None \<Rightarrow> None
      | Some r \<Rightarrow>
          (case r_goal_id r of
             Some (c # cs) \<Rightarrow>
               Some (case get_goal_row (c # cs) s of
                       Some g \<Rightarrow> \<lparr>rg_id = g_id g, rg_status = Some (g_status g), rg_revision = Some (g_revision g),
                                  rg_runRevision = r_goal_revision r, rg_domains = g_domains g\<rparr>
                     | None \<Rightarrow> \<lparr>rg_id = c # cs, rg_status = None, rg_revision = None, rg_runRevision = None,
                                rg_domains = []\<rparr>)
           | _ \<Rightarrow> None))"

section \<open>Revising and controlling a goal\<close>

definition cancel_wake :: "string \<times> int \<Rightarrow> wake_row \<Rightarrow> wake_row" where
  "cancel_wake p w = (case p of (reason, now) \<Rightarrow> w\<lparr>w_status := W_cancelled, w_blocker := Some reason, w_updated_at := now\<rparr>)"

definition invalidateGoalWakes :: "string \<Rightarrow> string \<Rightarrow> int \<Rightarrow> int \<Rightarrow> db \<Rightarrow> db" where
  "invalidateGoalWakes gid reason t1 t2 s =
     (let ids = map w_trigger_id (filter (\<lambda>w. w_goal_id w = gid \<and> w_status w = W_pending) (wakes s)) in
      s\<lparr>researches := sql_update (\<lambda>x. rs_goal_id x = gid \<and> rs_status x = ''active'')
                        (\<lambda>x. x\<lparr>rs_status := ''cancelled'', rs_blocker := Some reason, rs_updated_at := t1\<rparr>) (researches s),
        triggers := sql_update (\<lambda>x. tr_id x \<in> set ids)
                        (\<lambda>x. x\<lparr>tr_enabled := False, tr_next_check_at := None\<rparr>) (triggers s),
        wakes := sql_update (\<lambda>w. w_goal_id w = gid \<and> w_status w = W_pending) (cancel_wake (reason, t2)) (wakes s)\<rparr>)"

definition revise_goal :: "goal_draft \<times> int \<Rightarrow> goal_row \<Rightarrow> goal_row" where
  "revise_goal p g = (case p of (d, now) \<Rightarrow>
     g\<lparr>g_objective := d_objective d, g_completion_criteria := d_completionCriteria d, g_constraints := d_constraints d,
       g_domains := d_domains d, g_consequential := d_consequential d, g_budgets := d_budgets d,
       g_revision := g_revision g + 1, g_updated_at := now\<rparr>)"

definition expected_revision :: "jsval \<Rightarrow> int option" where
  "expected_revision input =
     (case input of
        JObj ps \<Rightarrow> (case safe_integer (js_get (Some input) ''expectedRevision'') of
                      Some n \<Rightarrow> if n < 1 then None else Some n
                    | None \<Rightarrow> None)
      | _ \<Rightarrow> None)"

definition updateGoalDraft :: "string \<Rightarrow> string \<Rightarrow> jsval \<Rightarrow> int \<Rightarrow> (db, goal_view) eff" where
  "updateGoalDraft gid ownerId input now s =
     (case expected_revision input of
        None \<Rightarrow> (Inl (HttpError 400 ''expectedRevision must be a positive integer''), s)
      | Some expected \<Rightarrow>
          (case validateDraft (JObj (filter (\<lambda>p. fst p \<noteq> ''expectedRevision'') (entries input))) of
             Inl e \<Rightarrow> (Inl e, s)
           | Inr d \<Rightarrow>
               (case getGoalDraft gid ownerId s of
                  Inl e \<Rightarrow> (Inl e, s)
                | Inr cur \<Rightarrow>
                    let st = g_status (gv_goal cur);
                        P = (\<lambda>g. g_id g = gid \<and> g_owner_id g = ownerId \<and> g_status g = st \<and> g_revision g = expected) in
                    if st \<notin> {G_draft, G_paused} then (Inl (HttpError 409 ''Pause the goal before revising its scope''), s)
                    else if sql_changes P (goals s) \<noteq> 1 then (Inl (HttpError 409 ''Goal changed; reload before editing''), s)
                    else let s' = invalidateGoalWakes gid ''goal_revised'' now now
                                    (s\<lparr>goals := sql_update P (revise_goal (d, now)) (goals s)\<rparr>)
                         in (getGoalDraft gid ownerId s', s'))))"

definition control_goal_row :: "goal_status \<times> int \<Rightarrow> goal_row \<Rightarrow> goal_row" where
  "control_goal_row p g = (case p of (st, now) \<Rightarrow> g\<lparr>g_status := st, g_revision := g_revision g + 1, g_updated_at := now\<rparr>)"

definition controlGoal :: "string \<Rightarrow> string \<Rightarrow> jsval \<Rightarrow> int \<Rightarrow> (db, goal_view) eff" where
  "controlGoal gid ownerId input now s =
     (let op = js_get (Some input) ''operation'' in
      case expected_revision input of
        None \<Rightarrow> (Inl (HttpError 400 ''operation and a positive expectedRevision are required''), s)
      | Some expected \<Rightarrow>
          if \<not> list_all (\<lambda>p. fst p \<in> {''operation'', ''expectedRevision''}) (entries input) \<or>
             op \<notin> {Some (JStr ''pause''), Some (JStr ''resume''), Some (JStr ''cancel'')}
          then (Inl (HttpError 400 ''operation and a positive expectedRevision are required''), s)
          else
            (case getGoalDraft gid ownerId s of
               Inl e \<Rightarrow> (Inl e, s)
             | Inr cur \<Rightarrow>
                 let st = g_status (gv_goal cur);
                     target = (if op = Some (JStr ''pause'') then G_paused
                               else if op = Some (JStr ''cancel'') then G_cancelled
                               else if gv_spentRuns cur \<noteq> 0 then G_active else G_draft);
                     P = (\<lambda>g. g_id g = gid \<and> g_owner_id g = ownerId \<and> g_revision g = expected \<and> g_status g = st) in
                 if st = target then (Inr cur, s)
                 else if st = G_cancelled then (Inl (HttpError 409 ''Cancelled goals cannot be resumed''), s)
                 else if g_revision (gv_goal cur) \<noteq> expected
                 then (Inl (HttpError 409 ''Goal changed; reload before changing its state''), s)
                 else if op = Some (JStr ''resume'') \<and> st \<noteq> G_paused
                 then (Inl (HttpError 409 ''Only paused goals can be resumed''), s)
                 else if sql_changes P (goals s) \<noteq> 1
                 then (Inl (HttpError 409 ''Goal changed; reload before changing its state''), s)
                 else let s' = invalidateGoalWakes gid ''goal_stopped'' now now
                                 (s\<lparr>goals := sql_update P (control_goal_row (target, now)) (goals s)\<rparr>)
                      in (getGoalDraft gid ownerId s', s')))"

section \<open>Redaction of evidence\<close>

definition SECRET_TEXTS :: "string list" where
  "SECRET_TEXTS = [''apikey'', ''api_key'', ''api-key'', ''accesstoken'', ''access_token'', ''access-token'',
     ''refreshtoken'', ''refresh_token'', ''refresh-token'', ''password'', ''secret'', ''authorization'', ''credential'']"

definition SECRET_FIELD :: "string \<Rightarrow> bool" where
  "SECRET_FIELD k = list_ex (\<lambda>p. has_infix p (map lower_char k)) SECRET_TEXTS"

fun redactResult :: "jsval \<Rightarrow> nat \<Rightarrow> jsval" where
  "redactResult (JArr vs) depth =
     (if depth \<ge> 8 then JStr ''[nested result omitted]'' else JArr (map (\<lambda>v. redactResult v (Suc depth)) vs))"
| "redactResult (JObj ps) depth =
     (if depth \<ge> 8 then JStr ''[nested result omitted]''
      else JObj (map (\<lambda>p. (fst p, if SECRET_FIELD (fst p) then JStr ''[redacted]'' else redactResult (snd p) (Suc depth))) ps))"
| "redactResult v depth = (if depth \<ge> 8 then JStr ''[nested result omitted]'' else v)"

definition EVIDENCE_PREVIEW_CHARS :: nat where
  "EVIDENCE_PREVIEW_CHARS = 4000"

definition preview :: "string option \<Rightarrow> string option \<times> bool" where
  "preview v =
     (case v of
        None \<Rightarrow> (None, False)
      | Some t \<Rightarrow> (Some (take EVIDENCE_PREVIEW_CHARS t), length t > EVIDENCE_PREVIEW_CHARS))"

section \<open>Evidence of a goal's run\<close>

definition previewResult :: "jsval option \<Rightarrow> string option \<times> bool" where
  "previewResult raw =
     (case raw of
        None \<Rightarrow> (None, False)
      | Some v \<Rightarrow>
          if length (json_text v) > 100000 then (Some ''[Large result omitted]'', True)
          else preview (Some (json_text (redactResult v 0))))"

record step_evidence =
  se_index :: nat
  se_tool :: string
  se_status :: step_status
  se_actionId :: "string option"
  se_resultPreview :: "string option"
  se_resultTruncated :: bool

record run_evidence =
  re_goalId :: string
  re_runId :: string
  re_status :: run_status
  re_objectiveStatus :: string
  re_goalRevision :: "int option"
  re_objective :: "string option"
  re_objectiveTruncated :: bool
  re_response :: "string option"
  re_responseTruncated :: bool
  re_stepsTruncated :: bool
  re_steps :: "step_evidence list"

text \<open>\<open>getRun\<close> has written the current statuses back, so the rows read after it hold them.\<close>

definition step_evidence_of :: "db \<Rightarrow> (nat \<rightharpoonup> step_status) \<Rightarrow> step_row \<Rightarrow> step_evidence" where
  "step_evidence_of s statuses t =
     (let st = (case statuses (s_index t) of Some x \<Rightarrow> x | None \<Rightarrow> s_status t);
          res = (if st = S_executed
                 then previewResult (Option.bind (Option.bind (s_action_id t) (\<lambda>aid. getAgentAction aid s)) a_result)
                 else (None, False)) in
      \<lparr>se_index = s_index t, se_tool = s_tool t, se_status = st, se_actionId = s_action_id t,
       se_resultPreview = fst res, se_resultTruncated = snd res\<rparr>)"

definition getGoalRunEvidence :: "string \<Rightarrow> string \<Rightarrow> string \<Rightarrow> int \<Rightarrow> (db, run_evidence) eff" where
  "getGoalRunEvidence goalId ownerId runId now s =
     (if sql_get (\<lambda>g. g_id g = goalId \<and> g_owner_id g = ownerId) (goals s) = None
      then (Inl (HttpError 404 ''Goal not found''), s)
      else
        (case sql_get (\<lambda>r. r_id r = runId \<and> r_goal_id r = Some goalId \<and> r_actor_id r = ownerId) (runs s) of
           None \<Rightarrow> (Inl (HttpError 404 ''Goal run not found''), s)
         | Some linked \<Rightarrow>
             (case getRun runId now s of
                (None, s') \<Rightarrow> (Inl (TypeError ''Cannot read properties of null''), s')
              | (Some v, s') \<Rightarrow>
                  let rows = take 33 (run_steps runId s');
                      statuses = map_of (map (\<lambda>x. (sv_index x, sv_status x)) (rv_steps v));
                      response = preview (r_response linked); objective = preview (Some (r_objective linked)) in
                  (Inr \<lparr>re_goalId = goalId, re_runId = runId, re_status = rv_status v,
                        re_objectiveStatus = rv_objectiveStatus v, re_goalRevision = r_goal_revision linked,
                        re_objective = fst objective, re_objectiveTruncated = snd objective,
                        re_response = fst response, re_responseTruncated = snd response,
                        re_stepsTruncated = (length rows > 32),
                        re_steps = map (step_evidence_of s' statuses) (take 32 rows)\<rparr>, s'))))"

section \<open>What a validated draft guarantees\<close>

lemma map_res_Inr: "map_res f xs = Inr ys \<Longrightarrow> list_all2 (\<lambda>x y. f x = Inr y) xs ys"
  by (induction xs arbitrary: ys) (auto split: sum.splits)

lemma js_trim_idle: "length (js_trim s) \<le> length s"
proof -
  have "length (dropWhile p xs) \<le> length xs" for p and xs :: string by (induction xs) auto
  then show ?thesis unfolding js_trim_def by (metis length_rev order_trans)
qed

lemma boundedText_Inr: "boundedText v n f = Inr t \<Longrightarrow> t \<noteq> [] \<and> length t \<le> n"
  by (auto simp: boundedText_def Let_def not_less split: option.splits jsval.splits if_splits
      intro: order_trans [OF js_trim_idle])

lemma boundedTexts_Inr:
  "boundedTexts v a b n f = Inr ts \<Longrightarrow> a \<le> length ts \<and> length ts \<le> b \<and> (\<forall>t\<in>set ts. t \<noteq> [] \<and> length t \<le> n)"
  by (auto simp: boundedTexts_def split: option.splits jsval.splits if_splits dest!: map_res_Inr
      dest: list_all2_lengthD) (auto simp: list_all2_conv_all_nth in_set_conv_nth dest: boundedText_Inr)

lemma validateDraft_Inr:
  assumes v: "validateDraft input = Inr d"
  shows "\<exists>v1 v2 v3 v4 v5.
     boundedText v1 2000 ''objective'' = Inr (d_objective d) \<and>
     boundedTexts v2 1 8 300 ''completionCriteria'' = Inr (d_completionCriteria d) \<and>
     boundedTexts v3 0 10 300 ''constraints'' = Inr (d_constraints d) \<and>
     validScope v4 = Some (d_domains d, d_consequential d) \<and> validBudgets v5 = Some (d_budgets d)"
proof -
  obtain ps where i: "input = JObj ps" using v by (cases input) (auto simp: validateDraft_def)
  define g where "g = js_get (Some (JObj ps))"
  define k where "k = (if g ''constraints'' \<in> {None, Some JNull} then Some (JArr []) else g ''constraints'')"
  have f: "list_all (\<lambda>p. fst p \<in> set FIELDS) ps" by (rule ccontr) (use v i in \<open>simp add: validateDraft_def\<close>)
  have v': "(case boundedText (g ''objective'') 2000 ''objective'' of Inl e \<Rightarrow> Inl e | Inr objective \<Rightarrow>
     (case boundedTexts (g ''completionCriteria'') 1 8 300 ''completionCriteria'' of Inl e \<Rightarrow> Inl e | Inr criteria \<Rightarrow>
     (case boundedTexts k 0 10 300 ''constraints'' of Inl e \<Rightarrow> Inl e | Inr constraints \<Rightarrow>
     (case validScope (g ''permittedScope'') of None \<Rightarrow> Inl (HttpError 400 ''Invalid permittedScope'') | Some (ds, conseq) \<Rightarrow>
     (case validBudgets (g ''budgets'') of None \<Rightarrow> Inl (HttpError 400 ''Invalid budgets'') | Some b \<Rightarrow>
        Inr \<lparr>d_objective = objective, d_completionCriteria = criteria, d_constraints = constraints,
             d_domains = ds, d_consequential = conseq, d_budgets = b\<rparr>))))) = Inr d"
    using v f unfolding i validateDraft_def g_def k_def Let_def by simp
  obtain o1 where 1: "boundedText (g ''objective'') 2000 ''objective'' = Inr o1"
    using v' by (cases "boundedText (g ''objective'') 2000 ''objective''") auto
  obtain o2 where 2: "boundedTexts (g ''completionCriteria'') 1 8 300 ''completionCriteria'' = Inr o2"
    using v' 1 by (cases "boundedTexts (g ''completionCriteria'') 1 8 300 ''completionCriteria''") auto
  obtain o3 where 3: "boundedTexts k 0 10 300 ''constraints'' = Inr o3"
    using v' 1 2 by (cases "boundedTexts k 0 10 300 ''constraints''") auto
  obtain ds c where 4: "validScope (g ''permittedScope'') = Some (ds, c)"
    using v' 1 2 3 by (cases "validScope (g ''permittedScope'')") auto
  obtain b where 5: "validBudgets (g ''budgets'') = Some b"
    using v' 1 2 3 4 by (cases "validBudgets (g ''budgets'')") auto
  from v' have "d = \<lparr>d_objective = o1, d_completionCriteria = o2, d_constraints = o3, d_domains = ds,
      d_consequential = c, d_budgets = b\<rparr>" unfolding 1 2 3 4 5 by simp
  with 1 2 3 4 5 show ?thesis by auto
qed

lemma integerBetween_Some: "integerBetween v a b = Some n \<Longrightarrow> a \<le> n \<and> n \<le> b"
  by (auto simp: integerBetween_def split: option.splits if_split_asm)

text \<open>
  Every draft the goal store accepts is within its bounds: a trimmed objective of 1 to
  2000 characters, 1 to 8 criteria and at most 10 constraints of at most 300 characters each,
  distinct known domains, and budgets in range.
\<close>

theorem validated_draft_bounds:
  assumes "validateDraft input = Inr d"
  shows "d_objective d \<noteq> [] \<and> length (d_objective d) \<le> 2000 \<and>
         1 \<le> length (d_completionCriteria d) \<and> length (d_completionCriteria d) \<le> 8 \<and> length (d_constraints d) \<le> 10 \<and>
         (\<forall>t\<in>set (d_completionCriteria d) \<union> set (d_constraints d). t \<noteq> [] \<and> length t \<le> 300) \<and>
         distinct (d_domains d) \<and> set (d_domains d) \<subseteq> set DOMAINS \<and>
         1 \<le> maxRuns (d_budgets d) \<and> maxRuns (d_budgets d) \<le> 100 \<and>
         1 \<le> maxModelCalls (d_budgets d) \<and> maxModelCalls (d_budgets d) \<le> 300 \<and>
         1000 \<le> maxTokens (d_budgets d) \<and> maxTokens (d_budgets d) \<le> 1000000"
proof -
  have b: "1 \<le> maxRuns x \<and> maxRuns x \<le> 100 \<and> 1 \<le> maxModelCalls x \<and> maxModelCalls x \<le> 300 \<and>
      1000 \<le> maxTokens x \<and> maxTokens x \<le> 1000000" if "validBudgets v = Some x" for v x
    using that by (auto simp: validBudgets_def split: option.splits jsval.splits if_split_asm dest!: integerBetween_Some)
  have sc: "distinct ds \<and> set ds \<subseteq> set DOMAINS" if "validScope v = Some (ds, c)" for v ds c
    using that by (auto simp: validScope_def split: option.splits jsval.splits if_split_asm)
  from validateDraft_Inr [OF assms] obtain v1 v2 v3 v4 v5 where
    "boundedText v1 2000 ''objective'' = Inr (d_objective d)"
    "boundedTexts v2 1 8 300 ''completionCriteria'' = Inr (d_completionCriteria d)"
    "boundedTexts v3 0 10 300 ''constraints'' = Inr (d_constraints d)"
    "validScope v4 = Some (d_domains d, d_consequential d)" "validBudgets v5 = Some (d_budgets d)" by blast
  note f = boundedText_Inr [OF this(1)] boundedTexts_Inr [OF this(2)] boundedTexts_Inr [OF this(3)] sc [OF this(4)] b [OF this(5)]
  show ?thesis
    using f(1) f(2) f(3) f(4) f(5) unfolding ball_Un by (elim conjE) (intro conjI, assumption+)
qed

section \<open>Compare-and-swap revisions\<close>

interpretation goal_revise: keyed_update g_id revise_goal
  by unfold_locales (simp add: revise_goal_def split: prod.splits)
interpretation goal_control: keyed_update g_id control_goal_row
  by unfold_locales (simp add: control_goal_row_def split: prod.splits)

lemma invalidate_frame [simp]:
  "goals (invalidateGoalWakes gid reason t1 t2 s) = goals s" "runs (invalidateGoalWakes gid reason t1 t2 s) = runs s"
  "steps (invalidateGoalWakes gid reason t1 t2 s) = steps s"
  by (simp_all add: invalidateGoalWakes_def Let_def)

lemma invalidate_no_pending:
  "w \<in> set (wakes (invalidateGoalWakes gid reason t1 t2 s)) \<Longrightarrow> w_goal_id w = gid \<Longrightarrow> w_status w \<noteq> W_pending"
proof -
  assume w: "w \<in> set (wakes (invalidateGoalWakes gid reason t1 t2 s))" "w_goal_id w = gid"
  then have "w \<in> cancel_wake (reason, t2) ` {x \<in> set (wakes s). w_goal_id x = gid \<and> w_status x = W_pending} \<or> w_status w \<noteq> W_pending"
    by (auto simp: invalidateGoalWakes_def Let_def set_sql_update split: if_split_asm)
  then show ?thesis by (auto simp: cancel_wake_def)
qed

lemma getGoalDraftD: "getGoalDraft gid owner s = Inr v \<Longrightarrow> gv_goal v \<in> set (goals s) \<and> g_id (gv_goal v) = gid \<and> g_owner_id (gv_goal v) = owner"
  by (auto simp: getGoalDraft_def present_def Let_def split: option.splits dest: sql_get_SomeD)

text \<open>An operation on a goal changes nothing, or one row from one revision to the next.\<close>

lemma updateGoalDraft_changed:
  assumes u: "updateGoalDraft gid owner input now s = (x, s')" and ne: "s' \<noteq> s"
  shows "\<exists>n d st. expected_revision input = Some n \<and> st \<in> {G_draft, G_paused} \<and>
       sql_changes (\<lambda>g. g_id g = gid \<and> g_owner_id g = owner \<and> g_status g = st \<and> g_revision g = n) (goals s) = 1 \<and>
       s' = invalidateGoalWakes gid ''goal_revised'' now now (s\<lparr>goals := sql_update
         (\<lambda>g. g_id g = gid \<and> g_owner_id g = owner \<and> g_status g = st \<and> g_revision g = n) (revise_goal (d, now)) (goals s)\<rparr>)"
proof -
  obtain n where n: "expected_revision input = Some n"
    using u ne by (cases "expected_revision input") (auto simp: updateGoalDraft_def)
  define draft where "draft = JObj (filter (\<lambda>p. fst p \<noteq> ''expectedRevision'') (entries input))"
  obtain d where d: "validateDraft draft = Inr d"
    using u ne n by (cases "validateDraft draft") (auto simp: updateGoalDraft_def draft_def)
  obtain cur where cur: "getGoalDraft gid owner s = Inr cur"
    using u ne n d by (cases "getGoalDraft gid owner s") (auto simp: updateGoalDraft_def draft_def)
  show ?thesis
    using u ne n d cur unfolding updateGoalDraft_def draft_def Let_def
    by (intro exI [of _ n] exI [of _ d] exI [of _ "g_status (gv_goal cur)"]) (simp split: if_splits)
qed

lemma controlGoal_changed:
  assumes u: "controlGoal gid owner input now s = (x, s')" and ne: "s' \<noteq> s"
  shows "\<exists>n st target. expected_revision input = Some n \<and> st \<noteq> target \<and> st \<noteq> G_cancelled \<and>
       sql_changes (\<lambda>g. g_id g = gid \<and> g_owner_id g = owner \<and> g_revision g = n \<and> g_status g = st) (goals s) = 1 \<and>
       s' = invalidateGoalWakes gid ''goal_stopped'' now now (s\<lparr>goals := sql_update
         (\<lambda>g. g_id g = gid \<and> g_owner_id g = owner \<and> g_revision g = n \<and> g_status g = st) (control_goal_row (target, now)) (goals s)\<rparr>)"
proof -
  obtain n where n: "expected_revision input = Some n"
    using u ne by (cases "expected_revision input") (auto simp: controlGoal_def)
  obtain cur where cur: "getGoalDraft gid owner s = Inr cur"
    using u ne n by (cases "getGoalDraft gid owner s") (auto simp: controlGoal_def Let_def split: if_split_asm)
  define op where "op = js_get (Some input) ''operation''"
  define target where "target = (if op = Some (JStr ''pause'') then G_paused else if op = Some (JStr ''cancel'') then G_cancelled
    else if gv_spentRuns cur \<noteq> 0 then G_active else G_draft)"
  show ?thesis
    using u ne n cur unfolding controlGoal_def Let_def op_def [symmetric] target_def [symmetric] option.case sum.case
    by (intro exI [of _ n] exI [of _ "g_status (gv_goal cur)"] exI [of _ target])
      (simp add: target_def [symmetric] split: if_split_asm)
qed

lemma goal_swap:
  assumes "distinct (map g_id rows)" and "sql_changes P rows = 1" and "\<And>g. P g \<Longrightarrow> g_id g = gid"
    and "\<And>g. g_id (f g) = g_id g"
  shows "\<exists>g0. g0 \<in> set rows \<and> P g0 \<and> sql_get (\<lambda>g. g_id g = gid) rows = Some g0 \<and>
           sql_get (\<lambda>g. g_id g = gid) (sql_update P f rows) = Some (f g0)"
proof -
  from sql_changes_1_ex [OF assms(2)] obtain g0 where g0: "g0 \<in> set rows" "P g0" by blast
  have get: "sql_get (\<lambda>g. g_id g = gid) rows = Some g0"
    using sql_get_key [OF assms(1) g0(1)] assms(3) [OF g0(2)] by simp
  have "sql_get (\<lambda>g. g_id g = gid) (sql_update P f rs) = map_option (\<lambda>g. if P g then f g else g) (sql_get (\<lambda>g. g_id g = gid) rs)" for rs
    by (induction rs) (auto simp: assms(4))
  with get g0 show ?thesis by auto
qed


text \<open>
  A cancelled goal is final: no control or revision of it changes anything, and no run
  can be started for it.
\<close>

theorem cancelled_goal_is_final:
  assumes "distinct (map g_id (goals s))" and "get_goal_row gid s = Some g" and "g_status g = G_cancelled"
  shows "snd (controlGoal gid owner input now s) = s \<and> snd (updateGoalDraft gid owner input now s) = s \<and>
         (\<exists>e. start_goal gid owner now s = (Inl e, s))"
proof -
  have g: "g \<in> set (goals s)" "g_id g = gid"
    using sql_get_SomeD [OF assms(2) [unfolded get_goal_row_def]] by simp_all
  have same: "g' = g" if "g' \<in> set (goals s)" "g_id g' = gid" for g'
    using key_unique [OF assms(1) that(1) g(1)] that(2) g(2) by simp
  have ch: "\<exists>g'\<in>set (goals s). P g' \<Longrightarrow> (\<And>x. P x \<Longrightarrow> g_id x = gid) \<Longrightarrow> P g" for P using same by blast
  have "snd (controlGoal gid owner input now s) = s"
  proof (rule ccontr)
    assume ne: "\<not> ?thesis"
    obtain x s' where c: "controlGoal gid owner input now s = (x, s')" by (cases "controlGoal gid owner input now s")
    with ne have "s' \<noteq> s" by simp
    from controlGoal_changed [OF c this] obtain n st where
      "sql_changes (\<lambda>g. g_id g = gid \<and> g_owner_id g = owner \<and> g_revision g = n \<and> g_status g = st) (goals s) = 1"
      "st \<noteq> G_cancelled" by blast
    with ch [OF sql_changes_1_ex [OF this(1)]] assms(3) show False by simp
  qed
  moreover have "snd (updateGoalDraft gid owner input now s) = s"
  proof (rule ccontr)
    assume ne: "\<not> ?thesis"
    obtain x s' where c: "updateGoalDraft gid owner input now s = (x, s')" by (cases "updateGoalDraft gid owner input now s")
    with ne have "s' \<noteq> s" by simp
    from updateGoalDraft_changed [OF c this] obtain n st where
      "sql_changes (\<lambda>g. g_id g = gid \<and> g_owner_id g = owner \<and> g_status g = st \<and> g_revision g = n) (goals s) = 1"
      "st \<in> {G_draft, G_paused}" by blast
    with ch [OF sql_changes_1_ex [OF this(1)]] assms(3) show False by auto
  qed
  ultimately show ?thesis using assms(2,3) by (simp add: start_goal_def Let_def)
qed

section \<open>Redaction\<close>

text \<open>Every entry under a secret-looking key, at any depth, is the redaction text.\<close>

fun secrets_hidden :: "jsval \<Rightarrow> bool" where
  "secrets_hidden (JArr vs) = list_all secrets_hidden vs"
| "secrets_hidden (JObj ps) =
     list_all (\<lambda>p. if SECRET_FIELD (fst p) then snd p = JStr ''[redacted]'' else secrets_hidden (snd p)) ps"
| "secrets_hidden v = True"

fun value_depth :: "jsval \<Rightarrow> nat" where
  "value_depth (JArr vs) = Suc (fold max (map value_depth vs) 0)"
| "value_depth (JObj ps) = Suc (fold max (map (\<lambda>p. value_depth (snd p)) ps) 0)"
| "value_depth v = 0"

lemma fold_max_le: "(\<And>x. x \<in> set xs \<Longrightarrow> x \<le> m) \<Longrightarrow> k \<le> m \<Longrightarrow> fold max xs k \<le> (m :: nat)"
  by (induction xs arbitrary: k) auto

lemma redact_hidden: "secrets_hidden (redactResult v d)"
proof (induction v d rule: redactResult.induct)
  case (1 vs depth)
  then show ?case by (auto simp: list_all_iff)
next
  case (2 ps depth)
  then show ?case by (auto simp: list_all_iff)
qed simp_all

lemma redact_depth: "d \<le> 8 \<Longrightarrow> value_depth (redactResult v d) \<le> 8 - d"
proof (induction v d rule: redactResult.induct)
  case (1 vs depth)
  show ?case
  proof (cases "depth \<ge> 8")
    case False
    have "fold max (map (value_depth \<circ> (\<lambda>v. redactResult v (Suc depth))) vs) 0 \<le> 8 - Suc depth"
      by (rule fold_max_le) (use 1 False in auto)
    with False show ?thesis by (simp add: comp_def)
  qed simp
next
  case (2 ps depth)
  show ?case
  proof (cases "depth \<ge> 8")
    case False
    have "value_depth (if SECRET_FIELD (fst p) then JStr ''[redacted]'' else redactResult (snd p) (Suc depth)) \<le> 8 - Suc depth"
      if "p \<in> set ps" for p
      using 2(1) [of p] 2(2) that False by auto
    then have "fold max (map (\<lambda>p. value_depth (if SECRET_FIELD (fst p) then JStr ''[redacted]'' else redactResult (snd p) (Suc depth))) ps) 0
        \<le> 8 - Suc depth"
      by (intro fold_max_le) auto
    with False show ?thesis by (simp add: comp_def)
  qed simp
qed simp_all

text \<open>
  The evidence shown of a run hides secrets: in the value that is previewed no entry
  under a key that looks like a credential keeps its value, whatever its spelling in upper or
  lower case and at whatever depth, and the value is at most eight levels deep.
\<close>

theorem evidence_hides_secrets:
  "secrets_hidden (redactResult v 0) \<and> value_depth (redactResult v 0) \<le> 8"
  using redact_hidden redact_depth [where d = 0 and v = v] by simp

section \<open>A concrete goal\<close>

definition ex_draft :: jsval where
  "ex_draft = JObj [(''objective'', JStr '' x ''), (''completionCriteria'', JArr [JStr ''y'']),
     (''permittedScope'', JObj [(''domains'', JArr [JStr ''web'']), (''consequentialActions'', JBool False)]),
     (''budgets'', JObj [(''maxRuns'', JNum 2), (''maxModelCalls'', JNum 4), (''maxTokens'', JNum 5000)])]"

definition ex_active_goal :: goal_row where
  "ex_active_goal = \<lparr>g_id = ''g'', g_owner_id = ''o'', g_objective = ''x'', g_completion_criteria = [''y''], g_constraints = [],
     g_domains = [''web''], g_consequential = False, g_budgets = \<lparr>maxRuns = 2, maxModelCalls = 4, maxTokens = 5000\<rparr>,
     g_status = G_active, g_revision = 3, g_created_at = 0, g_updated_at = 0\<rparr>"

definition ex_goal_input :: run_input where
  "ex_goal_input = \<lparr>ri_correlationId = ''c'', ri_actorId = ''o'', ri_objective = ''x'', ri_voice = None,
     ri_conversationId = None, ri_goalId = Some ''g'', ri_goalWakeId = None\<rparr>"

definition ex_goal_db :: db where
  "ex_goal_db = empty_db\<lparr>goals := [ex_active_goal], runs := [new_run ''r'' 0 0 ex_goal_input (Some 3)]\<rparr>"

definition ex_pause :: jsval where
  "ex_pause = JObj [(''operation'', JStr ''pause''), (''expectedRevision'', JNum 3)]"

lemma ex_draft_valid: "\<exists>d. validateDraft ex_draft = Inr d \<and> d_objective d = ''x''"
  by (simp add: validateDraft_def ex_draft_def FIELDS_def boundedText_def boundedTexts_def js_trim_def js_space_def
      validScope_def DOMAINS_def validBudgets_def integerBetween_def safe_integer_def object_prototype_keys_def Let_def)

theorem validated_draft_bounds_witness:
  "\<exists>d. validateDraft ex_draft = Inr d \<and> maxRuns (d_budgets d) \<le> 100"
proof -
  from ex_draft_valid obtain d where d: "validateDraft ex_draft = Inr d" by blast
  from validated_draft_bounds [OF this] d show ?thesis by blast
qed


theorem cancelled_goal_is_final_witness:
  "\<exists>s g. get_goal_row ''g'' s = Some g \<and> g_status g = G_cancelled \<and> snd (controlGoal ''g'' ''o'' ex_pause 9 s) = s"
proof -
  let ?g = "ex_active_goal\<lparr>g_status := G_cancelled\<rparr>"
  let ?s = "ex_goal_db\<lparr>goals := [?g]\<rparr>"
  have "distinct (map g_id (goals ?s))" "get_goal_row ''g'' ?s = Some ?g" "g_status ?g = G_cancelled"
    by (simp_all add: get_goal_row_def ex_active_goal_def)
  from cancelled_goal_is_final [OF this, of "''o''" ex_pause 9] this show ?thesis by blast
qed

end
