(* ===== verification/U2_Gate.thy ===== *)
theory U2_Gate
  imports U2_Goals
begin

text \<open>
  The gates a proposed action passes: the evaluation context of
  \<open>server/agent/action-evaluator.js\<close>, the voice gate of \<open>server/voice/authorize.js\<close> with its
  configuration, the goal scope and the account binding of \<open>Agent.evaluateAndMaybeExecute\<close>,
  the package authority of \<open>server/packages/authority.js\<close>, and the account checks of
  \<open>server/agent/account-binding.js\<close>. Each gate after the policy may only tighten; the locale
  \<open>tightening\<close> states that contract, and every gate is an interpretation of it.
\<close>

section \<open>The evaluation context\<close>

definition getCachedCalendarEvent :: "string \<Rightarrow> db \<Rightarrow> calendar_row option" where
  "getCachedCalendarEvent eid s = sql_get (\<lambda>c. ce_id c = eid) (calendar_events s)"

text \<open>A category comes only from the stored event, never from the arguments (whose \<open>eventId\<close> the tool's schema makes a text).\<close>

definition buildEvalContext :: "tool \<Rightarrow> jsval \<Rightarrow> db \<Rightarrow> eval_context" where
  "buildEvalContext t args s =
     (case js_get (Some args) ''eventId'' of
        Some (JStr (c # cs)) \<Rightarrow>
          if t_name t = ''calendar.reschedule'' then
            (case getCachedCalendarEvent (c # cs) s of
               Some e \<Rightarrow> \<lparr>cx_category = ce_category e, cx_event_category = ce_category e\<rparr>
             | None \<Rightarrow> \<lparr>cx_category = None, cx_event_category = None\<rparr>)
          else \<lparr>cx_category = None, cx_event_category = None\<rparr>
      | _ \<Rightarrow> \<lparr>cx_category = None, cx_event_category = None\<rparr>)"

definition action_evaluate :: "policy_set \<Rightarrow> tool \<Rightarrow> jsval \<Rightarrow> db \<Rightarrow> evaluation" where
  "action_evaluate ps t args s = policy_evaluate ps t (buildEvalContext t args s)"

text \<open>\<open>ToolRegistry.get\<close> throws for a name that is not registered.\<close>

definition resolve_tool :: "(string \<rightharpoonup> tool) \<Rightarrow> string \<Rightarrow> tool res" where
  "resolve_tool registry name =
     (case registry name of Some t \<Rightarrow> Inr t | None \<Rightarrow> Inl (Error (''Unknown tool: '' @ name)))"

section \<open>The voice gate\<close>

record voice_config =
  vc_standard :: rat
  vc_private :: rat
  vc_privateDomains :: "jsval list"

definition threshold :: "jsval option \<Rightarrow> string \<Rightarrow> rat \<Rightarrow> rat" where
  "threshold ts key dflt = (case js_get ts key of Some (JNum n) \<Rightarrow> n | _ \<Rightarrow> dflt)"

text \<open>The configuration object with the missing parts filled in; the file is its argument.\<close>

definition ensureVoiceConfig :: "jsval \<Rightarrow> voice_config" where
  "ensureVoiceConfig config =
     (let ts = js_get (Some config) ''voiceThresholds''; pd = js_get (Some config) ''privateDomains'' in
      \<lparr>vc_standard = (if js_typeof ts = ''object'' \<and> ts \<noteq> Some JNull then threshold ts ''standard'' (85 / 100) else 85 / 100),
       vc_private = (if js_typeof ts = ''object'' \<and> ts \<noteq> Some JNull then threshold ts ''private'' (95 / 100) else 95 / 100),
       vc_privateDomains = (case pd of Some (JArr ds) \<Rightarrow> ds | _ \<Rightarrow> [])\<rparr>)"

text \<open>\<open>None\<close> as the confidence is a value that is no finite number.\<close>

definition normalizeConfidence :: "rat option \<Rightarrow> rat" where
  "normalizeConfidence v = (case v of None \<Rightarrow> 0 | Some x \<Rightarrow> max 0 (min 1 x))"

definition toFixed2 :: "rat \<Rightarrow> string" where
  "toFixed2 q = (let n = nat \<lfloor>q * 100 + 1 / 2\<rfloor>; d = n mod 100 in
     nat_str (n div 100) @ ''.'' @ (if d < 10 then ''0'' @ nat_str d else nat_str d))"

text \<open>The outer option is whether the request came by voice at all.\<close>

definition applyVoiceAuthorization :: "voice_config \<Rightarrow> rat option option \<Rightarrow> evaluation \<Rightarrow> evaluation" where
  "applyVoiceAuthorization cfg voice e =
     (case voice of
        None \<Rightarrow> e
      | Some v \<Rightarrow>
          if blocked e then e
          else if autonomyLevel e = Level 0 then e
          else
            let confidence = normalizeConfidence v in
            if JStr (ev_domain e) \<in> set (vc_privateDomains cfg) \<and> confidence < vc_private cfg then
              e\<lparr>blocked := True, requiresApproval := True,
                ev_rule := ev_rule e @ ''+voice:private-domain-low-confidence'',
                ev_reason := ev_reason e @ '' Blocked by voice authorization: \"'' @ ev_domain e @
                  ''\" is a private domain and voice confidence '' @ toFixed2 confidence @
                  '' is below the private threshold ('' @ num_str (vc_private cfg) @ '').''\<rparr>
            else if \<not> requiresApproval e \<and> confidence < vc_standard cfg then
              e\<lparr>requiresApproval := True, ev_rule := ev_rule e @ ''+voice:low-confidence'',
                ev_reason := ev_reason e @ '' Forced to require approval by voice authorization: confidence '' @
                  toFixed2 confidence @ '' is below the standard threshold ('' @ num_str (vc_standard cfg) @ '').''\<rparr>
            else e)"

section \<open>Goal scope and account binding\<close>

text \<open>A tool a goal's run may not use now; \<open>None\<close> is a run without a goal.\<close>

definition goal_blocks :: "run_goal option \<Rightarrow> tool \<Rightarrow> bool" where
  "goal_blocks goal t =
     (case goal of
        None \<Rightarrow> False
      | Some g \<Rightarrow> rg_status g \<noteq> Some G_active \<or> rg_revision g \<noteq> rg_runRevision g \<or> t_category t \<noteq> CatRead \<or>
                  t_domain t \<notin> set (rg_domains g))"

definition applyGoalScope :: "run_goal option \<times> tool \<Rightarrow> evaluation \<Rightarrow> evaluation" where
  "applyGoalScope p e =
     (if goal_blocks (fst p) (snd p) \<and> \<not> blocked e
      then e\<lparr>blocked := True, requiresApproval := False,
             ev_reason := ''Tool is outside this goal's read-only permitted scope'', ev_rule := ''goal-scope''\<rparr>
      else e)"

definition applyBinding :: "string option \<Rightarrow> evaluation \<Rightarrow> evaluation" where
  "applyBinding bindingError e =
     (case bindingError of
        Some (c # cs) \<Rightarrow>
          if blocked e then e
          else e\<lparr>blocked := True, requiresApproval := False, ev_reason := c # cs, ev_rule := ''account-binding''\<rparr>
      | _ \<Rightarrow> e)"

section \<open>Package authority\<close>

record pkg_permission =
  pm_allowed :: bool
  pm_required :: "string list"
  pm_missingDeclared :: "string list"
  pm_missingGrant :: "string list"
  pm_reason :: "string option"

record pkg_policy =
  pp_name :: string
  pp_decision :: string
  pp_reasons :: "string list"

record authority =
  au_packageId :: string
  au_automationId :: "string option"
  au_skillId :: "string option"
  au_workflowRunId :: "string option"
  au_rootRunId :: "string option"
  au_stepId :: "string option"
  au_capabilityId :: "string option"
  au_providerId :: "string option"
  au_permission :: "pkg_permission option"
  au_policy :: "pkg_policy option"

definition describeMissing :: "pkg_permission option \<Rightarrow> string" where
  "describeMissing p =
     (case p of
        None \<Rightarrow> ''no permission decision was made''
      | Some m \<Rightarrow>
          let parts = (if pm_missingDeclared m \<noteq> [] then [''not declared: '' @ join_with '', '' (pm_missingDeclared m)] else []) @
                      (if pm_missingGrant m \<noteq> [] then [''not granted: '' @ join_with '', '' (pm_missingGrant m)] else []);
              t = join_with ''; '' parts
          in if t = [] then ''permission denied'' else t)"

definition raise_level :: "autonomy \<Rightarrow> autonomy" where
  "raise_level a = (case a of Level n \<Rightarrow> Level (max n 3) | _ \<Rightarrow> NaN)"

definition applyPackageAuthority :: "authority option \<Rightarrow> evaluation \<Rightarrow> evaluation" where
  "applyPackageAuthority authority e =
     (case authority of
        None \<Rightarrow> e
      | Some au \<Rightarrow>
          if blocked e then e
          else if \<not> (case au_permission au of Some m \<Rightarrow> pm_allowed m | None \<Rightarrow> False) then
            let missing = (case Option.bind (au_permission au) pm_reason of
                             Some (c # cs) \<Rightarrow> c # cs | _ \<Rightarrow> describeMissing (au_permission au)) in
            e\<lparr>blocked := True, requiresApproval := False, ev_rule := ''package-permission'',
              ev_reason := ''Package '' @ au_packageId au @ '' may not do this: '' @ missing @ ''.''\<rparr>
          else
            (case au_policy au of
               None \<Rightarrow> e
             | Some p \<Rightarrow>
                 if pp_decision p = ''deny'' then
                   e\<lparr>blocked := True, requiresApproval := False, ev_rule := ''package-policy:'' @ pp_name p,
                     ev_reason := ''Package policy '' @ pp_name p @ '' does not allow this action ('' @
                       (let t = join_with ''; '' (pp_reasons p) in if t = [] then ''denied'' else t) @ '').''\<rparr>
                 else if pp_decision p \<noteq> ''automatic'' \<and> \<not> requiresApproval e then
                   e\<lparr>requiresApproval := True, autonomyLevel := raise_level (autonomyLevel e),
                     ev_rule := ev_rule e @ ''+package-policy:'' @ pp_name p,
                     ev_reason := ev_reason e @ '' Package policy '' @ pp_name p @ '' requires your approval.''\<rparr>
                 else e))"

definition js_opt_str :: "string option \<Rightarrow> jsval" where
  "js_opt_str v = (case v of Some (c # cs) \<Rightarrow> JStr (c # cs) | _ \<Rightarrow> JNull)"

text \<open>The JSON stored in \<open>agent_actions.package_context\<close>.\<close>

definition packageContextRecord :: "authority option \<Rightarrow> jsval option" where
  "packageContextRecord authority =
     map_option (\<lambda>au.
       JObj [(''package'', JStr (au_packageId au)), (''automation'', js_opt_str (au_automationId au)),
             (''skill'', js_opt_str (au_skillId au)), (''run'', js_opt_str (au_workflowRunId au)),
             (''rootRun'', case js_opt_str (au_rootRunId au) of JNull \<Rightarrow> js_opt_str (au_workflowRunId au) | v \<Rightarrow> v),
             (''step'', js_opt_str (au_stepId au)), (''capability'', js_opt_str (au_capabilityId au)),
             (''provider'', js_opt_str (au_providerId au)),
             (''permission'',
                case au_permission au of
                  None \<Rightarrow> JNull
                | Some m \<Rightarrow> JObj ([(''allowed'', JBool (pm_allowed m)), (''required'', JArr (map JStr (pm_required m))),
                                  (''missingDeclared'', JArr (map JStr (pm_missingDeclared m))),
                                  (''missingGrant'', JArr (map JStr (pm_missingGrant m)))] @
                                 (case pm_reason m of Some (c # cs) \<Rightarrow> [(''reason'', JStr (c # cs))] | _ \<Rightarrow> []))),
             (''policy'',
                case au_policy au of
                  None \<Rightarrow> JNull
                | Some p \<Rightarrow> JObj [(''name'', JStr (pp_name p)), (''decision'', JStr (pp_decision p)),
                                 (''reasons'', JArr (map JStr (pp_reasons p)))])]) authority"

section \<open>Gates that only tighten\<close>

text \<open>
  The contract of a gate: a blocked decision stays blocked, and nothing executes that would
  not have executed without the gate. It composes.
\<close>

locale tightening =
  fixes gate :: "'p \<Rightarrow> evaluation \<Rightarrow> evaluation"
  assumes keeps_blocked: "blocked e \<Longrightarrow> gate p e = e"
    and tightens: "executes (gate p e) \<Longrightarrow> executes e"
begin

lemma blocked_stays: "blocked e \<Longrightarrow> blocked (gate p e)"
  by (simp add: keeps_blocked)

end

locale tightening_pair = first: tightening g + second: tightening h
  for g :: "'p \<Rightarrow> evaluation \<Rightarrow> evaluation" and h :: "'q \<Rightarrow> evaluation \<Rightarrow> evaluation"
begin

lemma both_tighten: "executes (h q (g p e)) \<Longrightarrow> executes e"
  by (blast intro: first.tightens second.tightens)

lemma both_keep_blocked: "blocked e \<Longrightarrow> h q (g p e) = e"
  by (simp add: first.keeps_blocked second.keeps_blocked)

end

interpretation voice: tightening "applyVoiceAuthorization cfg" for cfg
  by unfold_locales (auto simp: applyVoiceAuthorization_def executes_def Let_def split: option.splits if_splits)

interpretation scope: tightening applyGoalScope
  by unfold_locales (auto simp: applyGoalScope_def executes_def split: if_splits)

interpretation binding: tightening applyBinding
  by unfold_locales (auto simp: applyBinding_def executes_def split: option.splits list.splits if_splits)

interpretation package: tightening applyPackageAuthority
  by unfold_locales (auto simp: applyPackageAuthority_def executes_def Let_def split: option.splits if_splits)

interpretation voice_scope: tightening_pair "applyVoiceAuthorization cfg" applyGoalScope for cfg ..

interpretation binding_package: tightening_pair applyBinding applyPackageAuthority ..

section \<open>The whole gate\<close>

definition gate_evaluation ::
  "voice_config \<Rightarrow> rat option option \<Rightarrow> run_goal option \<Rightarrow> string option \<Rightarrow> authority option \<Rightarrow> tool \<Rightarrow> evaluation \<Rightarrow> evaluation" where
  "gate_evaluation cfg voice goal bindingError authority t raw =
     applyPackageAuthority authority (applyBinding bindingError
       (applyGoalScope (goal, t) (applyVoiceAuthorization cfg voice raw)))"

lemma gate_tightens: "executes (gate_evaluation cfg voice goal err au t raw) \<Longrightarrow> executes raw"
  unfolding gate_evaluation_def by (blast dest: binding_package.both_tighten voice_scope.both_tighten)

lemma gate_keeps_blocked: "blocked raw \<Longrightarrow> gate_evaluation cfg voice goal err au t raw = raw"
  by (simp add: gate_evaluation_def voice_scope.both_keep_blocked binding_package.both_keep_blocked)

lemma gate_executes_conditions:
  assumes "executes (gate_evaluation cfg voice goal err au t raw)"
  shows "\<not> goal_blocks goal t" "err \<in> {None, Some []}"
    "case au of None \<Rightarrow> True | Some a \<Rightarrow> (\<exists>m. au_permission a = Some m \<and> pm_allowed m) \<and>
       (case au_policy a of None \<Rightarrow> True | Some p \<Rightarrow> pp_decision p = ''automatic'')"
    "case voice of Some v \<Rightarrow> autonomyLevel raw \<noteq> Level 0 \<longrightarrow> vc_standard cfg \<le> normalizeConfidence v | None \<Rightarrow> True"
proof -
  let ?v = "applyVoiceAuthorization cfg voice raw"
  let ?s = "applyGoalScope (goal, t) ?v"
  let ?b = "applyBinding err ?s"
  from assms have p: "executes (applyPackageAuthority au ?b)" by (simp add: gate_evaluation_def)
  then have b: "executes ?b" by (rule package.tightens)
  then have s: "executes ?s" by (rule binding.tightens)
  then have v: "executes ?v" by (rule scope.tightens)
  then have raw: "executes raw" by (rule voice.tightens)
  show "\<not> goal_blocks goal t" using s v by (auto simp: applyGoalScope_def executes_def split: if_splits)
  show "err \<in> {None, Some []}" using b s by (auto simp: applyBinding_def executes_def split: option.splits list.splits if_splits)
  show "case au of None \<Rightarrow> True | Some a \<Rightarrow> (\<exists>m. au_permission a = Some m \<and> pm_allowed m) \<and>
       (case au_policy a of None \<Rightarrow> True | Some p \<Rightarrow> pp_decision p = ''automatic'')"
    using p b by (auto simp: applyPackageAuthority_def executes_def Let_def split: option.splits if_splits)
  show "case voice of Some v \<Rightarrow> autonomyLevel raw \<noteq> Level 0 \<longrightarrow> vc_standard cfg \<le> normalizeConfidence v | None \<Rightarrow> True"
    using v raw by (auto simp: applyVoiceAuthorization_def executes_def Let_def not_less split: option.splits if_splits)
qed

section \<open>Accounts\<close>

text \<open>
  A row of \<open>connection_instances\<close> that is not deleted; \<open>cn_grandfathered\<close> is
  \<open>isGrandfatheredInstance\<close> of it.
\<close>

record connection =
  cn_id :: string
  cn_status :: string
  cn_smtp_instance_id :: "string option"
  cn_vault_key :: string
  cn_credential_revision :: int
  cn_grandfathered :: bool

text \<open>
  What the account checks read from outside: the provider registry
  (\<open>getProviderForBinding\<close>, \<open>captureAccountBinding\<close>), the connection instances
  (\<open>findInstance\<close> by connector and id), and the sender the stored SMTP settings validate to
  (\<open>None\<close> when reading or validating them throws).
\<close>

record accounts =
  ac_provider :: "string \<Rightarrow> account_binding option \<Rightarrow> unit res"
  ac_capture :: "string \<Rightarrow> account_binding res"
  ac_instance :: "string \<Rightarrow> string \<Rightarrow> connection option"
  ac_smtp_from :: "string \<Rightarrow> string option"

definition accountDomainForAction :: "string \<Rightarrow> string option" where
  "accountDomainForAction toolName =
     (if toolName = ''email.send'' then Some ''email''
      else if toolName = ''notifications.send'' then Some ''notifications''
      else if toolName \<in> {''calendar.create'', ''calendar.reschedule''} then Some ''calendar''
      else None)"

text \<open>The identity also carries the account's label, which nothing compares.\<close>

definition captureSmtpIdentity :: "accounts \<Rightarrow> account_binding \<Rightarrow> smtp_identity res" where
  "captureSmtpIdentity ac b =
     (case Option.bind (ac_instance ac ''imap'' (ab_instanceId b)) (\<lambda>imap.
             Option.bind (cn_smtp_instance_id imap) (\<lambda>i. if i = [] then None else ac_instance ac ''smtp'' i)) of
        None \<Rightarrow> Inl (Error ''Select a connected SMTP sender for this IMAP account; no send was proposed'')
      | Some smtp \<Rightarrow>
          if cn_status smtp \<noteq> ''connected''
          then Inl (Error ''Select a connected SMTP sender for this IMAP account; no send was proposed'')
          else (case ac_smtp_from ac (cn_vault_key smtp) of
                  None \<Rightarrow> Inl (Error ''SMTP is not configured for the selected IMAP account; no send was proposed'')
                | Some from \<Rightarrow>
                    Inr \<lparr>smtp_instanceId = cn_id smtp, smtp_credentialRevision = cn_credential_revision smtp,
                         smtp_from = from\<rparr>))"

definition assertSmtpIdentity :: "accounts \<Rightarrow> account_binding option \<Rightarrow> unit res" where
  "assertSmtpIdentity ac binding =
     (case binding of
        None \<Rightarrow> Inr ()
      | Some b \<Rightarrow>
          if ab_providerId b \<noteq> ''imap'' then Inr ()
          else (case ab_smtpIdentity b of
                  None \<Rightarrow> Inl (Error ''SMTP account binding is missing; new approval is required'')
                | Some old \<Rightarrow>
                    if smtp_instanceId old = [] then Inl (Error ''SMTP account binding is missing; new approval is required'')
                    else (case captureSmtpIdentity ac b of
                            Inl e \<Rightarrow> Inl e
                          | Inr cur \<Rightarrow>
                              if cur \<noteq> old
                              then Inl (Error ''SMTP sender identity changed since approval; no message was attempted'')
                              else Inr ())))"

definition calendar_owned :: "accounts \<Rightarrow> account_binding option \<Rightarrow> calendar_row \<Rightarrow> bool" where
  "calendar_owned ac binding e =
     (case binding of
        None \<Rightarrow> False
      | Some b \<Rightarrow>
          if ab_providerId b = ''mock'' then ce_source e = ''mock-calendar''
          else if ab_providerId b = ''google-calendar'' \<and> ce_source e = ''google-calendar'' then
            (case ac_instance ac ''google'' (ab_instanceId b) of
               None \<Rightarrow> False
             | Some i \<Rightarrow>
                 if cn_grandfathered i then starts_with (ce_id e) ''gcal_'' \<and> \<not> starts_with (ce_id e) ''gcal_conn_''
                 else starts_with (ce_id e) (''gcal_'' @ cn_id i @ ''_''))
          else False)"

definition assertCalendarTarget :: "accounts \<Rightarrow> account_binding option \<Rightarrow> string \<Rightarrow> db \<Rightarrow> unit res" where
  "assertCalendarTarget ac binding eventId s =
     (case getCachedCalendarEvent eventId s of
        None \<Rightarrow> Inl (Error ''Calendar event is unavailable; no change was attempted'')
      | Some e \<Rightarrow>
          if calendar_owned ac binding e then Inr ()
          else Inl (Error ''Calendar event belongs to a different account; no change was attempted''))"

definition event_id_of :: "jsval \<Rightarrow> string" where
  "event_id_of args = (case js_get (Some args) ''eventId'' of Some (JStr i) \<Rightarrow> i | _ \<Rightarrow> [])"

text \<open>The check that the worker, the approval and a fresh proposal make before they act.\<close>

definition check_account :: "accounts \<Rightarrow> string \<Rightarrow> account_binding option \<Rightarrow> jsval \<Rightarrow> db \<Rightarrow> unit res" where
  "check_account ac toolName binding args s =
     (case accountDomainForAction toolName of
        None \<Rightarrow> Inr ()
      | Some d \<Rightarrow>
          (case ac_provider ac d binding of
             Inl e \<Rightarrow> Inl e
           | Inr _ \<Rightarrow>
               (case (if toolName = ''email.send'' then assertSmtpIdentity ac binding else Inr ()) of
                  Inl e \<Rightarrow> Inl e
                | Inr _ \<Rightarrow>
                    if toolName = ''calendar.reschedule'' then assertCalendarTarget ac binding (event_id_of args) s
                    else Inr ())))"

text \<open>The account captured when an action is proposed: a binding, or why there is none.\<close>

definition captureProposedAccount ::
  "accounts \<Rightarrow> string \<Rightarrow> jsval \<Rightarrow> tool \<Rightarrow> account_binding option \<Rightarrow> db \<Rightarrow> account_context option" where
  "captureProposedAccount ac toolName args t source s =
     (case (if t_requiresAccountBinding t \<and> t_category t = CatRead then Some (t_domain t) else accountDomainForAction toolName) of
        None \<Rightarrow> None
      | Some d \<Rightarrow>
          let failed = (\<lambda>e. Some (None, Some (error_message e)));
              finish = (\<lambda>b. if toolName = ''calendar.reschedule''
                            then (case assertCalendarTarget ac (Some b) (event_id_of args) s of
                                    Inl e \<Rightarrow> failed e | Inr _ \<Rightarrow> Some (Some b, None))
                            else Some (Some b, None)) in
          (case (case source of
                   Some b \<Rightarrow> (case ac_provider ac d (Some b) of Inl e \<Rightarrow> Inl e | Inr _ \<Rightarrow> Inr b)
                 | None \<Rightarrow> ac_capture ac d) of
             Inl e \<Rightarrow> failed e
           | Inr b \<Rightarrow>
               if toolName = ''email.send'' \<and> ab_providerId b = ''imap'' then
                 (case captureSmtpIdentity ac b of
                    Inl e \<Rightarrow> failed e
                  | Inr i \<Rightarrow> finish (b\<lparr>ab_smtpIdentity := Some i\<rparr>))
               else finish b))"

text \<open>
  A message goes out only under the identity that was approved: when the account check
  of an e-mail passes for an IMAP account, the sender, the SMTP account and the revision of
  its credentials are now what they were when the action was proposed, and that SMTP
  account is connected.
\<close>

theorem smtp_identity_unchanged:
  assumes "check_account ac ''email.send'' (Some b) args s = Inr ()" and "ab_providerId b = ''imap''"
  shows "\<exists>old imap i smtp. ab_smtpIdentity b = Some old \<and> ac_instance ac ''imap'' (ab_instanceId b) = Some imap \<and>
           cn_smtp_instance_id imap = Some i \<and> ac_instance ac ''smtp'' i = Some smtp \<and> cn_status smtp = ''connected'' \<and>
           cn_id smtp = smtp_instanceId old \<and> cn_credential_revision smtp = smtp_credentialRevision old \<and>
           ac_smtp_from ac (cn_vault_key smtp) = Some (smtp_from old)"
proof -
  from assms have "assertSmtpIdentity ac (Some b) = Inr ()"
    by (auto simp: check_account_def accountDomainForAction_def split: sum.splits)
  with assms(2) obtain old where old: "ab_smtpIdentity b = Some old" "captureSmtpIdentity ac b = Inr old"
    by (auto simp: assertSmtpIdentity_def split: option.splits sum.splits if_splits)
  then show ?thesis
    by (auto simp: captureSmtpIdentity_def Option.bind_eq_Some_conv split: option.splits if_splits)
qed

definition ex_binding :: account_binding where
  "ex_binding = \<lparr>ab_providerId = ''imap'', ab_instanceId = ''m'',
     ab_smtpIdentity = Some \<lparr>smtp_instanceId = ''t'', smtp_credentialRevision = 2, smtp_from = ''me@x''\<rparr>\<rparr>"

definition ex_connection :: "string \<Rightarrow> connection" where
  "ex_connection i = \<lparr>cn_id = i, cn_status = ''connected'', cn_smtp_instance_id = Some ''t'', cn_vault_key = ''k'',
     cn_credential_revision = 2, cn_grandfathered = False\<rparr>"

definition ex_accounts :: accounts where
  "ex_accounts = \<lparr>ac_provider = (\<lambda>d b. Inr ()), ac_capture = (\<lambda>d. Inr ex_binding),
     ac_instance = (\<lambda>c i. Some (ex_connection i)), ac_smtp_from = (\<lambda>k. Some ''me@x'')\<rparr>"

lemma ex_account_ok: "check_account ex_accounts ''email.send'' (Some ex_binding) (JObj []) empty_db = Inr ()"
  by (simp add: check_account_def accountDomainForAction_def assertSmtpIdentity_def captureSmtpIdentity_def
      ex_accounts_def ex_binding_def ex_connection_def)

theorem smtp_identity_unchanged_witness:
  "ac_smtp_from ex_accounts ''k'' = Some ''me@x'' \<and>
   (\<exists>old. ab_smtpIdentity ex_binding = Some old \<and> smtp_from old = ''me@x'')"
  using smtp_identity_unchanged [OF ex_account_ok] by (auto simp: ex_binding_def ex_accounts_def ex_connection_def)

end
