(* ===== verification/U2_Queue_Inv.thy ===== *)
theory U2_Queue_Inv
  imports U2_Queue
begin

text \<open>
  The invariant of the action queue, its preservation by every operation, and what follows:
  exclusive leases, no result recorded by a worker that lost its lease, terminal rows that
  nothing changes, bounded retry delays.
\<close>

section \<open>Primary keys\<close>

interpretation q_cancel: keyed_update q_id cancel_row
  by unfold_locales (simp add: cancel_row_def)
interpretation q_stop: keyed_update q_id stop_row
  by unfold_locales (simp add: stop_row_def split: prod.splits)
interpretation q_requeue: keyed_update q_id requeue_row
  by unfold_locales (simp add: requeue_row_def split: prod.splits)
interpretation q_lease: keyed_update q_id lease_row
  by unfold_locales (simp add: lease_row_def split: prod.splits)
interpretation q_renew: keyed_update q_id renew_row
  by unfold_locales (simp add: renew_row_def split: prod.splits)
interpretation q_begin: keyed_update q_id begin_row
  by unfold_locales (simp add: begin_row_def split: prod.splits)
interpretation q_settle: keyed_update q_id settle_row
  by unfold_locales (simp add: settle_row_def split: prod.splits)
interpretation t_expire: keyed_update t_id expire_attempt
  by unfold_locales (simp add: expire_attempt_def)
interpretation t_settle: keyed_update t_id settle_attempt_row
  by unfold_locales (simp add: settle_attempt_row_def split: prod.splits)

lemmas row_defs = cancel_row_def stop_row_def requeue_row_def lease_row_def renew_row_def
  begin_row_def settle_row_def expire_attempt_def settle_attempt_row_def

section \<open>The invariant\<close>

text \<open>A row is held under a lease exactly when its status says so.\<close>

definition row_ok :: "queue_row \<Rightarrow> bool" where
  "row_ok q \<longleftrightarrow>
     (q_status q \<in> {Leased, Executing} \<longleftrightarrow> q_lease_owner q \<noteq> None) \<and>
     (q_lease_owner q = None \<longleftrightarrow> q_lease_expires_at q = None)"

definition attempt_ok :: "queue_row list \<Rightarrow> attempt_row \<Rightarrow> bool" where
  "attempt_ok qs t \<longleftrightarrow>
     (\<exists>q\<in>set qs. q_id q = t_queue_id t \<and> 1 \<le> t_attempt_number t \<and> t_attempt_number t \<le> q_attempt_count q \<and>
        (t_status t = AtExecuting \<longrightarrow>
           q_status q = Executing \<and> q_lease_owner q = Some (t_lease_owner t) \<and>
           q_attempt_count q = t_attempt_number t))"

definition executing_ok :: "attempt_row list \<Rightarrow> queue_row \<Rightarrow> bool" where
  "executing_ok ts q \<longleftrightarrow>
     (q_status q = Executing \<longrightarrow> (\<exists>t\<in>set ts. t_queue_id t = q_id q \<and> t_status t = AtExecuting))"

definition queue_inv :: "queue_row list \<Rightarrow> attempt_row list \<Rightarrow> bool" where
  "queue_inv qs ts \<longleftrightarrow>
     distinct (map q_id qs) \<and> distinct (map q_action_id qs) \<and> distinct (map t_id ts) \<and>
     distinct (map (\<lambda>t. (t_queue_id t, t_attempt_number t)) ts) \<and>
     (\<forall>q\<in>set qs. row_ok q \<and> executing_ok ts q) \<and> (\<forall>t\<in>set ts. attempt_ok qs t)"

definition queue_ok :: "db \<Rightarrow> bool" where
  "queue_ok s \<longleftrightarrow> queue_inv (queue s) (attempts s)"

lemma queue_invD:
  assumes "queue_inv qs ts"
  shows "distinct (map q_id qs)" "distinct (map q_action_id qs)" "distinct (map t_id ts)"
    "distinct (map (\<lambda>t. (t_queue_id t, t_attempt_number t)) ts)"
    "q \<in> set qs \<Longrightarrow> row_ok q" "q \<in> set qs \<Longrightarrow> executing_ok ts q" "t \<in> set ts \<Longrightarrow> attempt_ok qs t"
  using assms by (auto simp: queue_inv_def)

lemma q_id_inj: "queue_inv qs ts \<Longrightarrow> q \<in> set qs \<Longrightarrow> q' \<in> set qs \<Longrightarrow> q_id q = q_id q' \<Longrightarrow> q = q'"
  by (rule key_unique [OF queue_invD(1)])

text \<open>One executing attempt per row, so an attempt is found through its row.\<close>

lemma executing_attempt_unique:
  assumes inv: "queue_inv qs ts" and "t \<in> set ts" "t' \<in> set ts" "t_queue_id t = t_queue_id t'"
    "t_status t = AtExecuting" "t_status t' = AtExecuting"
  shows "t = t'"
proof -
  from queue_invD(7) [OF inv assms(2)] queue_invD(7) [OF inv assms(3)] assms(4-6)
  have "t_attempt_number t = t_attempt_number t'"
    by (auto simp: attempt_ok_def dest: q_id_inj [OF inv])
  with assms(2-4) key_unique [OF queue_invD(4) [OF inv], of t t'] show ?thesis by simp
qed

section \<open>Two ways an operation changes a row\<close>

text \<open>An UPDATE that neither starts nor ends an execution, the attempts untouched.\<close>

lemma attempt_ok_update:
  assumes t: "attempt_ok qs t"
    and f: "\<And>q. q \<in> set qs \<Longrightarrow> P q \<Longrightarrow> q_id (f q) = q_id q \<and> q_attempt_count (f q) = q_attempt_count q \<and>
      (q_status q = Executing \<longrightarrow> q_status (f q) = Executing \<and> q_lease_owner (f q) = q_lease_owner q)"
  shows "attempt_ok (sql_update P f qs) t"
proof -
  from t obtain q where q: "q \<in> set qs" "q_id q = t_queue_id t" "1 \<le> t_attempt_number t"
      "t_attempt_number t \<le> q_attempt_count q"
    and ex: "t_status t = AtExecuting \<Longrightarrow> q_status q = Executing \<and> q_lease_owner q = Some (t_lease_owner t) \<and>
      q_attempt_count q = t_attempt_number t"
    by (auto simp: attempt_ok_def)
  let ?q = "if P q then f q else q"
  have "?q \<in> set (sql_update P f qs)" using q(1) by (auto simp: set_sql_update)
  moreover have "q_id ?q = t_queue_id t \<and> t_attempt_number t \<le> q_attempt_count ?q \<and>
      (t_status t = AtExecuting \<longrightarrow> q_status ?q = Executing \<and> q_lease_owner ?q = Some (t_lease_owner t) \<and>
        q_attempt_count ?q = t_attempt_number t)"
    using f [OF q(1)] q ex by auto
  ultimately show ?thesis using q(3) unfolding attempt_ok_def by blast
qed

lemma queue_inv_update:
  assumes inv: "queue_inv qs ts"
    and f: "\<And>q. q \<in> set qs \<Longrightarrow> P q \<Longrightarrow>
      q_id (f q) = q_id q \<and> q_action_id (f q) = q_action_id q \<and> q_attempt_count (f q) = q_attempt_count q \<and>
      row_ok (f q) \<and> (q_status (f q) = Executing \<longleftrightarrow> q_status q = Executing) \<and>
      (q_status q = Executing \<longrightarrow> q_lease_owner (f q) = q_lease_owner q)"
  shows "queue_inv (sql_update P f qs) ts"
proof -
  have ids: "map q_id (sql_update P f qs) = map q_id qs" "map q_action_id (sql_update P f qs) = map q_action_id qs"
    using f by (auto simp: sql_update_def)
  have rows: "\<forall>q\<in>set (sql_update P f qs). row_ok q \<and> executing_ok ts q"
  proof
    fix q' assume "q' \<in> set (sql_update P f qs)"
    then obtain q where q: "q \<in> set qs" "q' = (if P q then f q else q)" by (auto simp: set_sql_update)
    with f [OF q(1)] queue_invD(5,6) [OF inv q(1)] show "row_ok q' \<and> executing_ok ts q'"
      by (auto simp: executing_ok_def)
  qed
  have "\<forall>t\<in>set ts. attempt_ok (sql_update P f qs) t"
    using f queue_invD(7) [OF inv] by (blast intro: attempt_ok_update)
  with rows show ?thesis
    using inv by (auto simp: queue_inv_def ids)
qed

text \<open>
  An UPDATE of one row that leaves it not executing, together with closing the executing
  attempts of that row: leasing an expired row, and settling an attempt.
\<close>

lemma queue_inv_close:
  assumes inv: "queue_inv qs ts" and q0: "q0 \<in> set qs" "P q0" and P: "\<And>q. q \<in> set qs \<Longrightarrow> P q \<Longrightarrow> q = q0"
    and f: "q_id (f q0) = q_id q0" "q_action_id (f q0) = q_action_id q0"
      "q_attempt_count (f q0) = q_attempt_count q0" "row_ok (f q0)" "q_status (f q0) \<noteq> Executing"
    and Q: "\<And>t. t \<in> set ts \<Longrightarrow> Q t \<longleftrightarrow> t_queue_id t = q_id q0 \<and> t_status t = AtExecuting"
    and g: "\<And>t. t_id (g t) = t_id t \<and> t_queue_id (g t) = t_queue_id t \<and>
      t_attempt_number (g t) = t_attempt_number t \<and> t_status (g t) \<noteq> AtExecuting"
  shows "queue_inv (sql_update P f qs) (sql_update Q g ts)"
proof -
  have fq: "(if P q then f q else q) = (if q = q0 then f q0 else q)" if "q \<in> set qs" for q
  proof (cases "P q")
    case True
    with P [OF that] show ?thesis by simp
  next
    case False
    with q0(2) show ?thesis by auto
  qed
  have u: "sql_update P f qs = map (\<lambda>q. if q = q0 then f q0 else q) qs"
    unfolding sql_update_def by (rule map_cong) (simp_all only: fq)
  have ids: "map q_id (sql_update P f qs) = map q_id qs" "map q_action_id (sql_update P f qs) = map q_action_id qs"
    by (simp_all add: u f)
  have tids: "map t_id (sql_update Q g ts) = map t_id ts"
    "map (\<lambda>t. (t_queue_id t, t_attempt_number t)) (sql_update Q g ts) = map (\<lambda>t. (t_queue_id t, t_attempt_number t)) ts"
    using g by (auto simp: sql_update_def)
  have rows: "row_ok q' \<and> executing_ok (sql_update Q g ts) q'" if "q' \<in> set (sql_update P f qs)" for q'
  proof -
    from that obtain q where q: "q \<in> set qs" "q' = (if q = q0 then f q0 else q)"
      by (auto simp: u)
    show ?thesis
    proof (cases "q = q0")
      case True
      with q f show ?thesis by (simp add: executing_ok_def)
    next
      case False
      then have ne: "q_id q \<noteq> q_id q0" using q(1) q0(1) q_id_inj [OF inv] by blast
      have "executing_ok (sql_update Q g ts) q"
      proof (cases "q_status q = Executing")
        case True
        with queue_invD(6) [OF inv q(1)] obtain t where "t \<in> set ts" "t_queue_id t = q_id q" "t_status t = AtExecuting"
          by (auto simp: executing_ok_def)
        moreover from this ne have "\<not> Q t" using Q by simp
        ultimately show ?thesis by (force simp: executing_ok_def set_sql_update)
      qed (simp add: executing_ok_def)
      with q False queue_invD(5) [OF inv q(1)] show ?thesis by simp
    qed
  qed
  have atts: "attempt_ok (sql_update P f qs) t'" if "t' \<in> set (sql_update Q g ts)" for t'
  proof -
    from that obtain t where t: "t \<in> set ts" "t' = (if Q t then g t else t)" by (auto simp: set_sql_update)
    from queue_invD(7) [OF inv t(1)] obtain q where q: "q \<in> set qs" "q_id q = t_queue_id t"
        "1 \<le> t_attempt_number t" "t_attempt_number t \<le> q_attempt_count q"
      and ex: "t_status t = AtExecuting \<Longrightarrow> q_status q = Executing \<and> q_lease_owner q = Some (t_lease_owner t) \<and>
        q_attempt_count q = t_attempt_number t"
      by (auto simp: attempt_ok_def)
    let ?q = "if q = q0 then f q0 else q"
    have "?q \<in> set (sql_update P f qs)" using q(1) by (auto simp: u)
    moreover have "t_status t' = AtExecuting \<Longrightarrow> q \<noteq> q0" using t Q g q(2) by (auto split: if_splits)
    ultimately show ?thesis
      using t g f q ex by (auto simp: attempt_ok_def split: if_splits)
  qed
  show ?thesis
    using inv rows atts by (auto simp: queue_inv_def ids tids)
qed

section \<open>Every operation keeps the invariant\<close>

lemma queue_ok_cong: "queue s' = queue s \<Longrightarrow> attempts s' = attempts s \<Longrightarrow> queue_ok s' = queue_ok s"
  by (simp add: queue_ok_def)

lemma attempt_ok_append: "attempt_ok qs t \<Longrightarrow> attempt_ok (qs @ rs) t"
  by (auto simp: attempt_ok_def)

lemma enqueueAction_ok: "queue_ok s \<Longrightarrow> queue_ok (snd (enqueueAction nid now i s))"
  by (auto simp: enqueueAction_def queue_ok_def queue_inv_def queue_row_of_def row_ok_def executing_ok_def
      getQueuedAction_def getQueuedActionByActionId_def sql_get_None_iff Let_def
      split: option.splits sum.splits list.splits intro: attempt_ok_append)

lemma cancelUnstartedAction_ok: "queue_ok s \<Longrightarrow> queue_ok (snd (cancelUnstartedAction aid now s))"
  by (auto simp: cancelUnstartedAction_def queue_ok_def Let_def row_ok_def cancel_row_def
      split: option.splits intro!: queue_inv_update dest: queue_invD(5))

lemma stopLeasedAction_ok: "queue_ok s \<Longrightarrow> queue_ok (snd (stopLeasedAction qid owner st err cls now s))"
  by (auto simp: stopLeasedAction_def queue_ok_def Let_def row_ok_def stop_row_def intro!: queue_inv_update)

lemma requeueAction_ok: "queue_ok s \<Longrightarrow> queue_ok (snd (requeueAction qid appr pol now s))"
  by (auto simp: requeueAction_def queue_ok_def Let_def row_ok_def requeue_row_def intro!: queue_inv_update)

lemma renewActionLease_ok: "queue_ok s \<Longrightarrow> queue_ok (snd (renewActionLease qid owner ms now s))"
  by (auto simp: renewActionLease_def queue_ok_def Let_def row_ok_def renew_row_def
      intro!: queue_inv_update dest: queue_invD(5))

lemma take_lease_ok:
  assumes "queue_ok s" and P: "\<And>q q'. q \<in> set (queue s) \<Longrightarrow> q' \<in> set (queue s) \<Longrightarrow> P q \<Longrightarrow> P q' \<Longrightarrow> q = q'"
  shows "queue_ok (snd (take_lease P owner ms now s))"
proof (cases "sql_get P (queue s)")
  case None
  with assms(1) show ?thesis by (simp add: take_lease_def)
next
  case (Some q0)
  from sql_get_SomeD [OF Some] have q0: "q0 \<in> set (queue s)" "P q0" by auto
  have "queue_inv (sql_update P (lease_row (owner, now + ms, now)) (queue s))
          (sql_update (\<lambda>t. t_queue_id t = q_id q0 \<and> t_status t = AtExecuting) (expire_attempt now) (attempts s))"
    by (rule queue_inv_close [where ?q0.0 = q0])
      (use assms(1) q0 P in \<open>auto simp: queue_ok_def lease_row_def expire_attempt_def row_ok_def\<close>)
  with Some show ?thesis by (simp add: take_lease_def queue_ok_def close_attempts_def)
qed

lemma q_action_id_inj:
  "queue_inv qs ts \<Longrightarrow> q \<in> set qs \<Longrightarrow> q' \<in> set qs \<Longrightarrow> q_action_id q = q_action_id q' \<Longrightarrow> q = q'"
  by (rule key_unique [OF queue_invD(2)])

lemma leaseNextAction_ok:
  assumes ok: "queue_ok s"
  shows "queue_ok (snd (leaseNextAction owner ms now s))"
proof -
  have "queue_ok (snd (take_lease (\<lambda>q. q_id q = k \<and> due now q) owner ms now s))" for k
    by (rule take_lease_ok [OF ok]) (metis ok q_id_inj queue_ok_def)
  then show ?thesis
    using ok by (simp add: leaseNextAction_def case_prod_beta split: option.splits)
qed

lemma leaseActionByActionId_ok:
  assumes ok: "queue_ok s"
  shows "queue_ok (snd (leaseActionByActionId aid owner ms now s))"
proof -
  have "queue_ok (snd (take_lease (\<lambda>q. q_action_id q = aid \<and> due now q) owner ms now s))"
    by (rule take_lease_ok [OF ok]) (metis ok q_action_id_inj queue_ok_def)
  then show ?thesis
    using ok by (simp add: leaseActionByActionId_def case_prod_beta)
qed

lemma queue_inv_begin:
  assumes inv: "queue_inv qs ts" and q: "q \<in> set qs" "q_status q = Leased" "q_lease_owner q = Some owner"
    and fresh: "tid \<notin> t_id ` set ts"
  shows "queue_inv (sql_update (\<lambda>x. q_id x = q_id q) (begin_row (Suc (q_attempt_count q), now)) qs)
           (ts @ [new_attempt tid (q_id q) (Suc (q_attempt_count q)) owner now])"
    (is "queue_inv ?qs (ts @ [?t])")
proof -
  let ?n = "Suc (q_attempt_count q)"
  let ?b = "begin_row (?n, now)"
  have only: "q' = q" if "q' \<in> set qs" "q_id q' = q_id q" for q'
    using q_id_inj [OF inv that(1) q(1) that(2)] .
  have none: "t_queue_id t = q_id q \<Longrightarrow> t_status t \<noteq> AtExecuting \<and> t_attempt_number t \<le> q_attempt_count q"
    if "t \<in> set ts" for t
    using queue_invD(7) [OF inv that] q(2) by (auto simp: attempt_ok_def dest: only)
  have ids: "map q_id ?qs = map q_id qs" "map q_action_id ?qs = map q_action_id qs"
    by (auto simp: sql_update_def begin_row_def)
  have dt: "distinct (map (\<lambda>t. (t_queue_id t, t_attempt_number t)) (ts @ [?t]))"
    using queue_invD(4) [OF inv] none by (force simp: new_attempt_def)
  have mem: "?b q \<in> set ?qs" using q(1) by (auto simp: set_sql_update)
  have old: "q' \<in> set ?qs" if "q' \<in> set qs" "q_id q' \<noteq> q_id q" for q'
    using that by (force simp: set_sql_update)
  have rows: "row_ok q' \<and> executing_ok (ts @ [?t]) q'" if m: "q' \<in> set ?qs" for q'
  proof -
    from m obtain x where x: "x \<in> set qs" "q' = (if q_id x = q_id q then ?b x else x)"
      by (auto simp: set_sql_update)
    show ?thesis
    proof (cases "q_id x = q_id q")
      case True
      with only [OF x(1)] x(2) queue_invD(5) [OF inv q(1)] q show ?thesis
        by (simp add: begin_row_def row_ok_def executing_ok_def new_attempt_def)
    next
      case False
      with x queue_invD(5,6) [OF inv x(1)] show ?thesis by (auto simp: executing_ok_def)
    qed
  qed
  have atts: "attempt_ok ?qs t" if m: "t \<in> set (ts @ [?t])" for t
  proof (cases "t = ?t")
    case True
    with mem q show ?thesis by (auto simp: attempt_ok_def new_attempt_def begin_row_def intro!: bexI [where x = "?b q"])
  next
    case False
    with m have t: "t \<in> set ts" by simp
    from queue_invD(7) [OF inv t] obtain x where x: "x \<in> set qs" "q_id x = t_queue_id t"
      and xr: "1 \<le> t_attempt_number t" "t_attempt_number t \<le> q_attempt_count x"
      "t_status t = AtExecuting \<longrightarrow> q_status x = Executing \<and> q_lease_owner x = Some (t_lease_owner t) \<and>
         q_attempt_count x = t_attempt_number t" by (auto simp: attempt_ok_def)
    show ?thesis
    proof (cases "q_id x = q_id q")
      case True
      with x none [OF t] xr(1) mem show ?thesis
        by (auto simp: attempt_ok_def begin_row_def intro!: bexI [where x = "?b q"])
    next
      case False
      with old [OF x(1)] x(2) xr show ?thesis unfolding attempt_ok_def by blast
    qed
  qed
  have "distinct (map t_id (ts @ [?t]))"
    using fresh queue_invD(3) [OF inv] by (auto simp: new_attempt_def)
  with dt rows atts show ?thesis
    using queue_invD(1,2) [OF inv] by (simp only: queue_inv_def ids) blast
qed

lemma getQueuedActionD: "getQueuedAction qid s = Some q \<Longrightarrow> q \<in> set (queue s) \<and> q_id q = qid"
  by (auto simp: getQueuedAction_def dest: sql_get_SomeD)

lemma getActionAttemptD: "getActionAttempt tid s = Some t \<Longrightarrow> t \<in> set (attempts s) \<and> t_id t = tid"
  by (auto simp: getActionAttempt_def dest: sql_get_SomeD)

lemma beginActionAttempt_Inr:
  assumes "beginActionAttempt nid qid owner now s = (Inr r, s')"
  obtains q where "q \<in> set (queue s)" "q_id q = qid" "q_status q = Leased" "q_lease_owner q = Some owner"
    "nid \<notin> t_id ` set (attempts s)"
    "s' = s\<lparr>attempts := attempts s @ [new_attempt nid qid (Suc (q_attempt_count q)) owner now],
            queue := sql_update (\<lambda>q. q_id q = qid) (begin_row (Suc (q_attempt_count q), now)) (queue s)\<rparr>"
  using assms
  by (auto simp: beginActionAttempt_def Let_def getActionAttempt_def sql_get_None_iff
      split: option.splits if_splits dest: getQueuedActionD)

lemma beginActionAttempt_Inl: "beginActionAttempt nid qid owner now s = (Inl e, s') \<Longrightarrow> s' = s"
  by (auto simp: beginActionAttempt_def Let_def split: option.splits if_splits)

lemma beginActionAttempt_ok:
  assumes ok: "queue_ok s"
  shows "queue_ok (snd (beginActionAttempt nid qid owner now s))"
proof (cases "beginActionAttempt nid qid owner now s")
  case (Pair r s')
  show ?thesis
  proof (cases r)
    case (Inl e)
    with Pair ok show ?thesis by (auto dest: beginActionAttempt_Inl)
  next
    case (Inr t)
    with Pair show ?thesis
      using ok by (auto simp: queue_ok_def elim!: beginActionAttempt_Inr intro: queue_inv_begin)
  qed
qed

lemma settleAttempt_Inr:
  assumes "settleAttempt tid owner se now s = (Inr r, s')"
  obtains t q where "t \<in> set (attempts s)" "t_id t = tid" "t_status t = AtExecuting" "t_lease_owner t = owner"
    "q \<in> set (queue s)" "q_id q = t_queue_id t" "q_status q = Executing" "q_lease_owner q = Some owner"
    "s' = s\<lparr>queue := sql_update (\<lambda>q. q_id q = t_queue_id t \<and> q_status q = Executing \<and> q_lease_owner q = Some owner)
                      (settle_row (se, now)) (queue s),
            attempts := sql_update (\<lambda>t. t_id t = tid \<and> t_status t = AtExecuting)
                          (settle_attempt_row (se, now)) (attempts s)\<rparr>"
    "r = getQueuedAction (t_queue_id t) s'"
proof -
  from assms obtain t where t: "getActionAttempt tid s = Some t" "t_status t = AtExecuting" "t_lease_owner t = owner"
    and ch: "sql_changes (\<lambda>q. q_id q = t_queue_id t \<and> q_status q = Executing \<and> q_lease_owner q = Some owner) (queue s) = 1"
    and s': "s' = s\<lparr>queue := sql_update (\<lambda>q. q_id q = t_queue_id t \<and> q_status q = Executing \<and> q_lease_owner q = Some owner)
                      (settle_row (se, now)) (queue s),
            attempts := sql_update (\<lambda>t. t_id t = tid \<and> t_status t = AtExecuting)
                          (settle_attempt_row (se, now)) (attempts s)\<rparr>"
      "r = getQueuedAction (t_queue_id t) s'"
    by (auto simp: settleAttempt_def Let_def split: option.splits if_splits)
  from sql_changes_1_ex [OF ch] obtain q where "q \<in> set (queue s)" "q_id q = t_queue_id t"
    "q_status q = Executing" "q_lease_owner q = Some owner" by blast
  with t s' that show ?thesis by (auto dest: getActionAttemptD)
qed

lemma settleAttempt_Inl: "settleAttempt tid owner se now s = (Inl e, s') \<Longrightarrow> s' = s"
  by (auto simp: settleAttempt_def Let_def split: option.splits if_splits)

lemma settleAttempt_ok:
  assumes ok: "queue_ok s" and se: "se_queueStatus se \<notin> {Leased, Executing}" "se_attemptStatus se \<noteq> AtExecuting"
  shows "queue_ok (snd (settleAttempt tid owner se now s))"
proof (cases "settleAttempt tid owner se now s")
  case (Pair r s')
  show ?thesis
  proof (cases r)
    case (Inl e)
    with Pair ok show ?thesis by (auto dest: settleAttempt_Inl)
  next
    case (Inr x)
    from ok have inv: "queue_inv (queue s) (attempts s)" by (simp add: queue_ok_def)
    from Pair Inr obtain t q where t: "t \<in> set (attempts s)" "t_id t = tid" "t_status t = AtExecuting"
      and q: "q \<in> set (queue s)" "q_id q = t_queue_id t" "q_status q = Executing" "q_lease_owner q = Some owner"
      and s': "s' = s\<lparr>queue := sql_update (\<lambda>q. q_id q = t_queue_id t \<and> q_status q = Executing \<and> q_lease_owner q = Some owner)
                      (settle_row (se, now)) (queue s),
            attempts := sql_update (\<lambda>t. t_id t = tid \<and> t_status t = AtExecuting)
                          (settle_attempt_row (se, now)) (attempts s)\<rparr>"
      by (auto elim: settleAttempt_Inr)
    have same: "u = t" if "u \<in> set (attempts s)" "t_queue_id u = q_id q" "t_status u = AtExecuting" for u
      using executing_attempt_unique [OF inv that(1) t(1)] that q(2) t(3) by simp
    have byid: "u = t" if "u \<in> set (attempts s)" "t_id u = tid" for u
      using key_unique [OF queue_invD(3) [OF inv] that(1) t(1)] that t(2) by simp
    have "queue_inv (queue s') (attempts s')"
      unfolding s'
      by (simp, rule queue_inv_close [OF inv q(1)])
        (use q se in \<open>auto simp: settle_row_def settle_attempt_row_def row_ok_def
           dest: q_id_inj [OF inv] same byid intro: t\<close>)
    with Pair show ?thesis by (simp add: queue_ok_def)
  qed
qed

lemma completeActionAttempt_ok: "queue_ok s \<Longrightarrow> queue_ok (snd (completeActionAttempt tid owner now s))"
  by (auto simp: completeActionAttempt_def intro: settleAttempt_ok)

lemma failActionAttempt_ok: "queue_ok s \<Longrightarrow> queue_ok (snd (failActionAttempt tid owner err cls fo now s))"
  by (auto simp: failActionAttempt_def Let_def intro!: settleAttempt_ok split: option.splits sum.splits)

end
