(* ===== verification/U2_Queue_Safety.thy ===== *)
theory U2_Queue_Safety
  imports U2_Queue_Inv
begin

text \<open>
  Safety of the queue over arbitrary interleavings: every operation as one labelled step
  (who performs it and at what time), reachable states, exclusive leases, lost leases,
  terminal rows, and the choice of the next action.
\<close>

section \<open>Operations as steps\<close>

inductive queue_op :: "string \<Rightarrow> int \<Rightarrow> db \<Rightarrow> db \<Rightarrow> bool" where
  op_audit: "queue_op w now s (snd (recordAudit nid now i s))"
| op_patch: "queue_op w now s (snd (updateAgentAction aid p now s))"
| op_publish: "queue_op w now s (publish e s)"
| op_enqueue: "queue_op w now s (snd (enqueueAction nid now en s))"
| op_cancel: "queue_op w now s (snd (cancelUnstartedAction aid now s))"
| op_requeue: "queue_op w now s (snd (requeueAction qid appr pol now s))"
| op_stop: "queue_op w now s (snd (stopLeasedAction qid w st err cls now s))"
| op_lease_next: "queue_op w now s (snd (leaseNextAction w ms now s))"
| op_lease_action: "queue_op w now s (snd (leaseActionByActionId aid w ms now s))"
| op_renew: "queue_op w now s (snd (renewActionLease qid w ms now s))"
| op_begin: "queue_op w now s (snd (beginActionAttempt nid qid w now s))"
| op_complete: "queue_op w now s (snd (completeActionAttempt tid w now s))"
| op_fail: "queue_op w now s (snd (failActionAttempt tid w err cls fo now s))"

inductive queue_step :: "db \<Rightarrow> db \<Rightarrow> bool" where
  queue_stepI: "queue_op w now s t \<Longrightarrow> queue_step s t"

inductive_cases queue_stepE: "queue_step s t"

definition reachable :: "db \<Rightarrow> bool" where
  "reachable s \<longleftrightarrow> run_of queue_step empty_db s"

lemma recordAudit_frame:
  "queue (snd (recordAudit nid now i s)) = queue s" "attempts (snd (recordAudit nid now i s)) = attempts s"
  by (simp_all add: recordAudit_def Let_def split: autonomy.splits)

lemma queue_op_ok: "queue_op w now s t \<Longrightarrow> queue_ok s \<Longrightarrow> queue_ok t"
  by (induction rule: queue_op.induct)
    (simp_all add: enqueueAction_ok cancelUnstartedAction_ok requeueAction_ok stopLeasedAction_ok
      leaseNextAction_ok leaseActionByActionId_ok renewActionLease_ok beginActionAttempt_ok
      completeActionAttempt_ok failActionAttempt_ok recordAudit_frame queue_ok_def [of "publish _ _"]
      queue_ok_def [of "snd (recordAudit _ _ _ _)"] queue_ok_def [of "snd (updateAgentAction _ _ _ _)"],
     simp_all add: queue_ok_def)

interpretation qsys: invariant_system queue_ok queue_step
  by unfold_locales (auto elim: queue_stepE intro: queue_op_ok)

lemma queue_ok_empty: "queue_ok empty_db"
  by (simp add: queue_ok_def empty_db_def queue_inv_def)

lemma reachable_queue_ok: "reachable s \<Longrightarrow> queue_ok s"
  by (auto simp: reachable_def intro: qsys.run_inv queue_ok_empty)

text \<open>
  C5. In every state the queue can reach, by any interleaving of the operations of the store
  and any clock, at most one attempt per queued action is executing; its number is the
  row's attempt count, and the row is executing under a lease of the worker that made it.
\<close>

theorem one_executing_attempt:
  assumes "reachable s" and "t \<in> set (attempts s)" and "t_status t = AtExecuting"
  shows "\<exists>q\<in>set (queue s). q_id q = t_queue_id t \<and> q_status q = Executing \<and>
           q_lease_owner q = Some (t_lease_owner t) \<and> q_lease_expires_at q \<noteq> None \<and>
           q_attempt_count q = t_attempt_number t \<and>
           (\<forall>u\<in>set (attempts s). t_queue_id u = t_queue_id t \<and> t_status u = AtExecuting \<longrightarrow> u = t)"
proof -
  from reachable_queue_ok [OF assms(1)] have inv: "queue_inv (queue s) (attempts s)"
    by (simp add: queue_ok_def)
  from queue_invD(7) [OF inv assms(2)] assms(3) obtain q where q: "q \<in> set (queue s)" "q_id q = t_queue_id t"
    "q_status q = Executing" "q_lease_owner q = Some (t_lease_owner t)" "q_attempt_count q = t_attempt_number t"
    by (auto simp: attempt_ok_def)
  moreover from queue_invD(5) [OF inv q(1)] q(4) have "q_lease_expires_at q \<noteq> None" by (auto simp: row_ok_def)
  ultimately show ?thesis
    using executing_attempt_unique [OF inv _ assms(2)] assms(3) by blast
qed

section \<open>The state machine of one row\<close>

text \<open>
  What the operations do to one row, by worker \<open>w\<close> at time \<open>now\<close>: the contract of the store,
  stated without tables and transactions.
\<close>

inductive row_step :: "string \<Rightarrow> int \<Rightarrow> queue_row \<Rightarrow> queue_row \<Rightarrow> bool" for w now q where
  row_same: "row_step w now q q"
| row_cancel: "q_status q \<in> {Queued, Retry_wait} \<Longrightarrow> row_step w now q (cancel_row now q)"
| row_stop: "q_status q = Leased \<Longrightarrow> q_lease_owner q = Some w \<Longrightarrow> st \<in> {Failed, Cancelled, Dead_letter} \<Longrightarrow>
    row_step w now q (stop_row (st, err, cls, now) q)"
| row_requeue: "q_status q \<in> {Failed, Cancelled} \<Longrightarrow>
    q_error_class q \<notin> {Some Recovery_review_required, Some Outcome_uncertain} \<Longrightarrow>
    row_step w now q (requeue_row (appr, pol, now) q)"
| row_lease: "due now q \<Longrightarrow> row_step w now q (lease_row (w, now + ms, now) q)"
| row_renew: "q_status q \<in> {Leased, Executing} \<Longrightarrow> q_lease_owner q = Some w \<Longrightarrow>
    row_step w now q (renew_row (now + ms, now) q)"
| row_begin: "q_status q = Leased \<Longrightarrow> q_lease_owner q = Some w \<Longrightarrow>
    row_step w now q (begin_row (Suc (q_attempt_count q), now) q)"
| row_settle: "q_status q = Executing \<Longrightarrow> q_lease_owner q = Some w \<Longrightarrow>
    se_queueStatus se \<in> {Completed, Retry_wait, Failed, Dead_letter} \<Longrightarrow>
    row_step w now q (settle_row (se, now) q)"

inductive_cases row_stepE: "row_step w now q q'"

lemma row_update_step:
  assumes "getQueuedAction qid s = Some q" and "queue t = sql_update P f (queue s)"
    and "\<And>r. q_id (f r) = q_id r" and "P q \<Longrightarrow> row_step w now q (f q)"
  shows "\<exists>q'. getQueuedAction qid t = Some q' \<and> row_step w now q q'"
proof -
  have "sql_get (\<lambda>q. q_id q = qid) (sql_update P f rows) =
      map_option (\<lambda>q. if P q then f q else q) (sql_get (\<lambda>q. q_id q = qid) rows)" for rows
    by (induction rows) (auto simp: assms(3))
  with assms show ?thesis by (auto simp: getQueuedAction_def intro: row_same)
qed

lemma row_frame_step:
  "getQueuedAction qid s = Some q \<Longrightarrow> queue t = queue s \<Longrightarrow> \<exists>q'. getQueuedAction qid t = Some q' \<and> row_step w now q q'"
  by (auto simp: getQueuedAction_def intro: row_same)

lemma take_lease_row_step:
  assumes "getQueuedAction qid s = Some q" and "\<And>q. P q \<Longrightarrow> due now q"
  shows "\<exists>q'. getQueuedAction qid (snd (take_lease P w ms now s)) = Some q' \<and> row_step w now q q'"
proof (cases "sql_get P (queue s)")
  case None
  with assms(1) show ?thesis by (auto simp: take_lease_def intro: row_same)
next
  case (Some r)
  show ?thesis
    by (rule row_update_step [OF assms(1), where P = P and f = "lease_row (w, now + ms, now)"])
      (use Some assms(2) in \<open>auto simp: take_lease_def q_lease.key_upd intro: row_lease\<close>)
qed

lemma settle_row_step:
  assumes "getQueuedAction qid s = Some q" and "se_queueStatus se \<in> {Completed, Retry_wait, Failed, Dead_letter}"
  shows "\<exists>q'. getQueuedAction qid (snd (settleAttempt tid w se now s)) = Some q' \<and> row_step w now q q'"
proof (cases "settleAttempt tid w se now s")
  case (Pair r s')
  show ?thesis
  proof (cases r)
    case (Inl e)
    with Pair assms(1) show ?thesis by (auto dest!: settleAttempt_Inl intro: row_same)
  next
    case (Inr x)
    with Pair have "settleAttempt tid w se now s = (Inr x, s')" by simp
    then obtain k where s': "queue s' = sql_update
        (\<lambda>q. q_id q = k \<and> q_status q = Executing \<and> q_lease_owner q = Some w) (settle_row (se, now)) (queue s)"
      by (auto simp: settleAttempt_def Let_def split: option.splits if_splits)
    from row_update_step [OF assms(1) s', of w now] assms(2) Pair show ?thesis
      by (auto simp: q_settle.key_upd intro: row_settle)
  qed
qed

lemma queue_op_row:
  assumes "queue_op w now s t" and "getQueuedAction qid s = Some q"
  shows "\<exists>q'. getQueuedAction qid t = Some q' \<and> row_step w now q q'"
  using assms
proof (induction rule: queue_op.induct)
  case (op_audit w now s nid i)
  then show ?case by (auto intro: row_frame_step simp: recordAudit_frame)
next
  case (op_patch w now s aid p)
  then show ?case by (auto intro: row_frame_step)
next
  case (op_publish w now s e)
  then show ?case by (auto intro: row_frame_step)
next
  case (op_enqueue w now s nid en)
  then show ?case
    by (auto simp: enqueueAction_def Let_def getQueuedAction_def sql_get_append intro: row_same
        split: sum.splits option.splits list.splits)
next
  case (op_cancel w now s aid)
  then show ?case
    by (auto simp: cancelUnstartedAction_def Let_def q_cancel.key_upd split: option.splits
        intro!: row_update_step [OF op_cancel] intro: row_same row_frame_step row_cancel)
next
  case (op_requeue w now s qid' appr pol)
  show ?case
  proof (cases "snd (requeueAction qid' appr pol now s) = s")
    case True
    with op_requeue show ?thesis by (auto intro: row_same)
  next
    case False
    then have u: "queue (snd (requeueAction qid' appr pol now s)) =
        sql_update (\<lambda>q. q_id q = qid' \<and> q_status q \<in> {Failed, Cancelled}) (requeue_row (appr, pol, now)) (queue s)"
      and cls: "\<And>q. getQueuedAction qid' s = Some q \<Longrightarrow> q_error_class q \<notin> {Some Recovery_review_required, Some Outcome_uncertain}"
      by (auto simp: requeueAction_def Let_def split: if_splits)
    show ?thesis
      by (rule row_update_step [OF op_requeue u])
        (use getQueuedActionD [OF op_requeue] op_requeue cls in \<open>auto simp: q_requeue.key_upd intro!: row_requeue\<close>)
  qed
next
  case (op_stop w now s qid' st err cls)
  then show ?case
    by (auto simp: stopLeasedAction_def Let_def q_stop.key_upd
        intro!: row_update_step [OF op_stop] intro: row_same row_frame_step row_stop)
next
  case (op_lease_next w now s ms)
  then show ?case
    by (auto simp: leaseNextAction_def case_prod_beta split: option.splits
        intro: row_same row_frame_step take_lease_row_step)
next
  case (op_lease_action w now s aid ms)
  then show ?case
    by (auto simp: leaseActionByActionId_def case_prod_beta intro: row_same row_frame_step take_lease_row_step)
next
  case (op_renew w now s qid' ms)
  then show ?case
    by (auto simp: renewActionLease_def Let_def q_renew.key_upd
        intro!: row_update_step [OF op_renew] intro: row_same row_frame_step row_renew)
next
  case (op_begin w now s nid qid')
  show ?case
  proof (cases "snd (beginActionAttempt nid qid' w now s) = s")
    case True
    with op_begin show ?thesis by (auto intro: row_same)
  next
    case False
    then obtain q0 where q0: "getQueuedAction qid' s = Some q0" "q_status q0 = Leased" "q_lease_owner q0 = Some w"
      and u: "queue (snd (beginActionAttempt nid qid' w now s)) =
        sql_update (\<lambda>q. q_id q = qid') (begin_row (Suc (q_attempt_count q0), now)) (queue s)"
      by (auto simp: beginActionAttempt_def Let_def split: option.splits if_splits)
    show ?thesis
      by (rule row_update_step [OF op_begin u])
        (use getQueuedActionD [OF op_begin] op_begin q0 in \<open>auto simp: q_begin.key_upd intro!: row_begin\<close>)
  qed
next
  case (op_complete w now s tid)
  then show ?case by (auto simp: completeActionAttempt_def intro: settle_row_step)
next
  case (op_fail w now s tid err cls fo)
  then show ?case
    by (auto simp: failActionAttempt_def Let_def split: option.splits sum.splits
        intro: row_same row_frame_step settle_row_step)
qed

lemma row_step_keys: "row_step w now q q' \<Longrightarrow> q_id q' = q_id q \<and> q_action_id q' = q_action_id q"
  by (erule row_stepE) (auto simp: row_defs)

lemma queue_step_row:
  assumes "queue_step s t" and "getQueuedAction qid s = Some q"
  obtains w now q' where "getQueuedAction qid t = Some q'" "row_step w now q q'"
proof -
  from assms(1) obtain w now where "queue_op w now s t" by (rule queue_stepE)
  from queue_op_row [OF this assms(2)] that show ?thesis by blast
qed

lemma getQueuedAction_mem: "queue_ok s \<Longrightarrow> q \<in> set (queue s) \<Longrightarrow> getQueuedAction (q_id q) s = Some q"
  unfolding getQueuedAction_def queue_ok_def by (rule sql_get_key [OF queue_invD(1)])

lemma reachable_step: "reachable s \<Longrightarrow> queue_step s t \<Longrightarrow> reachable t"
  unfolding reachable_def by (rule run_more)

lemma run_of_trans: "run_of step t u \<Longrightarrow> run_of step s t \<Longrightarrow> run_of step s u"
  by (induction rule: run_of.induct) (auto intro: run_more)

lemma reachable_run: "reachable s \<Longrightarrow> run_of queue_step s t \<Longrightarrow> reachable t"
  unfolding reachable_def by (rule run_of_trans)


section \<open>Exclusive leases\<close>

text \<open>The row is held by worker \<open>A\<close> until at least \<open>E\<close>.\<close>

definition held_row :: "string \<Rightarrow> int \<Rightarrow> queue_row \<Rightarrow> bool" where
  "held_row A E q \<longleftrightarrow> q_status q \<in> {Leased, Executing} \<and> q_lease_owner q = Some A \<and>
     (case q_lease_expires_at q of Some e \<Rightarrow> E \<le> e | None \<Rightarrow> False)"

text \<open>A step of another worker before \<open>E\<close>.\<close>

inductive foreign_step :: "string \<Rightarrow> int \<Rightarrow> db \<Rightarrow> db \<Rightarrow> bool" for A E where
  foreignI: "queue_op w now s t \<Longrightarrow> w \<noteq> A \<Longrightarrow> now < E \<Longrightarrow> foreign_step A E s t"

inductive_cases foreign_stepE: "foreign_step A E s t"

lemma foreign_row_step: "row_step w now q q' \<Longrightarrow> held_row A E q \<Longrightarrow> w \<noteq> A \<Longrightarrow> now < E \<Longrightarrow> q' = q"
  by (erule row_stepE) (auto simp: held_row_def due_def split: option.splits)

lemma foreign_run_row:
  "run_of (foreign_step A E) s t \<Longrightarrow> getQueuedAction qid s = Some q \<Longrightarrow> held_row A E q \<Longrightarrow> getQueuedAction qid t = Some q"
proof (induction rule: run_of.induct)
  case (run_more s t u)
  from run_more.hyps(2) obtain w now where "queue_op w now t u" "w \<noteq> A" "now < E" by (rule foreign_stepE)
  with queue_op_row [of w now t u qid q] run_more foreign_row_step show ?case by blast
qed simp

lemma foreign_step_is_step: "foreign_step A E s t \<Longrightarrow> queue_step s t"
  by (erule foreign_stepE) (rule queue_stepI)

lemma foreign_run_is_run: "run_of (foreign_step A E) s t \<Longrightarrow> run_of queue_step s t"
  by (induction rule: run_of.induct) (blast intro: run_start run_more foreign_step_is_step)+

section \<open>Attempts over time\<close>

definition attempt_key :: "attempt_row \<Rightarrow> string \<times> string \<times> nat" where
  "attempt_key t = (t_id t, t_queue_id t, t_attempt_number t)"

text \<open>An operation appends an attempt, or changes executing attempts without their keys.\<close>

definition attempts_extend :: "attempt_row list \<Rightarrow> attempt_row list \<Rightarrow> bool" where
  "attempts_extend ts us \<longleftrightarrow>
     (\<forall>t\<in>set ts. (t_status t \<noteq> AtExecuting \<longrightarrow> t \<in> set us) \<and> (\<exists>u\<in>set us. attempt_key u = attempt_key t))"

lemma attempts_extend_refl: "attempts_extend ts ts"
  by (auto simp: attempts_extend_def)

lemma attempts_extend_append: "attempts_extend ts (ts @ us)"
  by (auto simp: attempts_extend_def)

lemma attempts_extend_update:
  assumes "\<And>t. P t \<Longrightarrow> t_status t = AtExecuting" and "\<And>t. attempt_key (f t) = attempt_key t"
  shows "attempts_extend ts (sql_update P f ts)"
  using assms by (induction ts) (auto simp: attempts_extend_def)

lemma attempt_key_upd [simp]:
  "attempt_key (expire_attempt now t) = attempt_key t" "attempt_key (settle_attempt_row p t) = attempt_key t"
  by (auto simp: attempt_key_def expire_attempt_def settle_attempt_row_def split: prod.splits)

lemma settleAttempt_extend: "attempts_extend (attempts s) (attempts (snd (settleAttempt tid w se now s)))"
  by (auto simp: settleAttempt_def Let_def intro!: attempts_extend_refl attempts_extend_update split: option.splits)

lemma take_lease_extend: "attempts_extend (attempts s) (attempts (snd (take_lease P w ms now s)))"
  by (auto simp: take_lease_def close_attempts_def intro!: attempts_extend_refl attempts_extend_update
      split: option.splits)

lemma attempts_extend_cong: "attempts s' = attempts s \<Longrightarrow> attempts_extend (attempts s) (attempts s')"
  by (simp add: attempts_extend_refl)

lemma queue_op_extend: "queue_op w now s t \<Longrightarrow> attempts_extend (attempts s) (attempts t)"
  by (induction rule: queue_op.induct)
    (auto simp: recordAudit_frame enqueueAction_def cancelUnstartedAction_def requeueAction_def stopLeasedAction_def
      leaseNextAction_def leaseActionByActionId_def renewActionLease_def beginActionAttempt_def
      completeActionAttempt_def failActionAttempt_def Let_def case_prod_beta
      intro: attempts_extend_refl attempts_extend_append settleAttempt_extend take_lease_extend
      split: option.splits sum.splits list.splits)

lemma attempts_extend_trans: "attempts_extend ts us \<Longrightarrow> attempts_extend us vs \<Longrightarrow> attempts_extend ts vs"
  unfolding attempts_extend_def by metis

lemma queue_run_extend: "run_of queue_step s t \<Longrightarrow> attempts_extend (attempts s) (attempts t)"
  by (induction rule: run_of.induct)
    (auto intro: attempts_extend_refl attempts_extend_trans queue_op_extend elim!: queue_stepE)

lemma getActionAttempt_mem: "queue_ok s \<Longrightarrow> t \<in> set (attempts s) \<Longrightarrow> getActionAttempt (t_id t) s = Some t"
  unfolding getActionAttempt_def queue_ok_def by (rule sql_get_key [OF queue_invD(3)])

text \<open>A settlement succeeds exactly for the executing attempt of the owner of the lease.\<close>

lemma settleAttempt_success:
  assumes ok: "queue_ok s" and t: "t \<in> set (attempts s)" "t_status t = AtExecuting" and w: "t_lease_owner t \<noteq> []"
    and q: "getQueuedAction (t_queue_id t) s = Some q"
  shows "fst (settleAttempt (t_id t) (t_lease_owner t) se now s) = Inr (Some (settle_row (se, now) q)) \<and>
         getQueuedAction (t_queue_id t) (snd (settleAttempt (t_id t) (t_lease_owner t) se now s)) = Some (settle_row (se, now) q)"
proof -
  from ok have inv: "queue_inv (queue s) (attempts s)" by (simp add: queue_ok_def)
  have qm: "q \<in> set (queue s)" "q_id q = t_queue_id t" using getQueuedActionD [OF q] by auto
  from queue_invD(7) [OF inv t(1)] t(2) qm have qs: "q_status q = Executing" "q_lease_owner q = Some (t_lease_owner t)"
    by (auto simp: attempt_ok_def dest: q_id_inj [OF inv])
  let ?P = "\<lambda>r. q_id r = t_queue_id t \<and> q_status r = Executing \<and> q_lease_owner r = Some (t_lease_owner t)"
  have "sql_changes ?P (queue s) \<le> 1"
    by (rule sql_changes_keyed [OF queue_invD(1) [OF inv], where k = "t_queue_id t"]) simp
  moreover have "sql_changes ?P (queue s) \<noteq> 0" using qm qs by (auto simp: sql_changes_0_iff)
  ultimately have "sql_changes ?P (queue s) = 1" by simp
  moreover have "sql_get (\<lambda>r. q_id r = t_queue_id t) (sql_update ?P (settle_row (se, now)) (queue s)) =
      Some (settle_row (se, now) q)"
    unfolding q_settle.get_after_update using q qm qs by (simp add: getQueuedAction_def)
  ultimately show ?thesis
    using getActionAttempt_mem [OF ok t(1)] t(2) w by (simp add: settleAttempt_def Let_def getQueuedAction_def)
qed

text \<open>
  C2. Exclusive leases. While a worker's lease has not expired, whatever the other workers
  and callers do, in any order, the row it holds is unchanged, the attempt it began is still
  its own, and it can record the completion of that attempt.
\<close>

theorem lease_holder_completes:
  assumes "reachable s" and "t \<in> set (attempts s)" and "t_status t = AtExecuting" and "t_lease_owner t \<noteq> []"
    and "getQueuedAction (t_queue_id t) s = Some q" and "held_row (t_lease_owner t) E q"
    and "run_of (foreign_step (t_lease_owner t) E) s u"
  shows "getQueuedAction (t_queue_id t) u = Some q \<and>
         (\<exists>q'. fst (completeActionAttempt (t_id t) (t_lease_owner t) now u) = Inr (Some q') \<and> q_status q' = Completed)"
proof -
  have run: "run_of queue_step s u" by (rule foreign_run_is_run [OF assms(7)])
  have q: "getQueuedAction (t_queue_id t) u = Some q" by (rule foreign_run_row [OF assms(7,5,6)])
  have ok: "queue_ok s" "queue_ok u" using assms(1) run by (blast intro: reachable_queue_ok reachable_run)+
  then have inv: "queue_inv (queue s) (attempts s)" "queue_inv (queue u) (attempts u)" by (simp_all add: queue_ok_def)
  have qm: "q \<in> set (queue s)" "q_id q = t_queue_id t" "q \<in> set (queue u)"
    using getQueuedActionD [OF assms(5)] getQueuedActionD [OF q] by auto
  from queue_invD(7) [OF inv(1) assms(2)] assms(3) qm have qt: "q_status q = Executing"
      "q_lease_owner q = Some (t_lease_owner t)" "q_attempt_count q = t_attempt_number t"
    by (auto simp: attempt_ok_def dest: q_id_inj [OF inv(1)])
  from queue_invD(6) [OF inv(2) qm(3)] qt(1) obtain v where v: "v \<in> set (attempts u)" "t_queue_id v = q_id q"
    "t_status v = AtExecuting" by (auto simp: executing_ok_def)
  with queue_invD(7) [OF inv(2) v(1)] qt qm have vn: "t_attempt_number v = t_attempt_number t" "t_lease_owner v = t_lease_owner t"
    by (auto simp: attempt_ok_def dest: q_id_inj [OF inv(2)])
  from queue_run_extend [OF run] assms(2) obtain x where x: "x \<in> set (attempts u)" "attempt_key x = attempt_key t"
    by (auto simp: attempts_extend_def)
  then have "x = v" using v vn qm key_unique [OF queue_invD(4) [OF inv(2)], of x v] by (simp add: attempt_key_def)
  with x have "t_id v = t_id t" by (simp add: attempt_key_def)
  with settleAttempt_success [OF ok(2) v(1,3)] v(2) qm(2) vn(2) assms(4) q show ?thesis
    by (simp add: completeActionAttempt_def settle_row_def)
qed

section \<open>Lost leases\<close>

lemma settleAttempt_refused:
  "getActionAttempt tid s = Some t \<Longrightarrow> t_status t \<noteq> AtExecuting \<Longrightarrow> \<exists>e. settleAttempt tid w se now s = (Inl e, s)"
  by (simp add: settleAttempt_def)

lemma take_lease_closes:
  assumes "take_lease P w ms now s = (Some q, s')" and "t \<in> set (attempts s')" and "t_queue_id t = q_id q"
  shows "t_status t \<noteq> AtExecuting"
  using assms by (auto simp: take_lease_def close_attempts_def lease_row_def set_sql_update expire_attempt_def
      split: option.splits if_splits)

lemma leaseNextAction_take:
  assumes "leaseNextAction w ms now s = (Inr (Some q), s')"
  obtains P where "take_lease P w ms now s = (Some q, s')"
  using assms by (auto simp: leaseNextAction_def split: if_splits option.splits prod.splits)

text \<open>
  C3. Lost leases. Once a row has been leased anew, no attempt that was made under an earlier
  lease can record a result, neither now nor after any further operations, whoever tries:
  the call raises and changes nothing.
\<close>

theorem lost_lease_records_nothing:
  assumes "reachable s" and "leaseNextAction w ms now s = (Inr (Some q), s')"
    and "t \<in> set (attempts s)" and "t_queue_id t = q_id q" and "run_of queue_step s' u"
  shows "\<exists>e. settleAttempt (t_id t) owner se now' u = (Inl e, u)"
proof -
  have step: "queue_step s s'" using op_lease_next [of w now s ms] assms(2) by (auto intro: queue_stepI)
  then have "attempts_extend (attempts s) (attempts s')" by (auto elim!: queue_stepE intro: queue_op_extend)
  with assms(3) obtain t' where t': "t' \<in> set (attempts s')" "attempt_key t' = attempt_key t"
    by (auto simp: attempts_extend_def)
  from assms(2) obtain P where "take_lease P w ms now s = (Some q, s')" by (rule leaseNextAction_take)
  from take_lease_closes [OF this t'(1)] t'(2) assms(4) have st: "t_status t' \<noteq> AtExecuting"
    by (simp add: attempt_key_def)
  with queue_run_extend [OF assms(5)] t'(1) have "t' \<in> set (attempts u)" by (auto simp: attempts_extend_def)
  moreover have "queue_ok u"
    using assms(1,5) step by (blast intro: reachable_queue_ok reachable_run reachable_step)
  ultimately have "getActionAttempt (t_id t') u = Some t'" by (blast intro: getActionAttempt_mem)
  with st t'(2) show ?thesis by (auto simp: attempt_key_def intro: settleAttempt_refused)
qed

section \<open>Final rows\<close>

text \<open>
  Settled for good: completed, given up, or stopped with an outcome that only the owner can
  establish.
\<close>

definition final_row :: "queue_row \<Rightarrow> bool" where
  "final_row q \<longleftrightarrow> q_status q \<in> {Completed, Dead_letter} \<or>
     q_status q \<in> {Failed, Cancelled} \<and> q_error_class q \<in> {Some Recovery_review_required, Some Outcome_uncertain}"

lemma final_row_step: "row_step w now q q' \<Longrightarrow> final_row q \<Longrightarrow> q' = q"
  by (erule row_stepE) (auto simp: final_row_def due_def)

text \<open>
  Final rows. A row that is completed, is in the dead letter state, or failed with an
  uncertain outcome or a pending recovery review never changes again, whatever operations
  follow: it is never leased, executed, cancelled or requeued.
\<close>

theorem final_row_never_changes:
  assumes "run_of queue_step s t" and "getQueuedAction qid s = Some q" and "final_row q"
  shows "getQueuedAction qid t = Some q"
  using assms
proof (induction rule: run_of.induct)
  case (run_more s t u)
  then show ?case by (blast elim: queue_step_row dest: final_row_step)
qed simp

section \<open>Enqueueing once\<close>

lemma run_row_keys:
  "run_of queue_step s t \<Longrightarrow> getQueuedAction qid s = Some q \<Longrightarrow>
     \<exists>q'. getQueuedAction qid t = Some q' \<and> q_action_id q' = q_action_id q"
proof (induction rule: run_of.induct)
  case (run_more s t u)
  then obtain q' where q': "getQueuedAction qid t = Some q'" "q_action_id q' = q_action_id q" by blast
  from queue_step_row [OF run_more.hyps(2) q'(1)] obtain w now q'' where
    "getQueuedAction qid u = Some q''" "row_step w now q' q''" .
  with q' row_step_keys show ?case by metis
qed simp

lemma byActionId_mem: "queue_ok s \<Longrightarrow> q \<in> set (queue s) \<Longrightarrow> getQueuedActionByActionId (q_action_id q) s = Some q"
  unfolding getQueuedActionByActionId_def queue_ok_def by (rule sql_get_key [OF queue_invD(2)])

lemma enqueueAction_Inr:
  assumes "enqueueAction nid now i s = (Inr r, s')"
  shows "\<exists>q. r = Some q \<and> q \<in> set (queue s') \<and> q_action_id q = en_actionId i"
proof -
  from assms have "r = getQueuedActionByActionId (en_actionId i) s'"
    by (auto simp: enqueueAction_def Let_def split: if_splits sum.splits)
  moreover from assms have "getQueuedActionByActionId (en_actionId i) s' \<noteq> None"
    by (auto simp: enqueueAction_def getQueuedActionByActionId_def sql_get_append queue_row_of_def Let_def
      split: if_splits sum.splits dest: sym)
  ultimately show ?thesis
    by (auto simp: getQueuedActionByActionId_def dest: sql_get_SomeD)
qed

lemma enqueueAction_existing:
  "en_actionId j \<noteq> [] \<Longrightarrow> en_tool j \<noteq> [] \<Longrightarrow> getQueuedActionByActionId (en_actionId j) t = Some q \<Longrightarrow>
     enqueueAction nid now j t = (Inr (Some q), t)"
  by (cases "en_idempotencyKey j"; cases "the (en_idempotencyKey j)")
    (simp_all add: enqueueAction_def actionIdempotencyKey_def)

text \<open>
  An action is queued once. After \<open>enqueueAction\<close> has succeeded for an action, every later
  call for the same action, with whatever other fields and after any operations, returns
  that same row as it then is and adds nothing.
\<close>

theorem enqueue_once:
  assumes "reachable s" and "enqueueAction nid now i s = (Inr r, s')" and "run_of queue_step s' t"
    and "en_actionId j = en_actionId i" and "en_actionId j \<noteq> []" and "en_tool j \<noteq> []"
  shows "\<exists>q q'. r = Some q \<and> enqueueAction nid' now' j t = (Inr (Some q'), t) \<and> q_id q' = q_id q \<and>
           q_action_id q' = en_actionId i"
proof -
  from enqueueAction_Inr [OF assms(2)] obtain q where q: "r = Some q" "q \<in> set (queue s')" "q_action_id q = en_actionId i"
    by blast
  have step: "queue_step s s'" using op_enqueue [of _ now s nid i] assms(2) by (auto intro: queue_stepI)
  then have ok: "queue_ok s'" "queue_ok t"
    using assms(1,3) by (blast intro: reachable_queue_ok reachable_run reachable_step)+
  from run_row_keys [OF assms(3) getQueuedAction_mem [OF ok(1) q(2)]] obtain q' where
    q': "getQueuedAction (q_id q) t = Some q'" "q_action_id q' = q_action_id q" by blast
  then have "getQueuedActionByActionId (en_actionId j) t = Some q'"
    using byActionId_mem [OF ok(2), of q'] getQueuedActionD [OF q'(1)] q(3) assms(4) by simp
  from enqueueAction_existing [OF assms(5,6) this] show ?thesis
    using q q' getQueuedActionD [OF q'(1)] by auto
qed

section \<open>The next action\<close>

lemma queue_first_none_before:
  "sql_first_by queue_before rows = Some r \<Longrightarrow> x \<in> set rows \<Longrightarrow> \<not> queue_before x r"
proof (induction rows arbitrary: r)
  case (Cons a rows)
  show ?case
  proof (cases "sql_first_by queue_before rows")
    case None
    with Cons.prems show ?thesis by (auto simp: sql_first_by_None queue_before_def)
  next
    case (Some b)
    with Cons.prems(1) have r: "r = (if queue_before b a then b else a)" by (simp split: if_splits)
    from Cons.prems(2) Cons.IH [OF Some] have "x = a \<or> \<not> queue_before x b" by auto
    with r show ?thesis by (auto simp: queue_before_def)
  qed
qed simp

text \<open>
  Choice of the next action. \<open>leaseNextAction\<close> returns nothing exactly when no row is
  due; otherwise it leases a due row such that no other due row has an earlier
  \<open>(next_attempt_at, created_at)\<close>, for \<open>leaseMs\<close> from now, and the lease is in the table.
\<close>

theorem lease_next_is_first_due:
  assumes "reachable s" and "w \<noteq> []" and "0 < ms"
  shows "case leaseNextAction w ms now s of
           (Inl e, s') \<Rightarrow> False
         | (Inr None, s') \<Rightarrow> s' = s \<and> (\<forall>q\<in>set (queue s). \<not> due now q)
         | (Inr (Some q), s') \<Rightarrow> getQueuedAction (q_id q) s' = Some q \<and> held_row w (now + ms) q \<and> q_status q = Leased \<and>
             (\<exists>q0\<in>set (queue s). due now q0 \<and> q = lease_row (w, now + ms, now) q0 \<and>
                (\<forall>x\<in>set (queue s). due now x \<longrightarrow>
                   q_next_attempt_at q0 < q_next_attempt_at x \<or>
                   q_next_attempt_at q0 = q_next_attempt_at x \<and> q_created_at q0 \<le> q_created_at x))"
proof (cases "sql_first_by queue_before (filter (due now) (queue s))")
  case None
  with assms show ?thesis by (auto simp: leaseNextAction_def sql_first_by_None filter_empty_conv)
next
  case (Some c)
  have inv: "queue_inv (queue s) (attempts s)" using reachable_queue_ok [OF assms(1)] by (simp add: queue_ok_def)
  from sql_first_by_mem [OF Some] have c: "c \<in> set (queue s)" "due now c" by auto
  let ?P = "\<lambda>q. q_id q = q_id c \<and> due now q"
  have get: "sql_get ?P (queue s) = Some c"
  proof (cases "sql_get ?P (queue s)")
    case None
    with c show ?thesis by (auto simp: sql_get_None_iff)
  next
    case (Some r)
    with c(1) show ?thesis by (auto dest!: sql_get_SomeD dest: q_id_inj [OF inv])
  qed
  have first: "q_next_attempt_at c < q_next_attempt_at x \<or>
      q_next_attempt_at c = q_next_attempt_at x \<and> q_created_at c \<le> q_created_at x"
    if "x \<in> set (queue s)" "due now x" for x
  proof (rule ccontr)
    assume "\<not> ?thesis"
    then have "queue_before x c" by (auto simp: queue_before_def)
    moreover have "x \<in> set (filter (due now) (queue s))" using that by simp
    ultimately show False using Some queue_first_none_before by blast
  qed
  have "getQueuedAction (q_id c) (s\<lparr>queue := sql_update ?P (lease_row (w, now + ms, now)) (queue s),
      attempts := close_attempts (q_id c) now (attempts s)\<rparr>) = Some (lease_row (w, now + ms, now) c)"
    using getQueuedAction_mem [OF reachable_queue_ok [OF assms(1)] c(1)] c(2)
    by (simp add: getQueuedAction_def q_lease.get_after_update)
  with Some assms get c first show ?thesis
    by (auto simp: leaseNextAction_def take_lease_def held_row_def lease_row_def)
qed

section \<open>Failures\<close>

lemma retryDelayMs_Inr:
  "1 \<le> n \<Longrightarrow> 0 < b \<Longrightarrow> 0 < m \<Longrightarrow> retryDelayMs n b m = Inr (min m (b * 2 ^ nat (n - 1)))"
  by (simp add: retryDelayMs_def)

text \<open>
  C10. A failed attempt. When the worker that holds the lease reports a failure, the row goes
  to \<open>retry_wait\<close> if the failure is retryable and attempts are left, to \<open>dead_letter\<close> if it is
  retryable and none is left, and to \<open>failed\<close> otherwise; the lease is dropped, and the next
  attempt is due after \<open>base * 2^(n-1)\<close> milliseconds, never more than the maximum and never
  less than one.
\<close>

theorem fail_attempt_outcome:
  assumes "reachable s" and "t \<in> set (attempts s)" and "t_status t = AtExecuting" and "t_lease_owner t \<noteq> []"
    and "1 \<le> fo_maxAttempts fo" and "0 < fo_baseDelayMs fo" and "0 < fo_maxDelayMs fo"
  shows "\<exists>q. fst (failActionAttempt (t_id t) (t_lease_owner t) err (Some c) fo now s) = Inr (Some q) \<and>
           q_id q = t_queue_id t \<and> q_lease_owner q = None \<and> q_error_class q = Some c \<and>
           q_attempt_count q = t_attempt_number t \<and>
           (if c = Retryable \<and> int (t_attempt_number t) < fo_maxAttempts fo
            then q_status q = Retry_wait \<and> now < q_next_attempt_at q \<and> q_next_attempt_at q \<le> now + fo_maxDelayMs fo \<and>
                 q_next_attempt_at q = now + min (fo_maxDelayMs fo) (fo_baseDelayMs fo * 2 ^ (t_attempt_number t - 1))
            else if c = Retryable then q_status q = Dead_letter
            else q_status q = Failed)"
proof -
  have ok: "queue_ok s" by (rule reachable_queue_ok [OF assms(1)])
  then have inv: "queue_inv (queue s) (attempts s)" by (simp add: queue_ok_def)
  from queue_invD(7) [OF inv assms(2)] assms(3) obtain q where q: "q \<in> set (queue s)" "q_id q = t_queue_id t"
    "1 \<le> t_attempt_number t" "q_attempt_count q = t_attempt_number t" by (auto simp: attempt_ok_def)
  have g: "getQueuedAction (t_queue_id t) s = Some q" using getQueuedAction_mem [OF ok q(1)] q(2) by simp
  note ss = settleAttempt_success [OF ok assms(2-4) g]
  have n: "nat (int (t_attempt_number t) - 1) = t_attempt_number t - 1" "1 \<le> int (t_attempt_number t)"
    using q(3) by auto
  have pos: "0 < min (fo_maxDelayMs fo) (fo_baseDelayMs fo * 2 ^ (t_attempt_number t - 1))"
    using assms(6,7) by simp
  show ?thesis
    using ss assms(5) getActionAttempt_mem [OF ok assms(2)] q pos retryDelayMs_Inr [OF n(2) assms(6,7)]
    by (auto simp: failActionAttempt_def Let_def n settle_row_def)
qed

section \<open>A concrete run\<close>

text \<open>One action recorded, queued, leased to worker \<open>w\<close> until 1005 and begun; then other workers.\<close>

definition ex_audit :: audit_input where
  "ex_audit = \<lparr>au_id = Some ''a'', au_requestedBy = ''owner'', au_requestText = None, au_model = None,
     au_tool = ''email.send'', au_arguments = JObj [], au_reasoningSummary = None, au_policyDomain = None,
     au_policyRule = None, au_autonomyLevel = Level 4, au_requiresApproval = False, au_status = AApproved,
     au_correlationId = None, au_contextProvenance = [], au_accountBinding = None, au_packageContext = None\<rparr>"

definition ex_enqueue :: enqueue_input where
  "ex_enqueue = \<lparr>en_actionId = ''a'', en_correlationId = None, en_tool = ''email.send'', en_arguments = JObj [],
     en_idempotencyKey = None, en_approvalReference = None, en_policyDecisionReference = None, en_actor = None\<rparr>"

definition ex_recorded :: db where "ex_recorded = snd (recordAudit ''a'' 0 ex_audit empty_db)"
definition ex_queued :: db where "ex_queued = snd (enqueueAction ''q'' 0 ex_enqueue ex_recorded)"
definition ex_leased :: db where "ex_leased = snd (leaseNextAction ''w'' 1000 5 ex_queued)"
definition ex_begun :: db where "ex_begun = snd (beginActionAttempt ''t'' ''q'' ''w'' 6 ex_leased)"

definition ex_row :: queue_row where
  "ex_row = queue_row_of ''q'' 0 ex_enqueue ''email.send:a:a''"

definition ex_held :: queue_row where
  "ex_held = begin_row (1, 6) (lease_row (''w'', 1005, 5) ex_row)"

lemma ex_recorded_sel: "queue ex_recorded = []" "attempts ex_recorded = []"
  "actions ex_recorded = [audit_row ex_audit ''a'' (Some 4) 0]"
  by (simp_all add: ex_recorded_def recordAudit_def ex_audit_def audit_id_def getAgentAction_def empty_db_def Let_def)

lemma ex_queued_sel: "queue ex_queued = [ex_row]" "attempts ex_queued = []"
  by (simp_all add: ex_queued_def enqueueAction_def ex_enqueue_def actionIdempotencyKey_def
      getQueuedActionByActionId_def getQueuedAction_def getAgentAction_def ex_recorded_sel Let_def ex_row_def)

lemma ex_leased_sel: "queue ex_leased = [lease_row (''w'', 1005, 5) ex_row]" "attempts ex_leased = []"
  by (simp_all add: ex_leased_def leaseNextAction_def take_lease_def close_attempts_def ex_queued_sel due_def
      ex_row_def queue_row_of_def)

lemma ex_begun_sel: "queue ex_begun = [ex_held]" "attempts ex_begun = [new_attempt ''t'' ''q'' 1 ''w'' 6]"
  by (simp_all add: ex_begun_def beginActionAttempt_def getQueuedAction_def getActionAttempt_def ex_leased_sel
      lease_row_def ex_row_def queue_row_of_def ex_held_def Let_def)

lemma ex_reachable: "reachable ex_recorded" "reachable ex_queued" "reachable ex_leased" "reachable ex_begun"
proof -
  have "reachable empty_db" by (simp add: reachable_def run_start)
  then show r: "reachable ex_recorded"
    unfolding ex_recorded_def by (rule reachable_step) (rule queue_stepI, rule op_audit)
  then show q: "reachable ex_queued"
    unfolding ex_queued_def by (rule reachable_step) (rule queue_stepI, rule op_enqueue)
  then show l: "reachable ex_leased"
    unfolding ex_leased_def by (rule reachable_step) (rule queue_stepI, rule op_lease_next)
  then show "reachable ex_begun"
    unfolding ex_begun_def by (rule reachable_step) (rule queue_stepI, rule op_begin)
qed

lemma ex_held_sel: "q_id ex_held = ''q''" "q_status ex_held = Executing" "q_lease_owner ex_held = Some ''w''"
  "q_lease_expires_at ex_held = Some 1005" "q_attempt_count ex_held = 1" "q_action_id ex_held = ''a''"
  by (simp_all add: ex_held_def begin_row_def lease_row_def ex_row_def queue_row_of_def ex_enqueue_def)

lemma ex_attempt_sel: "t_id (new_attempt a b n w k) = a" "t_queue_id (new_attempt a b n w k) = b"
  "t_status (new_attempt a b n w k) = AtExecuting" "t_lease_owner (new_attempt a b n w k) = w"
  "t_attempt_number (new_attempt a b n w k) = n"
  by (simp_all add: new_attempt_def)

abbreviation ex_attempt :: attempt_row where
  "ex_attempt \<equiv> new_attempt ''t'' ''q'' 1 ''w'' 6"

theorem one_executing_attempt_witness:
  "ex_attempt \<in> set (attempts ex_begun) \<and>
   (\<exists>q\<in>set (queue ex_begun). q_id q = ''q'' \<and> q_status q = Executing \<and> q_attempt_count q = 1)"
  using one_executing_attempt [OF ex_reachable(4), of ex_attempt] by (auto simp: ex_begun_sel ex_attempt_sel)


theorem lease_holder_completes_witness:
  "\<exists>u q'. u = snd (leaseNextAction ''v'' 1000 900 ex_begun) \<and>
     fst (completeActionAttempt ''t'' ''w'' 950 u) = Inr (Some q') \<and> q_status q' = Completed"
proof -
  let ?u = "snd (leaseNextAction ''v'' 1000 900 ex_begun)"
  have run: "run_of (foreign_step ''w'' 1005) ex_begun ?u"
    by (rule run_more [OF run_start]) (rule foreignI [OF op_lease_next], simp_all)
  have q: "getQueuedAction ''q'' ex_begun = Some ex_held"
    by (simp add: getQueuedAction_def ex_begun_sel ex_held_sel)
  have h: "held_row ''w'' 1005 ex_held" by (simp add: held_row_def ex_held_sel)
  from lease_holder_completes [OF ex_reachable(4), of ex_attempt ex_held 1005 ?u 950] run q h show ?thesis
    by (simp add: ex_begun_sel ex_attempt_sel)
qed

theorem lost_lease_records_nothing_witness:
  "\<exists>q e s'. leaseNextAction ''v'' 1000 2000 ex_begun = (Inr (Some q), s') \<and>
     completeActionAttempt ''t'' ''w'' 2001 s' = (Inl e, s')"
proof -
  obtain q s' where l: "leaseNextAction ''v'' 1000 2000 ex_begun = (Inr (Some q), s')" and "q_id q = ''q''"
    by (simp add: leaseNextAction_def take_lease_def ex_begun_sel due_def ex_held_sel lease_row_def)
  with lost_lease_records_nothing [OF ex_reachable(4) l, of ex_attempt s'] run_start [of queue_step s'] show ?thesis
    by (simp add: ex_begun_sel ex_attempt_sel completeActionAttempt_def)
qed

theorem final_row_never_changes_witness:
  "\<exists>s q. getQueuedAction ''q'' s = Some q \<and> final_row q \<and>
     getQueuedAction ''q'' (snd (requeueAction ''q'' None None 9 s)) = Some q"
proof -
  let ?s = "snd (completeActionAttempt ''t'' ''w'' 8 ex_begun)"
  from settleAttempt_success [OF reachable_queue_ok [OF ex_reachable(4)], of ex_attempt ex_held]
  obtain q where q: "getQueuedAction ''q'' ?s = Some q" "final_row q"
    by (simp add: ex_begun_sel ex_attempt_sel getQueuedAction_def ex_held_sel completeActionAttempt_def
        final_row_def settle_row_def)
  have "run_of queue_step ?s (snd (requeueAction ''q'' None None 9 ?s))"
    by (rule run_more [OF run_start]) (rule queue_stepI [OF op_requeue])
  from final_row_never_changes [OF this q] q show ?thesis by blast
qed

theorem enqueue_once_witness:
  "\<exists>q. enqueueAction ''z'' 50 ex_enqueue ex_begun = (Inr (Some q), ex_begun) \<and> q_id q = ''q''"
proof -
  have e: "enqueueAction ''q'' 0 ex_enqueue ex_recorded = (Inr (Some ex_row), ex_queued)"
    unfolding ex_queued_def
    by (simp add: enqueueAction_def ex_enqueue_def actionIdempotencyKey_def
      getQueuedActionByActionId_def getQueuedAction_def getAgentAction_def ex_recorded_sel Let_def ex_row_def queue_row_of_def)
  have "run_of queue_step ex_queued ex_begun"
    unfolding ex_begun_def ex_leased_def
    by (rule run_more [OF run_more [OF run_start]]) (rule queue_stepI, rule op_lease_next op_begin)+
  from enqueue_once [OF ex_reachable(1) e this, of ex_enqueue "''z''" 50] show ?thesis
    by (auto simp: ex_enqueue_def ex_row_def queue_row_of_def)
qed

theorem lease_next_is_first_due_witness:
  "\<exists>q s'. leaseNextAction ''w'' 1000 5 ex_queued = (Inr (Some q), s') \<and> held_row ''w'' 1005 q"
  using lease_next_is_first_due [OF ex_reachable(2), of "''w''" 1000 5]
  by (auto simp: ex_queued_sel due_def ex_row_def queue_row_of_def split: prod.splits sum.splits option.splits)

theorem fail_attempt_outcome_witness:
  "\<exists>q. fst (failActionAttempt ''t'' ''w'' None (Some Retryable) default_fail_options 100 ex_begun) = Inr (Some q) \<and>
     q_status q = Retry_wait \<and> q_next_attempt_at q = 1100"
  using fail_attempt_outcome [OF ex_reachable(4), of ex_attempt default_fail_options None Retryable 100]
  by (auto simp: ex_begun_sel ex_attempt_sel default_fail_options_def)

end
