(* ===== verification/U2_Worker.thy ===== *)
theory U2_Worker
  imports U2_Gate U2_Queue_Safety
begin

text \<open>
  Execution of queued actions: \<open>server/agent/action-error-classifier.js\<close>,
  \<open>server/agent/action-executor.js\<close> and \<open>server/agent/action-queue-worker.js\<close>. A worker's
  synchronous part up to the tool call is \<open>prepare_leased\<close>; the tool call itself is its outcome
  and whatever else happened to the database while it ran (heartbeats, other workers, the
  tool's own writes), both arguments; \<open>settle_leased\<close> is what follows. One instant stands for
  the clock readings of a synchronous part.
\<close>

section \<open>Errors thrown by tools\<close>

text \<open>
  What the classifier reads of a thrown value: \<open>actionErrorClass\<close> if it is one of the known
  classes, \<open>ownerAttentionRequired === true\<close>, \<open>String(error.code || '')\<close>, the number of
  \<open>status || statusCode || 0\<close> (\<open>None\<close> for NaN), \<open>safeToRetry === true\<close> and the message.
\<close>

record thrown =
  th_class :: "error_class option"
  th_ownerAttention :: bool
  th_code :: string
  th_status :: "rat option"
  th_safeToRetry :: bool
  th_message :: string

definition RETRYABLE_CODES :: "string list" where
  "RETRYABLE_CODES = [''ETIMEDOUT'', ''ECONNRESET'', ''ECONNREFUSED'', ''ENETUNREACH'', ''EAI_AGAIN'']"

definition AUTH_CODES :: "string list" where
  "AUTH_CODES = [''EAUTH'', ''UNAUTHENTICATED'', ''INVALID_CREDENTIALS'']"

definition classifyActionError :: "thrown \<Rightarrow> error_class" where
  "classifyActionError e =
     (let code = map upper_char (th_code e); st = th_status e in
      case th_class e of
        Some c \<Rightarrow> c
      | None \<Rightarrow>
          if th_ownerAttention e then Owner_attention_required
          else if code \<in> set AUTH_CODES \<or> st \<in> {Some 401, Some 403} then Authentication_required
          else if code \<in> set RETRYABLE_CODES \<or> st \<in> {Some 408, Some 429} \<or> (case st of Some n \<Rightarrow> n \<ge> 500 | None \<Rightarrow> False)
          then Retryable
          else Non_retryable)"

text \<open>A retryable failure of a tool that is not idempotent is retried only if the tool says it is safe.\<close>

definition worker_error_class :: "tool \<Rightarrow> thrown \<Rightarrow> error_class" where
  "worker_error_class t e =
     (let c = classifyActionError e in
      if c = Retryable \<and> \<not> t_supportsIdempotency t \<and> \<not> th_safeToRetry e then Owner_attention_required else c)"

datatype tool_outcome = Returned jsval | Threw thrown

section \<open>Outcomes\<close>

record action_outcome =
  oc_id :: string
  oc_status :: step_status
  oc_tool :: string
  oc_arguments :: "jsval option"
  oc_result :: "jsval option"
  oc_error :: "string option"
  oc_errorClass :: "error_class option"

fun step_of_queue_status :: "queue_status \<Rightarrow> step_status" where
  "step_of_queue_status Queued = S_queued"
| "step_of_queue_status Leased = S_leased"
| "step_of_queue_status Executing = S_executing"
| "step_of_queue_status Retry_wait = S_retry_wait"
| "step_of_queue_status Completed = S_completed"
| "step_of_queue_status Failed = S_failed"
| "step_of_queue_status Dead_letter = S_dead_letter"
| "step_of_queue_status Cancelled = S_cancelled"

definition action_event :: "string \<Rightarrow> string \<Rightarrow> actor option \<Rightarrow> string \<Rightarrow> (string \<times> jsval) list \<Rightarrow> string option \<Rightarrow> string \<Rightarrow> event" where
  "action_event ty src who aid dat corr prov =
     \<lparr>e_type = ty, e_source = src, e_actor = who, e_subject_id = aid, e_data = dat, e_correlation_id = corr, e_provenance = prov\<rparr>"

section \<open>The executor\<close>

text \<open>
  Recording the outcome of a tool call, the audit row and the event; the detection of an
  edited e-mail writes feedback only.
\<close>

definition execute_recorded :: "string \<Rightarrow> tool \<Rightarrow> string option \<Rightarrow> actor \<Rightarrow> tool_outcome \<Rightarrow> int \<Rightarrow> db \<Rightarrow> db" where
  "execute_recorded aid t corr who res now s =
     (case res of
        Returned v \<Rightarrow>
          publish (action_event ''agent.action.completed'' ''agent'' (Some who) aid
                     [(''tool'', JStr (t_name t)), (''result'', v)] corr ''agent:execute'')
            (snd (updateAgentAction aid (no_patch\<lparr>p_status := Some AExecuted, p_result := Some v\<rparr>) now s))
      | Threw e \<Rightarrow>
          publish (action_event ''agent.action.failed'' ''agent'' (Some who) aid
                     [(''tool'', JStr (t_name t)), (''error'', JStr (th_message e))] corr ''agent:execute'')
            (snd (updateAgentAction aid (set_failure AFailed (th_message e)) now s)))"

section \<open>The worker\<close>

record worker_env =
  we_workerId :: string
  we_leaseMs :: int
  we_maxActionAgeMs :: int
  we_tools :: "string \<rightharpoonup> tool"
  we_policies :: policy_set
  we_accounts :: accounts
  we_packageAuthority :: "(action_row \<Rightarrow> string option res) option"

definition errorClass_js :: "error_class option \<Rightarrow> jsval" where
  "errorClass_js c =
     (case c of
        None \<Rightarrow> JNull
      | Some Retryable \<Rightarrow> JStr ''retryable''
      | Some Non_retryable \<Rightarrow> JStr ''non_retryable''
      | Some Authentication_required \<Rightarrow> JStr ''authentication_required''
      | Some Owner_attention_required \<Rightarrow> JStr ''owner_attention_required''
      | Some Recovery_review_required \<Rightarrow> JStr ''recovery_review_required''
      | Some Outcome_uncertain \<Rightarrow> JStr ''outcome_uncertain'')"

fun queue_status_text :: "queue_status \<Rightarrow> string" where
  "queue_status_text Queued = ''queued''"
| "queue_status_text Leased = ''leased''"
| "queue_status_text Executing = ''executing''"
| "queue_status_text Retry_wait = ''retry_wait''"
| "queue_status_text Completed = ''completed''"
| "queue_status_text Failed = ''failed''"
| "queue_status_text Dead_letter = ''dead_letter''"
| "queue_status_text Cancelled = ''cancelled''"

definition publishQueueStatus :: "worker_env \<Rightarrow> queue_row \<Rightarrow> db \<Rightarrow> db" where
  "publishQueueStatus env q =
     publish (action_event ''agent.action.queue_updated'' ''action-queue''
                (Some \<lparr>actor_type = ''system'', actor_id = we_workerId env\<rparr>) (q_action_id q)
                [(''status'', JStr (queue_status_text (q_status q))), (''attemptCount'', JNum (of_nat (q_attempt_count q))),
                 (''errorClass'', errorClass_js (q_error_class q))]
                (q_correlation_id q) ''action-queue:transition'')"

text \<open>\<open>_stop\<close>: the leased row is stopped with a status and a message.\<close>

definition stop_item ::
  "worker_env \<Rightarrow> queue_row \<Rightarrow> queue_status \<Rightarrow> string \<Rightarrow> error_class \<Rightarrow> action_row option \<Rightarrow> int \<Rightarrow> (db, action_outcome) eff" where
  "stop_item env item st message cls action now s =
     (case stopLeasedAction (q_id item) (we_workerId env) st (Some message) (Some cls) now s of
        (Inl e, s') \<Rightarrow> (Inl e, s')
      | (Inr None, s') \<Rightarrow> (Inl (TypeError ''Cannot read properties of null''), s')
      | (Inr (Some q), s') \<Rightarrow>
          (Inr \<lparr>oc_id = q_action_id item, oc_status = step_of_queue_status st,
                oc_tool = (case action of Some a \<Rightarrow> if a_tool a = [] then q_tool item else a_tool a | None \<Rightarrow> q_tool item),
                oc_arguments = None, oc_result = None, oc_error = Some message, oc_errorClass = Some cls\<rparr>,
           publishQueueStatus env q s'))"

definition currentOutcome :: "string \<Rightarrow> db \<Rightarrow> action_outcome option" where
  "currentOutcome aid s =
     map_option (\<lambda>a.
       \<lparr>oc_id = a_id a,
        oc_status = (case getQueuedActionByActionId aid s of
                       Some q \<Rightarrow> if q_status q = Completed then S_executed else step_of_queue_status (q_status q)
                     | None \<Rightarrow> step_of_action_status (a_status a)),
        oc_tool = a_tool a, oc_arguments = Some (a_arguments a), oc_result = a_result a, oc_error = None,
        oc_errorClass = None\<rparr>) (getAgentAction aid s)"

text \<open>What the synchronous part comes to: finished with an outcome, or an attempt begun.\<close>

datatype prepared = Finished "action_outcome option" | Begun attempt_row tool action_row

definition stop_with ::
  "worker_env \<Rightarrow> queue_row \<Rightarrow> action_row \<Rightarrow> action_patch option \<Rightarrow> queue_status \<Rightarrow> string \<Rightarrow> error_class \<Rightarrow> int \<Rightarrow> (db, prepared) eff" where
  "stop_with env item action patch st message cls now s =
     (let s1 = (case patch of None \<Rightarrow> s | Some p \<Rightarrow> snd (updateAgentAction (a_id action) p now s)) in
      case stop_item env item st message cls (Some action) now s1 of
        (Inl e, s2) \<Rightarrow> (Inl e, s2)
      | (Inr o', s2) \<Rightarrow> (Inr (Finished (Some o')), s2))"

definition package_problem :: "worker_env \<Rightarrow> action_row \<Rightarrow> string option" where
  "package_problem env action =
     (if a_packageContext action = None then None
      else (case we_packageAuthority env of
              None \<Rightarrow> Some ''Package runtime is not available''
            | Some f \<Rightarrow>
                (case f action of
                   Inl e \<Rightarrow> Some ''Package authority could not be verified''
                 | Inr (Some (c # cs)) \<Rightarrow> Some (c # cs)
                 | Inr _ \<Rightarrow> None)))"

definition last_attempt_expired :: "queue_row \<Rightarrow> db \<Rightarrow> bool" where
  "last_attempt_expired item s =
     (case rev (listActionAttempts (q_id item) s) of [] \<Rightarrow> False | t # ts \<Rightarrow> t_error t = Some ''lease expired'')"

definition uncertain_message :: string where
  "uncertain_message = ''Prior external outcome is uncertain; check the originally bound provider/account before any fresh proposal; no automatic retry''"

text \<open>The checks that follow once the tool and its evaluation are known.\<close>

definition check_and_begin ::
  "worker_env \<Rightarrow> string \<Rightarrow> queue_row \<Rightarrow> action_row \<Rightarrow> tool \<Rightarrow> evaluation \<Rightarrow> string option \<Rightarrow> int \<Rightarrow> (db, prepared) eff" where
  "check_and_begin env newid item action t ev runId now s =
     (let stop = stop_with env item action; fail = (\<lambda>st msg. Some (set_failure st msg)) in
      if goal_blocks (Option.bind runId (\<lambda>r. getGoalForRun r s)) t then
        stop (fail ABlocked ''Goal scope is no longer valid'') Cancelled ''Goal scope is no longer valid''
          Owner_attention_required now s
      else if blocked ev then
        stop (fail ABlocked (ev_reason ev)) Cancelled (ev_reason ev) Non_retryable now s
      else (case package_problem env action of
        Some problem \<Rightarrow> stop (fail ABlocked problem) Cancelled problem Non_retryable now s
      | None \<Rightarrow>
      if now - a_created_at action > we_maxActionAgeMs env then
        stop (fail AFailed ''Action is stale and requires owner review'') Failed ''Action is stale and requires owner review''
          Owner_attention_required now s
      else if requiresApproval ev \<and> a_approved_at action = None then
        stop (Some (set_status APending)) Failed ''Current policy requires owner approval'' Owner_attention_required now s
      else (case check_account (we_accounts env) (q_tool item) (a_accountBinding action) (q_arguments item) s of
        Inl e \<Rightarrow> stop (fail AFailed (error_message e)) Failed (error_message e) Owner_attention_required now s
      | Inr _ \<Rightarrow>
      if json_text (q_arguments item) \<noteq> json_text (a_arguments action) then
        stop (fail AFailed ''Queued payload differs from the approved proposal'') Failed
          ''Queued payload differs from the approved proposal'' Owner_attention_required now s
      else if last_attempt_expired item s \<and> \<not> t_supportsIdempotency t then
        stop (fail AFailed uncertain_message) Failed uncertain_message Outcome_uncertain now s
      else (case beginActionAttempt newid (q_id item) (we_workerId env) now s of
              (Inl e, s') \<Rightarrow> (Inl e, s')
            | (Inr None, s') \<Rightarrow> (Inl (TypeError ''Cannot read properties of null''), s')
            | (Inr (Some att), s') \<Rightarrow> (Inr (Begun att t action), s')))))"

text \<open>An action that has executed already: its row is completed without calling the tool.\<close>

definition complete_executed :: "worker_env \<Rightarrow> string \<Rightarrow> queue_row \<Rightarrow> action_row \<Rightarrow> int \<Rightarrow> (db, prepared) eff" where
  "complete_executed env newid item action now s =
     (case beginActionAttempt newid (q_id item) (we_workerId env) now s of
        (Inl e, s1) \<Rightarrow> (Inl e, s1)
      | (Inr None, s1) \<Rightarrow> (Inl (TypeError ''Cannot read properties of null''), s1)
      | (Inr (Some att), s1) \<Rightarrow>
          (case completeActionAttempt (t_id att) (we_workerId env) now s1 of
             (Inl e, s2) \<Rightarrow> (Inl e, s2)
           | (Inr None, s2) \<Rightarrow> (Inl (TypeError ''Cannot read properties of null''), s2)
           | (Inr (Some q), s2) \<Rightarrow>
               let s3 = publishQueueStatus env q s2 in (Inr (Finished (currentOutcome (a_id action) s3)), s3)))"

definition prepare_leased :: "worker_env \<Rightarrow> string \<Rightarrow> queue_row \<Rightarrow> int \<Rightarrow> (db, prepared) eff" where
  "prepare_leased env newid item now s =
     (case getAgentAction (q_action_id item) s of
        None \<Rightarrow>
          (case stop_item env item Cancelled ''Authoritative action record is missing'' Non_retryable None now s of
             (Inl e, s') \<Rightarrow> (Inl e, s')
           | (Inr o', s') \<Rightarrow> (Inr (Finished (Some o')), s'))
      | Some action \<Rightarrow>
          let stop = stop_with env item action; runId = findRunByAction (a_id action) s in
          if a_status action = ARejected \<or> a_rejected_at action \<noteq> None then
            stop None Cancelled ''Owner approval was rejected or revoked'' Owner_attention_required now s
          else if a_status action = AExecuted then complete_executed env newid item action now s
          else if (case runId of Some r \<Rightarrow> r \<noteq> [] \<and> isCancellationRequested r s | None \<Rightarrow> False) then
            (if q_attempt_count item > 0
             then stop None Failed ''Run cancelled after a prior attempt; outcome needs owner review'' Owner_attention_required now s
             else stop (Some (set_failure ACancelled ''Run cancelled before attempt'')) Cancelled
                    ''Run cancelled before attempt'' Non_retryable now s)
          else if (case runId of Some r \<Rightarrow> r \<noteq> [] \<and> isRunDeadlineExpired r now s | None \<Rightarrow> False) then
            (let s1 = snd (markBudgetExhausted (the runId) ''elapsed_limit'' now now s) in
             if q_attempt_count item > 0
             then stop None Failed ''Run deadline expired after a prior attempt; outcome needs owner review''
                    Owner_attention_required now s1
             else stop (Some (set_failure ABlocked ''Run deadline expired before attempt'')) Cancelled
                    ''Run deadline expired before attempt'' Non_retryable now s1)
          else
            (case resolve_tool (we_tools env) (q_tool item) of
               Inl e \<Rightarrow> stop None Failed (error_message e) Non_retryable now s
             | Inr t \<Rightarrow>
                 check_and_begin env newid item action t (action_evaluate (we_policies env) t (q_arguments item) s)
                   (case runId of Some (c # cs) \<Rightarrow> Some (c # cs) | _ \<Rightarrow> None) now s))"

text \<open>After the tool call: \<open>s\<close> is the database as it is then.\<close>

definition settle_leased ::
  "worker_env \<Rightarrow> queue_row \<Rightarrow> attempt_row \<Rightarrow> tool \<Rightarrow> action_row \<Rightarrow> tool_outcome \<Rightarrow> int \<Rightarrow> (db, action_outcome) eff" where
  "settle_leased env item att t action res now s =
     (let who = (case q_actor item of Some a \<Rightarrow> a | None \<Rightarrow> \<lparr>actor_type = ''agent'', actor_id = a_requested_by action\<rparr>);
          s1 = execute_recorded (a_id action) t (q_correlation_id item) who res now s in
      case res of
        Returned v \<Rightarrow>
          (case completeActionAttempt (t_id att) (we_workerId env) now s1 of
             (Inl e, s2) \<Rightarrow> (Inl e, s2)
           | (Inr None, s2) \<Rightarrow> (Inl (TypeError ''Cannot read properties of null''), s2)
           | (Inr (Some q), s2) \<Rightarrow>
               (Inr \<lparr>oc_id = a_id action, oc_status = S_executed, oc_tool = t_name t, oc_arguments = Some (q_arguments item),
                     oc_result = Some v, oc_error = None, oc_errorClass = None\<rparr>, publishQueueStatus env q s2))
      | Threw e \<Rightarrow>
          let cls = worker_error_class t e in
          (case failActionAttempt (t_id att) (we_workerId env) (Some (th_message e)) (Some cls) default_fail_options now s1 of
             (Inl x, s2) \<Rightarrow> (Inl x, s2)
           | (Inr None, s2) \<Rightarrow> (Inl (TypeError ''Cannot read properties of null''), s2)
           | (Inr (Some q), s2) \<Rightarrow>
               (Inr \<lparr>oc_id = a_id action, oc_status = step_of_queue_status (q_status q), oc_tool = a_tool action,
                     oc_arguments = None, oc_result = None, oc_error = Some (th_message e), oc_errorClass = Some cls\<rparr>,
                publishQueueStatus env q s2)))"

text \<open>What happens while the tool runs, and what it returns: outside the model.\<close>

record tool_run =
  run_during :: "db \<Rightarrow> db"
  run_outcome :: "tool \<Rightarrow> jsval \<Rightarrow> tool_outcome"
  run_later :: int

definition executeLeased :: "worker_env \<Rightarrow> string \<Rightarrow> queue_row \<Rightarrow> int \<Rightarrow> tool_run \<Rightarrow> (db, action_outcome option) eff" where
  "executeLeased env newid item now r s =
     (case prepare_leased env newid item now s of
        (Inl e, s') \<Rightarrow> (Inl e, s')
      | (Inr (Finished o'), s') \<Rightarrow> (Inr o', s')
      | (Inr (Begun att t action), s') \<Rightarrow>
          (case settle_leased env item att t action (run_outcome r t (q_arguments item)) (run_later r) (run_during r s') of
             (Inl e, s'') \<Rightarrow> (Inl e, s'')
           | (Inr o', s'') \<Rightarrow> (Inr (Some o'), s'')))"

definition processAction :: "worker_env \<Rightarrow> string \<Rightarrow> string \<Rightarrow> int \<Rightarrow> tool_run \<Rightarrow> (db, action_outcome option) eff" where
  "processAction env newid aid now r s =
     (case leaseActionByActionId aid (we_workerId env) (we_leaseMs env) now s of
        (Inl e, s') \<Rightarrow> (Inl e, s')
      | (Inr None, s') \<Rightarrow> (Inr (currentOutcome aid s'), s')
      | (Inr (Some item), s') \<Rightarrow> executeLeased env newid item now r s')"

definition processNext :: "worker_env \<Rightarrow> string \<Rightarrow> int \<Rightarrow> tool_run \<Rightarrow> (db, action_outcome option) eff" where
  "processNext env newid now r s =
     (case leaseNextAction (we_workerId env) (we_leaseMs env) now s of
        (Inl e, s') \<Rightarrow> (Inl e, s')
      | (Inr None, s') \<Rightarrow> (Inr None, s')
      | (Inr (Some item), s') \<Rightarrow> executeLeased env newid item now r s')"

section \<open>What a worker may call a tool for\<close>

lemma stop_with_not_begun:
  "stop_with env item action patch st msg cls now s = (Inr p, s') \<Longrightarrow> \<exists>x. p = Finished x"
  by (auto simp: stop_with_def Let_def split: prod.splits sum.splits)

lemma complete_executed_not_begun: "complete_executed env nid item action now s = (Inr p, s') \<Longrightarrow> \<exists>x. p = Finished x"
  by (auto simp: complete_executed_def Let_def split: prod.splits sum.splits option.splits)

lemma check_and_begin_Begun:
  assumes "check_and_begin env nid item action t ev rid now s = (Inr (Begun att t' a'), s')"
  shows "t' = t \<and> a' = action \<and> \<not> goal_blocks (Option.bind rid (\<lambda>r. getGoalForRun r s)) t \<and> \<not> blocked ev \<and>
    package_problem env action = None \<and> now - a_created_at action \<le> we_maxActionAgeMs env \<and>
    (requiresApproval ev \<longrightarrow> a_approved_at action \<noteq> None) \<and>
    check_account (we_accounts env) (q_tool item) (a_accountBinding action) (q_arguments item) s = Inr () \<and>
    json_text (q_arguments item) = json_text (a_arguments action) \<and>
    (last_attempt_expired item s \<longrightarrow> t_supportsIdempotency t) \<and>
    beginActionAttempt nid (q_id item) (we_workerId env) now s = (Inr (Some att), s')"
  using assms unfolding check_and_begin_def Let_def
  by (auto split: if_split_asm option.splits sum.splits prod.splits dest!: stop_with_not_begun)

lemma prepare_leased_Begun:
  assumes "prepare_leased env nid item now s = (Inr (Begun att t action), s')"
  shows "getAgentAction (q_action_id item) s = Some action \<and> a_status action \<notin> {ARejected, AExecuted} \<and>
    a_rejected_at action = None \<and> we_tools env (q_tool item) = Some t \<and>
    (\<forall>r. findRunByAction (a_id action) s = Some r \<and> r \<noteq> [] \<longrightarrow>
       \<not> isCancellationRequested r s \<and> \<not> isRunDeadlineExpired r now s \<and> \<not> goal_blocks (getGoalForRun r s) t) \<and>
    \<not> blocked (action_evaluate (we_policies env) t (q_arguments item) s) \<and>
    (requiresApproval (action_evaluate (we_policies env) t (q_arguments item) s) \<longrightarrow> a_approved_at action \<noteq> None) \<and>
    package_problem env action = None \<and> now - a_created_at action \<le> we_maxActionAgeMs env \<and>
    check_account (we_accounts env) (q_tool item) (a_accountBinding action) (q_arguments item) s = Inr () \<and>
    json_text (q_arguments item) = json_text (a_arguments action) \<and>
    (last_attempt_expired item s \<longrightarrow> t_supportsIdempotency t)"
proof -
  obtain act where act: "getAgentAction (q_action_id item) s = Some act"
    using assms by (cases "getAgentAction (q_action_id item) s")
      (auto simp: prepare_leased_def split: prod.splits sum.splits)
  let ?rid = "findRunByAction (a_id act) s"
  let ?rid' = "case ?rid of Some (c # cs) \<Rightarrow> Some (c # cs) | _ \<Rightarrow> None"
  from assms act have nr: "\<not> (a_status act = ARejected \<or> a_rejected_at act \<noteq> None)"
    by (auto simp: prepare_leased_def Let_def dest!: stop_with_not_begun split: if_split_asm)
  with assms act have nx: "a_status act \<noteq> AExecuted"
    by (auto simp: prepare_leased_def Let_def dest!: complete_executed_not_begun split: if_split_asm)
  from assms act nr nx have nc: "\<not> (case ?rid of Some r \<Rightarrow> r \<noteq> [] \<and> isCancellationRequested r s | None \<Rightarrow> False)"
    by (auto simp: prepare_leased_def Let_def dest!: stop_with_not_begun split: if_split_asm)
  from assms act nr nx nc have nd: "\<not> (case ?rid of Some r \<Rightarrow> r \<noteq> [] \<and> isRunDeadlineExpired r now s | None \<Rightarrow> False)"
    unfolding prepare_leased_def Let_def
    by (simp only: option.case if_False split: if_split_asm) (auto dest!: stop_with_not_begun)
  from assms act nr nx nc nd obtain t0 where t0: "resolve_tool (we_tools env) (q_tool item) = Inr t0"
    and c: "check_and_begin env nid item act t0 (action_evaluate (we_policies env) t0 (q_arguments item) s) ?rid' now s =
      (Inr (Begun att t action), s')"
    unfolding prepare_leased_def Let_def
    by (simp only: option.case if_False simp_thms split: sum.splits) (auto dest!: stop_with_not_begun)
  note b = check_and_begin_Begun [OF c]
  from t0 have "we_tools env (q_tool item) = Some t0" by (simp add: resolve_tool_def split: option.splits)
  moreover have "\<not> goal_blocks (getGoalForRun r s) t0" if "?rid = Some r" "r \<noteq> []" for r
    using b that by (cases r) auto
  ultimately show ?thesis using b act nr nx nc nd by (auto split: option.splits)
qed

text \<open>
  C11. The authorization of an execution. A worker gets as far as calling the tool only if, in
  the state in which it calls it: the action was not rejected, not executed before and its run
  neither cancelled nor past its deadline; the tool is registered; the policy in force does
  not block it and, if it asks for approval, the owner has approved; the goal still permits
  the tool; the package still has authority; the action is not stale; the account is the one
  bound; the queued arguments are those that were approved; and if an earlier attempt ended
  with an expired lease, the tool is idempotent.
\<close>

theorem worker_calls_only_authorized:
  assumes "prepare_leased env nid item now s = (Inr (Begun att t action), s')"
  shows "getAgentAction (q_action_id item) s = Some action \<and> a_status action \<notin> {ARejected, AExecuted} \<and>
    a_rejected_at action = None \<and> we_tools env (q_tool item) = Some t \<and>
    (\<forall>r. findRunByAction (a_id action) s = Some r \<and> r \<noteq> [] \<longrightarrow>
       \<not> isCancellationRequested r s \<and> \<not> isRunDeadlineExpired r now s \<and> \<not> goal_blocks (getGoalForRun r s) t) \<and>
    \<not> blocked (action_evaluate (we_policies env) t (q_arguments item) s) \<and>
    (requiresApproval (action_evaluate (we_policies env) t (q_arguments item) s) \<longrightarrow> a_approved_at action \<noteq> None) \<and>
    package_problem env action = None \<and> now - a_created_at action \<le> we_maxActionAgeMs env \<and>
    check_account (we_accounts env) (q_tool item) (a_accountBinding action) (q_arguments item) s = Inr () \<and>
    json_text (q_arguments item) = json_text (a_arguments action) \<and>
    (last_attempt_expired item s \<longrightarrow> t_supportsIdempotency t)"
  by (rule prepare_leased_Begun [OF assms])

section \<open>After the tool call\<close>

lemma execute_recorded_frame [simp]:
  "queue (execute_recorded aid t corr who res now s) = queue s" "attempts (execute_recorded aid t corr who res now s) = attempts s"
  by (cases res; simp add: execute_recorded_def)+

lemma execute_recorded_ok: "queue_ok s \<Longrightarrow> queue_ok (execute_recorded aid t corr who res now s)"
  by (simp add: queue_ok_def)

lemma queue_ok_attempt_row:
  assumes "queue_ok s" and "t \<in> set (attempts s)"
  shows "\<exists>q\<in>set (queue s). q_id q = t_queue_id t"
proof -
  from assms(1) have "queue_inv (queue s) (attempts s)" by (simp add: queue_ok_def)
  from queue_invD(7) [OF this assms(2)] show ?thesis by (auto simp: attempt_ok_def)
qed

lemma settleAttempt_row:
  assumes "queue_ok s" and "settleAttempt tid owner se now s = (Inr (Some q), s')"
  shows "q_status q = se_queueStatus se \<and> q_error_class q = se_errorClass se"
proof -
  from assms(2) obtain t where t: "getActionAttempt tid s = Some t" "t_status t = AtExecuting" "t_lease_owner t = owner"
    by (auto simp: settleAttempt_def Let_def split: option.splits if_splits)
  from assms(2) have own: "owner \<noteq> []" by (auto simp: settleAttempt_def)
  have tm: "t \<in> set (attempts s)" "t_id t = tid" using getActionAttemptD [OF t(1)] by auto
  obtain q0 where q0: "q0 \<in> set (queue s)" "q_id q0 = t_queue_id t"
    using queue_ok_attempt_row [OF assms(1) tm(1)] by blast
  have "getQueuedAction (t_queue_id t) s = Some q0" using getQueuedAction_mem [OF assms(1) q0(1)] q0(2) by simp
  from settleAttempt_success [OF assms(1) tm(1) t(2) _ this, of se now] own t(3) tm(2) assms(2)
  show ?thesis by (auto simp: settle_row_def)
qed

lemma failActionAttempt_retry:
  assumes "queue_ok s" and "failActionAttempt tid owner err (Some c) fo now s = (Inr (Some q), s')" and "q_status q = Retry_wait"
  shows "c = Retryable"
  using assms by (auto simp: failActionAttempt_def Let_def split: option.splits sum.splits if_splits dest!: settleAttempt_row)

text \<open>
  C12. No unsafe retry. An action goes back to waiting for a retry only if its tool threw, the
  error is retryable, and either the tool is idempotent or the error says that a retry is
  safe; every other failure is left for the owner.
\<close>

theorem retry_only_if_safe:
  assumes "queue_ok s" and "settle_leased env item att t action res now s = (Inr out, s')" and "oc_status out = S_retry_wait"
  shows "\<exists>e. res = Threw e \<and> classifyActionError e = Retryable \<and> (t_supportsIdempotency t \<or> th_safeToRetry e)"
proof (cases res)
  case (Returned v)
  with assms(2,3) show ?thesis
    by (auto simp: settle_leased_def Let_def split: prod.splits sum.splits option.splits)
next
  case (Threw e)
  let ?who = "case q_actor item of Some a \<Rightarrow> a | None \<Rightarrow> \<lparr>actor_type = ''agent'', actor_id = a_requested_by action\<rparr>"
  let ?s = "execute_recorded (a_id action) t (q_correlation_id item) ?who res now s"
  from assms(2,3) Threw obtain q s'' where
    f: "failActionAttempt (t_id att) (we_workerId env) (Some (th_message e)) (Some (worker_error_class t e)) default_fail_options now ?s =
      (Inr (Some q), s'')" and q: "step_of_queue_status (q_status q) = S_retry_wait"
    by (auto simp: settle_leased_def Let_def split: prod.splits sum.splits option.splits)
  have "q_status q = Retry_wait" using q by (cases "q_status q") auto
  from failActionAttempt_retry [OF execute_recorded_ok [OF assms(1)] f this] Threw show ?thesis
    by (auto simp: worker_error_class_def Let_def split: if_splits)
qed

text \<open>
  A result is recorded. When the tool of an executing attempt returns and the worker still
  owns the attempt, the worker's call succeeds: the outcome is executed, the audit row holds
  the result, and the queue row is completed.
\<close>

theorem returned_result_recorded:
  assumes "queue_ok s" and "att \<in> set (attempts s)" and "t_status att = AtExecuting"
    and "t_lease_owner att = we_workerId env" and "we_workerId env \<noteq> []" and "getAgentAction (a_id action) s \<noteq> None"
  shows "\<exists>out s'. settle_leased env item att t action (Returned v) now s = (Inr out, s') \<and> oc_status out = S_executed \<and>
           (\<exists>a. getAgentAction (a_id action) s' = Some a \<and> a_status a = AExecuted \<and> a_result a = Some v) \<and>
           (\<exists>q. getQueuedAction (t_queue_id att) s' = Some q \<and> q_status q = Completed \<and> q_lease_owner q = None)"
proof -
  let ?who = "case q_actor item of Some a \<Rightarrow> a | None \<Rightarrow> \<lparr>actor_type = ''agent'', actor_id = a_requested_by action\<rparr>"
  let ?s = "execute_recorded (a_id action) t (q_correlation_id item) ?who (Returned v) now s"
  let ?se = "\<lparr>se_queueStatus = Completed, se_attemptStatus = AtCompleted, se_error = None, se_errorClass = None, se_nextAttemptAt = None\<rparr>"
  have ok: "queue_ok ?s" by (rule execute_recorded_ok [OF assms(1)])
  obtain q0 where q0: "q0 \<in> set (queue s)" "q_id q0 = t_queue_id att"
    using queue_ok_attempt_row [OF assms(1,2)] by blast
  have g: "getQueuedAction (t_queue_id att) ?s = Some q0" using getQueuedAction_mem [OF ok, of q0] q0 by simp
  have att: "att \<in> set (attempts ?s)" using assms(2) by simp
  have c: "completeActionAttempt (t_id att) (we_workerId env) now ?s = settleAttempt (t_id att) (t_lease_owner att) ?se now ?s"
    by (simp add: completeActionAttempt_def assms(4))
  obtain r s2 where rs: "settleAttempt (t_id att) (t_lease_owner att) ?se now ?s = (r, s2)"
    by (cases "settleAttempt (t_id att) (t_lease_owner att) ?se now ?s")
  from settleAttempt_success [OF ok att assms(3) _ g, of ?se now] assms(4,5) rs
  have r: "r = Inr (Some (settle_row (?se, now) q0))" "getQueuedAction (t_queue_id att) s2 = Some (settle_row (?se, now) q0)"
    by auto
  have "actions s2 = actions ?s"
    using rs by (auto simp: settleAttempt_def Let_def split: option.splits if_splits)
  moreover obtain a0 where a0: "getAgentAction (a_id action) s = Some a0" using assms(6) by blast
  ultimately have a: "getAgentAction (a_id action) s2 =
      Some (patch_action (no_patch\<lparr>p_status := Some AExecuted, p_result := Some v\<rparr>, now) a0)"
    using getAgentAction_update [of "a_id action" "a_id action" "no_patch\<lparr>p_status := Some AExecuted, p_result := Some v\<rparr>" now s]
    by (simp add: getAgentAction_def execute_recorded_def)
  show ?thesis
    using c rs r a
    by (simp add: settle_leased_def Let_def publishQueueStatus_def getQueuedAction_def getAgentAction_def
        patch_action_def settle_row_def)
qed

section \<open>A concrete execution\<close>

definition ex_env :: worker_env where
  "ex_env = \<lparr>we_workerId = ''w'', we_leaseMs = 1000, we_maxActionAgeMs = 86400000,
     we_tools = [''email.send'' \<mapsto> ex_tool ''email.send'' ''email''],
     we_policies = \<lparr>policies = JObj [(''email'', JObj [(''send'', JStr ''autonomous'')])], vaultPolicyInvalid = False\<rparr>,
     we_accounts = ex_accounts, we_packageAuthority = None\<rparr>"

definition ex_item :: queue_row where
  "ex_item = lease_row (''w'', 1005, 5) ex_row"

lemma ex_leased_more: "actions ex_leased = [audit_row ex_audit ''a'' (Some 4) 0]" "steps ex_leased = []"
  by (simp_all add: ex_leased_def leaseNextAction_def take_lease_def close_attempts_def ex_queued_sel due_def
      ex_row_def queue_row_of_def ex_queued_def enqueueAction_def ex_enqueue_def actionIdempotencyKey_def
      getQueuedActionByActionId_def getQueuedAction_def getAgentAction_def ex_recorded_sel Let_def ex_recorded_def
      recordAudit_def ex_audit_def audit_id_def empty_db_def)

lemma ex_prepared: "\<exists>att action. prepare_leased ex_env ''t'' ex_item 6 ex_leased =
  (Inr (Begun att (ex_tool ''email.send'' ''email'') action), ex_begun)"
proof -
  have b: "beginActionAttempt ''t'' ''q'' ''w'' 6 ex_leased = (Inr (Some ex_attempt), ex_begun)"
    unfolding ex_begun_def
    by (simp add: beginActionAttempt_def getQueuedAction_def getActionAttempt_def ex_leased_sel lease_row_def ex_row_def
        queue_row_of_def Let_def new_attempt_def)
  show ?thesis
    using b
    by (simp add: prepare_leased_def ex_item_def ex_row_def queue_row_of_def ex_enqueue_def lease_row_def getAgentAction_def
        ex_leased_more findRunByAction_def audit_row_def ex_audit_def resolve_tool_def ex_env_def check_and_begin_def
        action_evaluate_def buildEvalContext_def policy_eval_simps ends_with_def goal_blocks_def package_problem_def
        check_account_def accountDomainForAction_def ex_accounts_def assertSmtpIdentity_def last_attempt_expired_def
        listActionAttempts_def ex_leased_sel)
qed

theorem worker_calls_only_authorized_witness:
  "\<exists>att t action s'. prepare_leased ex_env ''t'' ex_item 6 ex_leased = (Inr (Begun att t action), s') \<and>
     getAgentAction ''a'' ex_leased = Some action \<and> a_rejected_at action = None"
proof -
  from ex_prepared obtain att t action where p: "prepare_leased ex_env ''t'' ex_item 6 ex_leased = (Inr (Begun att t action), ex_begun)"
    by blast
  moreover have "q_action_id ex_item = ''a''" by (simp add: ex_item_def lease_row_def ex_row_def queue_row_of_def ex_enqueue_def)
  ultimately show ?thesis using worker_calls_only_authorized [OF p] by auto
qed

definition ex_thrown :: thrown where
  "ex_thrown = \<lparr>th_class = Some Retryable, th_ownerAttention = False, th_code = ''etimedout'', th_status = Some 0,
     th_safeToRetry = True, th_message = ''timeout''\<rparr>"

theorem retry_only_if_safe_witness:
  "\<exists>out s'. settle_leased ex_env ex_item ex_attempt (ex_tool ''email.send'' ''email'') (audit_row ex_audit ''a'' (Some 4) 0)
      (Threw ex_thrown) 7 ex_begun = (Inr out, s') \<and> oc_status out = S_retry_wait \<and> th_safeToRetry ex_thrown"
proof -
  have ok: "queue_ok ex_begun" by (rule reachable_queue_ok [OF ex_reachable(4)])
  let ?r = "settle_leased ex_env ex_item ex_attempt (ex_tool ''email.send'' ''email'') (audit_row ex_audit ''a'' (Some 4) 0)
      (Threw ex_thrown) 7 ex_begun"
  obtain out s' where o: "?r = (Inr out, s')" "oc_status out = S_retry_wait"
    by (simp add: settle_leased_def failActionAttempt_def getActionAttempt_def ex_begun_sel ex_attempt_sel default_fail_options_def
        worker_error_class_def classifyActionError_def ex_thrown_def ex_tool_def 
        retryDelayMs_def settleAttempt_def ex_env_def sql_changes_def ex_held_sel getQueuedAction_def settle_row_def Let_def)
  from retry_only_if_safe [OF ok o] o show ?thesis by (auto simp: ex_tool_def)
qed

theorem returned_result_recorded_witness:
  "\<exists>out s'. settle_leased ex_env ex_item ex_attempt (ex_tool ''email.send'' ''email'') (audit_row ex_audit ''a'' (Some 4) 0)
      (Returned JNull) 7 ex_begun = (Inr out, s') \<and> oc_status out = S_executed"
proof -
  have ok: "queue_ok ex_begun" by (rule reachable_queue_ok [OF ex_reachable(4)])
  have "actions ex_begun = actions ex_leased"
    by (simp add: ex_begun_def beginActionAttempt_def Let_def split: option.splits)
  then have "getAgentAction (a_id (audit_row ex_audit ''a'' (Some 4) 0)) ex_begun \<noteq> None"
    by (simp add: getAgentAction_def ex_leased_more)
  from returned_result_recorded [OF ok, of ex_attempt ex_env "audit_row ex_audit ''a'' (Some 4) 0", OF _ _ _ _ this]
  show ?thesis by (simp add: ex_begun_sel ex_attempt_sel ex_env_def) metis
qed

end
