(* ===== verification/U2_Date.thy ===== *)
theory U2_Date
  imports U2_Prelude
begin

text \<open>
  What the code uses of JavaScript's \<open>Date\<close>: the calendar date of a number of days since
  1970-01-01 (proleptic Gregorian), the weekday, and \<open>toISOString\<close> for the years 0 to 9999.
\<close>

text \<open>Year, month (1 to 12) and day of month; years are counted from March inside an era of 400 years.\<close>

definition civil_of_days :: "int \<Rightarrow> int \<times> int \<times> int" where
  "civil_of_days days =
     (let z = days + 719468; era = z div 146097; doe = z mod 146097;
          yoe = (doe - doe div 1460 + doe div 36524 - doe div 146096) div 365;
          doy = doe - (365 * yoe + yoe div 4 - yoe div 100);
          mp = (5 * doy + 2) div 153;
          d = doy - (153 * mp + 2) div 5 + 1;
          m = (if mp < 10 then mp + 3 else mp - 9) in
      (yoe + era * 400 + (if m \<le> 2 then 1 else 0), m, d))"

definition days_of_civil :: "int \<Rightarrow> int \<Rightarrow> int \<Rightarrow> int" where
  "days_of_civil year m d =
     (let y = (if m \<le> 2 then year - 1 else year); era = y div 400; yoe = y mod 400;
          mp = (if m > 2 then m - 3 else m + 9);
          doy = (153 * mp + 2) div 5 + d - 1;
          doe = yoe * 365 + yoe div 4 - yoe div 100 + doy in
      era * 146097 + doe - 719468)"

text \<open>\<open>getDay\<close>: 0 is Sunday; 1970-01-01 was a Thursday.\<close>

definition weekday :: "int \<Rightarrow> nat" where
  "weekday days = nat ((days + 4) mod 7)"

definition pad :: "nat \<Rightarrow> int \<Rightarrow> string" where
  "pad w n = (let t = nat_str (nat n) in replicate (w - length t) CHR ''0'' @ t)"

definition iso_string :: "int \<Rightarrow> string" where
  "iso_string ms =
     (let days = ms div 86400000; t = ms mod 86400000; c = civil_of_days days in
      pad 4 (fst c) @ ''-'' @ pad 2 (fst (snd c)) @ ''-'' @ pad 2 (snd (snd c)) @ ''T'' @
      pad 2 (t div 3600000) @ '':'' @ pad 2 (t div 60000 mod 60) @ '':'' @ pad 2 (t div 1000 mod 60) @ ''.'' @
      pad 3 (t mod 1000) @ ''Z'')"

end
