(* ===== verification/U2_Approval.thy ===== *)
theory U2_Approval
  imports U2_Worker U2_Date
begin

text \<open>
  The approval life cycle, \<open>server/agent/approval-manager.js\<close>: recording a decision,
  approving, proposing again and rejecting. The environment of the worker carries what the
  manager uses too: the tools, the policies in force and the accounts. The ids that \<open>newId\<close>
  makes (of the audit row, the queue row and the attempt) and the clock are arguments.
\<close>

section \<open>Recording a decision\<close>

record decision_input =
  d_id :: "string option"
  d_tool :: tool
  d_arguments :: jsval
  d_requestedBy :: string
  d_requestText :: "string option"
  d_model :: "string option"
  d_reasoningSummary :: "string option"
  d_evaluation :: evaluation
  d_correlationId :: "string option"
  d_actor :: "actor option"
  d_contextProvenance :: "jsval list"
  d_accountBinding :: "account_binding option"
  d_packageContext :: "jsval option"

definition decision_status :: "evaluation \<Rightarrow> action_status" where
  "decision_status e = (if blocked e then ABlocked else if requiresApproval e then APending else AApproved)"

definition decision_audit :: "decision_input \<Rightarrow> audit_input" where
  "decision_audit d =
     \<lparr>au_id = d_id d, au_requestedBy = d_requestedBy d, au_requestText = d_requestText d, au_model = d_model d,
      au_tool = t_name (d_tool d), au_arguments = d_arguments d, au_reasoningSummary = d_reasoningSummary d,
      au_policyDomain = Some (ev_domain (d_evaluation d)), au_policyRule = Some (ev_rule (d_evaluation d)),
      au_autonomyLevel = autonomyLevel (d_evaluation d), au_requiresApproval = requiresApproval (d_evaluation d),
      au_status = decision_status (d_evaluation d), au_correlationId = d_correlationId d,
      au_contextProvenance = d_contextProvenance d, au_accountBinding = d_accountBinding d,
      au_packageContext = d_packageContext d\<rparr>"

definition recordDecision :: "string \<Rightarrow> int \<Rightarrow> decision_input \<Rightarrow> (db, action_row) eff" where
  "recordDecision newid now d s =
     (case recordAudit newid now (decision_audit d) s of
        (Inl e, s') \<Rightarrow> (Inl e, s')
      | (Inr row, s') \<Rightarrow>
          let e = d_evaluation d in
          (Inr row,
           if blocked e then
             publish (action_event ''agent.action.failed'' ''policy-engine'' (d_actor d) (a_id row)
                        [(''tool'', JStr (t_name (d_tool d))), (''reason'', JStr (ev_reason e))] (d_correlationId d)
                        (''policy:'' @ ev_rule e)) s'
           else if requiresApproval e then
             publish (action_event ''agent.action.proposed'' ''agent'' (d_actor d) (a_id row)
                        [(''tool'', JStr (t_name (d_tool d))), (''arguments'', d_arguments d), (''reason'', JStr (ev_reason e))]
                        (d_correlationId d) ''agent:plan'') s'
           else s'))"

section \<open>What the caller is told\<close>

record proposal_outcome = action_outcome +
  oc_reason :: "string option"
  oc_accountBinding :: "account_binding option"
  oc_reproposedFrom :: "string option"

definition worker_outcome :: "action_outcome \<Rightarrow> proposal_outcome" where
  "worker_outcome r = action_outcome.extend r (proposal_outcome.fields None None None)"

definition stopped_outcome :: "string \<Rightarrow> step_status \<Rightarrow> string \<Rightarrow> jsval option \<Rightarrow> string \<Rightarrow> account_binding option \<Rightarrow> proposal_outcome" where
  "stopped_outcome aid st toolName args reason binding =
     \<lparr>oc_id = aid, oc_status = st, oc_tool = toolName, oc_arguments = args, oc_result = None, oc_error = None,
      oc_errorClass = None, oc_reason = Some reason, oc_accountBinding = binding, oc_reproposedFrom = None\<rparr>"

definition process_outcome :: "worker_env \<Rightarrow> string \<Rightarrow> string \<Rightarrow> int \<Rightarrow> tool_run \<Rightarrow> (db, proposal_outcome option) eff" where
  "process_outcome env newid aid now r s =
     (case processAction env newid aid now r s of
        (Inl e, s') \<Rightarrow> (Inl e, s')
      | (Inr x, s') \<Rightarrow> (Inr (map_option worker_outcome x), s'))"

definition action_status_text :: "action_status \<Rightarrow> string" where
  "action_status_text st =
     (case st of APending \<Rightarrow> ''pending'' | AApproved \<Rightarrow> ''approved'' | ABlocked \<Rightarrow> ''blocked'' | AExecuted \<Rightarrow> ''executed''
      | AFailed \<Rightarrow> ''failed'' | ACancelled \<Rightarrow> ''cancelled'' | ARejected \<Rightarrow> ''rejected'')"

text \<open>The two errors that \<open>approve\<close> and \<open>reject\<close> share.\<close>

definition pending_action :: "string \<Rightarrow> db \<Rightarrow> action_row res" where
  "pending_action aid s =
     (case getAgentAction aid s of
        None \<Rightarrow> Inl (Error (''No such action: '' @ aid))
      | Some action \<Rightarrow>
          if a_status action \<noteq> APending
          then Inl (Error (''Action '' @ aid @ '' is not pending (status='' @ action_status_text (a_status action) @ '')''))
          else Inr action)"

section \<open>Approving\<close>

definition block_approved ::
  "string \<Rightarrow> string \<Rightarrow> action_row \<Rightarrow> actor \<Rightarrow> action_patch \<Rightarrow> string \<Rightarrow> string \<Rightarrow> int \<Rightarrow> (db, proposal_outcome option) eff" where
  "block_approved aid src action who patch reason prov now s =
     (Inr (Some (stopped_outcome aid S_blocked (a_tool action) None reason None)),
      publish (action_event ''agent.action.failed'' src (Some who) aid
                 [(''tool'', JStr (a_tool action)), (''reason'', JStr reason)] (a_correlation_id action) prov)
        (snd (updateAgentAction aid patch now s)))"

definition enqueue_approved ::
  "string \<Rightarrow> string \<Rightarrow> action_row \<Rightarrow> tool \<Rightarrow> actor \<Rightarrow> evaluation \<Rightarrow> int \<Rightarrow> (db, queue_row option) eff" where
  "enqueue_approved newq aid action t who ev now s =
     (let ref = aid @ '':'' @ iso_string now;
          fresh = enqueueAction newq now \<lparr>en_actionId = aid, en_correlationId = a_correlation_id action, en_tool = t_name t,
            en_arguments = a_arguments action, en_idempotencyKey = None, en_approvalReference = Some ref,
            en_policyDecisionReference = Some (ev_rule ev), en_actor = Some who\<rparr> in
      case getQueuedActionByActionId aid s of
        Some q \<Rightarrow>
          if q_status q \<in> {Failed, Cancelled} then requeueAction (q_id q) (Some ref) (Some (ev_rule ev)) now s else fresh s
      | None \<Rightarrow> fresh s)"

text \<open>The synchronous part, up to the queue: an outcome, or the action is on the queue.\<close>

datatype approval = Stopped "proposal_outcome option" | Enqueued

definition approve_prepare :: "worker_env \<Rightarrow> string \<Rightarrow> string \<Rightarrow> string \<Rightarrow> int \<Rightarrow> (db, approval) eff" where
  "approve_prepare env newq aid approvedBy now s =
     (case pending_action aid s of
        Inl e \<Rightarrow> (Inl e, s)
      | Inr action \<Rightarrow>
          (case resolve_tool (we_tools env) (a_tool action) of
             Inl e \<Rightarrow> (Inl e, s)
           | Inr t \<Rightarrow>
               let ev = action_evaluate (we_policies env) t (a_arguments action) s;
                   who = \<lparr>actor_type = ''user'', actor_id = approvedBy\<rparr>;
                   stop = (\<lambda>x. case x of (Inl e, s') \<Rightarrow> (Inl e, s') | (Inr o', s') \<Rightarrow> (Inr (Stopped o'), s')) in
               (case check_account (we_accounts env) (a_tool action) (a_accountBinding action) (a_arguments action) s of
                  Inl e \<Rightarrow>
                    stop (block_approved aid ''account-binding'' action who (set_failure ABlocked (error_message e))
                            (error_message e) ''runtime:account-binding'' now s)
                | Inr _ \<Rightarrow>
                    if blocked ev then
                      stop (block_approved aid ''policy-engine'' action who (set_status ABlocked) (ev_reason ev)
                              (''policy:'' @ ev_rule ev) now s)
                    else
                      let s1 = snd (updateAgentAction aid (no_patch\<lparr>p_status := Some AApproved, p_approvedBy := Some approvedBy,
                                      p_approvedAt := Some now\<rparr>) now s);
                          s2 = publish (action_event ''agent.action.approved'' ''user'' (Some who) aid
                                 [(''tool'', JStr (a_tool action))] (a_correlation_id action) ''user:approve'') s1 in
                      (case enqueue_approved newq aid action t who ev now s2 of
                         (Inl e, s3) \<Rightarrow> (Inl e, s3)
                       | (Inr _, s3) \<Rightarrow> (Inr Enqueued, s3)))))"

definition approve :: "worker_env \<Rightarrow> string \<Rightarrow> string \<Rightarrow> string \<Rightarrow> string \<Rightarrow> int \<Rightarrow> tool_run \<Rightarrow> (db, proposal_outcome option) eff" where
  "approve env newq newt aid approvedBy now r s =
     (case approve_prepare env newq aid approvedBy now s of
        (Inl e, s') \<Rightarrow> (Inl e, s')
      | (Inr (Stopped o'), s') \<Rightarrow> (Inr o', s')
      | (Inr Enqueued, s') \<Rightarrow> process_outcome env newt aid now r s')"

section \<open>Rejecting\<close>

definition reject :: "string \<Rightarrow> string \<Rightarrow> int \<Rightarrow> (db, action_row option) eff" where
  "reject aid rejectedBy now s =
     (case pending_action aid s of
        Inl e \<Rightarrow> (Inl e, s)
      | Inr action \<Rightarrow>
          let s1 = snd (updateAgentAction aid (no_patch\<lparr>p_status := Some ARejected, p_rejectedBy := Some rejectedBy,
                          p_rejectedAt := Some now\<rparr>) now s);
              s2 = publish (action_event ''agent.action.rejected'' ''user''
                     (Some \<lparr>actor_type = ''user'', actor_id = rejectedBy\<rparr>) aid
                     [(''tool'', JStr (a_tool action))] (a_correlation_id action) ''user:reject'') s1 in
          (Inr (getAgentAction aid s2), s2))"

section \<open>Proposing again\<close>

definition STALE_ACTION_ERROR :: string where
  "STALE_ACTION_ERROR = ''Action is stale and requires owner review''"

definition reproposed_as :: "action_row \<Rightarrow> string option" where
  "reproposed_as action = (case js_get (a_result action) ''reproposedAs'' of Some (JStr (c # cs)) \<Rightarrow> Some (c # cs) | _ \<Rightarrow> None)"

definition reproposed_outcome :: "action_row \<Rightarrow> string \<Rightarrow> string \<Rightarrow> proposal_outcome" where
  "reproposed_outcome row reason from =
     \<lparr>oc_id = a_id row, oc_status = step_of_action_status (a_status row), oc_tool = a_tool row,
      oc_arguments = Some (a_arguments row), oc_result = None, oc_error = None, oc_errorClass = None,
      oc_reason = Some reason, oc_accountBinding = a_accountBinding row, oc_reproposedFrom = Some from\<rparr>"

definition repropose_fresh :: "worker_env \<Rightarrow> string \<Rightarrow> string \<Rightarrow> string \<Rightarrow> int \<Rightarrow> action_row \<Rightarrow> (db, proposal_outcome) eff" where
  "repropose_fresh env newid aid requestedBy now action s =
     (case resolve_tool (we_tools env) (a_tool action) of
        Inl e \<Rightarrow> (Inl e, s)
      | Inr t \<Rightarrow>
          let ev = action_evaluate (we_policies env) t (a_arguments action) s in
          if blocked ev then (Inl (Error (ev_reason ev)), s)
          else if \<not> requiresApproval ev then
            (Inl (Error ''Current policy no longer asks for approval for this action; ask again to run it''), s)
          else
            (case check_account (we_accounts env) (a_tool action) (a_accountBinding action) (a_arguments action) s of
               Inl e \<Rightarrow> (Inl e, s)
             | Inr _ \<Rightarrow>
                 (case recordDecision newid now
                         \<lparr>d_id = None, d_tool = t, d_arguments = a_arguments action, d_requestedBy = a_requested_by action,
                          d_requestText = a_request_text action, d_model = a_model action,
                          d_reasoningSummary = a_reasoning_summary action, d_evaluation = ev,
                          d_correlationId = a_correlation_id action,
                          d_actor = Some \<lparr>actor_type = ''user'', actor_id = requestedBy\<rparr>,
                          d_contextProvenance = a_contextProvenance action, d_accountBinding = a_accountBinding action,
                          d_packageContext = None\<rparr> s of
                    (Inl e, s1) \<Rightarrow> (Inl e, s1)
                  | (Inr row, s1) \<Rightarrow>
                      (Inr (reproposed_outcome row (ev_reason ev) aid),
                       snd (updateAgentAction aid (no_patch\<lparr>p_result :=
                         Some (JObj (js_put ''reproposedAs'' (JStr (a_id row))
                           (case a_result action of Some (JObj ps) \<Rightarrow> ps | _ \<Rightarrow> [])))\<rparr>) now s1)))))"

definition repropose :: "worker_env \<Rightarrow> string \<Rightarrow> string \<Rightarrow> string \<Rightarrow> int \<Rightarrow> (db, proposal_outcome) eff" where
  "repropose env newid aid requestedBy now s =
     (case getAgentAction aid s of
        None \<Rightarrow> (Inl (Error (''No such action: '' @ aid)), s)
      | Some action \<Rightarrow>
          if a_status action \<noteq> AFailed \<or> js_get (a_result action) ''error'' \<noteq> Some (JStr STALE_ACTION_ERROR)
          then (Inl (Error ''Only an action that stopped as stale can be reviewed again''), s)
          else if a_packageContext action \<noteq> None then (Inl (Error ''Package actions cannot be re-proposed here''), s)
          else (case Option.bind (reproposed_as action) (\<lambda>i. getAgentAction i s) of
                  Some existing \<Rightarrow>
                    (Inr (reproposed_outcome existing
                       (case a_reasoning_summary existing of Some r \<Rightarrow> r | None \<Rightarrow> []) aid), s)
                | None \<Rightarrow> repropose_fresh env newid aid requestedBy now action s))"

section \<open>Approval\<close>

lemma approve_prepare_frame:
  assumes "approve_prepare env newq aid who now s = (x, s')" and "x \<noteq> Inr Enqueued" and "queue s' \<noteq> queue s \<or> attempts s' \<noteq> attempts s"
  shows "\<exists>action t. pending_action aid s = Inr action \<and> resolve_tool (we_tools env) (a_tool action) = Inr t \<and>
    \<not> blocked (action_evaluate (we_policies env) t (a_arguments action) s) \<and>
    check_account (we_accounts env) (a_tool action) (a_accountBinding action) (a_arguments action) s = Inr ()"
  using assms by (auto simp: approve_prepare_def Let_def block_approved_def split: sum.splits if_split_asm prod.splits)

lemma approve_prepare_Enqueued:
  assumes "approve_prepare env newq aid who now s = (Inr Enqueued, s')"
  shows "\<exists>action t. pending_action aid s = Inr action \<and> resolve_tool (we_tools env) (a_tool action) = Inr t \<and>
    \<not> blocked (action_evaluate (we_policies env) t (a_arguments action) s) \<and>
    check_account (we_accounts env) (a_tool action) (a_accountBinding action) (a_arguments action) s = Inr ()"
  using assms by (auto simp: approve_prepare_def Let_def block_approved_def split: sum.splits if_split_asm prod.splits)

lemma pending_actionD: "pending_action aid s = Inr a \<Longrightarrow> getAgentAction aid s = Some a \<and> a_status a = APending"
  by (auto simp: pending_action_def split: option.splits if_splits)

text \<open>
  C17. An approval is decided again. Approving puts an action on the queue, or lets a worker touch
  it, only if it was waiting for approval, its tool is registered, the policy in force at
  the moment of approval does not block it, and the account it was proposed for is still
  the one it would use.
\<close>

theorem approval_rechecks:
  assumes "approve env newq newt aid who now r s = (x, s')" and "queue s' \<noteq> queue s \<or> attempts s' \<noteq> attempts s"
  shows "\<exists>action t. getAgentAction aid s = Some action \<and> a_status action = APending \<and>
    we_tools env (a_tool action) = Some t \<and>
    \<not> blocked (action_evaluate (we_policies env) t (a_arguments action) s) \<and>
    check_account (we_accounts env) (a_tool action) (a_accountBinding action) (a_arguments action) s = Inr ()"
proof -
  obtain p u where p: "approve_prepare env newq aid who now s = (p, u)" by (cases "approve_prepare env newq aid who now s")
  have "\<exists>action t. pending_action aid s = Inr action \<and> resolve_tool (we_tools env) (a_tool action) = Inr t \<and>
    \<not> blocked (action_evaluate (we_policies env) t (a_arguments action) s) \<and>
    check_account (we_accounts env) (a_tool action) (a_accountBinding action) (a_arguments action) s = Inr ()"
  proof (cases "p = Inr Enqueued")
    case True
    with p approve_prepare_Enqueued show ?thesis by blast
  next
    case False
    with assms p have "u = s'" by (auto simp: approve_def split: sum.splits approval.splits)
    with approve_prepare_frame [OF p False] assms(2) show ?thesis by blast
  qed
  then show ?thesis by (auto dest!: pending_actionD simp: resolve_tool_def split: option.splits)
qed

section \<open>Rejection\<close>

definition rejected :: "string \<Rightarrow> db \<Rightarrow> bool" where
  "rejected aid s \<longleftrightarrow> (\<exists>a. getAgentAction aid s = Some a \<and> a_rejected_at a \<noteq> None)"

lemma a_rejected_at_patch [simp]: "a_rejected_at (patch_action (p, now) r) = or_else (p_rejectedAt p) (a_rejected_at r)"
  by (simp add: patch_action_def)

lemma or_else_None [simp]: "or_else a b = None \<longleftrightarrow> a = None \<and> b = None"
  by (simp add: or_else_def split: option.splits)

lemma rejected_update:
  assumes "rejected aid s"
  shows "rejected aid (snd (updateAgentAction bid p now s))"
proof -
  from assms obtain a where a: "getAgentAction aid s = Some a" "a_rejected_at a \<noteq> None" by (auto simp: rejected_def)
  then show ?thesis by (auto simp: rejected_def getAgentAction_update or_else_def split: option.splits)
qed

lemma getAgentAction_publish [simp]: "getAgentAction aid (publish e s) = getAgentAction aid s"
  by (simp add: getAgentAction_def)

lemma reject_Inr:
  assumes "reject aid who now s = (Inr x, s')"
  shows "rejected aid s' \<and> (\<exists>a. getAgentAction aid s' = Some a \<and> a_status a = ARejected)"
proof -
  from assms obtain action where a: "pending_action aid s = Inr action" by (auto simp: reject_def split: sum.splits)
  from pending_actionD [OF a] assms a show ?thesis
    by (auto simp: reject_def Let_def rejected_def getAgentAction_update patch_action_def or_else_def no_patch_def)
qed

text \<open>
  A rejection is final. Once the owner has rejected an action it cannot be approved, the
  mark survives every later change of the audit row, and as long as the mark stands no
  worker gets as far as calling the tool for it, whatever lease it holds.
\<close>

theorem rejection_is_final:
  assumes "reject aid who now s = (Inr x, s')"
  shows "rejected aid s' \<and>
    (\<exists>e. approve env newq newt aid owner now' r s' = (Inl e, s')) \<and>
    (\<forall>u bid p n. rejected aid u \<longrightarrow> rejected aid (snd (updateAgentAction bid p n u))) \<and>
    (\<forall>u item n nid att t a u'. rejected aid u \<and> q_action_id item = aid \<longrightarrow>
       prepare_leased env nid item n u \<noteq> (Inr (Begun att t a), u'))"
proof -
  note r = reject_Inr [OF assms]
  then obtain a where "getAgentAction aid s' = Some a" "a_status a = ARejected" by blast
  then have "\<exists>e. approve env newq newt aid owner now' r s' = (Inl e, s')"
    by (simp add: approve_def approve_prepare_def pending_action_def)
  moreover have "prepare_leased env nid item n u \<noteq> (Inr (Begun att t b), u')"
    if "rejected aid u" "q_action_id item = aid" for u item n nid att t b u'
  proof
    assume "prepare_leased env nid item n u = (Inr (Begun att t b), u')"
    from prepare_leased_Begun [OF this] that show False by (auto simp: rejected_def)
  qed
  ultimately show ?thesis using r rejected_update by blast
qed

section \<open>Proposing again\<close>

lemma recordDecision_Inr:
  assumes "recordDecision newid now d s = (Inr row, s')"
  shows "a_id row = audit_id newid (decision_audit d) \<and> a_status row = decision_status (d_evaluation d) \<and>
    actions s' = actions s @ [row] \<and> getAgentAction (a_id row) s = None \<and> queue s' = queue s \<and> attempts s' = attempts s"
  using assms
  by (auto simp: recordDecision_def decision_audit_def Let_def split: prod.splits sum.splits if_splits dest!: recordAudit_cases)

lemma recordDecision_Inl: "recordDecision newid now d s = (Inl e, s') \<Longrightarrow> s' = s"
  by (auto simp: recordDecision_def Let_def split: prod.splits sum.splits if_splits dest!: recordAudit_cases)

lemma repropose_fresh_Inr:
  assumes "repropose_fresh env newid aid who now action s = (Inr o', s')"
  shows "\<exists>row u. a_id row = newid \<and> a_status row = APending \<and> actions u = actions s @ [row] \<and> getAgentAction newid s = None \<and>
    queue u = queue s \<and> attempts u = attempts s \<and> oc_id o' = newid \<and>
    s' = snd (updateAgentAction aid (no_patch\<lparr>p_result := Some (JObj (js_put ''reproposedAs'' (JStr newid)
           (case a_result action of Some (JObj ps) \<Rightarrow> ps | _ \<Rightarrow> [])))\<rparr>) now u)"
  using assms
  by (auto simp: repropose_fresh_def Let_def decision_status_def audit_id_def decision_audit_def reproposed_outcome_def
      split: prod.splits sum.splits if_splits dest!: recordDecision_Inr) blast

lemma repropose_Inr_action:
  assumes "repropose env newid aid who now s = (Inr o', s')"
  shows "\<exists>action ps. getAgentAction aid s = Some action \<and> a_status action = AFailed \<and> a_result action = Some (JObj ps) \<and>
    map_of ps ''error'' = Some (JStr STALE_ACTION_ERROR) \<and> a_packageContext action = None"
proof -
  from assms obtain action where a: "getAgentAction aid s = Some action" "a_status action = AFailed"
    "js_get (a_result action) ''error'' = Some (JStr STALE_ACTION_ERROR)" "a_packageContext action = None"
    by (auto simp: repropose_def split: option.splits if_split_asm)
  from a(3) obtain v where v: "a_result action = Some v" by (cases "a_result action") auto
  from js_get_own [OF a(3) [unfolded v]] a v show ?thesis by auto
qed

text \<open>
  Reviewing a stale action again executes nothing and asks once: neither the queue nor an
  attempt changes; if anything changes, it is that a new action waits for approval; and
  calling it again returns the same action and changes nothing.
\<close>

theorem repropose_asks_once:
  assumes "repropose env newid aid who now s = (Inr o', s')" and "newid \<noteq> []"
  shows "queue s' = queue s \<and> attempts s' = attempts s \<and>
    (s' \<noteq> s \<longrightarrow> oc_id o' = newid \<and> getAgentAction newid s = None \<and>
       (\<exists>row. getAgentAction newid s' = Some row \<and> a_status row = APending)) \<and>
    (\<exists>again. repropose env newid' aid who' now' s' = (Inr again, s') \<and> oc_id again = oc_id o')"
proof -
  from repropose_Inr_action [OF assms(1)] obtain action ps where a: "getAgentAction aid s = Some action"
    "a_status action = AFailed" "a_result action = Some (JObj ps)" "map_of ps ''error'' = Some (JStr STALE_ACTION_ERROR)"
    "a_packageContext action = None" by blast
  show ?thesis
  proof (cases "Option.bind (reproposed_as action) (\<lambda>i. getAgentAction i s)")
    case (Some existing)
    with assms(1) a show ?thesis by (auto simp: repropose_def split: if_splits)
  next
    case None
    with assms(1) a have "repropose_fresh env newid aid who now action s = (Inr o', s')"
      by (auto simp: repropose_def split: if_splits)
    from repropose_fresh_Inr [OF this] a(3) obtain row u where u: "a_id row = newid" "a_status row = APending"
      "actions u = actions s @ [row]" "getAgentAction newid s = None" "queue u = queue s" "attempts u = attempts s" "oc_id o' = newid"
      "s' = snd (updateAgentAction aid (no_patch\<lparr>p_result := Some (JObj (js_put ''reproposedAs'' (JStr newid) ps))\<rparr>) now u)"
      by auto
    from a(1) u(4) have ne: "newid \<noteq> aid" by auto
    from u(1,3,4) have new: "getAgentAction newid u = Some row" by (simp add: getAgentAction_def sql_get_append)
    from a(1) u(3) have old: "getAgentAction aid u = Some action" by (simp add: getAgentAction_def sql_get_append)
    have new': "getAgentAction newid s' = Some row" using ne new by (simp add: u(8) getAgentAction_update)
    have old': "getAgentAction aid s' =
        Some (patch_action (no_patch\<lparr>p_result := Some (JObj (js_put ''reproposedAs'' (JStr newid) ps))\<rparr>, now) action)"
      using old by (simp add: u(8) getAgentAction_update)
    obtain c cs where n: "newid = c # cs" using assms(2) by (cases newid) auto
    have "repropose env newid' aid who' now' s' =
        (Inr (reproposed_outcome row (case a_reasoning_summary row of Some r \<Rightarrow> r | None \<Rightarrow> []) aid), s')"
      using old' new' a by (simp add: repropose_def patch_action_def no_patch_def reproposed_as_def n)
    then show ?thesis using u new' by (simp add: reproposed_outcome_def)
  qed
qed

section \<open>Concrete decisions\<close>

definition ex_decision :: decision_input where
  "ex_decision = \<lparr>d_id = Some ''a'', d_tool = ex_tool ''email.send'' ''email'', d_arguments = JObj [], d_requestedBy = ''u'',
     d_requestText = None, d_model = None, d_reasoningSummary = None,
     d_evaluation = \<lparr>autonomyLevel = Level 3, requiresApproval = True, blocked = False, ev_domain = ''email'',
       ev_rule = ''email.send:confirm'', ev_reason = ''ask''\<rparr>, d_correlationId = Some ''c'', d_actor = None,
     d_contextProvenance = [], d_accountBinding = Some ex_binding, d_packageContext = None\<rparr>"

definition ex_pending :: db where
  "ex_pending = snd (recordDecision ''n'' 0 ex_decision empty_db)"

definition ex_confirm_env :: worker_env where
  "ex_confirm_env = ex_env\<lparr>we_policies := \<lparr>policies = JObj [(''email'', JObj [(''send'', JStr ''confirm'')])], vaultPolicyInvalid = False\<rparr>\<rparr>"

definition ex_stale :: db where
  "ex_stale = snd (updateAgentAction ''a'' (set_failure AFailed STALE_ACTION_ERROR) 1 ex_pending)"

definition ex_run :: tool_run where
  "ex_run = \<lparr>run_during = (\<lambda>s. s), run_outcome = (\<lambda>t v. Returned JNull), run_later = 9\<rparr>"

lemma ex_pending_action: "getAgentAction ''a'' ex_pending = Some (audit_row (decision_audit ex_decision) ''a'' (Some 3) 0)"
  by (simp add: ex_pending_def recordDecision_def recordAudit_def decision_audit_def ex_decision_def audit_id_def
      getAgentAction_def empty_db_def Let_def)

lemma ex_pending_sel: "queue ex_pending = []" "attempts ex_pending = []"
  by (simp_all add: ex_pending_def recordDecision_def recordAudit_def decision_audit_def ex_decision_def audit_id_def
      getAgentAction_def empty_db_def Let_def)

theorem rejection_is_final_witness:
  "\<exists>x s'. reject ''a'' ''u'' 5 ex_pending = (Inr x, s') \<and> rejected ''a'' s'"
proof -
  have "\<exists>x s'. reject ''a'' ''u'' 5 ex_pending = (Inr x, s')"
    by (simp add: reject_def pending_action_def ex_pending_action decision_audit_def ex_decision_def decision_status_def Let_def)
  then show ?thesis using rejection_is_final by blast
qed

lemma ex_confirm: "we_tools ex_confirm_env ''email.send'' = Some (ex_tool ''email.send'' ''email'')"
  "we_accounts ex_confirm_env = ex_accounts"
  "requiresApproval (action_evaluate (we_policies ex_confirm_env) (ex_tool ''email.send'' ''email'') v s)"
  "\<not> blocked (action_evaluate (we_policies ex_confirm_env) (ex_tool ''email.send'' ''email'') v s)"
  by (simp_all add: ex_confirm_env_def ex_env_def action_evaluate_def buildEvalContext_def policy_eval_simps ends_with_def)

lemma ex_approved_queue: "map q_status (queue (snd (approve ex_confirm_env ''q'' ''t'' ''a'' ''u'' 5 ex_run ex_pending))) = [Completed]"
  by code_simp

theorem approval_rechecks_witness:
  "\<exists>action. getAgentAction ''a'' ex_pending = Some action \<and> a_status action = APending \<and>
     queue (snd (approve ex_confirm_env ''q'' ''t'' ''a'' ''u'' 5 ex_run ex_pending)) \<noteq> []"
proof -
  let ?r = "approve ex_confirm_env ''q'' ''t'' ''a'' ''u'' 5 ex_run ex_pending"
  have "queue (snd ?r) \<noteq> queue ex_pending" using ex_approved_queue by (auto simp: ex_pending_sel)
  with approval_rechecks [OF prod.collapse [symmetric], of ex_confirm_env "''q''" "''t''" "''a''" "''u''" 5 ex_run ex_pending] ex_approved_queue
  show ?thesis by auto
qed

lemma ex_reproposed: "(case repropose ex_confirm_env ''b'' ''a'' ''u'' 90000000 ex_stale of (Inr o', s') \<Rightarrow> map a_status (actions s') = [AFailed, APending] | _ \<Rightarrow> False)"
  by code_simp

theorem repropose_asks_once_witness:
  "\<exists>o' s' again. repropose ex_confirm_env ''b'' ''a'' ''u'' 90000000 ex_stale = (Inr o', s') \<and> s' \<noteq> ex_stale \<and>
     repropose ex_confirm_env ''c'' ''a'' ''u'' 90000001 s' = (Inr again, s') \<and> oc_id again = ''b''"
proof -
  from ex_reproposed obtain o' s' where r: "repropose ex_confirm_env ''b'' ''a'' ''u'' 90000000 ex_stale = (Inr o', s')"
    and st: "map a_status (actions s') = [AFailed, APending]" by (auto split: prod.splits sum.splits)
  have "length (actions ex_stale) = 1" by code_simp
  with st have "s' \<noteq> ex_stale" by auto
  with repropose_asks_once [OF r, where newid' = "''c''" and who' = "''u''" and now' = 90000001] r show ?thesis by auto
qed

end
