(* ===== verification/U2_Remember.thy ===== *)
theory U2_Remember
  imports U2_Approval
begin

text \<open>
  "Approve and always allow", \<open>server/policy/remember-approval.js\<close>: planning the rule, editing
  the text of the vault policy and refusing every edit that would be more than the rule.
  The YAML parser is the parameter \<open>yaml\<close>: a text parses to a value or to an error.
\<close>

section \<open>Planning the rule\<close>

record remember_rule =
  rr_domain :: string
  rr_operation :: string
  rr_subCategory :: "string option"
  rr_description :: string

type_synonym remember_plan = "string + remember_rule"   \<comment> \<open>\<open>Inl\<close> the reason of a refusal\<close>

definition plain_piece :: "string \<Rightarrow> bool" where
  "plain_piece w \<longleftrightarrow> w \<noteq> [] \<and> list_all (\<lambda>c. \<not> js_space c) w"

text \<open>The pieces exclude the dot, the colon and white space, so a rule text matches in one way at most.\<close>

definition RULE :: "string \<Rightarrow> (string \<times> string \<times> string option \<times> string) option" where
  "RULE text =
     (case split_on CHR '':'' text of
        [path, kind] \<Rightarrow>
          if kind = ''confirm'' \<or> kind = ''missing'' then
            (case split_on CHR ''.'' path of
               [d, op] \<Rightarrow> if plain_piece d \<and> plain_piece op then Some (d, op, None, kind) else None
             | [d, op, sub] \<Rightarrow> if plain_piece d \<and> plain_piece op \<and> plain_piece sub then Some (d, op, Some sub, kind) else None
             | _ \<Rightarrow> None)
          else None
      | _ \<Rightarrow> None)"

definition name_char :: "char \<Rightarrow> bool" where
  "name_char c \<longleftrightarrow> (let n = of_char c :: nat in 48 \<le> n \<and> n \<le> 57 \<or> 65 \<le> n \<and> n \<le> 90 \<or> 97 \<le> n \<and> n \<le> 122 \<or> n = 95 \<or> n = 45)"

definition NAME :: "string \<Rightarrow> bool" where
  "NAME w \<longleftrightarrow> w \<noteq> [] \<and> list_all name_char w"

definition not_automatic :: string where
  "not_automatic = ''This rule cannot be remembered automatically.''"

definition rule_matches_policy :: "policy_set \<Rightarrow> string \<Rightarrow> string \<Rightarrow> string option \<Rightarrow> string \<Rightarrow> bool" where
  "rule_matches_policy ps d op sub kind =
     (let current = op_policy ps d op in
      if kind = ''missing'' then current = None \<and> sub = None
      else (case sub of
              None \<Rightarrow> current = Some (JStr ''confirm'')
            | Some c \<Rightarrow> is_mapping current \<and> js_get current c = Some (JStr ''confirm'')))"

definition planRemember :: "action_row \<Rightarrow> evaluation option \<Rightarrow> policy_set option \<Rightarrow> remember_plan" where
  "planRemember action ev pso =
     (if a_status action \<noteq> APending then Inl ''Only an action that is waiting for approval can be remembered.''
      else if a_packageContext action \<noteq> None then Inl ''Package actions follow the package policy and cannot be remembered here.''
      else if (case pso of Some ps \<Rightarrow> vaultPolicyInvalid ps | None \<Rightarrow> False)
      then Inl ''Your vault policies.yaml is invalid. Fix it before remembering approvals.''
      else (case ev of
              None \<Rightarrow> Inl ''This action is not waiting on a plain confirm rule.''
            | Some e \<Rightarrow>
                if blocked e \<or> \<not> requiresApproval e then Inl ''This action is not waiting on a plain confirm rule.''
                else if a_policy_rule action \<notin> {None, Some [], Some (ev_rule e)}
                then Inl ''A stricter rule applied when this was proposed, so it cannot be remembered.''
                else (case RULE (ev_rule e) of
                        None \<Rightarrow> Inl not_automatic
                      | Some (d, op, sub, kind) \<Rightarrow>
                          if \<not> NAME d \<or> \<not> NAME op \<or> (case sub of Some c \<Rightarrow> \<not> NAME c | None \<Rightarrow> False) then Inl not_automatic
                          else if sub = Some ''default''
                          then Inl ''This applies to every category without its own rule. Edit policies.yaml deliberately to change it.''
                          else if \<not> (case pso of Some ps \<Rightarrow> rule_matches_policy ps d op sub kind
                                      | None \<Rightarrow> kind = ''missing'' \<and> sub = None)
                          then Inl not_automatic
                          else Inr \<lparr>rr_domain = d, rr_operation = op, rr_subCategory = sub,
                                 rr_description = ''Always allow '' @ d @ ''.'' @ op @
                                   (case sub of Some c \<Rightarrow> '' for '' @ c | None \<Rightarrow> []) @
                                   '' without asking. This writes \"autonomous\" to policies.yaml in your vault; change it back to \"confirm\" there to be asked again.''\<rparr>)))"

section \<open>Rendering\<close>

definition NL :: string where
  "NL = [CHR 0x0A]"

definition renderOperation :: "string \<Rightarrow> string \<Rightarrow> jsval \<Rightarrow> string" where
  "renderOperation indent op v =
     (case v of
        JObj ps \<Rightarrow> indent @ op @ '':'' @ NL @ concat (map (\<lambda>p. indent @ ''  '' @ fst p @ '': '' @ js_str (snd p) @ NL) ps)
      | _ \<Rightarrow> indent @ op @ '': '' @ js_str v @ NL)"

definition renderDomain :: "string \<Rightarrow> string \<Rightarrow> jsval \<Rightarrow> string" where
  "renderDomain d op v = d @ '':'' @ NL @ renderOperation ''  '' op v"

definition HEADER :: string where
  "HEADER = ''# What U2OS may do on your behalf (docs/policies.md).'' @ NL @
     ''# Levels: always, autonomous (act without asking), confirm (ask first), never.'' @ NL @
     ''# This file overrides U2OS_HOME/policies/policies.yaml per domain operation.'' @ NL @ NL"

section \<open>Editing the text\<close>

definition strip_prefix :: "string \<Rightarrow> string \<Rightarrow> string option" where
  "strip_prefix p s = (if starts_with s p then Some (drop (length p) s) else None)"

text \<open>\<open>.\<close> of a regular expression: no line terminator.\<close>

definition in_line :: "string \<Rightarrow> bool" where
  "in_line s \<longleftrightarrow> list_all (\<lambda>c. c \<notin> {CHR 0x0A, CHR 0x0D}) s"

text \<open>\<open>(#.*)?$\<close>\<close>

fun comment_or_end :: "string \<Rightarrow> bool" where
  "comment_or_end [] = True"
| "comment_or_end (c # cs) = (c = CHR ''#'' \<and> in_line cs)"

definition blank_or_comment :: "string \<Rightarrow> bool" where
  "blank_or_comment s = comment_or_end (dropWhile js_space s)"

definition letter :: "char \<Rightarrow> bool" where
  "letter c \<longleftrightarrow> (let n = of_char c :: nat in 65 \<le> n \<and> n \<le> 90 \<or> 97 \<le> n \<and> n \<le> 122)"

text \<open>\<open>(\s+)[A-Za-z]+(\s+#.*)?$\<close>: the white space before the word and the comment after it.\<close>

definition scalar_match :: "string \<Rightarrow> (string \<times> string) option" where
  "scalar_match s =
     (let sp = takeWhile js_space s; a = dropWhile js_space s; b = dropWhile letter a; c = dropWhile js_space b in
      if sp = [] \<or> b = a then None
      else if b = [] \<or> c \<noteq> b \<and> c \<noteq> [] \<and> comment_or_end c then Some (sp, b)
      else None)"

fun find_index :: "('a \<Rightarrow> bool) \<Rightarrow> 'a list \<Rightarrow> nat option" where
  "find_index P [] = None"
| "find_index P (x # xs) = (if P x then Some 0 else map_option Suc (find_index P xs))"

text \<open>The first index in \<open>[lo, hi)\<close> whose line satisfies \<open>P\<close>.\<close>

definition find_between :: "nat \<Rightarrow> nat \<Rightarrow> (string \<Rightarrow> bool) \<Rightarrow> string list \<Rightarrow> nat option" where
  "find_between lo hi P ls = map_option (\<lambda>i. lo + i) (find_index P (take (hi - lo) (drop lo ls)))"

definition starts_space :: "string \<Rightarrow> bool" where
  "starts_space l = (case l of c # cs \<Rightarrow> js_space c | [] \<Rightarrow> False)"

definition block_end :: "nat \<Rightarrow> string list \<Rightarrow> nat" where
  "block_end d ls =
     (let body = takeWhile (\<lambda>l. l = [] \<or> starts_space l \<or> starts_with l ''#'') (drop (d + 1) ls);
          kept = rev (dropWhile (\<lambda>l. l = [] \<or> starts_with l ''#'') (rev body)) in
      d + 1 + length kept)"

definition indent_of :: "string \<Rightarrow> string option" where
  "indent_of l =
     (let sp = takeWhile (\<lambda>c. c = CHR '' '') l; rest = dropWhile (\<lambda>c. c = CHR '' '') l in
      if sp \<noteq> [] \<and> rest \<noteq> [] \<and> \<not> js_space (hd rest) then Some sp else None)"

definition child_indent :: "string list \<Rightarrow> string" where
  "child_indent ls = (case List.find (\<lambda>x. x \<noteq> None) (map indent_of ls) of Some (Some i) \<Rightarrow> i | _ \<Rightarrow> ''  '')"

definition lines_of :: "string \<Rightarrow> string list" where
  "lines_of t = split_on CHR 0x0A t"

definition operation_rest :: "string \<Rightarrow> string \<Rightarrow> string option" where
  "operation_rest op l =
     (case strip_prefix (''  '' @ op @ '':'') l of Some r \<Rightarrow> if in_line r then Some r else None | None \<Rightarrow> None)"

definition edit_operation :: "string list \<Rightarrow> remember_rule \<Rightarrow> nat \<Rightarrow> nat \<Rightarrow> string \<Rightarrow> string option" where
  "edit_operation ls plan ix stopAt rest =
     (case rr_subCategory plan of
        None \<Rightarrow>
          (case scalar_match rest of
             None \<Rightarrow> None
           | Some (sp, tail) \<Rightarrow> Some (join_with NL (ls[ix := ''  '' @ rr_operation plan @ '': autonomous'' @ tail])))
      | Some sub \<Rightarrow>
          if \<not> blank_or_comment rest then None
          else
            let inside = takeWhile (\<lambda>l. l = [] \<or> starts_with l ''   '' \<or> starts_with (dropWhile js_space l) ''#'')
                           (take (stopAt - (ix + 1)) (drop (ix + 1) ls));
                sub_of = (\<lambda>l. Option.bind (strip_prefix (''    '' @ sub @ '':'') l) scalar_match) in
            (case find_between (ix + 1) (ix + 1 + length inside) (\<lambda>l. sub_of l \<noteq> None) ls of
               None \<Rightarrow> None
             | Some j \<Rightarrow>
                 (case sub_of (ls ! j) of
                    Some (sp, tail) \<Rightarrow> Some (join_with NL (ls[j := ''    '' @ sub @ '':'' @ sp @ ''autonomous'' @ tail]))
                  | None \<Rightarrow> None)))"

definition patchPoliciesText :: "string \<Rightarrow> remember_rule \<Rightarrow> jsval \<Rightarrow> jsval \<Rightarrow> string option" where
  "patchPoliciesText text plan operationValue parsed =
     (let ls = lines_of text; d = rr_domain plan; op = rr_operation plan in
      case find_index (\<lambda>l. case strip_prefix (d @ '':'') l of Some r \<Rightarrow> blank_or_comment r | None \<Rightarrow> False) ls of
        None \<Rightarrow>
          if js_get (Some parsed) d \<noteq> None then None
          else Some (text @ (if text = [] \<or> ends_with text (NL @ NL) then [] else if ends_with text NL then NL else NL @ NL) @
                     renderDomain d op operationValue)
      | Some di \<Rightarrow>
          let stopAt = block_end di ls in
          if child_indent (take (stopAt - (di + 1)) (drop (di + 1) ls)) \<noteq> ''  '' then None
          else (case find_between (di + 1) stopAt (\<lambda>l. operation_rest op l \<noteq> None) ls of
                  None \<Rightarrow>
                    if js_get (js_get (Some parsed) d) op \<noteq> None then None
                    else Some (join_with NL (take (di + 1) ls @ lines_of (butlast (renderOperation ''  '' op operationValue)) @
                                 drop (di + 1) ls))
                | Some ix \<Rightarrow> edit_operation ls plan ix stopAt (the (operation_rest op (ls ! ix)))))"

section \<open>Applying the rule\<close>

datatype vault_text = TextMissing | TextPresent bool nat string   \<comment> \<open>\<open>isFile()\<close>, size, content\<close>

lemma size_zip_fst [termination_simp]: "(x, y) \<in> set (zip a b) \<Longrightarrow> size x < Suc (size_list size a)"
  by (drule set_zip_leftD) (simp add: less_Suc_eq_le size_list_estimation')

text \<open>\<open>isDeepStrictEqual\<close> on values that YAML can give: the order of keys does not matter.\<close>

fun deep_eq :: "jsval \<Rightarrow> jsval \<Rightarrow> bool" where
  "deep_eq (JObj a) w =
     (case w of
        JObj b \<Rightarrow> length a = length b \<and> list_all (\<lambda>p. case map_of b (fst p) of Some x \<Rightarrow> deep_eq (snd p) x | None \<Rightarrow> False) a
      | _ \<Rightarrow> False)"
| "deep_eq (JArr a) w =
     (case w of JArr b \<Rightarrow> length a = length b \<and> list_all (\<lambda>p. deep_eq (fst p) (snd p)) (zip a b) | _ \<Rightarrow> False)"
| "deep_eq v w = (v = w)"

definition operation_value :: "remember_rule \<Rightarrow> jsval \<Rightarrow> policy_set \<Rightarrow> jsval" where
  "operation_value plan before ps =
     (let own = js_get (js_get (Some before) (rr_domain plan)) (rr_operation plan);
          base = (if own \<noteq> None then own else op_policy ps (rr_domain plan) (rr_operation plan)) in
      case rr_subCategory plan of
        None \<Rightarrow> JStr ''autonomous''
      | Some c \<Rightarrow> JObj (js_put c (JStr ''autonomous'') (case base of Some (JObj b) \<Rightarrow> b | _ \<Rightarrow> [])))"

definition expected_policies :: "remember_rule \<Rightarrow> jsval \<Rightarrow> jsval \<Rightarrow> jsval" where
  "expected_policies plan before v =
     JObj (js_put (rr_domain plan)
             (JObj (js_put (rr_operation plan) v (case js_get (Some before) (rr_domain plan) of Some (JObj b) \<Rightarrow> b | _ \<Rightarrow> [])))
             (entries before))"

definition parse_policies :: "(string \<Rightarrow> string + jsval) \<Rightarrow> string \<Rightarrow> jsval res" where
  "parse_policies yaml text =
     (case yaml text of Inl m \<Rightarrow> Inl (Error m) | Inr v \<Rightarrow> Inr (if v = JNull then JObj [] else v))"

definition applyRememberedRule ::
  "(string \<Rightarrow> string + jsval) \<Rightarrow> vault_text \<Rightarrow> remember_plan \<Rightarrow> policy_set \<Rightarrow> (string \<times> bool) res" where
  "applyRememberedRule yaml file plan effective =
     (case plan of
        Inl reason \<Rightarrow> Inl (Error (if reason = [] then ''Nothing to remember'' else reason))
      | Inr rule \<Rightarrow>
          let write = (\<lambda>text before.
            case validatePolicies before of
              Inl e \<Rightarrow> Inl e
            | Inr _ \<Rightarrow>
                let v = operation_value rule before effective;
                    expected = expected_policies rule before v in
                (case (case text of None \<Rightarrow> Some (HEADER @ renderDomain (rr_domain rule) (rr_operation rule) v)
                       | Some t \<Rightarrow> patchPoliciesText t rule v before) of
                   None \<Rightarrow> Inl (Error ''policies.yaml has a layout U2OS will not edit automatically; set the rule there by hand'')
                 | Some patched \<Rightarrow>
                     (case parse_policies yaml patched of
                        Inl e \<Rightarrow> Inl e
                      | Inr after \<Rightarrow>
                          (case validatePolicies after of
                             Inl e \<Rightarrow> Inl e
                           | Inr _ \<Rightarrow>
                               if \<not> deep_eq after expected
                               then Inl (Error ''Refused to edit policies.yaml: the change would not be exactly the remembered rule'')
                               else Inr (patched, text = None))))) in
          (case file of
             TextMissing \<Rightarrow> write None (JObj [])
           | TextPresent isFile bytes text \<Rightarrow>
               if \<not> isFile \<or> bytes > 64 * 1024
               then Inl (Error ''policies.yaml in your vault is not a regular file under 64 KiB'')
               else (case parse_policies yaml text of Inl e \<Rightarrow> Inl e | Inr before \<Rightarrow> write (Some text) before)))"

section \<open>The calls of the approval manager\<close>

definition previewRemember :: "worker_env \<Rightarrow> string \<Rightarrow> db \<Rightarrow> remember_plan res" where
  "previewRemember env aid s =
     (case getAgentAction aid s of
        None \<Rightarrow> Inl (Error (''No such action: '' @ aid))
      | Some action \<Rightarrow>
          if a_status action \<noteq> APending then Inr (planRemember action None None)
          else (case resolve_tool (we_tools env) (a_tool action) of
                  Inl e \<Rightarrow> Inr (planRemember action None None)
                | Inr t \<Rightarrow>
                    Inr (planRemember action (Some (action_evaluate (we_policies env) t (a_arguments action) s))
                           (Some (we_policies env)))))"

definition opt_js :: "string option \<Rightarrow> jsval" where
  "opt_js v = (case v of Some t \<Rightarrow> JStr t | None \<Rightarrow> JNull)"

definition rememberApproval ::
  "(string \<Rightarrow> string + jsval) \<Rightarrow> vault_text \<Rightarrow> worker_env \<Rightarrow> string \<Rightarrow> remember_plan \<Rightarrow> string \<Rightarrow> db \<Rightarrow> (string + string \<times> string \<times> bool) \<times> db" where
  "rememberApproval yaml file env aid plan approvedBy s =
     (case applyRememberedRule yaml file plan (we_policies env) of
        Inl e \<Rightarrow> (Inl (''Approved, but the rule was not saved: '' @ error_message e), s)
      | Inr (patched, created) \<Rightarrow>
          (case plan of
             Inl m \<Rightarrow> (Inl m, s)
           | Inr rule \<Rightarrow>
               (Inr (patched, rr_description rule, created),
                publish (action_event ''policy.rule.remembered'' ''user'' (Some \<lparr>actor_type = ''user'', actor_id = approvedBy\<rparr>) aid
                  [(''domain'', JStr (rr_domain rule)), (''operation'', JStr (rr_operation rule)),
                   (''subCategory'', opt_js (rr_subCategory rule)), (''level'', JStr ''autonomous'')] None
                  ''user:approve-and-remember'') s)))"

section \<open>Values up to the order of keys\<close>

text \<open>The values a parser gives: an object has each key once.\<close>

fun wf_js :: "jsval \<Rightarrow> bool" where
  "wf_js (JObj ps) \<longleftrightarrow> distinct (map fst ps) \<and> list_all (\<lambda>p. wf_js (snd p)) ps"
| "wf_js (JArr vs) \<longleftrightarrow> list_all wf_js vs"
| "wf_js v \<longleftrightarrow> True"

lemma deep_eq_JStr [simp]: "deep_eq v (JStr t) \<longleftrightarrow> v = JStr t"
  by (cases v) auto

lemma deep_eq_JObjE:
  assumes "deep_eq v (JObj b)"
  obtains a where "v = JObj a" "length a = length b"
    "list_all (\<lambda>p. case map_of b (fst p) of Some x \<Rightarrow> deep_eq (snd p) x | None \<Rightarrow> False) a"
  using assms by (cases v) auto

text \<open>Equally many distinct keys, one set inside the other: the lookups agree.\<close>

lemma deep_eq_lookup:
  assumes "deep_eq (JObj a) (JObj b)" and "distinct (map fst a)" and "distinct (map fst b)"
  shows "rel_option deep_eq (map_of a k) (map_of b k)"
proof -
  from assms(1) have len: "length a = length b"
    and all: "\<And>p. p \<in> set a \<Longrightarrow> \<exists>x. map_of b (fst p) = Some x \<and> deep_eq (snd p) x"
    by (auto simp: list_all_iff split: option.splits)
  have sub: "set (map fst a) \<subseteq> set (map fst b)"
  proof
    fix k assume "k \<in> set (map fst a)"
    then obtain p where "p \<in> set a" "k = fst p" by auto
    with all obtain x where "map_of b k = Some x" by blast
    then show "k \<in> set (map fst b)" by (metis map_of_eq_None_iff option.distinct(1) set_map)
  qed
  have "card (set (map fst a)) = card (set (map fst b))"
    using assms(2,3) len distinct_card by (metis length_map)
  with sub have eq: "set (map fst a) = set (map fst b)" by (simp add: card_subset_eq)
  show ?thesis
  proof (cases "map_of a k")
    case None
    then have "map_of b k = None" using eq by (metis map_of_eq_None_iff set_map)
    with None show ?thesis by simp
  next
    case (Some v)
    from map_of_SomeD [OF this] all obtain x where "map_of b k = Some x" "deep_eq v x" by fastforce
    with Some show ?thesis by simp
  qed
qed

abbreviation rule_ok :: "jsval \<Rightarrow> bool" where
  "rule_ok v \<equiv> list_all level_ok (rule_levels v)"

text \<open>A validated rule and one that is equal up to the order of its keys read the same.\<close>

lemma level_ok_deep_eq: "level_ok v \<Longrightarrow> deep_eq v w \<Longrightarrow> w = v"
  by (cases v) auto

lemma rule_deep_eq_get:
  assumes "rule_ok v" and "deep_eq v w" and "wf_js v" and "wf_js w"
  shows "js_typeof (Some v) = js_typeof (Some w) \<and> (js_typeof (Some v) = ''string'' \<longrightarrow> v = w) \<and> js_get (Some v) k = js_get (Some w) k"
proof (cases v)
  case (JObj a)
  with assms(2) obtain b where w: "w = JObj b" by (cases w) auto
  have "rel_option deep_eq (map_of a k) (map_of b k)"
    by (rule deep_eq_lookup) (use assms JObj w in auto)
  moreover have "level_ok x" if "map_of a k = Some x" for x
    using assms(1) JObj map_of_snd [OF that, where Q = level_ok] by (simp add: list.pred_map o_def)
  ultimately have "map_of a k = map_of b k"
    by (cases rule: option.rel_cases) (auto dest: level_ok_deep_eq)
  with JObj w show ?thesis by simp
qed (use assms in auto)

lemma resolve_level_cong:
  assumes "js_typeof (Some v) = js_typeof (Some w)" and "js_typeof (Some v) = ''string'' \<longrightarrow> v = w"
    and "v = JNull \<longleftrightarrow> w = JNull"
    and "\<And>c. resolveSubCategory cx = Some c \<Longrightarrow> js_get (Some v) c = js_get (Some w) c"
    and "resolveSubCategory cx \<noteq> None \<Longrightarrow> js_get (Some v) ''default'' = js_get (Some w) ''default''"
  shows "resolve_level d op v cx = resolve_level d op w cx"
proof (cases "resolveSubCategory cx")
  case None
  with assms(1-3) show ?thesis by (auto simp: resolve_level_def Let_def)
next
  case (Some c)
  with assms(4,5) have g: "js_get (Some v) c = js_get (Some w) c" "js_get (Some v) ''default'' = js_get (Some w) ''default''"
    by simp_all
  show ?thesis unfolding resolve_level_def Let_def Some option.case g using assms(1-3) by auto
qed

lemma policy_evaluate_cong:
  assumes "vaultPolicyInvalid ps = vaultPolicyInvalid ps'"
    and "rel_option (\<lambda>v w. resolve_level (t_domain t) (operation_of t) v cx = resolve_level (t_domain t) (operation_of t) w cx)
           (op_policy ps (t_domain t) (operation_of t)) (op_policy ps' (t_domain t) (operation_of t))"
  shows "policy_evaluate ps t cx = policy_evaluate ps' t cx"
  using assms(2) by (cases rule: option.rel_cases) (simp_all add: policy_evaluate_def Let_def assms(1))

section \<open>The rule in force\<close>

lemma entries_JObj [simp]: "entries (JObj ps) = ps"
  by (simp add: entries_def)

text \<open>The rule of an operation when the vault policy \<open>vs\<close> is merged over the home policy \<open>hs\<close>.\<close>

definition merged_rule :: "(string \<times> jsval) list \<Rightarrow> (string \<times> jsval) list \<Rightarrow> string \<Rightarrow> string \<Rightarrow> jsval option" where
  "merged_rule hs vs d op =
     (let home = (case map_of hs d of Some (JObj h) \<Rightarrow> map_of h op | _ \<Rightarrow> None) in
      case map_of vs d of
        Some (JObj ops) \<Rightarrow> (case map_of ops op of Some r \<Rightarrow> Some r | None \<Rightarrow> home)
      | _ \<Rightarrow> home)"

lemma js_get_plain: "op \<notin> set object_prototype_keys \<Longrightarrow> js_get v op = (case v of Some (JObj ps) \<Rightarrow> map_of ps op | _ \<Rightarrow> None)"
  by (cases v) (auto split: jsval.splits option.splits)

lemma validated_objects:
  "validatePolicies v = Inr u \<Longrightarrow> \<exists>vs. v = JObj vs \<and> (\<forall>d x. map_of vs d = Some x \<longrightarrow>
     (\<exists>ops. x = JObj ops \<and> (\<forall>op r. map_of ops op = Some r \<longrightarrow> rule_ok r)))"
proof -
  assume v: "validatePolicies v = Inr u"
  then obtain vs where vs: "v = JObj vs" by (cases v) (auto simp: validatePolicies_def)
  let ?Q = "\<lambda>x. \<exists>ops. x = JObj ops \<and> list_all (\<lambda>q. rule_ok (snd q)) ops"
  from v vs have all: "list_all (\<lambda>p. ?Q (snd p)) vs" by (simp add: validatePolicies_def check_domains_ok)
  have "\<exists>ops. x = JObj ops \<and> (\<forall>op r. map_of ops op = Some r \<longrightarrow> rule_ok r)" if "map_of vs d = Some x" for d x
  proof -
    from map_of_snd [OF that all] obtain ops where ops: "x = JObj ops" "list_all (\<lambda>q. rule_ok (snd q)) ops" by blast
    then show ?thesis using map_of_snd [of ops _ _ rule_ok] by blast
  qed
  with vs show ?thesis by blast
qed

lemma op_policy_merged:
  assumes "validatePolicies (JObj vs) = Inr u" and "wf_js (JObj vs)" and "op \<notin> set object_prototype_keys"
  shows "op_policy \<lparr>policies = merge_policies (JObj hs) (JObj vs), vaultPolicyInvalid = b\<rparr> d op = merged_rule hs vs d op"
proof -
  have dv: "distinct (map fst vs)" using assms(2) by simp
  have m: "map_of (fold (merge_domain (JObj hs)) vs hs) d =
      (case map_of vs d of None \<Rightarrow> map_of hs d
       | Some ops \<Rightarrow> Some (JObj (js_spread (case map_of hs d of Some (JObj o') \<Rightarrow> o' | _ \<Rightarrow> []) (entries ops))))"
    using map_of_fold_merge [OF dv, of "JObj hs" hs d] unfolding entries_JObj .
  show ?thesis
  proof (cases "map_of vs d")
    case None
    with m show ?thesis
      by (auto simp: op_policy_def merge_policies_def merged_rule_def js_get_plain [OF assms(3)]
          split: option.splits jsval.splits)
  next
    case (Some x)
    with validated_objects [OF assms(1)] obtain ops where x: "x = JObj ops" by auto
    have "distinct (map fst ops)"
      using assms(2) map_of_snd [OF Some, where Q = wf_js] x by simp
    from map_of_js_spread [OF this] m Some x show ?thesis
      by (auto simp: op_policy_def merge_policies_def merged_rule_def js_get_plain [OF assms(3)] map_add_def
          split: option.splits jsval.splits)
  qed
qed

section \<open>Exactly one rule\<close>

definition vault_state :: "(string \<Rightarrow> string + jsval) \<Rightarrow> vault_text \<Rightarrow> vault_file" where
  "vault_state yaml file =
     (case file of TextMissing \<Rightarrow> VaultMissing | TextPresent isFile bytes text \<Rightarrow> VaultPresent isFile bytes (yaml text))"

text \<open>What a successful write says: the parsed file before and after, and the value of the rule.\<close>

lemma applyRememberedRule_Inr:
  assumes "applyRememberedRule yaml file (Inr rule) ps = Inr (patched, created)"
    and "\<forall>text v. yaml text = Inr v \<longrightarrow> wf_js v"
  shows "\<exists>bs as. validatePolicies (JObj bs) = Inr () \<and> wf_js (JObj bs) \<and> validatePolicies (JObj as) = Inr () \<and> wf_js (JObj as) \<and>
    deep_eq (JObj as) (expected_policies rule (JObj bs) (operation_value rule (JObj bs) ps)) \<and>
    (yaml patched = Inr (JObj as) \<or> yaml patched = Inr JNull \<and> as = []) \<and>
    (file = TextMissing \<and> bs = [] \<or>
     (\<exists>bytes text. file = TextPresent True bytes text \<and> bytes \<le> 64 * 1024 \<and>
        (yaml text = Inr (JObj bs) \<or> yaml text = Inr JNull \<and> bs = [])))"
proof -
  have parse: "wf_js v \<and> (yaml t = Inr v \<or> yaml t = Inr JNull \<and> v = JObj [])" if "parse_policies yaml t = Inr v" for t v
    using that assms(2) by (auto simp: parse_policies_def split: sum.splits if_splits)
  from assms(1) obtain before after where b: "validatePolicies before = Inr ()"
    and f: "file = TextMissing \<and> before = JObj [] \<or>
      (\<exists>bytes text. file = TextPresent True bytes text \<and> bytes \<le> 64 * 1024 \<and> parse_policies yaml text = Inr before)"
    and a: "parse_policies yaml patched = Inr after" "validatePolicies after = Inr ()"
      "deep_eq after (expected_policies rule before (operation_value rule before ps))"
    by (auto simp: applyRememberedRule_def Let_def split: vault_text.splits sum.splits option.splits if_split_asm)
  from validated_objects [OF b] validated_objects [OF a(2)] obtain bs as where o: "before = JObj bs" "after = JObj as" by blast
  from f o(1) have bs: "wf_js (JObj bs)" by (auto dest: parse)
  have fb: "file = TextMissing \<and> bs = [] \<or> (\<exists>bytes text. file = TextPresent True bytes text \<and> bytes \<le> 64 * 1024 \<and>
        (yaml text = Inr (JObj bs) \<or> yaml text = Inr JNull \<and> bs = []))"
    using f o(1) parse by fastforce
  from parse [OF a(1)] o(2) have "wf_js (JObj as)" "yaml patched = Inr (JObj as) \<or> yaml patched = Inr JNull \<and> as = []" by auto
  with b a o bs fb show ?thesis by blast
qed

lemma loadPolicies_text:
  assumes "validatePolicies (JObj vs) = Inr ()" and "bytes \<le> 64 * 1024"
    and "parsed = Inr (JObj vs) \<or> parsed = Inr JNull \<and> vs = []"
  shows "loadPolicies home (VaultPresent True bytes parsed) = \<lparr>policies = merge_policies home (JObj vs), vaultPolicyInvalid = False\<rparr>"
  using assms by (auto simp: loadPolicies_def Let_def)

lemma wf_js_lookup: "map_of ys k = Some x \<Longrightarrow> wf_js (JObj ys) \<Longrightarrow> wf_js x"
  using map_of_snd [of ys k x wf_js] by simp

lemma wf_js_put: "wf_js (JObj ys) \<Longrightarrow> wf_js v \<Longrightarrow> wf_js (JObj (js_put k v ys))"
proof (induction k v ys rule: js_put.induct)
  case (2 k v k' v' ps)
  then show ?case using distinct_js_put [of "(k', v') # ps" k v] by (auto simp del: js_put.simps simp: js_put.simps(2))
qed simp

lemma rules_lookup:
  assumes "deep_eq (JObj ao) (JObj bo)" and "wf_js (JObj ao)" and "wf_js (JObj bo)" and "\<forall>o' r. map_of ao o' = Some r \<longrightarrow> rule_ok r"
  shows "map_of ao k = None \<and> map_of bo k = None \<or>
    (\<exists>w r. map_of ao k = Some w \<and> map_of bo k = Some r \<and> rule_ok w \<and> wf_js w \<and> wf_js r \<and> deep_eq w r)"
proof -
  have "rel_option deep_eq (map_of ao k) (map_of bo k)" by (rule deep_eq_lookup) (use assms in auto)
  then show ?thesis
  proof (cases rule: option.rel_cases)
    case (Some w r)
    with wf_js_lookup [OF Some(1) assms(2)] wf_js_lookup [OF Some(2) assms(3)] assms(4) show ?thesis by simp
  qed simp
qed

text \<open>
  The rules after the write: every other operation keeps its rule up to the order of keys,
  and the remembered one holds the new value up to the order of keys.
\<close>

lemma merged_rule_expected:
  fixes rule v
  defines "d \<equiv> rr_domain rule" and "op \<equiv> rr_operation rule"
  assumes "validatePolicies (JObj bs) = Inr ()" and "wf_js (JObj bs)" and "validatePolicies (JObj as) = Inr ()" and "wf_js (JObj as)"
    and eq: "deep_eq (JObj as) (expected_policies rule (JObj bs) v)" and v: "wf_js v"
  shows "if d' = d \<and> op' = op then \<exists>w. merged_rule hs as d' op' = Some w \<and> rule_ok w \<and> wf_js w \<and> deep_eq w v
    else merged_rule hs as d' op' = merged_rule hs bs d' op' \<or>
      (\<exists>w r. merged_rule hs as d' op' = Some w \<and> merged_rule hs bs d' op' = Some r \<and> rule_ok w \<and> wf_js w \<and> wf_js r \<and> deep_eq w r)"
proof -
  let ?bd = "case js_get (Some (JObj bs)) d of Some (JObj b) \<Rightarrow> b | _ \<Rightarrow> []"
  let ?es = "js_put d (JObj (js_put op v ?bd)) bs"
  have es: "expected_policies rule (JObj bs) v = JObj ?es" by (simp add: expected_policies_def d_def op_def)
  have rel: "rel_option deep_eq (map_of as d') (map_of ?es d')"
    by (rule deep_eq_lookup) (use eq es assms(4,6) distinct_js_put in auto)
  show ?thesis
  proof (cases "map_of as d'")
    case None
    with rel have n: "map_of ?es d' = None" by (cases rule: option.rel_cases) auto
    then have ne: "d' \<noteq> d" by auto
    with n have "map_of bs d' = None" by simp
    with None ne show ?thesis by (simp add: merged_rule_def)
  next
    case (Some x)
    with validated_objects [OF assms(5)] obtain ao where x: "x = JObj ao" "\<forall>o' r. map_of ao o' = Some r \<longrightarrow> rule_ok r" by auto
    from rel Some x obtain y where y: "map_of ?es d' = Some y" "deep_eq (JObj ao) y" by (cases rule: option.rel_cases) auto
    have ao: "wf_js (JObj ao)" using wf_js_lookup [OF Some assms(6)] x(1) by simp
    show ?thesis
    proof (cases "d' = d")
      case True
      have bd: "wf_js (JObj ?bd)"
      proof (cases "map_of bs d")
        case (Some z)
        with wf_js_lookup [OF Some assms(4)] show ?thesis by (cases z) auto
      qed simp
      from True y have "deep_eq (JObj ao) (JObj (js_put op v ?bd))" by simp
      from rules_lookup [OF this ao wf_js_put [OF bd v] x(2), of op'] True Some x(1)
      show ?thesis
        by (cases "map_of bs d") (auto simp: merged_rule_def split: if_splits jsval.splits)
    next
      case False
      with y have y': "map_of bs d' = Some y" by simp
      with validated_objects [OF assms(3)] obtain bo where bo: "y = JObj bo" by auto
      from rules_lookup [OF y(2) [unfolded bo] ao _ x(2), of op'] wf_js_lookup [OF y' assms(4)] bo False Some x(1) y'
      show ?thesis by (auto simp: merged_rule_def)
    qed
  qed
qed

lemma wf_js_spread: "wf_js (JObj a) \<Longrightarrow> wf_js (JObj b) \<Longrightarrow> wf_js (JObj (js_spread a b))"
proof (induction a b rule: js_spread.induct)
  case (2 a k v b)
  then have "wf_js (JObj (js_put k v a))" by (intro wf_js_put) simp_all
  with 2 show ?case by simp
qed simp

lemma wf_js_entries: "wf_js v \<Longrightarrow> wf_js (JObj (entries v))"
  by (cases v) (simp_all add: entries_def)

lemma wf_merge_domain:
  assumes "wf_js home" and "wf_js (snd p)" and "wf_js (JObj acc)"
  shows "wf_js (JObj (merge_domain home p acc))"
proof -
  have "wf_js (JObj (case map_of (entries home) (fst p) of Some (JObj ops) \<Rightarrow> ops | _ \<Rightarrow> []))"
  proof (cases "map_of (entries home) (fst p)")
    case (Some z)
    with wf_js_lookup [OF Some wf_js_entries [OF assms(1)]] show ?thesis by (cases z) auto
  qed simp
  from wf_js_put [OF assms(3) wf_js_spread [OF this wf_js_entries [OF assms(2)]]] show ?thesis by (simp add: merge_domain_def)
qed

lemma wf_merge_policies:
  assumes "wf_js home" and "wf_js vault"
  shows "wf_js (merge_policies home vault)"
proof -
  have "wf_js (JObj (fold (merge_domain home) vs acc))" if "list_all (\<lambda>p. wf_js (snd p)) vs" "wf_js (JObj acc)" for vs acc
    using that by (induction vs arbitrary: acc) (auto simp del: wf_js.simps(1) intro: wf_merge_domain [OF assms(1)])
  then show ?thesis using wf_js_entries [OF assms(1)] wf_js_entries [OF assms(2)] by (simp add: merge_policies_def)
qed

lemma wf_js_get: "js_get (Some v) k = Some w \<Longrightarrow> wf_js v \<Longrightarrow> wf_js w"
  by (cases v) (auto split: option.splits if_splits dest: wf_js_lookup simp del: wf_js.simps(1))

lemma wf_op_policy: "op_policy ps d op = Some w \<Longrightarrow> wf_js (policies ps) \<Longrightarrow> wf_js w"
  unfolding op_policy_def by (cases "js_get (Some (policies ps)) d") (auto dest: wf_js_get)

lemma wf_operation_value:
  assumes "wf_js before" and "wf_js (policies ps)"
  shows "wf_js (operation_value rule before ps)"
proof -
  let ?own = "js_get (js_get (Some before) (rr_domain rule)) (rr_operation rule)"
  let ?base = "if ?own \<noteq> None then ?own else op_policy ps (rr_domain rule) (rr_operation rule)"
  have own: "wf_js w" if "?own = Some w" for w
    using that assms(1) by (cases "js_get (Some before) (rr_domain rule)") (auto dest: wf_js_get)
  have "wf_js w" if "?base = Some w" for w
    using that own wf_op_policy [OF _ assms(2)] by (auto split: if_splits)
  then have "wf_js (JObj (case ?base of Some (JObj b) \<Rightarrow> b | _ \<Rightarrow> []))"
    by (cases ?base) (auto split: jsval.splits simp del: wf_js.simps(1), auto)
  note put = wf_js_put [OF this, of "JStr ''autonomous''"]
  show ?thesis
  proof (cases "rr_subCategory rule")
    case (Some c)
    show ?thesis unfolding operation_value_def Let_def Some option.case by (rule put) simp
  qed (simp add: operation_value_def Let_def)
qed

lemma planRemember_Inr:
  assumes "planRemember action (Some ev) (Some ps) = Inr rule"
  shows "\<not> vaultPolicyInvalid ps \<and> a_status action = APending \<and> requiresApproval ev \<and> \<not> blocked ev \<and>
    rr_subCategory rule \<noteq> Some ''default'' \<and>
    (case rr_subCategory rule of
       None \<Rightarrow> op_policy ps (rr_domain rule) (rr_operation rule) \<in> {None, Some (JStr ''confirm'')}
     | Some c \<Rightarrow> is_mapping (op_policy ps (rr_domain rule) (rr_operation rule)) \<and>
                 js_get (op_policy ps (rr_domain rule) (rr_operation rule)) c = Some (JStr ''confirm''))"
  using assms
  by (auto simp: planRemember_def rule_matches_policy_def Let_def split: if_split_asm option.splits prod.splits)

lemma is_mappingE: "is_mapping v \<Longrightarrow> (\<And>b. v = Some (JObj b) \<Longrightarrow> P) \<Longrightarrow> P"
  by (cases v rule: is_mapping.cases) auto

lemma evaluate_deep_eq:
  assumes "rule_ok w" and "wf_js w" and "wf_js v" and "deep_eq w v"
  shows "resolve_level d op w cx = resolve_level d op v cx"
proof (rule resolve_level_cong)
  show "w = JNull \<longleftrightarrow> v = JNull" using assms(1,4) by (cases w) auto
qed (use rule_deep_eq_get [OF assms(1,4,2,3)] in blast)+

lemma executes_granted:
  assumes "\<not> vaultPolicyInvalid ps" and "op_policy ps (t_domain t) (operation_of t) = Some v"
    and "fst (resolve_level (t_domain t) (operation_of t) v cx) = JStr ''autonomous''"
  shows "executes (policy_evaluate ps t cx)"
  using assms by (simp add: executes_policy_evaluate effective_level_def fail_closed_level_def level_requires_approval_def)

lemma operation_value_sub:
  assumes "rr_subCategory rule = Some c" and "rr_operation rule \<notin> set object_prototype_keys"
    and "merged_rule hs bs (rr_domain rule) (rr_operation rule) = Some (JObj b')"
    and "op_policy ps (rr_domain rule) (rr_operation rule) = Some (JObj b')"
  shows "operation_value rule (JObj bs) ps = JObj (js_put c (JStr ''autonomous'') b')"
proof -
  let ?own = "js_get (js_get (Some (JObj bs)) (rr_domain rule)) (rr_operation rule)"
  have "?own = Some (JObj b')" if "?own \<noteq> None"
  proof -
    from that obtain x r where "js_get (Some (JObj bs)) (rr_domain rule) = Some (JObj x)" and r: "map_of x (rr_operation rule) = Some r"
      by (auto simp: js_get_plain [OF assms(2)] split: option.splits jsval.splits)
    then have "map_of bs (rr_domain rule) = Some (JObj x)" by (auto split: option.splits if_splits)
    with r assms(3) have "r = JObj b'" by (simp add: merged_rule_def)
    with r \<open>js_get (Some (JObj bs)) (rr_domain rule) = Some (JObj x)\<close> show ?thesis
      unfolding js_get_plain [OF assms(2)] by simp
  qed
  then show ?thesis using assms(1,4) by (cases ?own) (simp_all add: operation_value_def Let_def)
qed


section \<open>A concrete edit\<close>

definition ex_text :: "string \<Rightarrow> string" where
  "ex_text level = ''email:'' @ NL @ ''  send: '' @ level @ '' # mine'' @ NL"

definition ex_yaml :: "string \<Rightarrow> string + jsval" where
  "ex_yaml text =
     (if text = ex_text ''confirm'' then Inr (JObj [(''email'', JObj [(''send'', JStr ''confirm'')])])
      else if text = ex_text ''autonomous'' then Inr (JObj [(''email'', JObj [(''send'', JStr ''autonomous'')])])
      else Inl ''bad'')"

definition ex_file :: vault_text where
  "ex_file = TextPresent True 30 (ex_text ''confirm'')"

definition ex_in_force :: policy_set where
  "ex_in_force = loadPolicies (JObj []) (vault_state ex_yaml ex_file)"

definition ex_waiting :: action_row where
  "ex_waiting = audit_row (decision_audit ex_decision) ''a'' (Some 3) 0"

abbreviation ex_level :: "string \<Rightarrow> jsval" where
  "ex_level l \<equiv> JObj [(''email'', JObj [(''send'', JStr l)])]"

definition ex_rule :: remember_plan where
  "ex_rule = planRemember ex_waiting (Some (d_evaluation ex_decision)) (Some \<lparr>policies = ex_level ''confirm'', vaultPolicyInvalid = False\<rparr>)"

lemma ex_yaml_text: "ex_yaml (ex_text ''confirm'') = Inr (ex_level ''confirm'')" "ex_yaml (ex_text ''autonomous'') = Inr (ex_level ''autonomous'')"
  by (code_simp, code_simp)

lemma ex_valid: "validatePolicies (ex_level ''confirm'') = Inr ()" "validatePolicies (ex_level ''autonomous'') = Inr ()"
  by (code_simp, code_simp)

lemma ex_in_force_eq: "ex_in_force = \<lparr>policies = ex_level ''confirm'', vaultPolicyInvalid = False\<rparr>"
  by (simp add: ex_in_force_def ex_file_def vault_state_def loadPolicies_def ex_yaml_text ex_valid merge_policies_def
      merge_domain_def entries_def)

lemma ex_rule_ok: "case ex_rule of Inr rule \<Rightarrow> rr_domain rule = ''email'' \<and> rr_operation rule = ''send'' \<and> rr_subCategory rule = None \<and>
    patchPoliciesText (ex_text ''confirm'') rule (JStr ''autonomous'') (ex_level ''confirm'') = Some (ex_text ''autonomous'') | Inl _ \<Rightarrow> False"
  by code_simp

lemma ex_text_short: "length (ex_text ''autonomous'') \<le> 64 * 1024"
  by (simp add: ex_text_def NL_def)

lemma ex_written:
  assumes "ex_rule = Inr rule"
  shows "applyRememberedRule ex_yaml ex_file (Inr rule) ex_in_force = Inr (ex_text ''autonomous'', False)"
proof -
  have r: "rr_domain rule = ''email''" "rr_operation rule = ''send''" "rr_subCategory rule = None"
    "patchPoliciesText (ex_text ''confirm'') rule (JStr ''autonomous'') (ex_level ''confirm'') = Some (ex_text ''autonomous'')"
    using ex_rule_ok unfolding assms sum.case by blast+
  have "deep_eq (ex_level ''autonomous'') (ex_level ''autonomous'')" by code_simp
  with r show ?thesis
    by (simp add: applyRememberedRule_def ex_file_def parse_policies_def ex_yaml_text ex_valid operation_value_def
        expected_policies_def entries_def)
qed


end
