(* ===== verification/U2_Agent.thy ===== *)
theory U2_Agent
  imports U2_Remember "HOL-Library.Multiset"
begin

text \<open>
  The orchestration of \<open>server/agent/agent.js\<close>: the gate every proposed action passes
  (\<open>evaluateAndMaybeExecute\<close>), the steps of one planning round, the wake of deferred steps,
  approval under a run, and cancellation. The planner, the memory detectors and the
  conversation store are not part of it. What happens during an awaited call is the
  \<open>tool_run\<close> of the worker theory; fresh ids and clock readings are arguments, one record
  of them per step.
\<close>

section \<open>The gate\<close>

record agent_env =
  ae_worker :: worker_env
  ae_voice :: voice_config
  ae_model :: string   \<comment> \<open>\<open>_describeModel()\<close>\<close>

record proposal =
  pr_actionId :: "string option"
  pr_tool :: string
  pr_arguments :: jsval
  pr_requestedBy :: string
  pr_requestText :: "string option"
  pr_reasoningSummary :: "string option"
  pr_correlationId :: "string option"
  pr_actor :: "actor option"
  pr_voice :: "rat option option"
  pr_contextProvenance :: "jsval list"
  pr_accountContext :: "account_context option option"   \<comment> \<open>\<open>None\<close> is \<open>undefined\<close>\<close>
  pr_modelIdentity :: "string option"
  pr_runId :: "string option"
  pr_authority :: "authority option"

text \<open>Ids made by \<open>newId\<close> (a run step's action, an audit row, a queue row, an attempt), the clock, the tool call.\<close>

record call_io =
  io_action :: string
  io_audit :: string
  io_queue :: string
  io_attempt :: string
  io_now :: int
  io_run :: tool_run

abbreviation some_text :: "string option \<Rightarrow> string option" where
  "some_text v \<equiv> (case v of Some (c # cs) \<Rightarrow> Some (c # cs) | _ \<Rightarrow> None)"

definition proposal_account :: "agent_env \<Rightarrow> proposal \<Rightarrow> tool \<Rightarrow> db \<Rightarrow> account_context option" where
  "proposal_account env p t s =
     (case pr_accountContext p of
        None \<Rightarrow> captureProposedAccount (we_accounts (ae_worker env)) (pr_tool p) (pr_arguments p) t None s
      | Some c \<Rightarrow> c)"

definition proposal_evaluation :: "agent_env \<Rightarrow> proposal \<Rightarrow> tool \<Rightarrow> db \<Rightarrow> evaluation" where
  "proposal_evaluation env p t s =
     gate_evaluation (ae_voice env) (pr_voice p) (Option.bind (some_text (pr_runId p)) (\<lambda>r. getGoalForRun r s))
       (Option.bind (proposal_account env p t s) snd) (pr_authority p) t
       (action_evaluate (we_policies (ae_worker env)) t (pr_arguments p) s)"

definition proposal_decision :: "agent_env \<Rightarrow> proposal \<Rightarrow> tool \<Rightarrow> db \<Rightarrow> decision_input" where
  "proposal_decision env p t s =
     \<lparr>d_id = pr_actionId p, d_tool = t, d_arguments = pr_arguments p, d_requestedBy = pr_requestedBy p,
      d_requestText = pr_requestText p,
      d_model = (case some_text (pr_modelIdentity p) of Some m \<Rightarrow> Some m | None \<Rightarrow> Some (ae_model env)),
      d_reasoningSummary = pr_reasoningSummary p, d_evaluation = proposal_evaluation env p t s,
      d_correlationId = pr_correlationId p, d_actor = pr_actor p, d_contextProvenance = pr_contextProvenance p,
      d_accountBinding = Option.bind (proposal_account env p t s) fst,
      d_packageContext = packageContextRecord (pr_authority p)\<rparr>"

definition run_cancelled :: "string option \<Rightarrow> db \<Rightarrow> bool" where
  "run_cancelled runId s = (case some_text runId of Some r \<Rightarrow> isCancellationRequested r s | None \<Rightarrow> False)"

text \<open>The synchronous part: an outcome, or the action is on the queue under its id.\<close>

datatype gate_result = Answered proposal_outcome | Queued_as string

definition gate_prepare :: "agent_env \<Rightarrow> call_io \<Rightarrow> proposal \<Rightarrow> (db, gate_result) eff" where
  "gate_prepare env io p s =
     (case resolve_tool (we_tools (ae_worker env)) (pr_tool p) of
        Inl e \<Rightarrow> (Inl e, s)
      | Inr t \<Rightarrow>
          let ev = proposal_evaluation env p t s; binding = Option.bind (proposal_account env p t s) fst in
          (case recordDecision (io_audit io) (io_now io) (proposal_decision env p t s) s of
             (Inl e, s1) \<Rightarrow> (Inl e, s1)
           | (Inr row, s1) \<Rightarrow>
               let answer = (\<lambda>st reason. Inr (Answered (stopped_outcome (a_id row) st (pr_tool p) (Some (pr_arguments p)) reason binding))) in
               if run_cancelled (pr_runId p) s1 then
                 (answer S_cancelled ''Run cancelled before execution'',
                  snd (updateAgentAction (a_id row) (set_failure ACancelled ''Run cancelled before execution'') (io_now io) s1))
               else if blocked ev then (answer S_blocked (ev_reason ev), s1)
               else if requiresApproval ev then (answer S_pending (ev_reason ev), s1)
               else
                 (case enqueueAction (io_queue io) (io_now io)
                         \<lparr>en_actionId = a_id row, en_correlationId = pr_correlationId p, en_tool = t_name t,
                          en_arguments = pr_arguments p, en_idempotencyKey = None, en_approvalReference = Some ''autonomous'',
                          en_policyDecisionReference = Some (ev_rule ev), en_actor = pr_actor p\<rparr> s1 of
                    (Inl e, s2) \<Rightarrow> (Inl e, s2)
                  | (Inr _, s2) \<Rightarrow> (Inr (Queued_as (a_id row)), s2))))"

definition evaluateAndMaybeExecute :: "agent_env \<Rightarrow> call_io \<Rightarrow> proposal \<Rightarrow> (db, proposal_outcome option) eff" where
  "evaluateAndMaybeExecute env io p s =
     (case gate_prepare env io p s of
        (Inl e, s1) \<Rightarrow> (Inl e, s1)
      | (Inr (Answered o'), s1) \<Rightarrow> (Inr (Some o'), s1)
      | (Inr (Queued_as aid), s1) \<Rightarrow> process_outcome (ae_worker env) (io_attempt io) aid (io_now io) (io_run io) s1)"

section \<open>Canonical arguments\<close>

fun canonicalArguments :: "jsval \<Rightarrow> jsval" where
  "canonicalArguments (JArr vs) = JArr (map canonicalArguments vs)"
| "canonicalArguments (JObj ps) = JObj (sort_key fst (map (\<lambda>p. (fst p, canonicalArguments (snd p))) ps))"
| "canonicalArguments v = v"

definition signature_of :: "string \<Rightarrow> jsval \<Rightarrow> string" where
  "signature_of toolName args = json_text (JArr [JStr toolName, canonicalArguments args])"

section \<open>The steps of one round\<close>

record round_result =
  sr_status :: step_status
  sr_id :: "string option"
  sr_tool :: string
  sr_arguments :: jsval
  sr_reason :: "string option"
  sr_result :: "jsval option"

record round_state =
  ro_results :: "round_result list"
  ro_attempted :: "string list"
  ro_pending :: "string list"
  ro_observed :: "(nat \<times> string \<times> string \<times> jsval option) list"   \<comment> \<open>step, tool, action, result\<close>
  ro_stop :: "string option"

text \<open>What every action of a round is proposed with.\<close>

record round_input =
  ri_run :: string
  ri_actor :: string
  ri_text :: string
  ri_corr :: string
  ri_voiceOf :: "rat option option"
  ri_reasoning :: "string option"
  ri_provenance :: "jsval list"
  ri_modelId :: string
  ri_base :: nat

definition waiting_statuses :: "step_status list" where
  "waiting_statuses = [S_pending, S_waiting_dependency, S_waiting_for_action, S_retrying, S_queued, S_outcome_uncertain]"

definition not_attempted :: "step_status \<Rightarrow> plan_action \<Rightarrow> string \<Rightarrow> round_result" where
  "not_attempted st a reason =
     \<lparr>sr_status = st, sr_id = None, sr_tool = pa_tool a, sr_arguments = pa_arguments a, sr_reason = Some reason, sr_result = None\<rparr>"

definition add_round_result :: "round_result \<Rightarrow> round_state \<Rightarrow> round_state" where
  "add_round_result r ro = ro\<lparr>ro_results := ro_results ro @ [r]\<rparr>"

definition dependency_status :: "round_state \<Rightarrow> nat \<Rightarrow> step_status option" where
  "dependency_status ro d = map_option sr_status (js_nth (ro_results ro) d)"

definition unmet_dependencies :: "round_state \<Rightarrow> plan_action \<Rightarrow> nat list" where
  "unmet_dependencies ro a = filter (\<lambda>d. dependency_status ro d \<noteq> Some S_executed) (pa_dependsOn a)"

datatype round_step = Settled round_state | Start string round_state

definition budget_stop :: "string \<Rightarrow> string" where
  "budget_stop reason = ''Run budget exhausted ('' @ reason @ ''); no further step was started. The objective is not verified.''"

definition round_prepare :: "round_input \<Rightarrow> call_io \<Rightarrow> nat \<Rightarrow> plan_action \<Rightarrow> round_state \<Rightarrow> (db, round_step) eff" where
  "round_prepare i io index a ro s =
     (let run = ri_run i; stepIndex = ri_base i + index; now = io_now io;
          settle = (\<lambda>st reason s'. (Inr (Settled (add_round_result (not_attempted st a reason) ro)), recordRunStepOutcome run stepIndex st now s'));
          exhausted = (\<lambda>reason s'. (Inr (Settled ((add_round_result (not_attempted S_budget_exhausted a reason) ro)\<lparr>ro_stop := Some (budget_stop reason)\<rparr>)),
                                    snd (markBudgetExhausted run reason now now s'))) in
      if isCancellationRequested run s then settle S_cancelled ''Run cancelled before this step was attempted'' s
      else (case getBudgetStopReason run now s of
        Some reason \<Rightarrow> exhausted reason s
      | None \<Rightarrow>
          let unmet = unmet_dependencies ro a in
          if unmet \<noteq> [] then
            (if \<exists>d\<in>set unmet. dependency_status ro d \<in> Some ` set waiting_statuses
             then settle S_waiting_dependency ''Waiting for prerequisite action; no attempt was made'' s
             else settle S_skipped ''Prerequisite action did not complete successfully; no attempt was made'' s)
          else if signature_of (pa_tool a) (pa_arguments a) \<in> set (ro_attempted ro) then
            settle S_skipped ''Repeated action made no progress; no attempt was made'' s
          else
            let ro' = ro\<lparr>ro_attempted := signature_of (pa_tool a) (pa_arguments a) # ro_attempted ro\<rparr> in
            (case beginRunStep (io_action io) run stepIndex now now now s of
               (Inr aid, s1) \<Rightarrow> (Inr (Start aid ro'), s1)
             | (Inl (CodedError c reason), s1) \<Rightarrow>
                 if c \<noteq> ''RUN_BUDGET_EXHAUSTED'' then (Inl (CodedError c reason), s1)
                 else (Inr (Settled ((add_round_result (not_attempted S_budget_exhausted a reason) ro')\<lparr>ro_stop := Some (budget_stop reason)\<rparr>)),
                       snd (markBudgetExhausted run reason now now s1))
             | (Inl e, s1) \<Rightarrow> (Inl e, s1))))"

definition round_proposal :: "round_input \<Rightarrow> string \<Rightarrow> account_context option \<Rightarrow> plan_action \<Rightarrow> proposal" where
  "round_proposal i aid acct a =
     \<lparr>pr_actionId = Some aid, pr_tool = pa_tool a, pr_arguments = pa_arguments a, pr_requestedBy = ri_actor i,
      pr_requestText = Some (ri_text i), pr_reasoningSummary = ri_reasoning i, pr_correlationId = Some (ri_corr i),
      pr_actor = Some \<lparr>actor_type = ''user'', actor_id = ri_actor i\<rparr>, pr_voice = ri_voiceOf i,
      pr_contextProvenance = ri_provenance i, pr_accountContext = Some acct, pr_modelIdentity = Some (ri_modelId i),
      pr_runId = Some (ri_run i), pr_authority = None\<rparr>"

definition round_settle :: "round_input \<Rightarrow> nat \<Rightarrow> plan_action \<Rightarrow> proposal_outcome \<Rightarrow> round_state \<Rightarrow> round_state" where
  "round_settle i index a o' ro =
     (let r = \<lparr>sr_status = oc_status o', sr_id = Some (oc_id o'), sr_tool = oc_tool o',
               sr_arguments = (case oc_arguments o' of Some v \<Rightarrow> v | None \<Rightarrow> pa_arguments a),
               sr_reason = oc_reason o', sr_result = oc_result o'\<rparr>;
          ro1 = add_round_result r ro;
          ro2 = (if oc_status o' = S_pending then ro1\<lparr>ro_pending := ro_pending ro1 @ [oc_id o']\<rparr> else ro1) in
      if oc_status o' = S_executed
      then ro2\<lparr>ro_observed := ro_observed ro2 @ [(ri_base i + index, pa_tool a, oc_id o', oc_result o')]\<rparr> else ro2)"

definition round_action ::
  "agent_env \<Rightarrow> round_input \<Rightarrow> call_io \<Rightarrow> nat \<Rightarrow> account_context option \<Rightarrow> plan_action \<Rightarrow> round_state \<Rightarrow> (db, round_state) eff" where
  "round_action env i io index acct a ro s =
     (case round_prepare i io index a ro s of
        (Inl e, s1) \<Rightarrow> (Inl e, s1)
      | (Inr (Settled ro'), s1) \<Rightarrow> (Inr ro', s1)
      | (Inr (Start aid ro'), s1) \<Rightarrow>
          (case evaluateAndMaybeExecute env io (round_proposal i aid acct a) s1 of
             (Inl e, s2) \<Rightarrow> (Inl e, s2)
           | (Inr None, s2) \<Rightarrow> (Inl (TypeError ''Cannot read properties of null''), s2)
           | (Inr (Some o'), s2) \<Rightarrow>
               (Inr (round_settle i index a o' ro'),
                recordRunStepOutcome (ri_run i) (ri_base i + index) (oc_status o') (run_later (io_run io)) s2)))"

fun round_actions ::
  "agent_env \<Rightarrow> round_input \<Rightarrow> (nat \<Rightarrow> call_io) \<Rightarrow> account_context option list \<Rightarrow> nat \<Rightarrow> plan_action list \<Rightarrow> round_state \<Rightarrow> (db, round_state) eff" where
  "round_actions env i io accts index [] ro s = (Inr ro, s)"
| "round_actions env i io accts index (a # as') ro s =
     (case round_action env i (io index) index (case js_nth accts index of Some c \<Rightarrow> c | None \<Rightarrow> None) a ro s of
        (Inl e, s1) \<Rightarrow> (Inl e, s1)
      | (Inr ro', s1) \<Rightarrow> round_actions env i io accts (Suc index) as' ro' s1)"

section \<open>Waking deferred steps\<close>

definition dead_statuses :: "step_status list" where
  "dead_statuses = [S_rejected, S_blocked, S_failed, S_cancelled, S_skipped, S_needs_attention]"

text \<open>The steps of the view that a step depends on; \<open>None\<close> when one is not there.\<close>

definition dependency_views :: "run_view \<Rightarrow> step_row \<Rightarrow> step_view option list" where
  "dependency_views v t = map (\<lambda>i. List.find (\<lambda>x. sv_index x = i) (rv_steps v)) (s_depends_on t)"

definition repeated_step :: "string \<Rightarrow> step_row \<Rightarrow> db \<Rightarrow> bool" where
  "repeated_step runId t s =
     (\<exists>p\<in>set (run_steps runId s). s_index p < s_index t \<and> s_tool p = s_tool t \<and>
        s_status p \<noteq> S_waiting_dependency \<and> s_status p \<noteq> S_skipped \<and>
        json_text (canonicalArguments (s_arguments p)) = json_text (canonicalArguments (s_arguments t)))"

datatype resume_step = Leave | Halt | Resume string

definition resume_prepare :: "call_io \<Rightarrow> string \<Rightarrow> step_row \<Rightarrow> (db, resume_step) eff" where
  "resume_prepare io runId t s =
     (let now = io_now io; skip = recordRunStepOutcome runId (s_index t) S_skipped now in
      if s_status t \<noteq> S_waiting_dependency then (Inr Leave, s)
      else if isCancellationRequested runId s then (Inr Leave, recordRunStepOutcome runId (s_index t) S_cancelled now s)
      else (case getBudgetStopReason runId now s of
        Some reason \<Rightarrow> (Inr Halt, snd (markBudgetExhausted runId reason now now s))
      | None \<Rightarrow>
          (case getRun runId now s of
             (None, s1) \<Rightarrow> (Inl (TypeError ''Cannot read properties of null''), s1)
           | (Some v, s1) \<Rightarrow>
               let ds = dependency_views v t in
               if None \<in> set ds then (Inr Leave, s1)
               else if \<exists>d\<in>set ds. sv_status (the d) \<in> set dead_statuses then (Inr Leave, skip s1)
               else if \<exists>d\<in>set ds. sv_status (the d) \<noteq> S_executed then (Inr Leave, s1)
               else if repeated_step runId t s1 then (Inr Leave, skip s1)
               else (case beginRunStep (io_action io) runId (s_index t) now now now s1 of
                       (Inl e, s2) \<Rightarrow> (Inr Leave, s2)
                     | (Inr aid, s2) \<Rightarrow> (Inr (Resume aid), s2)))))"

definition missing_account :: account_context where
  "missing_account = (None, Some ''Account identity was not captured for this deferred action; replan with the selected account'')"

definition resume_proposal :: "run_row \<Rightarrow> string \<Rightarrow> step_row \<Rightarrow> proposal" where
  "resume_proposal run aid t =
     \<lparr>pr_actionId = Some aid, pr_tool = s_tool t, pr_arguments = s_arguments t, pr_requestedBy = r_actor_id run,
      pr_requestText = Some (r_objective run), pr_reasoningSummary = r_reasoning_summary run,
      pr_correlationId = Some (r_correlation_id run), pr_actor = Some \<lparr>actor_type = ''user'', actor_id = r_actor_id run\<rparr>,
      pr_voice = map_option Some (r_voice_confidence run), pr_contextProvenance = s_context_provenance t,
      pr_accountContext = Some (case s_account_context t of
                                  Some c \<Rightarrow> Some c
                                | None \<Rightarrow> if accountDomainForAction (s_tool t) \<noteq> None then Some missing_account else None),
      pr_modelIdentity = s_model_id t, pr_runId = Some (r_id run), pr_authority = None\<rparr>"

fun resume_steps :: "agent_env \<Rightarrow> (nat \<Rightarrow> call_io) \<Rightarrow> run_row \<Rightarrow> step_row list \<Rightarrow> (db, unit) eff" where
  "resume_steps env io run [] s = (Inr (), s)"
| "resume_steps env io run (t # ts) s =
     (case resume_prepare (io (s_index t)) (r_id run) t s of
        (Inl e, s1) \<Rightarrow> (Inl e, s1)
      | (Inr Leave, s1) \<Rightarrow> resume_steps env io run ts s1
      | (Inr Halt, s1) \<Rightarrow> (Inr (), s1)
      | (Inr (Resume aid), s1) \<Rightarrow>
          (case evaluateAndMaybeExecute env (io (s_index t)) (resume_proposal run aid t) s1 of
             (Inl e, s2) \<Rightarrow> (Inl e, s2)
           | (Inr None, s2) \<Rightarrow> (Inl (TypeError ''Cannot read properties of null''), s2)
           | (Inr (Some o'), s2) \<Rightarrow>
               resume_steps env io run ts
                 (recordRunStepOutcome (r_id run) (s_index t) (oc_status o') (run_later (io_run (io (s_index t)))) s2)))"

definition resumeRunDependents :: "agent_env \<Rightarrow> (nat \<Rightarrow> call_io) \<Rightarrow> string \<Rightarrow> int \<Rightarrow> int \<Rightarrow> (db, run_view option) eff" where
  "resumeRunDependents env io runId now later s =
     (case getRunExecution runId s of
        None \<Rightarrow> (Inr None, s)
      | Some (run, ts) \<Rightarrow>
          if r_status run \<in> {R_planning, R_running} \<or> \<not> (\<exists>t\<in>set ts. s_status t = S_waiting_dependency)
          then (let (v, s') = getRun runId now s in (Inr v, s'))
          else (case resume_steps env io run ts s of
                  (Inl e, s1) \<Rightarrow> (Inl e, s1)
                | (Inr _, s1) \<Rightarrow> (let (v, s') = getRun runId later s1 in (Inr v, s'))))"

section \<open>Approval under a run\<close>

text \<open>\<open>_approveAction\<close> before the linked run is woken.\<close>

definition approve_under_run :: "worker_env \<Rightarrow> string \<Rightarrow> string \<Rightarrow> string \<Rightarrow> string \<Rightarrow> int \<Rightarrow> tool_run \<Rightarrow> (db, proposal_outcome option) eff" where
  "approve_under_run env newq newt aid approvedBy now r s =
     (case some_text (findRunByAction aid s) of
        None \<Rightarrow> approve env newq newt aid approvedBy now r s
      | Some run \<Rightarrow>
          if isCancellationRequested run s then (Inl (Error ''Run was cancelled; approval is no longer valid''), s)
          else if (case getAgentAction aid s of Some a \<Rightarrow> a_status a = APending | None \<Rightarrow> False) \<and> isRunDeadlineExpired run now s then
            (Inr (Some (stopped_outcome aid S_blocked [] None ''Run elapsed-time budget expired before approval'' None)),
             snd (markBudgetExhausted run ''elapsed_limit'' now now
               (snd (updateAgentAction aid (set_failure ABlocked ''Run elapsed-time budget expired before approval'') now s))))
          else approve env newq newt aid approvedBy now r s)"

text \<open>\<open>approveAction\<close>: the rule to remember is planned before the approval changes the status it looks at.\<close>

record approval_answer =
  an_outcome :: "proposal_outcome option"
  an_remembered :: "(string + string \<times> string \<times> bool) option"   \<comment> \<open>\<open>None\<close>: not asked; \<open>Inl\<close> a note\<close>

definition approveAction ::
  "(string \<Rightarrow> string + jsval) \<Rightarrow> vault_text \<Rightarrow> worker_env \<Rightarrow> string \<Rightarrow> string \<Rightarrow> string \<Rightarrow> string \<Rightarrow> bool \<Rightarrow> int \<Rightarrow> tool_run \<Rightarrow> (db, approval_answer) eff" where
  "approveAction yaml file env newq newt aid approvedBy remember now r s =
     (case (if remember then map_sum id Some (previewRemember env aid s) else Inr None) of
        Inl e \<Rightarrow> (Inl e, s)
      | Inr plan \<Rightarrow>
          (case approve_under_run env newq newt aid approvedBy now r s of
             (Inl e, s1) \<Rightarrow> (Inl e, s1)
           | (Inr o', s1) \<Rightarrow>
               (case plan of
                  None \<Rightarrow> (Inr \<lparr>an_outcome = o', an_remembered = None\<rparr>, s1)
                | Some (Inl reason) \<Rightarrow> (Inr \<lparr>an_outcome = o', an_remembered = Some (Inl reason)\<rparr>, s1)
                | Some (Inr rule) \<Rightarrow>
                    if (case o' of Some x \<Rightarrow> oc_status x = S_blocked | None \<Rightarrow> False)
                    then (Inr \<lparr>an_outcome = o', an_remembered = Some (Inl ''The action was blocked, so nothing was remembered.'')\<rparr>, s1)
                    else (let (m, s2) = rememberApproval yaml file env aid (Inr rule) approvedBy s1
                          in (Inr \<lparr>an_outcome = o', an_remembered = Some m\<rparr>, s2)))))"

section \<open>Cancelling a run\<close>

definition cancel_step :: "string \<Rightarrow> int \<Rightarrow> step_row \<Rightarrow> db \<Rightarrow> db" where
  "cancel_step cancelledBy now t s =
     (case some_text (s_action_id t) of
        None \<Rightarrow> s
      | Some aid \<Rightarrow>
          let s1 = (case getAgentAction aid s of
                      Some a \<Rightarrow> if a_status a = APending then snd (reject aid cancelledBy now s) else s
                    | None \<Rightarrow> s)
          in snd (cancelUnstartedAction aid now s1))"

definition cancelRun :: "string \<Rightarrow> string \<Rightarrow> int \<Rightarrow> db \<Rightarrow> run_view option \<times> db" where
  "cancelRun runId cancelledBy now s =
     (case requestRunCancellation runId cancelledBy now now now s of
        (None, s1) \<Rightarrow> (None, s1)
      | (Some v, s1) \<Rightarrow>
          if \<not> rv_cancellationRequested v then (Some v, s1)
          else getRun runId now (fold (cancel_step cancelledBy now) (run_steps runId s1) s1))"

section \<open>Only what the gate lets through is queued\<close>

lemma recordDecision_frame: "recordDecision nid now d s = (x, s') \<Longrightarrow> queue s' = queue s \<and> attempts s' = attempts s \<and> runs s' = runs s"
  by (auto simp: recordDecision_def Let_def split: prod.splits sum.splits if_splits dest!: recordAudit_cases)

lemma run_cancelled_cong: "runs s' = runs s \<Longrightarrow> run_cancelled r s' = run_cancelled r s"
  unfolding run_cancelled_def isCancellationRequested_def get_run_row_def by (simp only:)

lemma gate_prepare_queue:
  assumes "gate_prepare env io p s = (x, s')" and "(\<exists>aid. x = Inr (Queued_as aid)) \<or> queue s' \<noteq> queue s \<or> attempts s' \<noteq> attempts s"
  shows "\<exists>t. resolve_tool (we_tools (ae_worker env)) (pr_tool p) = Inr t \<and> executes (proposal_evaluation env p t s) \<and>
    \<not> run_cancelled (pr_runId p) s"
proof -
  from assms obtain t where t: "resolve_tool (we_tools (ae_worker env)) (pr_tool p) = Inr t"
    by (auto simp: gate_prepare_def split: sum.splits)
  obtain d s1 where d: "recordDecision (io_audit io) (io_now io) (proposal_decision env p t s) s = (d, s1)"
    by (cases "recordDecision (io_audit io) (io_now io) (proposal_decision env p t s) s")
  note fr = recordDecision_frame [OF d]
  with assms t d obtain row where row: "d = Inr row"
    by (cases d) (auto simp: gate_prepare_def Let_def)
  note g = assms(1) [unfolded gate_prepare_def Let_def t d row sum.case prod.case]
  have nc: "\<not> run_cancelled (pr_runId p) s1"
    using g assms(2) fr by (cases "run_cancelled (pr_runId p) s1") auto
  have "executes (proposal_evaluation env p t s)"
    using g nc assms(2) fr unfolding executes_def
    by (cases "blocked (proposal_evaluation env p t s)"; cases "requiresApproval (proposal_evaluation env p t s)") auto
  with t nc run_cancelled_cong [of s1 s] fr show ?thesis by blast
qed

text \<open>
  C19. The one gate. Evaluating a proposal puts something on the queue, or lets a worker run it,
  only if the tool is registered, the policy in force lets it execute without approval, the
  goal of its run permits the tool, its account could be bound, the package it comes from
  has the permission and an automatic policy, a voice that asked for it is recognised well
  enough, and its run is not cancelled.
\<close>

theorem gate_queues_only_authorized:
  assumes "evaluateAndMaybeExecute env io p s = (x, s')" and "queue s' \<noteq> queue s \<or> attempts s' \<noteq> attempts s"
  shows "\<exists>t raw. we_tools (ae_worker env) (pr_tool p) = Some t \<and>
    raw = action_evaluate (we_policies (ae_worker env)) t (pr_arguments p) s \<and> executes raw \<and>
    \<not> goal_blocks (Option.bind (some_text (pr_runId p)) (\<lambda>r. getGoalForRun r s)) t \<and>
    Option.bind (proposal_account env p t s) snd \<in> {None, Some []} \<and>
    (case pr_authority p of None \<Rightarrow> True | Some a \<Rightarrow> (\<exists>m. au_permission a = Some m \<and> pm_allowed m) \<and>
       (case au_policy a of None \<Rightarrow> True | Some q \<Rightarrow> pp_decision q = ''automatic'')) \<and>
    (case pr_voice p of Some v \<Rightarrow> autonomyLevel raw \<noteq> Level 0 \<longrightarrow> vc_standard (ae_voice env) \<le> normalizeConfidence v | None \<Rightarrow> True) \<and>
    \<not> run_cancelled (pr_runId p) s"
proof -
  obtain g u where g: "gate_prepare env io p s = (g, u)" by (cases "gate_prepare env io p s")
  have "(\<exists>aid. g = Inr (Queued_as aid)) \<or> queue u \<noteq> queue s \<or> attempts u \<noteq> attempts s"
    using assms g by (auto simp: evaluateAndMaybeExecute_def split: sum.splits gate_result.splits)
  from gate_prepare_queue [OF g this] obtain t where t: "resolve_tool (we_tools (ae_worker env)) (pr_tool p) = Inr t"
    and e: "executes (proposal_evaluation env p t s)" and c: "\<not> run_cancelled (pr_runId p) s" by blast
  note ex = e [unfolded proposal_evaluation_def]
  from t have "we_tools (ae_worker env) (pr_tool p) = Some t" by (auto simp: resolve_tool_def split: option.splits)
  with gate_tightens [OF ex] gate_executes_conditions [OF ex] c show ?thesis by blast
qed

section \<open>Dependencies\<close>

lemma round_prepare_Start:
  assumes "round_prepare i io index a ro s = (Inr (Start aid ro'), s')"
  shows "(\<forall>d\<in>set (pa_dependsOn a). dependency_status ro d = Some S_executed) \<and>
    signature_of (pa_tool a) (pa_arguments a) \<notin> set (ro_attempted ro) \<and>
    ro' = ro\<lparr>ro_attempted := signature_of (pa_tool a) (pa_arguments a) # ro_attempted ro\<rparr> \<and>
    \<not> isCancellationRequested (ri_run i) s"
  using assms
  by (auto simp: round_prepare_def Let_def unmet_dependencies_def filter_empty_conv
      split: if_split_asm option.splits prod.splits sum.splits js_error.splits)

lemma round_prepare_Settled:
  assumes "round_prepare i io index a ro s = (Inr (Settled ro'), s')"
  shows "\<exists>r. sr_id r = None \<and> ro_results ro' = ro_results ro @ [r] \<and> set (ro_attempted ro) \<subseteq> set (ro_attempted ro')"
  using assms
  by (auto simp: round_prepare_def Let_def add_round_result_def not_attempted_def
      split: if_split_asm option.splits prod.splits sum.splits js_error.splits)

text \<open>What holds of the results of a round: \<open>acts\<close> are the actions so far.\<close>

definition round_ok :: "plan_action list \<Rightarrow> round_state \<Rightarrow> bool" where
  "round_ok acts ro \<longleftrightarrow>
     length (ro_results ro) = length acts \<and>
     (\<forall>j<length acts. sr_id (ro_results ro ! j) \<noteq> None \<longrightarrow>
        signature_of (pa_tool (acts ! j)) (pa_arguments (acts ! j)) \<in> set (ro_attempted ro) \<and>
        (\<forall>d\<in>set (pa_dependsOn (acts ! j)). d < j \<and> sr_status (ro_results ro ! d) = S_executed) \<and>
        (\<forall>k<j. sr_id (ro_results ro ! k) \<noteq> None \<longrightarrow>
           signature_of (pa_tool (acts ! k)) (pa_arguments (acts ! k)) \<noteq> signature_of (pa_tool (acts ! j)) (pa_arguments (acts ! j))))"

lemma round_okD:
  assumes "round_ok acts ro" and "j < length acts" and "sr_id (ro_results ro ! j) \<noteq> None"
  shows "signature_of (pa_tool (acts ! j)) (pa_arguments (acts ! j)) \<in> set (ro_attempted ro)"
    "d \<in> set (pa_dependsOn (acts ! j)) \<Longrightarrow> d < j" "d \<in> set (pa_dependsOn (acts ! j)) \<Longrightarrow> sr_status (ro_results ro ! d) = S_executed"
    "k < j \<Longrightarrow> sr_id (ro_results ro ! k) \<noteq> None \<Longrightarrow>
       signature_of (pa_tool (acts ! k)) (pa_arguments (acts ! k)) \<noteq> signature_of (pa_tool (acts ! j)) (pa_arguments (acts ! j))"
  using assms unfolding round_ok_def by blast+

text \<open>Adding one result: only the new entry has to be justified.\<close>

lemma round_ok_snoc:
  assumes ok: "round_ok acts ro" and res: "ro_results ro' = ro_results ro @ [r]"
    and att: "set (ro_attempted ro) \<subseteq> set (ro_attempted ro')"
    and new: "sr_id r \<noteq> None \<Longrightarrow> signature_of (pa_tool a) (pa_arguments a) \<in> set (ro_attempted ro') - set (ro_attempted ro) \<and>
      (\<forall>d\<in>set (pa_dependsOn a). dependency_status ro d = Some S_executed)"
  shows "round_ok (acts @ [a]) ro'"
proof -
  have len: "length (ro_results ro) = length acts" using ok by (simp add: round_ok_def)
  have old: "ro_results ro' ! j = ro_results ro ! j" "(acts @ [a]) ! j = acts ! j" if "j < length acts" for j
    using that len res by (simp_all add: nth_append)
  have last: "ro_results ro' ! length acts = r" using res len by (metis nth_append_length)
  have dep: "d < length acts \<and> sr_status (ro_results ro ! d) = S_executed"
    if "sr_id r \<noteq> None" "d \<in> set (pa_dependsOn a)" for d
    using new that len by (auto simp: dependency_status_def js_nth_def split: if_splits)
  have one: "signature_of (pa_tool ((acts @ [a]) ! j)) (pa_arguments ((acts @ [a]) ! j)) \<in> set (ro_attempted ro') \<and>
      (\<forall>d\<in>set (pa_dependsOn ((acts @ [a]) ! j)). d < j \<and> sr_status (ro_results ro' ! d) = S_executed) \<and>
      (\<forall>k<j. sr_id (ro_results ro' ! k) \<noteq> None \<longrightarrow> signature_of (pa_tool ((acts @ [a]) ! k)) (pa_arguments ((acts @ [a]) ! k)) \<noteq>
        signature_of (pa_tool ((acts @ [a]) ! j)) (pa_arguments ((acts @ [a]) ! j)))"
    if j: "j < Suc (length acts)" and st: "sr_id (ro_results ro' ! j) \<noteq> None" for j
  proof (cases "j < length acts")
    case True
    with st old(1) have st': "sr_id (ro_results ro ! j) \<noteq> None" by simp
    note D = round_okD [OF ok True st']
    have "ro_results ro' ! k = ro_results ro ! k \<and> (acts @ [a]) ! k = acts ! k" if "k < j" for k
      using that True old by simp
    with D True old(2) [OF True] att show ?thesis by auto
  next
    case False
    with j have jl: "j = length acts" by simp
    with st last have sr: "sr_id r \<noteq> None" by simp
    have "signature_of (pa_tool (acts ! k)) (pa_arguments (acts ! k)) \<noteq> signature_of (pa_tool a) (pa_arguments a)"
      if "k < length acts" "sr_id (ro_results ro ! k) \<noteq> None" for k
      using round_okD(1) [OF ok that] new [OF sr] by auto
    with new [OF sr] dep [OF sr] jl old show ?thesis by auto
  qed
  show ?thesis unfolding round_ok_def using one len res by simp
qed

lemma round_settle_sel: "\<exists>r. ro_results (round_settle i index a o' ro) = ro_results ro @ [r]"
  "ro_attempted (round_settle i index a o' ro) = ro_attempted ro"
  by (auto simp: round_settle_def add_round_result_def Let_def)

lemma round_action_ok:
  assumes "round_action env i io index acct a ro s = (Inr ro', s')" and "round_ok acts ro"
  shows "round_ok (acts @ [a]) ro'"
proof -
  obtain g u where g: "round_prepare i io index a ro s = (g, u)" by (cases "round_prepare i io index a ro s")
  show ?thesis
  proof (cases g)
    case (Inl e)
    with g assms show ?thesis by (simp add: round_action_def)
  next
    case (Inr x)
    show ?thesis
    proof (cases x)
      case (Settled ro1)
      with g Inr assms have "ro' = ro1" by (simp add: round_action_def)
      with round_prepare_Settled [OF g [unfolded Inr Settled]] assms(2) show ?thesis by (auto intro: round_ok_snoc)
    next
      case (Start aid ro1)
      note st = round_prepare_Start [OF g [unfolded Inr Start]]
      from g Inr Start assms obtain o' where o': "ro' = round_settle i index a o' ro1"
        by (auto simp: round_action_def split: prod.splits sum.splits option.splits)
      obtain r where "ro_results ro' = ro_results ro1 @ [r]" using round_settle_sel(1) [of i index a o' ro1] o' by blast
      with o' st assms(2) show ?thesis
        by (intro round_ok_snoc [of acts ro _ r]) (auto simp: round_settle_sel(2))
    qed
  qed
qed

lemma round_actions_ok:
  "round_actions env i io accts index as' ro s = (Inr ro', s') \<Longrightarrow> round_ok acts ro \<Longrightarrow> round_ok (acts @ as') ro'"
proof (induction as' arbitrary: index ro s acts)
  case (Cons a as')
  then obtain ro1 s1 where r: "round_action env i (io index) index (case js_nth accts index of Some c \<Rightarrow> c | None \<Rightarrow> None) a ro s = (Inr ro1, s1)"
    by (auto split: prod.splits sum.splits)
  with Cons.prems have "round_actions env i io accts (Suc index) as' ro1 s1 = (Inr ro', s')" by simp
  from Cons.IH [OF this round_action_ok [OF r Cons.prems(2)]] show ?case by simp
qed simp

text \<open>
  C20. A round respects its plan. Whatever the tools return, an action of the round is proposed to
  the gate only if every action it depends on came earlier and executed, and no two
  proposed actions of the round have the same tool and the same arguments.
\<close>

theorem round_respects_dependencies:
  assumes "round_actions env i io accts 0 acts ro s = (Inr ro', s')" and "ro_results ro = []"
  shows "length (ro_results ro') = length acts \<and>
    (\<forall>j<length acts. sr_id (ro_results ro' ! j) \<noteq> None \<longrightarrow>
       (\<forall>d\<in>set (pa_dependsOn (acts ! j)). d < j \<and> sr_status (ro_results ro' ! d) = S_executed) \<and>
       (\<forall>k<j. sr_id (ro_results ro' ! k) \<noteq> None \<longrightarrow>
          (pa_tool (acts ! k), canonicalArguments (pa_arguments (acts ! k))) \<noteq>
          (pa_tool (acts ! j), canonicalArguments (pa_arguments (acts ! j)))))"
proof -
  have "round_ok [] ro" using assms(2) by (simp add: round_ok_def)
  from round_actions_ok [OF assms(1) this] have ok: "round_ok acts ro'" by simp
  have sig: "signature_of x v = signature_of y w" if "(x, canonicalArguments v) = (y, canonicalArguments w)" for x y v w
    using that by (simp add: signature_of_def)
  have len: "length (ro_results ro') = length acts" using ok by (simp add: round_ok_def)
  show ?thesis
  proof (intro conjI len allI impI ballI)
    fix j k assume j: "j < length acts" "sr_id (ro_results ro' ! j) \<noteq> None" and k: "k < j" "sr_id (ro_results ro' ! k) \<noteq> None"
    show "(pa_tool (acts ! k), canonicalArguments (pa_arguments (acts ! k))) \<noteq> (pa_tool (acts ! j), canonicalArguments (pa_arguments (acts ! j)))"
      using round_okD(4) [OF ok j k] sig by blast
  qed (rule round_okD(2,3) [OF ok], assumption+)+
qed

text \<open>
  A deferred step is started only when nothing stands in its way: it was still waiting, the
  run is neither cancelled nor out of budget, every step it depends on is reported as
  executed, and no earlier step of the run had the same tool and arguments.
\<close>

theorem deferred_step_waits:
  assumes "resume_prepare io runId t s = (Inr (Resume aid), s')"
  shows "s_status t = S_waiting_dependency \<and> \<not> isCancellationRequested runId s \<and> getBudgetStopReason runId (io_now io) s = None \<and>
    (\<exists>v s1. getRun runId (io_now io) s = (Some v, s1) \<and> \<not> repeated_step runId t s1 \<and>
       (\<forall>i\<in>set (s_depends_on t). \<exists>x\<in>set (rv_steps v). sv_index x = i \<and> sv_status x = S_executed))"
proof -
  from assms obtain v s1 where v: "s_status t = S_waiting_dependency" "\<not> isCancellationRequested runId s"
    "getBudgetStopReason runId (io_now io) s = None" "getRun runId (io_now io) s = (Some v, s1)" "\<not> repeated_step runId t s1"
    and ds: "None \<notin> set (dependency_views v t)" "\<forall>d\<in>set (dependency_views v t). sv_status (the d) = S_executed"
    by (auto simp: resume_prepare_def Let_def split: if_split_asm option.splits prod.splits sum.splits)
  have "\<exists>x\<in>set (rv_steps v). sv_index x = i \<and> sv_status x = S_executed" if "i \<in> set (s_depends_on t)" for i
  proof -
    let ?f = "List.find (\<lambda>x. sv_index x = i) (rv_steps v)"
    have "?f \<in> set (dependency_views v t)" using that by (auto simp: dependency_views_def)
    with ds obtain x where "?f = Some x" "sv_status x = S_executed" by (cases ?f) auto
    then show ?thesis by (auto simp: find_Some_iff)
  qed
  with v show ?thesis by blast
qed

section \<open>Cancellation\<close>

text \<open>An action that waits for nobody any more: neither for the owner nor, unless it executed, for a worker.\<close>

definition let_go :: "string \<Rightarrow> db \<Rightarrow> bool" where
  "let_go aid s \<longleftrightarrow>
     (\<forall>a. getAgentAction aid s = Some a \<longrightarrow> a_status a \<noteq> APending \<and>
        (a_status a \<noteq> AExecuted \<longrightarrow> (\<forall>q\<in>set (queue s). q_action_id q = aid \<longrightarrow> q_status q \<notin> {Queued, Retry_wait})))"

lemma reject_pending_frame: "queue (snd (reject aid who now s)) = queue s" "steps (snd (reject aid who now s)) = steps s"
  "aid \<noteq> bid \<Longrightarrow> getAgentAction bid (snd (reject aid who now s)) = getAgentAction bid s"
  by (simp_all add: reject_def Let_def getAgentAction_update option.map_ident split: sum.splits)

lemma reject_pending_status:
  assumes "getAgentAction aid s = Some a" and "a_status a = APending"
  shows "\<exists>b. getAgentAction aid (snd (reject aid who now s)) = Some b \<and> a_status b = ARejected"
  using assms by (simp add: reject_def pending_action_def Let_def getAgentAction_update patch_action_def no_patch_def)

lemma cancelUnstarted_frame: "steps (snd (cancelUnstartedAction aid now s)) = steps s"
  "aid \<noteq> bid \<Longrightarrow> getAgentAction bid (snd (cancelUnstartedAction aid now s)) = getAgentAction bid s"
proof -
  have "sql_get (\<lambda>r. a_id r = bid) (sql_update (\<lambda>a. a_id a = aid) (\<lambda>a. a\<lparr>a_status := ACancelled, a_updated_at := now\<rparr>) xs) =
      sql_get (\<lambda>r. a_id r = bid) xs" if "aid \<noteq> bid" for xs :: "action_row list"
    using that by (induction xs) auto
  then show "steps (snd (cancelUnstartedAction aid now s)) = steps s"
    "aid \<noteq> bid \<Longrightarrow> getAgentAction bid (snd (cancelUnstartedAction aid now s)) = getAgentAction bid s"
    by (auto simp: cancelUnstartedAction_def Let_def getAgentAction_def split: option.splits)
qed

lemma cancelUnstarted_other:
  assumes "aid \<noteq> bid" and "let_go bid s"
  shows "let_go bid (snd (cancelUnstartedAction aid now s))"
proof -
  have "\<exists>q\<in>set (queue s). q_action_id q = bid \<and> q_status q = q_status q'"
    if "q' \<in> set (queue (snd (cancelUnstartedAction aid now s)))" "q_action_id q' = bid" for q'
    using that assms(1)
    by (auto simp: cancelUnstartedAction_def Let_def set_sql_update cancel_row_def split: option.splits if_split_asm)
  then show ?thesis using assms cancelUnstarted_frame(2) [OF assms(1)] unfolding let_go_def by metis
qed

lemma cancelUnstarted_lets_go:
  assumes "\<And>a. getAgentAction aid s = Some a \<Longrightarrow> a_status a \<noteq> APending"
  shows "let_go aid (snd (cancelUnstartedAction aid now s))"
proof -
  let ?E = "sql_get (\<lambda>a. a_id a = aid \<and> a_status a \<noteq> AExecuted) (actions s) \<noteq> None"
  let ?P = "\<lambda>q. q_action_id q = aid \<and> q_status q \<in> {Queued, Retry_wait} \<and> ?E"
  show ?thesis
  proof (cases "sql_get ?P (queue s)")
    case None
    have "?E" if "getAgentAction aid s = Some a" "a_status a \<noteq> AExecuted" for a
      using that by (auto simp: getAgentAction_def sql_get_None_iff dest!: sql_get_SomeD)
    moreover have "\<forall>q\<in>set (queue s). \<not> ?P q" using None unfolding sql_get_None_iff .
    moreover have "snd (cancelUnstartedAction aid now s) = s" unfolding cancelUnstartedAction_def Let_def None by simp
    ultimately show ?thesis using assms unfolding let_go_def by metis
  next
    case (Some q)
    let ?s = "s\<lparr>queue := sql_update ?P (cancel_row now) (queue s),
        actions := sql_update (\<lambda>a. a_id a = aid) (\<lambda>a. a\<lparr>a_status := ACancelled, a_updated_at := now\<rparr>) (actions s)\<rparr>"
    have e: "?E" using sql_get_SomeD [OF Some] by simp
    have sel: "actions ?s = sql_update (\<lambda>a. a_id a = aid) (\<lambda>a. a\<lparr>a_status := ACancelled, a_updated_at := now\<rparr>) (actions s)"
      "queue ?s = sql_update ?P (cancel_row now) (queue s)" by simp_all
    have s': "snd (cancelUnstartedAction aid now s) = ?s" unfolding cancelUnstartedAction_def Let_def Some by simp
    have "a_status a \<noteq> APending" if "getAgentAction aid ?s = Some a" for a
    proof -
      from that have "a \<in> set (actions ?s)" "a_id a = aid" by (auto simp: getAgentAction_def dest: sql_get_SomeD)
      then obtain a0 where "a = (if a_id a0 = aid then a0\<lparr>a_status := ACancelled, a_updated_at := now\<rparr> else a0)"
        unfolding sel set_sql_update by blast
      with \<open>a_id a = aid\<close> show ?thesis by (cases "a_id a0 = aid") simp_all
    qed
    moreover have "q_status q' \<notin> {Queued, Retry_wait}" if "q' \<in> set (queue ?s)" "q_action_id q' = aid" for q'
    proof -
      from that(1) obtain q0 where q0: "q' = (if ?P q0 then cancel_row now q0 else q0)" 
        unfolding sel set_sql_update by blast
      show ?thesis
      proof (cases "?P q0")
        case True
        have "q' = cancel_row now q0" unfolding q0 if_P [OF True] ..
        then show ?thesis by (simp add: cancel_row_def)
      next
        case False
        have "q' = q0" unfolding q0 if_not_P [OF False] ..
        with False that(2) e show ?thesis by blast
      qed
    qed
    ultimately show ?thesis unfolding s' let_go_def by blast
  qed
qed

lemma cancel_step_frame: "steps (cancel_step who now t s) = steps s"
  by (auto simp: cancel_step_def Let_def reject_pending_frame cancelUnstarted_frame split: option.splits list.splits)

lemma cancel_step_lets_go:
  assumes "let_go aid s \<or> s_action_id t = Some aid \<and> aid \<noteq> []"
  shows "let_go aid (cancel_step who now t s)"
proof (cases "some_text (s_action_id t)")
  case None
  with assms show ?thesis by (auto simp: cancel_step_def split: option.splits list.splits)
next
  case (Some bid)
  let ?s = "case getAgentAction bid s of Some a \<Rightarrow> if a_status a = APending then snd (reject bid who now s) else s | None \<Rightarrow> s"
  have cs: "cancel_step who now t s = snd (cancelUnstartedAction bid now ?s)"
    unfolding cancel_step_def Some option.case Let_def ..
  have np: "a_status a \<noteq> APending" if "getAgentAction bid ?s = Some a" for a
    using that reject_pending_status [of bid s _ who now] by (auto split: option.splits if_splits)
  show ?thesis
  proof (cases "bid = aid")
    case True
    with cancelUnstarted_lets_go [OF np] cs show ?thesis by simp
  next
    case False
    have "s_action_id t = Some bid" using Some by (auto split: option.splits list.splits)
    with False assms have "let_go aid s" by simp
    then have "let_go aid ?s"
      using False by (simp add: let_go_def reject_pending_frame split: option.split)
    with cancelUnstarted_other [OF False] cs show ?thesis by simp
  qed
qed

lemma cancel_steps_let_go:
  "let_go aid s \<or> (\<exists>t\<in>set ts. s_action_id t = Some aid) \<and> aid \<noteq> [] \<Longrightarrow> let_go aid (fold (cancel_step who now) ts s)"
proof (induction ts arbitrary: s)
  case (Cons t ts)
  show ?case
  proof (cases "let_go aid (cancel_step who now t s)")
    case True
    then show ?thesis using Cons.IH by simp
  next
    case False
    with cancel_step_lets_go [of aid s t who now] Cons.prems show ?thesis by (auto intro!: Cons.IH)
  qed
qed simp

lemma fold_cancel_frame: "steps (fold (cancel_step who now) ts s) = steps s"
  by (induction ts arbitrary: s) (simp_all add: cancel_step_frame)

lemma getRun_frame: "queue (snd (getRun r now s)) = queue s" "actions (snd (getRun r now s)) = actions s"
  "\<exists>f. steps (snd (getRun r now s)) = map f (steps s) \<and> (\<forall>t. s_run_id (f t) = s_run_id t \<and> s_action_id (f t) = s_action_id t)"
proof -
  show "queue (snd (getRun r now s)) = queue s" "actions (snd (getRun r now s)) = actions s"
    by (simp_all add: getRun_def Let_def split: option.splits)
  show "\<exists>f. steps (snd (getRun r now s)) = map f (steps s) \<and> (\<forall>t. s_run_id (f t) = s_run_id t \<and> s_action_id (f t) = s_action_id t)"
  proof (cases "get_run_row r s")
    case None
    then have "steps (snd (getRun r now s)) = map id (steps s)" by (simp add: getRun_def)
    then show ?thesis by (metis id_apply)
  next
    case (Some row)
    then show ?thesis
      by (intro exI [of _ "refresh_step s r now"]) (simp add: getRun_def Let_def refresh_step_def set_step_status_def)
  qed
qed

text \<open>
  Cancelling a run lets go of everything that has not started: afterwards no action of the
  run waits for approval, and no action of the run that has not executed waits in the queue
  for a first attempt or a retry.
\<close>

theorem cancelled_run_lets_go:
  assumes "cancelRun runId who now s = (Some v, s')" and "rv_cancellationRequested v"
    and "t \<in> set (steps s')" and "s_run_id t = runId" and "s_action_id t = Some aid" and "aid \<noteq> []"
    and "getAgentAction aid s' = Some a"
  shows "a_status a \<noteq> APending \<and>
    (a_status a \<noteq> AExecuted \<longrightarrow> (\<forall>q\<in>set (queue s'). q_action_id q = aid \<longrightarrow> q_status q \<notin> {Queued, Retry_wait}))"
proof -
  obtain v1 s1 where r: "requestRunCancellation runId who now now now s = (Some v1, s1)" "rv_cancellationRequested v1"
    and s': "(Some v, s') = getRun runId now (fold (cancel_step who now) (run_steps runId s1) s1)"
    using assms(1,2) by (auto simp: cancelRun_def split: prod.splits option.splits if_splits)
  let ?u = "fold (cancel_step who now) (run_steps runId s1) s1"
  from s' have s'': "s' = snd (getRun runId now ?u)" by (metis snd_conv)
  from getRun_frame(3) [of runId now ?u] obtain f where f: "steps s' = map f (steps s1)"
    "\<forall>t. s_run_id (f t) = s_run_id t \<and> s_action_id (f t) = s_action_id t"
    unfolding s'' fold_cancel_frame by blast
  from assms(3) f obtain t0 where "t0 \<in> set (steps s1)" "t = f t0" by auto
  with assms(4,5) f(2) have "t0 \<in> set (run_steps runId s1)" "s_action_id t0 = Some aid" by (auto simp: run_steps_def)
  with assms(6) have "let_go aid ?u" by (intro cancel_steps_let_go) blast
  then have "let_go aid s'" by (simp add: s'' let_go_def getRun_frame getAgentAction_def)
  with assms(7) show ?thesis by (simp add: let_go_def)
qed

section \<open>Canonical arguments compare as values\<close>

abbreviation canon_entry :: "string \<times> jsval \<Rightarrow> string \<times> jsval" where
  "canon_entry p \<equiv> (fst p, canonicalArguments (snd p))"

lemma map_fst_canon: "map fst (map canon_entry ps) = map fst ps"
  by simp

lemma sort_entries_eq:
  assumes "distinct (map fst xs)" and "distinct (map fst ys)"
  shows "sort_key fst xs = sort_key fst ys \<longleftrightarrow> set xs = set (ys :: (string \<times> 'v) list)"
proof
  assume "sort_key fst xs = sort_key fst ys"
  then show "set xs = set ys" by (metis set_sort)
next
  assume eq: "set xs = set ys"
  have "mset xs = mset ys"
    using eq assms by (simp add: set_eq_iff_mset_eq_distinct [symmetric] distinct_map)
  moreover have "inj_on fst (set xs)" using assms(1) by (simp add: distinct_map)
  ultimately show "sort_key fst xs = sort_key fst ys"
    by (intro sort_key_inj_key_eq) auto
qed

lemma canon_objects:
  assumes IH: "\<And>p w. p \<in> set a \<Longrightarrow> wf_js (snd p) \<Longrightarrow> wf_js w \<Longrightarrow> canonicalArguments (snd p) = canonicalArguments w \<longleftrightarrow> deep_eq (snd p) w"
    and wf: "wf_js (JObj a)" "wf_js (JObj b)"
  shows "canonicalArguments (JObj a) = canonicalArguments (JObj b) \<longleftrightarrow> deep_eq (JObj a) (JObj b)"
proof -
  have da: "distinct (map fst a)" "distinct (map fst b)" using wf by simp_all
  have wp: "wf_js (snd p)" if "p \<in> set a \<union> set b" for p using wf that by (auto simp: list_all_iff)
  have eq: "canonicalArguments (JObj a) = canonicalArguments (JObj b) \<longleftrightarrow> canon_entry ` set a = canon_entry ` set b"
    using sort_entries_eq [of "map canon_entry a" "map canon_entry b"] da by (simp add: o_def)
  have len: "length ps = card (canon_entry ` set ps)" if "distinct (map fst ps)" for ps :: "(string \<times> jsval) list"
    using that distinct_card [of "map canon_entry ps"] by (simp add: distinct_map inj_on_def)
  have sub: "list_all (\<lambda>p. case map_of b (fst p) of Some x \<Rightarrow> deep_eq (snd p) x | None \<Rightarrow> False) a \<longleftrightarrow>
      canon_entry ` set a \<subseteq> canon_entry ` set b"
  proof
    assume l: "list_all (\<lambda>p. case map_of b (fst p) of Some x \<Rightarrow> deep_eq (snd p) x | None \<Rightarrow> False) a"
    show "canon_entry ` set a \<subseteq> canon_entry ` set b"
    proof
      fix e assume "e \<in> canon_entry ` set a"
      then obtain p where p: "p \<in> set a" "e = canon_entry p" by blast
      with l obtain x where x: "map_of b (fst p) = Some x" "deep_eq (snd p) x" by (auto simp: list_all_iff split: option.splits)
      from map_of_SomeD [OF x(1)] have m: "(fst p, x) \<in> set b" .
      with wp [of "(fst p, x)"] have "wf_js x" by simp
      with IH [OF p(1) wp] p(1) x(2) have "canonicalArguments (snd p) = canonicalArguments x" by simp
      with p(2) have "e = canon_entry (fst p, x)" by simp
      with m show "e \<in> canon_entry ` set b" by blast
    qed
  next
    assume l: "canon_entry ` set a \<subseteq> canon_entry ` set b"
    show "list_all (\<lambda>p. case map_of b (fst p) of Some x \<Rightarrow> deep_eq (snd p) x | None \<Rightarrow> False) a"
    proof (unfold list_all_iff, rule)
      fix p assume p: "p \<in> set a"
      with l obtain q where q: "q \<in> set b" "fst p = fst q" "canonicalArguments (snd p) = canonicalArguments (snd q)" by auto
      have "map_of b (fst p) = Some (snd q)" using da(2) q(1,2) by (metis map_of_is_SomeI prod.collapse)
      moreover have "deep_eq (snd p) (snd q)" using IH [OF p, of "snd q"] wp [of p] wp [of q] p q by simp
      ultimately show "case map_of b (fst p) of Some x \<Rightarrow> deep_eq (snd p) x | None \<Rightarrow> False" by simp
    qed
  qed
  have de: "deep_eq (JObj a) (JObj b) \<longleftrightarrow> length a = length b \<and> canon_entry ` set a \<subseteq> canon_entry ` set b"
    unfolding sub [symmetric] by simp
  show ?thesis
  proof (unfold eq de len [OF da(1)] len [OF da(2)], rule iffI)
    assume "card (canon_entry ` set a) = card (canon_entry ` set b) \<and> canon_entry ` set a \<subseteq> canon_entry ` set b"
    then show "canon_entry ` set a = canon_entry ` set b" by (intro card_subset_eq) auto
  qed simp
qed

lemma canon_iff_deep_eq:
  "wf_js a \<Longrightarrow> wf_js b \<Longrightarrow> canonicalArguments a = canonicalArguments b \<longleftrightarrow> deep_eq a b"
proof (induction a arbitrary: b)
  case (JArr vs)
  show ?case
  proof (cases b)
    case (JArr ws)
    have "map canonicalArguments vs = map canonicalArguments ws \<longleftrightarrow> length vs = length ws \<and> list_all (\<lambda>p. deep_eq (fst p) (snd p)) (zip vs ws)"
      using JArr.IH JArr.prems \<open>b = JArr ws\<close>
      by (auto simp: list_all_length list_eq_iff_nth_eq list_all_iff)
    with JArr show ?thesis by simp
  qed simp_all
next
  case (JObj ps)
  show ?case
  proof (cases b)
    case (JObj qs)
    show ?thesis unfolding JObj
      by (rule canon_objects) (use JObj.IH JObj.prems \<open>b = JObj qs\<close> in \<open>auto simp: prod_set_defs\<close>)
  qed simp_all
qed (case_tac b; simp)+

text \<open>
  Two argument values have the same canonical form exactly if they are equal as values,
  whatever the order in which their keys were written: this is what makes the detection of
  repeated actions independent of how a model spells its arguments.
\<close>

theorem canonical_form_decides_equality:
  assumes "wf_js a" and "wf_js b"
  shows "canonicalArguments a = canonicalArguments b \<longleftrightarrow> deep_eq a b"
  by (rule canon_iff_deep_eq [OF assms])

theorem canonical_form_decides_equality_witness:
  "canonicalArguments (JObj [(''b'', JNum 1), (''a'', JArr [JNull])]) = canonicalArguments (JObj [(''a'', JArr [JNull]), (''b'', JNum 1)])"
  by (subst canonical_form_decides_equality; code_simp)

section \<open>A run of two dependent mails\<close>

definition ex_agent :: "worker_env \<Rightarrow> agent_env" where
  "ex_agent w = \<lparr>ae_worker = w, ae_voice = \<lparr>vc_standard = 1, vc_private = 1, vc_privateDomains = []\<rparr>, ae_model = ''m''\<rparr>"

definition ex_io :: "nat \<Rightarrow> call_io" where
  "ex_io n = \<lparr>io_action = (if n = 0 then ''a0'' else ''a1''), io_audit = ''x'', io_queue = (if n = 0 then ''q0'' else ''q1''),
     io_attempt = (if n = 0 then ''t0'' else ''t1''), io_now = 5, io_run = ex_run\<rparr>"

definition ex_mail :: "nat \<Rightarrow> plan_action" where
  "ex_mail n = \<lparr>pa_tool = ''email.send'', pa_arguments = JObj [], pa_dependsOn = [0..<n]\<rparr>"

definition ex_mail_step :: "nat \<Rightarrow> step_status \<Rightarrow> string option \<Rightarrow> step_row" where
  "ex_mail_step n st aid = \<lparr>s_run_id = ''r'', s_index = n, s_tool = ''email.send'', s_arguments = JObj [(''n'', JNum (of_nat n))],
     s_depends_on = [0..<n], s_context_provenance = [], s_account_context = None, s_model_id = None, s_status = st,
     s_action_id = aid, s_created_at = 1, s_updated_at = 1\<rparr>"

definition ex_mail_run :: run_row where
  "ex_mail_run = new_run ''r'' 0 0 (ex_goal_input\<lparr>ri_goalId := None\<rparr>) None"

definition ex_round :: round_input where
  "ex_round = \<lparr>ri_run = ''r'', ri_actor = ''o'', ri_text = ''x'', ri_corr = ''c'', ri_voiceOf = None, ri_reasoning = None,
     ri_provenance = [], ri_modelId = ''m'', ri_base = 0\<rparr>"

definition ex_proposal :: "string option \<Rightarrow> proposal" where
  "ex_proposal run = (round_proposal ex_round ''a0'' (Some (Some ex_binding, None)) (ex_mail 0))\<lparr>pr_runId := run\<rparr>"

lemma ex_gate_queue: "map q_status (queue (snd (evaluateAndMaybeExecute (ex_agent ex_env) (ex_io 0) (ex_proposal None) empty_db))) = [Completed]"
  by code_simp

theorem gate_queues_only_authorized_witness:
  "queue (snd (evaluateAndMaybeExecute (ex_agent ex_env) (ex_io 0) (ex_proposal None) empty_db)) \<noteq> [] \<and>
   (\<exists>t. we_tools ex_env ''email.send'' = Some t \<and> executes (action_evaluate (we_policies ex_env) t (JObj []) empty_db))"
proof -
  let ?r = "evaluateAndMaybeExecute (ex_agent ex_env) (ex_io 0) (ex_proposal None) empty_db"
  have q: "queue (snd ?r) \<noteq> queue empty_db" using ex_gate_queue by (auto simp: empty_db_def)
  have e: "ae_worker (ex_agent ex_env) = ex_env" "pr_tool (ex_proposal None) = ''email.send''" "pr_arguments (ex_proposal None) = JObj []"
    by (simp_all add: ex_agent_def ex_proposal_def round_proposal_def ex_mail_def)
  from gate_queues_only_authorized [OF prod.collapse [symmetric], of "ex_agent ex_env" "ex_io 0" "ex_proposal None" empty_db, unfolded e] q
  have "\<exists>t. we_tools ex_env ''email.send'' = Some t \<and> executes (action_evaluate (we_policies ex_env) t (JObj []) empty_db)"
    by blast
  with q show ?thesis by (simp add: empty_db_def)
qed

lemma ex_mail_run_sel: "r_id ex_mail_run = ''r''" "r_status ex_mail_run = R_planning" "r_cancel_requested_at ex_mail_run = None"
  "r_goal_id ex_mail_run = None" "r_step_count ex_mail_run = 0"
  by (simp_all add: ex_mail_run_def new_run_def ex_goal_input_def)

text \<open>A proposal the policy wants to ask about is answered with its own id.\<close>

lemma gate_asks:
  assumes "resolve_tool (we_tools (ae_worker env)) (pr_tool p) = Inr t" and "pr_actionId p = Some aid" and "aid \<noteq> []"
    and "getAgentAction aid s = None" and "autonomyLevel (proposal_evaluation env p t s) = Level n"
    and "requiresApproval (proposal_evaluation env p t s)" and "\<not> blocked (proposal_evaluation env p t s)" and "\<not> run_cancelled (pr_runId p) s"
  obtains o' s' where "evaluateAndMaybeExecute env io p s = (Inr (Some o'), s')" "oc_id o' = aid" "oc_status o' = S_pending"
    "runs s' = runs s" "steps s' = steps s"
proof -
  obtain x s1 where d: "recordDecision (io_audit io) (io_now io) (proposal_decision env p t s) s = (x, s1)"
    by (cases "recordDecision (io_audit io) (io_now io) (proposal_decision env p t s) s")
  have "audit_id (io_audit io) (decision_audit (proposal_decision env p t s)) = aid"
    using assms(2,3) by (cases aid) (simp_all add: audit_id_def decision_audit_def proposal_decision_def)
  with d assms obtain row where row: "x = Inr row" "a_id row = aid" "steps s1 = steps s"
    by (auto simp: recordDecision_def recordAudit_def decision_audit_def proposal_decision_def Let_def audit_row_def publish_def)
  have "\<not> run_cancelled (pr_runId p) s1" using assms(8) recordDecision_frame [OF d] run_cancelled_cong [of s1 s] by simp
  with assms row d recordDecision_frame [OF d] that show thesis
    by (simp add: evaluateAndMaybeExecute_def gate_prepare_def Let_def stopped_outcome_def)
qed

definition ex_round_db :: db where
  "ex_round_db = empty_db\<lparr>runs := [ex_mail_run], steps := [ex_mail_step 0 S_planned None, ex_mail_step 1 S_planned None]\<rparr>"

definition ex_round_start :: round_state where
  "ex_round_start = \<lparr>ro_results = [], ro_attempted = [], ro_pending = [], ro_observed = [], ro_stop = None\<rparr>"

definition ex_round_end :: "(js_error + round_state) \<times> db" where
  "ex_round_end = round_actions (ex_agent ex_confirm_env) ex_round ex_io [Some (Some ex_binding, None)] 0 [ex_mail 0, ex_mail 1] ex_round_start ex_round_db"

lemma ex_run_open:
  assumes "runs s = [r]" and "r = ex_mail_run \<or> r = count_step 5 ex_mail_run"
  shows "\<not> isCancellationRequested ''r'' s" "getBudgetStopReason ''r'' 5 s = None" "getGoalForRun ''r'' s = None"
  using assms
  by (auto simp: isCancellationRequested_def getBudgetStopReason_def getGoalForRun_def get_run_row_def count_step_def ex_mail_run_def
      new_run_def ex_goal_input_def deadline_passed_def DEFAULT_RUN_ELAPSED_MS_def DEFAULT_RUN_STEP_LIMIT_def)

lemma ex_mail_run_within: "within_budget 5 ex_mail_run"
  by (simp add: within_budget_def deadline_ahead_def ex_mail_run_def new_run_def ex_goal_input_def DEFAULT_RUN_ELAPSED_MS_def DEFAULT_RUN_STEP_LIMIT_def)

lemma ex_first_starts:
  obtains ro s where "round_prepare ex_round (ex_io 0) 0 (ex_mail 0) ex_round_start ex_round_db = (Inr (Start ''a0'' ro), s)"
    "ro_results ro = []" "runs s = [count_step 5 ex_mail_run]" "actions s = []"
proof -
  have o: "runs ex_round_db = [ex_mail_run]" by (simp add: ex_round_db_def)
  have "\<exists>s. beginRunStep ''a0'' ''r'' 0 5 5 5 ex_round_db = (Inr ''a0'', s) \<and> runs s = [count_step 5 ex_mail_run] \<and> actions s = []"
    using ex_mail_run_within ex_run_open [OF o] unfolding beginRunStep_def
    by (simp add: ex_round_db_def sql_changes_def ex_mail_run_sel ex_mail_step_def empty_db_def Let_def)
  then show thesis
    using that ex_run_open [OF o]
    by (auto simp: round_prepare_def ex_round_def ex_io_def unmet_dependencies_def ex_mail_def ex_round_start_def Let_def)
qed

lemma ex_second_waits:
  assumes "runs s = [count_step 5 ex_mail_run]" and "ro_results ro = [r]" and "sr_status r = S_pending"
  shows "\<exists>ro' s'. round_action env ex_round (ex_io 1) 1 acct (ex_mail 1) ro s = (Inr ro', s') \<and>
    ro_results ro' = [r, not_attempted S_waiting_dependency (ex_mail 1) ''Waiting for prerequisite action; no attempt was made'']"
  using assms ex_run_open [OF assms(1)]
  by (auto simp: round_action_def round_prepare_def ex_round_def ex_io_def unmet_dependencies_def ex_mail_def dependency_status_def
      js_nth_def waiting_statuses_def add_round_result_def Let_def)

lemma ex_round_ends:
  obtains ro s where "ex_round_end = (Inr ro, s)" "map sr_status (ro_results ro) = [S_pending, S_waiting_dependency]"
    "sr_id (ro_results ro ! 0) = Some ''a0''"
proof -
  obtain ro s where s: "round_prepare ex_round (ex_io 0) 0 (ex_mail 0) ex_round_start ex_round_db = (Inr (Start ''a0'' ro), s)"
    "ro_results ro = []" "runs s = [count_step 5 ex_mail_run]" "actions s = []" by (rule ex_first_starts)
  let ?p = "round_proposal ex_round ''a0'' (Some (Some ex_binding, None)) (ex_mail 0)"
  let ?t = "ex_tool ''email.send'' ''email''"
  note op = ex_run_open [OF s(3)]
  have ev: "proposal_evaluation (ex_agent ex_confirm_env) ?p ?t s = action_evaluate (we_policies ex_confirm_env) ?t (JObj []) s"
    using op by (simp add: proposal_evaluation_def gate_evaluation_def round_proposal_def ex_round_def proposal_account_def ex_mail_def
        ex_agent_def applyPackageAuthority_def applyBinding_def applyGoalScope_def goal_blocks_def applyVoiceAuthorization_def)
  obtain o' s1 where g: "evaluateAndMaybeExecute (ex_agent ex_confirm_env) (ex_io 0) ?p s = (Inr (Some o'), s1)"
    "oc_id o' = ''a0''" "oc_status o' = S_pending" "runs s1 = runs s" "steps s1 = steps s"
  proof (rule gate_asks [where env = "ex_agent ex_confirm_env" and p = ?p and t = ?t and aid = "''a0''" and s = s and n = 3 and io = "ex_io 0"])
    show "resolve_tool (we_tools (ae_worker (ex_agent ex_confirm_env))) (pr_tool ?p) = Inr ?t"
      by (simp add: ex_agent_def round_proposal_def ex_mail_def resolve_tool_def ex_confirm)
    show "\<not> run_cancelled (pr_runId ?p) s" using op by (simp add: run_cancelled_def round_proposal_def ex_round_def)
    show "autonomyLevel (proposal_evaluation (ex_agent ex_confirm_env) ?p ?t s) = Level 3"
      unfolding ev by (simp add: ex_confirm_env_def ex_env_def action_evaluate_def buildEvalContext_def policy_eval_simps ends_with_def)
    show "requiresApproval (proposal_evaluation (ex_agent ex_confirm_env) ?p ?t s)" "\<not> blocked (proposal_evaluation (ex_agent ex_confirm_env) ?p ?t s)"
      unfolding ev by (rule ex_confirm)+
  qed (use s(4) in \<open>simp_all add: round_proposal_def getAgentAction_def\<close>)
  let ?s = "recordRunStepOutcome ''r'' 0 S_pending (run_later (io_run (ex_io 0))) s1"
  let ?ro = "round_settle ex_round 0 (ex_mail 0) o' ro"
  have a0: "round_action (ex_agent ex_confirm_env) ex_round (ex_io 0) 0 (Some (Some ex_binding, None)) (ex_mail 0) ex_round_start ex_round_db = (Inr ?ro, ?s)"
    using s(1) g(1,3) by (simp add: round_action_def ex_round_def)
  obtain r where r: "ro_results ?ro = [r]" "sr_status r = S_pending" "sr_id r = Some ''a0''"
    using s(2) g(2,3) by (simp add: round_settle_def add_round_result_def Let_def)
  have "runs ?s = [count_step 5 ex_mail_run]" using g(4) s(3) by (simp add: recordRunStepOutcome_def)
  from ex_second_waits [OF this r(1,2)] obtain ro2 s2 where
    "round_action (ex_agent ex_confirm_env) ex_round (ex_io 1) 1 None (ex_mail 1) ?ro ?s = (Inr ro2, s2)"
    "ro_results ro2 = [r, not_attempted S_waiting_dependency (ex_mail 1) ''Waiting for prerequisite action; no attempt was made'']"
    by blast
  with a0 r that show thesis by (simp add: ex_round_end_def js_nth_def not_attempted_def)
qed

theorem round_respects_dependencies_witness:
  "\<exists>ro s. ex_round_end = (Inr ro, s) \<and> sr_id (ro_results ro ! 0) = Some ''a0'' \<and> sr_id (ro_results ro ! 1) = None"
proof -
  obtain ro s where r: "ex_round_end = (Inr ro, s)" "map sr_status (ro_results ro) = [S_pending, S_waiting_dependency]"
    "sr_id (ro_results ro ! 0) = Some ''a0''" by (rule ex_round_ends)
  then have "sr_status (ro_results ro ! 0) \<noteq> S_executed" by (auto simp: map_eq_Cons_conv)
  with round_respects_dependencies [OF r(1) [unfolded ex_round_end_def]]
  have "sr_id (ro_results ro ! 1) = None" by (force simp: ex_mail_def ex_round_start_def)
  with r show ?thesis by blast
qed

text \<open>The second mail, deferred until the first had executed.\<close>

definition ex_deferred :: db where
  "ex_deferred = empty_db\<lparr>runs := [ex_mail_run], steps := [ex_mail_step 0 S_executed None, ex_mail_step 1 S_waiting_dependency None]\<rparr>"

lemma ex_mail_step_settled:
  assumes "st \<noteq> S_running"
  shows "current_status s (ex_mail_step n st None) = st" "refresh_step s r now (ex_mail_step n st None) = ex_mail_step n st None"
    "s_index (ex_mail_step n st None) = n" "s_run_id (ex_mail_step n st None) = ''r''" "s_status (ex_mail_step n st None) = st"
    "s_action_id (ex_mail_step n st None) = None"
  using assms by (simp_all add: current_status_def currentStepStatus_def refresh_step_def ex_mail_step_def Let_def)

lemma ex_mails_differ: "\<not> repeated_step ''r'' (ex_mail_step 1 S_waiting_dependency None) ex_deferred"
proof -
  have "json_text (canonicalArguments (s_arguments (ex_mail_step 0 S_executed None))) \<noteq>
      json_text (canonicalArguments (s_arguments (ex_mail_step 1 S_waiting_dependency None)))" by code_simp
  then show ?thesis by (auto simp: repeated_step_def run_steps_def ex_deferred_def ex_mail_step_settled)
qed

lemma ex_deferred_read:
  obtains v where "getRun ''r'' 5 ex_deferred = (Some v, ex_deferred)"
    "map sv_index (rv_steps v) = [0, 1]" "map sv_status (rv_steps v) = [S_executed, S_waiting_dependency]"
proof -
  have rs: "run_steps ''r'' ex_deferred = [ex_mail_step 0 S_executed None, ex_mail_step 1 S_waiting_dependency None]"
    by (simp add: run_steps_def ex_deferred_def ex_mail_step_settled)
  have g: "get_run_row ''r'' ex_deferred = Some ex_mail_run" by (simp add: get_run_row_def ex_deferred_def ex_mail_run_sel)
  have "ex_deferred\<lparr>steps := map (refresh_step ex_deferred ''r'' 5) (steps ex_deferred), runs := runs ex_deferred\<rparr> = ex_deferred"
    by (simp add: ex_deferred_def ex_mail_step_settled)
  with that show thesis
    by (simp add: getRun_def g rs run_status_now_def ex_mail_run_sel view_of_def Let_def ex_mail_step_settled)
qed

lemma ex_resumes:
  obtains s' where "resume_prepare (ex_io 1) ''r'' (ex_mail_step 1 S_waiting_dependency None) ex_deferred = (Inr (Resume ''a1''), s')"
proof -
  have o: "runs ex_deferred = [ex_mail_run]" by (simp add: ex_deferred_def)
  obtain v where v: "getRun ''r'' 5 ex_deferred = (Some v, ex_deferred)"
    "map sv_index (rv_steps v) = [0, 1]" "map sv_status (rv_steps v) = [S_executed, S_waiting_dependency]" by (rule ex_deferred_read)
  then obtain x where x: "dependency_views v (ex_mail_step 1 S_waiting_dependency None) = [Some x]" "sv_status x = S_executed"
    by (auto simp: dependency_views_def ex_mail_step_def map_eq_Cons_conv)
  have "\<exists>s. beginRunStep ''a1'' ''r'' 1 5 5 5 ex_deferred = (Inr ''a1'', s)"
    using ex_mail_run_within ex_run_open [OF o] unfolding beginRunStep_def
    by (simp add: ex_deferred_def sql_changes_def ex_mail_run_sel ex_mail_step_settled Let_def)
  with that v x ex_mails_differ ex_run_open [OF o] show thesis
    by (auto simp: resume_prepare_def ex_io_def ex_mail_step_settled dead_statuses_def Let_def)
qed

theorem deferred_step_waits_witness:
  "\<exists>s'. resume_prepare (ex_io 1) ''r'' (ex_mail_step 1 S_waiting_dependency None) ex_deferred = (Inr (Resume ''a1''), s') \<and>
     (\<exists>v s1. getRun ''r'' 5 ex_deferred = (Some v, s1) \<and> (\<exists>x\<in>set (rv_steps v). sv_index x = 0 \<and> sv_status x = S_executed))"
proof -
  obtain s' where r: "resume_prepare (ex_io 1) ''r'' (ex_mail_step 1 S_waiting_dependency None) ex_deferred = (Inr (Resume ''a1''), s')"
    by (rule ex_resumes)
  have "io_now (ex_io 1) = 5" "0 \<in> set (s_depends_on (ex_mail_step 1 S_waiting_dependency None))" by (simp_all add: ex_io_def ex_mail_step_def)
  with deferred_step_waits [OF r] r show ?thesis by metis
qed

text \<open>A run with an action that waits for approval.\<close>

definition ex_running :: db where
  "ex_running = ex_pending\<lparr>runs := [ex_mail_run], steps := [ex_mail_step 0 S_pending (Some ''a'')]\<rparr>"

lemma refresh_step_sel: "s_run_id (refresh_step s r now t) = s_run_id t" "s_action_id (refresh_step s r now t) = s_action_id t"
  by (simp_all add: refresh_step_def set_step_status_def)

lemma getRun_found:
  assumes "get_run_row r s = Some row"
  obtains v s' where "getRun r now s = (Some v, s')" "rv_status v = run_status_now row (map (current_status s) (run_steps r s))"
    "rv_cancellationRequested v = (r_cancel_requested_at row \<noteq> None)" "r_status row = rv_status v \<Longrightarrow> runs s' = runs s"
    "actions s' = actions s" "queue s' = queue s" "steps s' = map (refresh_step s r now) (steps s)"
  using assms by (simp add: getRun_def view_of_def Let_def)

lemma getRun_row:
  assumes "get_run_row r s = Some row" and "getRun r now s = (v, s')"
  shows "\<exists>row'. get_run_row r s' = Some row' \<and> r_cancel_requested_at row' = r_cancel_requested_at row"
proof -
  have "sql_get P (sql_update P f xs) = map_option f (sql_get P xs)" if "\<And>x. P (f x) = P x" for P f and xs :: "run_row list"
    using that by (induction xs) auto
  from this [of "\<lambda>x. r_id x = r" "set_run_status (st, now)" "runs s" for st]
  have "get_run_row r (s\<lparr>runs := sql_update (\<lambda>x. r_id x = r) (set_run_status (st, now)) (runs s), steps := ts\<rparr>) = Some (set_run_status (st, now) row)" for st ts
    using assms(1) by (simp add: get_run_row_def set_run_status_def)
  then show ?thesis using assms by (auto simp: getRun_def Let_def set_run_status_def get_run_row_def split: if_splits)
qed

lemma ex_cancel_requested:
  obtains v s where "requestRunCancellation ''r'' ''o'' 9 9 9 ex_running = (Some v, s)" "rv_cancellationRequested v"
    "actions s = actions ex_pending" "queue s = []" "\<exists>r. get_run_row ''r'' s = Some r \<and> r_cancel_requested_at r \<noteq> None"
    "map s_run_id (steps s) = [''r'']" "map s_action_id (steps s) = [Some ''a'']"
proof -
  have "get_run_row ''r'' ex_running = Some ex_mail_run" by (simp add: get_run_row_def ex_running_def ex_mail_run_sel)
  then obtain v s1 where v: "getRun ''r'' 9 ex_running = (Some v, s1)" "rv_status v = R_planning" "runs s1 = [ex_mail_run]"
    "actions s1 = actions ex_pending" "queue s1 = []" "map s_run_id (steps s1) = [''r'']" "map s_action_id (steps s1) = [Some ''a'']"
    by (rule getRun_found [where now = 9])
      (simp_all add: run_status_now_def ex_mail_run_sel ex_running_def ex_pending_sel refresh_step_sel ex_mail_step_def)
  let ?s = "s1\<lparr>runs := sql_update (\<lambda>r. r_id r = ''r'') (cancel_run (''o'', 9)) (runs s1),
               steps := sql_update (unstarted_step ''r'') (set_step_status (S_cancelled, 9)) (steps s1)\<rparr>"
  have sel: "map s_run_id (steps ?s) = [''r'']" "map s_action_id (steps ?s) = [Some ''a'']"
    using v(6,7) by (auto simp: map_eq_Cons_conv set_step_status_def)
  have row: "get_run_row ''r'' ?s = Some (cancel_run (''o'', 9) ex_mail_run)" using v(3) by (simp add: get_run_row_def ex_mail_run_sel cancel_run_def)
  then obtain w s2 where w: "getRun ''r'' 9 ?s = (Some w, s2)" "rv_cancellationRequested w" "actions s2 = actions ?s" "queue s2 = queue ?s"
    "steps s2 = map (refresh_step ?s ''r'' 9) (steps ?s)"
    by (rule getRun_found [where now = 9]) (simp_all add: cancel_run_def ex_mail_run_sel)
  have "\<exists>r. get_run_row ''r'' s2 = Some r \<and> r_cancel_requested_at r \<noteq> None"
    using getRun_row [OF row w(1)] by (auto simp: cancel_run_def split: option.splits)
  moreover have "map s_run_id (steps s2) = [''r'']" "map s_action_id (steps s2) = [Some ''a'']"
    unfolding w(5) map_map o_def refresh_step_sel using sel by simp_all
  ultimately show thesis using v w that by (simp add: requestRunCancellation_def)
qed

theorem cancelled_run_lets_go_witness:
  "\<exists>v s a. cancelRun ''r'' ''o'' 9 ex_running = (Some v, s) \<and> getAgentAction ''a'' s = Some a \<and> a_status a \<noteq> APending"
proof -
  obtain v s where c: "requestRunCancellation ''r'' ''o'' 9 9 9 ex_running = (Some v, s)" "rv_cancellationRequested v"
    "actions s = actions ex_pending" "queue s = []" "\<exists>r. get_run_row ''r'' s = Some r \<and> r_cancel_requested_at r \<noteq> None"
    "map s_run_id (steps s) = [''r'']" "map s_action_id (steps s) = [Some ''a'']" by (rule ex_cancel_requested)
  then obtain t where t: "steps s = [t]" "s_run_id t = ''r''" "s_action_id t = Some ''a''" by (auto simp: map_eq_Cons_conv)
  let ?u = "cancel_step ''o'' 9 t s"
  obtain p where "getAgentAction ''a'' s = Some p" "a_status p = APending"
    using ex_pending_action c(3) by (simp add: getAgentAction_def decision_audit_def audit_row_def ex_decision_def decision_status_def)
  then have u: "?u = snd (cancelUnstartedAction ''a'' 9 (snd (reject ''a'' ''o'' 9 s)))"
    "getAgentAction ''a'' (snd (reject ''a'' ''o'' 9 s)) \<noteq> None"
    using t reject_pending_status [of "''a''" s p "''o''" 9] by (auto simp: cancel_step_def)
  have u3: "?u = snd (reject ''a'' ''o'' 9 s)" unfolding u by (simp add: cancelUnstartedAction_def reject_pending_frame c(4) Let_def)
  with u(2) obtain b where b: "getAgentAction ''a'' ?u = Some b" by auto
  have "runs (snd (reject ''a'' ''o'' 9 s)) = runs s" by (simp add: reject_def Let_def split: sum.splits)
  with c(5) u3 obtain r where gr: "get_run_row ''r'' ?u = Some r" "r_cancel_requested_at r \<noteq> None" by (auto simp: get_run_row_def)
  obtain w s2 where w: "getRun ''r'' 9 ?u = (Some w, s2)" "actions s2 = actions ?u" "steps s2 = map (refresh_step ?u ''r'' 9) (steps ?u)"
     "rv_cancellationRequested w" by (rule getRun_found [OF gr(1), where now = 9]) (use gr(2) in simp_all)
  have r: "cancelRun ''r'' ''o'' 9 ex_running = (Some w, s2)" using c(1,2) t w(1) by (simp add: cancelRun_def run_steps_def)
  have "getAgentAction ''a'' s2 = Some b" using b w(2) by (simp add: getAgentAction_def)
  moreover have "refresh_step ?u ''r'' 9 t \<in> set (steps s2)" using w(3) t(1) by (simp add: cancel_step_frame)
  ultimately show ?thesis using cancelled_run_lets_go [OF r w(4)] r t by (auto simp: refresh_step_sel)
qed

end
