(* ===== verification/U2_Plan.thy ===== *)
theory U2_Plan
  imports U2_Gate
begin

text \<open>
  The boundary every model-made plan crosses: the tool registry of
  \<open>server/tools/registry.js\<close>, the strict validation of \<open>server/agent/plan-validator.js\<close> and
  the references to earlier results of \<open>server/agent/result-references.js\<close>. A plan is the
  JSON value a model returned. A tool's declared argument schema is the part of it that is
  read here (required names, a type per property); a tool's own \<open>validateArguments\<close> is a
  parameter that returns its error message.
\<close>

section \<open>Checks that fail with the first error\<close>

definition and_then :: "'e + 'a \<Rightarrow> ('a \<Rightarrow> 'e + 'b) \<Rightarrow> 'e + 'b" where
  "and_then r k = (case r of Inl e \<Rightarrow> Inl e | Inr x \<Rightarrow> k x)"

definition ensure :: "bool \<Rightarrow> string \<Rightarrow> unit res" where
  "ensure b message = (if b then Inr () else Inl (Error message))"

fun each :: "('a \<Rightarrow> unit res) \<Rightarrow> 'a list \<Rightarrow> unit res" where
  "each f [] = Inr ()"
| "each f (x # xs) = and_then (f x) (\<lambda>_. each f xs)"

lemma and_then_Inr [simp]: "and_then r k = Inr y \<longleftrightarrow> (\<exists>x. r = Inr x \<and> k x = Inr y)"
  by (cases r) (simp_all add: and_then_def)

lemma ensure_Inr [simp]: "ensure b m = Inr u \<longleftrightarrow> b"
  by (simp add: ensure_def)

lemma each_Inr [simp]: "each f xs = Inr u \<longleftrightarrow> (\<forall>x\<in>set xs. f x = Inr ())"
  by (induction xs) auto

section \<open>The tool registry\<close>

record plan_tool =
  pt_name :: string
  pt_required :: "string list"
  pt_properties :: "(string \<times> jsval option) list"   \<comment> \<open>property and its declared \<open>type\<close>\<close>
  pt_check :: "(string \<times> jsval) list \<Rightarrow> string option"   \<comment> \<open>\<open>tool.validateArguments\<close>: the message it throws\<close>
  pt_removable :: bool

record registry =
  rg_tools :: "plan_tool list"
  rg_hidden :: "string list"

definition registry_find :: "string \<Rightarrow> registry \<Rightarrow> plan_tool option" where
  "registry_find name reg = List.find (\<lambda>t. pt_name t = name) (rg_tools reg)"

definition registry_get :: "string \<Rightarrow> registry \<Rightarrow> plan_tool res" where
  "registry_get name reg =
     (case registry_find name reg of Some t \<Rightarrow> Inr t | None \<Rightarrow> Inl (Error (''Unknown tool: '' @ name)))"

definition isHidden :: "string \<Rightarrow> registry \<Rightarrow> bool" where
  "isHidden name reg \<longleftrightarrow> name \<in> set (rg_hidden reg)"

definition register_tool :: "plan_tool \<Rightarrow> bool \<Rightarrow> registry \<Rightarrow> plan_tool res \<times> registry" where
  "register_tool t hidden reg =
     (if registry_find (pt_name t) reg \<noteq> None then (Inl (Error (''Tool already registered: '' @ pt_name t)), reg)
      else (Inr t, reg\<lparr>rg_tools := rg_tools reg @ [t],
                      rg_hidden := (if hidden then List.insert (pt_name t) (rg_hidden reg) else rg_hidden reg)\<rparr>))"

definition unregister :: "string \<Rightarrow> registry \<Rightarrow> unit res \<times> registry" where
  "unregister name reg =
     (if \<not> isHidden name reg \<and> \<not> (case registry_find name reg of Some t \<Rightarrow> pt_removable t | None \<Rightarrow> False)
      then (Inl (Error (''Only hidden or removable tools can be unregistered: '' @ name)), reg)
      else (Inr (), reg\<lparr>rg_tools := filter (\<lambda>t. pt_name t \<noteq> name) (rg_tools reg),
                       rg_hidden := filter (\<lambda>n. n \<noteq> name) (rg_hidden reg)\<rparr>))"

definition list_tools :: "registry \<Rightarrow> plan_tool list" where
  "list_tools reg = filter (\<lambda>t. \<not> isHidden (pt_name t) reg) (rg_tools reg)"

section \<open>Arguments\<close>

definition MAX_ACTIONS :: nat where "MAX_ACTIONS = 10"
definition MAX_ARG_DEPTH :: nat where "MAX_ARG_DEPTH = 4"
definition MAX_MEMORY_CANDIDATES :: nat where "MAX_MEMORY_CANDIDATES = 20"

definition KNOWN_PLAN_KEYS :: "string list" where
  "KNOWN_PLAN_KEYS = [''reasoning_summary'', ''actions'', ''memoryCandidates'', ''response'', ''continue'']"
definition KNOWN_ACTION_KEYS :: "string list" where
  "KNOWN_ACTION_KEYS = [''tool'', ''arguments'', ''reason'', ''dependsOn'', ''resultRefs'', ''priorResultRefs'']"
definition CONFIDENCE_LEVELS :: "string list" where
  "CONFIDENCE_LEVELS = [''low'', ''medium'', ''high'']"

fun plainObject :: "jsval option \<Rightarrow> bool" where
  "plainObject (Some (JObj ps)) = True"
| "plainObject _ = False"

fun exceedsDepth :: "nat \<Rightarrow> nat \<Rightarrow> jsval \<Rightarrow> bool" where
  "exceedsDepth limit depth (JArr vs) = (depth > limit \<or> list_ex (exceedsDepth limit (Suc depth)) vs)"
| "exceedsDepth limit depth (JObj ps) = (depth > limit \<or> list_ex (\<lambda>p. exceedsDepth limit (Suc depth) (snd p)) ps)"
| "exceedsDepth limit depth v = (depth > limit)"

definition is_integer :: "jsval option \<Rightarrow> bool" where
  "is_integer v = (case v of Some (JNum n) \<Rightarrow> n \<in> \<int> | _ \<Rightarrow> False)"

lemma is_integer_code [code]: "is_integer v = (case v of Some (JNum n) \<Rightarrow> snd (quotient_of n) = 1 | _ \<Rightarrow> False)"
proof (cases v)
  case (Some x)
  have "n \<in> \<int> \<longleftrightarrow> snd (quotient_of n) = 1" for n :: rat
  proof
    assume "n \<in> \<int>"
    then obtain z where "n = of_int z" by (rule Ints_cases)
    then show "snd (quotient_of n) = 1" by simp
  next
    assume "snd (quotient_of n) = 1"
    then have "quotient_of n = (fst (quotient_of n), 1)" by (metis prod.collapse)
    then have "n = of_int (fst (quotient_of n))" using quotient_of_div by fastforce
    then show "n \<in> \<int>" by (metis Ints_of_int)
  qed
  with Some show ?thesis by (simp add: is_integer_def split: jsval.splits)
qed (simp add: is_integer_def)

definition matchesType :: "jsval \<Rightarrow> jsval \<Rightarrow> bool" where
  "matchesType v type =
     (if type = JStr ''array'' then (case v of JArr _ \<Rightarrow> True | _ \<Rightarrow> False)
      else if type = JStr ''object'' then plainObject (Some v)
      else if type = JStr ''number'' then (case v of JNum _ \<Rightarrow> True | _ \<Rightarrow> False)
      else if type = JStr ''integer'' then is_integer (Some v)
      else type = JStr (js_typeof (Some v)))"

text \<open>\<open>key in obj\<close> sees what every object inherits too.\<close>

definition key_in :: "string \<Rightarrow> (string \<times> 'v) list \<Rightarrow> bool" where
  "key_in k ps \<longleftrightarrow> k \<in> set (map fst ps) \<or> k \<in> set object_prototype_keys"

definition validateArguments :: "(string \<times> jsval) list \<Rightarrow> plan_tool \<Rightarrow> string \<Rightarrow> unit res" where
  "validateArguments args t toolName =
     and_then (each (\<lambda>k. ensure (key_in k args) (''Model action '' @ toolName @ '' is missing required argument '' @ k)) (pt_required t)) (\<lambda>_.
     each (\<lambda>(k, v).
       and_then (ensure (key_in k (pt_properties t)) (''Model action '' @ toolName @ '' contains unknown argument '' @ k)) (\<lambda>_.
       let type = Option.bind (map_of (pt_properties t) k) id in
       ensure (truthy type \<longrightarrow> matchesType v (the type)) (''Model action '' @ toolName @ ''.'' @ k @ '' must be '' @ js_str (the type)))) args)"

section \<open>References to results\<close>

definition path_char :: "char \<Rightarrow> bool" where
  "path_char c \<longleftrightarrow> c \<in> set (''abcdefghijklmnopqrstuvwxyzABCDEFGHIJKLMNOPQRSTUVWXYZ_0123456789'')"

definition path_digit :: "char \<Rightarrow> bool" where
  "path_digit c \<longleftrightarrow> c \<in> set (''0123456789'')"

definition path_name :: "string \<Rightarrow> bool" where
  "path_name s \<longleftrightarrow> s \<noteq> [] \<and> \<not> path_digit (hd s) \<and> list_all path_char s"

text \<open>One name, then at most two parts that are names or digits.\<close>

definition path_ok :: "string \<Rightarrow> bool" where
  "path_ok s =
     (case split_on CHR ''.'' s of
        [] \<Rightarrow> False
      | p # ps \<Rightarrow> path_name p \<and> length ps \<le> 2 \<and> list_all (\<lambda>q. path_name q \<or> q \<noteq> [] \<and> list_all path_digit q) ps)"

definition forbidden_names :: "string list" where
  "forbidden_names = [''__proto__'', ''prototype'', ''constructor'']"

definition ref_path_ok :: "jsval option \<Rightarrow> bool" where
  "ref_path_ok v =
     (case v of
        Some (JStr s) \<Rightarrow> length s \<le> 128 \<and> path_ok s \<and> list_all (\<lambda>p. p \<notin> set forbidden_names) (split_on CHR ''.'' s)
      | _ \<Rightarrow> False)"

definition natural :: "jsval option \<Rightarrow> bool" where
  "natural v \<longleftrightarrow> is_integer v \<and> (case v of Some (JNum n) \<Rightarrow> n \<ge> 0 | _ \<Rightarrow> False)"

fun obj_entries :: "jsval option \<Rightarrow> (string \<times> jsval) list" where
  "obj_entries (Some (JObj ps)) = ps"
| "obj_entries _ = []"

definition ref_target_ok :: "(string \<times> jsval) list \<Rightarrow> string list \<Rightarrow> string \<times> jsval \<Rightarrow> bool" where
  "ref_target_ok args known p \<longleftrightarrow>
     fst p \<in> set (map fst args) \<and> fst p \<notin> set forbidden_names \<and> plainObject (Some (snd p)) \<and>
     list_all (\<lambda>k. k \<in> set known) (map fst (obj_entries (Some (snd p))))"

definition validateResultRefs :: "jsval \<Rightarrow> (string \<times> jsval) list \<Rightarrow> string \<Rightarrow> unit res" where
  "validateResultRefs refs args toolName =
     (let bad = ''Model action '' @ toolName @ ''.resultRefs contains an invalid reference'' in
      and_then (ensure (plainObject (Some refs) \<and> length (obj_entries (Some refs)) \<le> 8)
                 (''Model action '' @ toolName @ ''.resultRefs must be a bounded object'')) (\<lambda>_.
      each (\<lambda>p.
        and_then (ensure (ref_target_ok args [''stepIndex'', ''itemIndex'', ''path''] p) bad) (\<lambda>_.
        let get = map_of (obj_entries (Some (snd p))) in
        ensure (natural (get ''stepIndex'') \<and> natural (get ''itemIndex'') \<and> ref_path_ok (get ''path'')) bad)) (obj_entries (Some refs))))"

definition action_id_ok :: "jsval option \<Rightarrow> bool" where
  "action_id_ok v =
     (case v of
        Some (JStr s) \<Rightarrow> starts_with s ''act_'' \<and> (let n = drop 4 s in n \<noteq> [] \<and> length n \<le> 100 \<and> list_all path_char n)
      | _ \<Rightarrow> False)"

definition validatePriorResultRefs :: "jsval \<Rightarrow> (string \<times> jsval) list \<Rightarrow> string \<Rightarrow> unit res" where
  "validatePriorResultRefs refs args toolName =
     and_then (ensure (plainObject (Some refs) \<and> length (obj_entries (Some refs)) \<le> 2)
                 (''Model action '' @ toolName @ ''.priorResultRefs must be a bounded object'')) (\<lambda>_.
      each (\<lambda>p.
        let get = map_of (obj_entries (Some (snd p))) in
        ensure (ref_target_ok args [''actionId'', ''itemIndex'', ''path''] p \<and> action_id_ok (get ''actionId'') \<and>
                natural (get ''itemIndex'') \<and> (case get ''itemIndex'' of Some (JNum n) \<Rightarrow> n \<le> 11 | _ \<Rightarrow> False) \<and>
                ref_path_ok (get ''path''))
          (''Model action '' @ toolName @ ''.priorResultRefs contains an invalid reference'')) (obj_entries (Some refs)))"

section \<open>Actions and plans\<close>

record valid_action =
  va_tool :: string
  va_arguments :: "(string \<times> jsval) list"
  va_reason :: "jsval option"
  va_dependsOn :: "jsval option"
  va_resultRefs :: "jsval option"
  va_priorResultRefs :: "jsval option"

record valid_plan =
  vp_reasoning_summary :: string
  vp_actions :: "valid_action list"
  vp_response :: "jsval option"
  vp_continue :: "jsval option"
  vp_memoryCandidates :: "jsval option"

definition validate_dependsOn :: "jsval option \<Rightarrow> nat \<Rightarrow> string \<Rightarrow> unit res" where
  "validate_dependsOn deps index toolName =
     (case deps of
        None \<Rightarrow> Inr ()
      | Some (JArr ds) \<Rightarrow>
          and_then (ensure (length ds \<le> MAX_ACTIONS) (''Model action '' @ toolName @ ''.dependsOn must be a bounded array'')) (\<lambda>_.
          each (\<lambda>d. ensure (natural (Some d) \<and> (case d of JNum n \<Rightarrow> n < of_nat index | _ \<Rightarrow> False))
                 (''Model action '' @ toolName @ ''.dependsOn contains an invalid reference (must be an earlier action's index)'')) ds)
      | Some _ \<Rightarrow> Inl (Error (''Model action '' @ toolName @ ''.dependsOn must be a bounded array'')))"

definition validateAction :: "jsval \<Rightarrow> nat \<Rightarrow> registry \<Rightarrow> unit res" where
  "validateAction action index reg =
     (case action of
        JObj a \<Rightarrow>
          and_then (each (\<lambda>k. ensure (k \<in> set KNOWN_ACTION_KEYS) (''Model action contains an unrecognized field \"'' @ k @ ''\"'')) (map fst a)) (\<lambda>_.
          (case (map_of a ''tool'', map_of a ''arguments'') of
             (Some (JStr toolName), Some (JObj args)) \<Rightarrow>
               and_then (registry_get toolName reg) (\<lambda>t.
               and_then (ensure (\<not> isHidden toolName reg) (''Unknown tool: '' @ toolName)) (\<lambda>_.
               and_then (ensure (\<not> exceedsDepth MAX_ARG_DEPTH 0 (JObj args))
                          (''Model action '' @ toolName @ '' arguments exceed the maximum nesting depth (4)'')) (\<lambda>_.
               and_then (validateArguments args t toolName) (\<lambda>_.
               and_then (case pt_check t args of None \<Rightarrow> Inr () | Some m \<Rightarrow> Inl (Error (''Model action '' @ toolName @ '': '' @ m))) (\<lambda>_.
               and_then (case map_of a ''resultRefs'' of None \<Rightarrow> Inr () | Some r \<Rightarrow> validateResultRefs r args toolName) (\<lambda>_.
               and_then (case map_of a ''priorResultRefs'' of None \<Rightarrow> Inr () | Some r \<Rightarrow> validatePriorResultRefs r args toolName) (\<lambda>_.
               and_then (ensure (list_all (\<lambda>k. k \<notin> set (map fst (obj_entries (map_of a ''priorResultRefs''))))
                                   (map fst (obj_entries (map_of a ''resultRefs''))))
                          (''Model action '' @ toolName @ '' cannot use two references for one argument'')) (\<lambda>_.
               and_then (case map_of a ''reason'' of
                           None \<Rightarrow> Inr () | Some (JStr _) \<Rightarrow> Inr ()
                         | _ \<Rightarrow> Inl (Error (''Model action '' @ toolName @ ''.reason must be a string''))) (\<lambda>_.
               validate_dependsOn (map_of a ''dependsOn'') index toolName)))))))))
           | _ \<Rightarrow> Inl (Error ''Model returned a malformed action'')))
      | _ \<Rightarrow> Inl (Error ''Model returned a malformed action''))"

definition validateMemoryCandidate :: "jsval \<Rightarrow> unit res" where
  "validateMemoryCandidate candidate =
     and_then (ensure (plainObject (Some candidate)) ''Model plan memoryCandidates entries must be objects'') (\<lambda>_.
     let c = map_of (obj_entries (Some candidate)) in
     and_then (ensure (case c ''content'' of Some (JStr s) \<Rightarrow> js_trim s \<noteq> [] | _ \<Rightarrow> False)
                ''Model plan memoryCandidates entry requires non-empty string content'') (\<lambda>_.
     ensure (case c ''confidence'' of None \<Rightarrow> True | Some v \<Rightarrow> v \<in> JStr ` set CONFIDENCE_LEVELS)
       ''Model plan memoryCandidates entry confidence must be one of: low, medium, high''))"

definition validateMemoryCandidates :: "jsval \<Rightarrow> unit res" where
  "validateMemoryCandidates candidates =
     (case candidates of
        JArr cs \<Rightarrow>
          and_then (ensure (length cs \<le> MAX_MEMORY_CANDIDATES) ''Model plan exceeds the 20-memoryCandidates limit'')
            (\<lambda>_. each validateMemoryCandidate cs)
      | _ \<Rightarrow> Inl (Error ''Model plan memoryCandidates must be an array''))"

text \<open>The action as it leaves validation: the known fields only.\<close>

definition keep_action :: "jsval \<Rightarrow> valid_action" where
  "keep_action action =
     (let a = map_of (obj_entries (Some action)) in
      \<lparr>va_tool = (case a ''tool'' of Some (JStr n) \<Rightarrow> n | _ \<Rightarrow> []), va_arguments = obj_entries (a ''arguments''),
       va_reason = a ''reason'', va_dependsOn = a ''dependsOn'', va_resultRefs = a ''resultRefs'', va_priorResultRefs = a ''priorResultRefs''\<rparr>)"

definition validatePlan :: "jsval \<Rightarrow> registry \<Rightarrow> valid_plan res" where
  "validatePlan plan reg =
     (case plan of
        JObj p \<Rightarrow>
          and_then (each (\<lambda>k. ensure (k \<in> set KNOWN_PLAN_KEYS) (''Model plan contains an unrecognized field \"'' @ k @ ''\"'')) (map fst p)) (\<lambda>_.
          (case map_of p ''reasoning_summary'' of
             Some (JStr summary) \<Rightarrow>
               (case map_of p ''actions'' of
                  Some (JArr as') \<Rightarrow>
                    and_then (ensure (length as' \<le> MAX_ACTIONS) ''Model plan exceeds the 10-action limit'') (\<lambda>_.
                    and_then (each (\<lambda>(i, a). validateAction a i reg) (zip [0..<length as'] as')) (\<lambda>_.
                    and_then (case map_of p ''response'' of None \<Rightarrow> Inr () | Some (JStr _) \<Rightarrow> Inr ()
                              | _ \<Rightarrow> Inl (Error ''Model plan response must be a string'')) (\<lambda>_.
                    and_then (case map_of p ''continue'' of None \<Rightarrow> Inr () | Some (JBool _) \<Rightarrow> Inr ()
                              | _ \<Rightarrow> Inl (Error ''Model plan continue must be boolean'')) (\<lambda>_.
                    and_then (case map_of p ''memoryCandidates'' of None \<Rightarrow> Inr () | Some c \<Rightarrow> validateMemoryCandidates c) (\<lambda>_.
                    Inr \<lparr>vp_reasoning_summary = summary, vp_actions = map keep_action as', vp_response = map_of p ''response'',
                         vp_continue = map_of p ''continue'', vp_memoryCandidates = map_of p ''memoryCandidates''\<rparr>)))))
                | _ \<Rightarrow> Inl (Error ''Model plan requires an actions array''))
           | _ \<Rightarrow> Inl (Error ''Model plan requires reasoning_summary'')))
      | _ \<Rightarrow> Inl (Error ''Model returned an invalid plan object''))"

text \<open>The one repair pass: unknown fields dropped, a missing list or summary defaulted.\<close>

definition boundedRepair :: "jsval \<Rightarrow> jsval option" where
  "boundedRepair plan =
     (case plan of
        JObj p \<Rightarrow>
          let repaired = map (\<lambda>k. (k, the (map_of p k))) (filter (\<lambda>k. map_of p k \<noteq> None) KNOWN_PLAN_KEYS);
              r1 = (case map_of repaired ''actions'' of
                      None \<Rightarrow> js_put ''actions'' (JArr []) repaired
                    | Some JNull \<Rightarrow> js_put ''actions'' (JArr []) repaired
                    | Some (JObj a) \<Rightarrow> js_put ''actions'' (JArr [JObj a]) repaired
                    | _ \<Rightarrow> repaired)
          in Some (JObj (case map_of r1 ''reasoning_summary'' of
                           Some (JStr _) \<Rightarrow> r1
                         | _ \<Rightarrow> js_put ''reasoning_summary'' (JStr []) r1))
      | _ \<Rightarrow> None)"

definition validatePlanWithRepair :: "bool \<Rightarrow> jsval \<Rightarrow> registry \<Rightarrow> valid_plan res" where
  "validatePlanWithRepair attemptRepair plan reg =
     (case validatePlan plan reg of
        Inr r \<Rightarrow> Inr r
      | Inl originalError \<Rightarrow>
          if \<not> attemptRepair then Inl originalError
          else (case boundedRepair plan of
                  None \<Rightarrow> Inl originalError
                | Some repaired \<Rightarrow> (case validatePlan repaired reg of Inr r \<Rightarrow> Inr r | Inl _ \<Rightarrow> Inl originalError)))"

section \<open>Resolving references\<close>

definition ID_ARGUMENTS :: "(string \<times> string list) list" where
  "ID_ARGUMENTS =
     [(''email.read'', [''id'']), (''email.draft'', [''inReplyTo'']), (''email.send'', [''inReplyTo'', ''draftId'']),
      (''calendar.reschedule'', [''eventId'']), (''tasks.complete'', [''id''])]"

definition REFERENCE_SOURCES :: "(string \<times> (string \<times> string list) list) list" where
  "REFERENCE_SOURCES =
     [(''email.read'', [(''id'', [''email.search'', ''email.read''])]),
      (''email.draft'', [(''to'', [''email.search'', ''email.read'']), (''inReplyTo'', [''email.search'', ''email.read''])]),
      (''email.send'', [(''inReplyTo'', [''email.search'', ''email.read'']), (''draftId'', [''email.draft''])]),
      (''calendar.reschedule'', [(''eventId'', [''calendar.list''])]),
      (''tasks.complete'', [(''id'', [''tasks.list''])])]"

text \<open>An observation a model was shown: its step (or, from an earlier run, its action) and items by index.\<close>

record observation =
  ob_stepIndex :: nat
  ob_actionId :: string
  ob_status :: string
  ob_tool :: string
  ob_items :: "(nat \<times> jsval option) list"

definition clarificationError :: js_error where
  "clarificationError = CodedError ''UNVERIFIED_RESULT_REFERENCE''
     ''A result reference could not be verified from the available observations; ask the owner to clarify''"

text \<open>\<open>Object.hasOwn\<close> and the read that follows it: arrays own their indices and \<open>length\<close>.\<close>

fun observed_property :: "jsval option \<Rightarrow> string \<Rightarrow> jsval option" where
  "observed_property (Some (JObj ps)) k = map_of ps k"
| "observed_property (Some (JArr vs)) k =
     (if k = ''length'' then Some (JNum (of_nat (length vs)))
      else map_of (zip (map nat_str [0..<length vs]) vs) k)"
| "observed_property _ k = None"

fun read_path :: "jsval option \<Rightarrow> string list \<Rightarrow> jsval option" where
  "read_path v [] = v"
| "read_path v (p # ps) = (case observed_property v p of None \<Rightarrow> None | Some w \<Rightarrow> read_path (Some w) ps)"

definition index_of :: "jsval option \<Rightarrow> nat \<Rightarrow> bool" where
  "index_of v n \<longleftrightarrow> v = Some (JNum (of_nat n))"

definition shown_item :: "observation option \<Rightarrow> jsval option \<Rightarrow> jsval option" where
  "shown_item obs i =
     (case obs of None \<Rightarrow> None
      | Some x \<Rightarrow> Option.bind (List.find (\<lambda>it. index_of i (fst it)) (ob_items x)) snd)"

definition scalar :: "jsval option \<Rightarrow> bool" where
  "scalar v = (case v of Some (JBool _) \<Rightarrow> True | Some (JNum _) \<Rightarrow> True | Some (JStr _) \<Rightarrow> True | _ \<Rightarrow> False)"

definition source_ok :: "string \<Rightarrow> string \<Rightarrow> observation option \<Rightarrow> bool res" where
  "source_ok toolName argument obs =
     (case map_of REFERENCE_SOURCES toolName of
        None \<Rightarrow> Inr True
      | Some accepted \<Rightarrow>
          (case map_of accepted argument of
             Some sources \<Rightarrow> Inr (case obs of Some x \<Rightarrow> ob_tool x \<in> set sources | None \<Rightarrow> False)
           | None \<Rightarrow> if argument \<in> set object_prototype_keys
                     then Inl (TypeError ''acceptedSources.includes is not a function'') else Inr True))"

definition resolve_ref :: "string \<Rightarrow> observation list \<Rightarrow> string \<times> jsval \<Rightarrow> jsval res" where
  "resolve_ref toolName allowed p =
     (let r = map_of (obj_entries (Some (snd p)));
          obs = List.find (\<lambda>x. index_of (r ''stepIndex'') (ob_stepIndex x) \<and> ob_status x = ''executed'') allowed;
          v = read_path (shown_item obs (r ''itemIndex'')) (split_on CHR ''.'' (case r ''path'' of Some (JStr s) \<Rightarrow> s | _ \<Rightarrow> [])) in
      case source_ok toolName (fst p) obs of
        Inl e \<Rightarrow> Inl e
      | Inr ok \<Rightarrow> if ok \<and> scalar v then Inr (the v) else Inl clarificationError)"

fun resolve_refs :: "string \<Rightarrow> observation list \<Rightarrow> (string \<times> jsval) list \<Rightarrow> (string \<times> jsval) list \<Rightarrow> (string \<times> jsval) list res" where
  "resolve_refs toolName allowed [] args = Inr args"
| "resolve_refs toolName allowed (p # ps) args =
     and_then (resolve_ref toolName allowed p) (\<lambda>v. resolve_refs toolName allowed ps (js_put (fst p) v args))"

definition one_action_plan :: "string \<Rightarrow> (string \<times> jsval) list \<Rightarrow> jsval" where
  "one_action_plan toolName args =
     JObj [(''reasoning_summary'', JStr []), (''actions'', JArr [JObj [(''tool'', JStr toolName), (''arguments'', JObj args)]])]"

definition literal_ids_ok :: "valid_action \<Rightarrow> (string \<times> jsval) list \<Rightarrow> bool" where
  "literal_ids_ok a args =
     list_all (\<lambda>k. map_of args k = None \<or> truthy (map_of (obj_entries (va_resultRefs a)) k) \<or> truthy (map_of (obj_entries (va_priorResultRefs a)) k))
       (case map_of ID_ARGUMENTS (va_tool a) of Some ks \<Rightarrow> ks | None \<Rightarrow> [])"

definition resolveActionReferences :: "valid_action \<Rightarrow> observation list \<Rightarrow> registry \<Rightarrow> bool \<Rightarrow> valid_action res" where
  "resolveActionReferences a allowed reg continuation =
     and_then (resolve_refs (va_tool a) allowed (obj_entries (va_resultRefs a)) (va_arguments a)) (\<lambda>args.
     if continuation \<and> \<not> literal_ids_ok a args then Inl clarificationError
     else and_then (validatePlan (one_action_plan (va_tool a) args) reg) (\<lambda>_. Inr (a\<lparr>va_arguments := args\<rparr>)))"

definition supported_prior :: "(string \<times> string) list" where
  "supported_prior = [(''email.read'', ''id''), (''tasks.complete'', ''id''), (''calendar.reschedule'', ''eventId'')]"

text \<open>With the account an id was found under, when the tool needs one.\<close>

definition prior_needs_account :: "string \<Rightarrow> bool" where
  "prior_needs_account toolName \<longleftrightarrow> toolName = ''email.read'' \<or> toolName = ''calendar.reschedule''"

definition resolvePriorActionReferences ::
  "valid_action \<Rightarrow> observation list \<Rightarrow> (string \<times> account_binding option) list \<Rightarrow> registry \<Rightarrow> (valid_action \<times> account_binding option) res" where
  "resolvePriorActionReferences a allowedPrior rawPrior reg =
     (case va_priorResultRefs a of
        None \<Rightarrow> Inr (a, None)
      | Some refs \<Rightarrow>
          (case map_of supported_prior (va_tool a) of
             None \<Rightarrow> Inl clarificationError
           | Some argument \<Rightarrow>
               if length (obj_entries (Some refs)) \<noteq> 1 \<or> \<not> truthy (map_of (obj_entries (Some refs)) argument) then Inl clarificationError
               else
                 let r = map_of (obj_entries (map_of (obj_entries (Some refs)) argument));
                     obs = List.find (\<lambda>x. r ''actionId'' = Some (JStr (ob_actionId x)) \<and> ob_status x = ''executed'') allowedPrior;
                     item = observed_property (shown_item obs (r ''itemIndex'')) ''id'' in
                 if r ''path'' \<noteq> Some (JStr ''id'') then Inl clarificationError
                 else if source_ok (va_tool a) argument obs \<noteq> Inr True then Inl clarificationError
                 else (case item of
                         Some (JStr (c # cs)) \<Rightarrow>
                           (case List.find (\<lambda>e. r ''actionId'' = Some (JStr (fst e))) rawPrior of
                              None \<Rightarrow> Inl clarificationError
                            | Some source \<Rightarrow>
                                if prior_needs_account (va_tool a) \<and> snd source = None then Inl clarificationError
                                else
                                  let args = js_put argument (JStr (c # cs)) (va_arguments a) in
                                  and_then (validatePlan (one_action_plan (va_tool a) args) reg) (\<lambda>_.
                                  Inr (a\<lparr>va_arguments := args\<rparr>, if prior_needs_account (va_tool a) then snd source else None)))
                       | _ \<Rightarrow> Inl clarificationError)))"

section \<open>What validation guarantees\<close>

text \<open>The nesting of a value, as a reader would count it.\<close>

fun nesting :: "jsval \<Rightarrow> nat" where
  "nesting (JArr vs) = (if vs = [] then 0 else Suc (Max (set (map nesting vs))))"
| "nesting (JObj ps) = (if ps = [] then 0 else Suc (Max (set (map (\<lambda>p. nesting (snd p)) ps))))"
| "nesting v = 0"

lemma some_exceeds_max:
  fixes f :: "'a \<Rightarrow> nat"
  assumes "xs \<noteq> []"
  shows "(\<exists>x\<in>set xs. l < d + f x) \<longleftrightarrow> l < d + Max (f ` set xs)"
proof
  assume "\<exists>x\<in>set xs. l < d + f x"
  then obtain x where "x \<in> set xs" "l < d + f x" by blast
  moreover from this have "f x \<le> Max (f ` set xs)" by simp
  ultimately show "l < d + Max (f ` set xs)" by linarith
next
  assume "l < d + Max (f ` set xs)"
  moreover have "Max (f ` set xs) \<in> f ` set xs" using assms by (intro Max_in) auto
  ultimately show "\<exists>x\<in>set xs. l < d + f x" by auto
qed

lemma exceedsDepth_iff: "exceedsDepth limit depth v \<longleftrightarrow> limit < depth + nesting v"
proof (induction limit depth v rule: exceedsDepth.induct)
  case (1 limit depth vs)
  then have "list_ex (exceedsDepth limit (Suc depth)) vs \<longleftrightarrow> (\<exists>v\<in>set vs. limit < Suc depth + nesting v)"
    by (auto simp: list_ex_iff)
  with some_exceeds_max [of vs limit "Suc depth" nesting] show ?case by auto
next
  case (2 limit depth ps)
  then have "list_ex (\<lambda>p. exceedsDepth limit (Suc depth) (snd p)) ps \<longleftrightarrow> (\<exists>p\<in>set ps. limit < Suc depth + nesting (snd p))"
    by (auto simp: list_ex_iff)
  with some_exceeds_max [of ps limit "Suc depth" "\<lambda>p. nesting (snd p)"] show ?case by auto
qed simp_all

definition argument_typed :: "plan_tool \<Rightarrow> string \<times> jsval \<Rightarrow> bool" where
  "argument_typed t p \<longleftrightarrow>
     key_in (fst p) (pt_properties t) \<and>
     (\<forall>type. map_of (pt_properties t) (fst p) = Some (Some type) \<longrightarrow> truthy (Some type) \<longrightarrow> matchesType (snd p) type)"

lemma validateArguments_Inr:
  assumes "validateArguments args t n = Inr u"
  shows "(\<forall>k\<in>set (pt_required t). key_in k args) \<and> (\<forall>p\<in>set args. argument_typed t p)"
  using assms by (auto simp: validateArguments_def argument_typed_def Let_def bind_eq_Some_conv)

lemma validate_dependsOn_Inr:
  assumes "validate_dependsOn deps index n = Inr u"
  shows "deps = None \<or> (\<exists>ds. deps = Some (JArr ds) \<and> length ds \<le> MAX_ACTIONS \<and> (\<forall>d\<in>set ds. \<exists>m<index. d = JNum (of_nat m)))"
proof -
  have "\<exists>m<index. d = JNum (of_nat m)" if nd: "natural (Some d)" "case d of JNum x \<Rightarrow> x < of_nat index | _ \<Rightarrow> False" for d
  proof -
    from nd obtain x where x: "d = JNum x" "x \<in> \<int>" "0 \<le> x" "x < of_nat index"
      by (auto simp: natural_def is_integer_def split: jsval.splits)
    then obtain z where z: "x = of_int z" by (auto elim: Ints_cases)
    with x have "0 \<le> z" "z < int index" by simp_all
    then have "x = of_nat (nat z)" "nat z < index" using z by simp_all
    with x(1) show ?thesis by blast
  qed
  with assms show ?thesis by (auto simp: validate_dependsOn_def split: option.splits jsval.splits)
qed

text \<open>What a later stage may rely on of an action at a position of a plan.\<close>

definition action_ok :: "registry \<Rightarrow> nat \<Rightarrow> valid_action \<Rightarrow> bool" where
  "action_ok reg index a \<longleftrightarrow>
     (\<exists>t. registry_find (va_tool a) reg = Some t \<and> \<not> isHidden (va_tool a) reg \<and>
        nesting (JObj (va_arguments a)) \<le> MAX_ARG_DEPTH \<and> pt_check t (va_arguments a) = None \<and>
        (\<forall>k\<in>set (pt_required t). key_in k (va_arguments a)) \<and> (\<forall>p\<in>set (va_arguments a). argument_typed t p)) \<and>
     (va_dependsOn a = None \<or>
      (\<exists>ds. va_dependsOn a = Some (JArr ds) \<and> length ds \<le> MAX_ACTIONS \<and> (\<forall>d\<in>set ds. \<exists>m<index. d = JNum (of_nat m))))"

lemma validateAction_Inr:
  assumes "validateAction action index reg = Inr u"
  shows "action_ok reg index (keep_action action)"
proof -
  from assms obtain a toolName args where a: "action = JObj a" "map_of a ''tool'' = Some (JStr toolName)" "map_of a ''arguments'' = Some (JObj args)"
    by (auto simp: validateAction_def split: jsval.splits option.splits)
  note v = assms [unfolded validateAction_def a jsval.case option.case prod.case]
  from v obtain t where t: "registry_get toolName reg = Inr t" "\<not> isHidden toolName reg" "\<not> exceedsDepth MAX_ARG_DEPTH 0 (JObj args)"
    "validateArguments args t toolName = Inr ()" "pt_check t args = None" "validate_dependsOn (map_of a ''dependsOn'') index toolName = Inr ()"
    by (auto split: option.splits)
  from t(1) have "registry_find toolName reg = Some t" by (simp add: registry_get_def split: option.splits)
  moreover have "nesting (JObj args) \<le> MAX_ARG_DEPTH" using t(3) unfolding exceedsDepth_iff by simp
  ultimately show ?thesis
    using t a validateArguments_Inr [OF t(4)] validate_dependsOn_Inr [OF t(6)]
    by (auto simp: action_ok_def keep_action_def Let_def simp del: nesting.simps)
qed

lemma validatePlan_Inr:
  assumes "validatePlan plan reg = Inr vp"
  obtains p as' where "plan = JObj p" "map_of p ''actions'' = Some (JArr as')" "length as' \<le> MAX_ACTIONS"
    "vp_actions vp = map keep_action as'" "\<And>i. i < length as' \<Longrightarrow> action_ok reg i (keep_action (as' ! i))"
proof -
  from assms obtain p summary as' where p: "plan = JObj p" "map_of p ''reasoning_summary'' = Some (JStr summary)" "map_of p ''actions'' = Some (JArr as')"
    by (auto simp: validatePlan_def split: jsval.splits option.splits)
  note v = assms [unfolded validatePlan_def p jsval.case option.case]
  from v have l: "length as' \<le> MAX_ACTIONS" "vp_actions vp = map keep_action as'"
    and e: "\<forall>x\<in>set (zip [0..<length as'] as'). (case x of (i, a) \<Rightarrow> validateAction a i reg) = Inr ()"
    by auto
  have "action_ok reg i (keep_action (as' ! i))" if "i < length as'" for i
  proof -
    have "(i, as' ! i) \<in> set (zip [0..<length as'] as')" using that by (force simp: set_zip)
    with e have "validateAction (as' ! i) i reg = Inr ()" by auto
    then show ?thesis by (rule validateAction_Inr)
  qed
  with that p l show thesis by blast
qed

lemma boundedRepair_actions:
  assumes "boundedRepair plan = Some repaired"
  shows "\<exists>p q. plan = JObj p \<and> repaired = JObj q \<and> map_of q ''actions'' =
    (case map_of p ''actions'' of None \<Rightarrow> Some (JArr []) | Some JNull \<Rightarrow> Some (JArr []) | Some (JObj a) \<Rightarrow> Some (JArr [JObj a]) | x \<Rightarrow> x)"
proof -
  from assms obtain p where p: "plan = JObj p" by (cases plan) (simp_all add: boundedRepair_def)
  let ?r = "map (\<lambda>k. (k, the (map_of p k))) (filter (\<lambda>k. map_of p k \<noteq> None) KNOWN_PLAN_KEYS)"
  have "map_of ?r ''actions'' = map_of p ''actions''" by (auto simp: KNOWN_PLAN_KEYS_def)
  with assms p show ?thesis
    by (auto simp: boundedRepair_def Let_def split: option.splits jsval.splits)
qed

definition proposed_actions :: "(string \<times> jsval) list \<Rightarrow> jsval list" where
  "proposed_actions p =
     (case map_of p ''actions'' of Some (JArr as') \<Rightarrow> as' | Some (JObj a) \<Rightarrow> [JObj a] | _ \<Rightarrow> [])"

text \<open>
  C21. A plan that passes validation, repaired or not, has at most ten actions; each names a
  registered tool that is not hidden, has the required arguments of their declared types and
  nested at most four deep, passed the tool's own check and depends only on earlier actions.
  The actions are those the model proposed, none added, dropped or changed.
\<close>

theorem validated_plan_well_formed:
  assumes "validatePlanWithRepair attemptRepair plan reg = Inr vp"
  shows "length (vp_actions vp) \<le> 10 \<and> (\<forall>i<length (vp_actions vp). action_ok reg i (vp_actions vp ! i)) \<and>
    (\<exists>p. plan = JObj p \<and> vp_actions vp = map keep_action (proposed_actions p))"
proof -
  obtain plan' where v: "validatePlan plan' reg = Inr vp" and pl: "plan' = plan \<or> boundedRepair plan = Some plan'"
    using assms by (auto simp: validatePlanWithRepair_def split: sum.splits if_splits option.splits)
  from v obtain p as' where w: "plan' = JObj p" "map_of p ''actions'' = Some (JArr as')" "length as' \<le> MAX_ACTIONS"
    "vp_actions vp = map keep_action as'" "\<And>i. i < length as' \<Longrightarrow> action_ok reg i (keep_action (as' ! i))"
    by (rule validatePlan_Inr) blast
  have "\<exists>p. plan = JObj p \<and> as' = proposed_actions p"
    using pl
  proof
    assume "boundedRepair plan = Some plan'"
    from boundedRepair_actions [OF this] w(1,2) obtain p0 where p0: "plan = JObj p0" "Some (JArr as') =
      (case map_of p0 ''actions'' of None \<Rightarrow> Some (JArr []) | Some JNull \<Rightarrow> Some (JArr []) | Some (JObj a) \<Rightarrow> Some (JArr [JObj a]) | x \<Rightarrow> x)"
      by auto
    from p0(2) have "as' = proposed_actions p0"
      unfolding proposed_actions_def by (cases "map_of p0 ''actions''"; cases "the (map_of p0 ''actions'')") auto
    with p0(1) show ?thesis by blast
  next
    assume "plan' = plan"
    with w have "plan = JObj p \<and> as' = proposed_actions p" by (simp add: proposed_actions_def)
    then show ?thesis by blast
  qed
  with w show ?thesis by (auto simp: MAX_ACTIONS_def)
qed

section \<open>Ids come from what the model was shown\<close>

lemma find_SomeD: "List.find P xs = Some x \<Longrightarrow> x \<in> set xs \<and> P x"
  by (auto simp: find_Some_iff)

lemma resolve_ref_Inr:
  assumes "resolve_ref toolName allowed p = Inr v"
  shows "\<exists>obs\<in>set allowed. ob_status obs = ''executed'' \<and> source_ok toolName (fst p) (Some obs) = Inr True \<and>
    (\<exists>it\<in>set (ob_items obs). \<exists>path. read_path (snd it) path = Some v) \<and> scalar (Some v)"
proof -
  let ?r = "map_of (obj_entries (Some (snd p)))"
  let ?f = "List.find (\<lambda>x. index_of (?r ''stepIndex'') (ob_stepIndex x) \<and> ob_status x = ''executed'') allowed"
  let ?path = "split_on CHR ''.'' (case ?r ''path'' of Some (JStr s) \<Rightarrow> s | _ \<Rightarrow> [])"
  from assms have ok: "source_ok toolName (fst p) ?f = Inr True" and sc: "scalar (read_path (shown_item ?f (?r ''itemIndex'')) ?path)"
    and v: "v = the (read_path (shown_item ?f (?r ''itemIndex'')) ?path)"
    by (auto simp: resolve_ref_def Let_def split: sum.splits if_splits)
  from sc v have rv: "read_path (shown_item ?f (?r ''itemIndex'')) ?path = Some v" "scalar (Some v)"
    by (auto simp: scalar_def split: option.splits)
  obtain q qs where "?path = q # qs" using split_on_nonempty by (metis neq_Nil_conv)
  with rv(1) obtain w where w: "shown_item ?f (?r ''itemIndex'') = Some w"
    by (cases "shown_item ?f (?r ''itemIndex'')") auto
  then obtain obs where obs: "?f = Some obs" by (auto simp: shown_item_def split: option.splits)
  from find_SomeD [OF obs] have "obs \<in> set allowed" "ob_status obs = ''executed''" by simp_all
  moreover from w obs obtain it where "it \<in> set (ob_items obs)" "snd it = Some w"
    by (auto simp: shown_item_def bind_eq_Some_conv dest!: find_SomeD)
  moreover from this(2) rv(1) w have "read_path (snd it) ?path = Some v" by simp
  moreover from ok obs have "source_ok toolName (fst p) (Some obs) = Inr True" by simp
  ultimately show ?thesis using rv(2) by blast
qed

lemma resolve_refs_Inr:
  "resolve_refs toolName allowed ps args = Inr args' \<Longrightarrow>
   (k \<notin> fst ` set ps \<longrightarrow> map_of args' k = map_of args k) \<and>
   (k \<in> fst ` set ps \<longrightarrow> (\<exists>p\<in>set ps. \<exists>v. fst p = k \<and> map_of args' k = Some v \<and> resolve_ref toolName allowed p = Inr v))"
proof (induction ps arbitrary: args)
  case (Cons p ps)
  then obtain v where v: "resolve_ref toolName allowed p = Inr v" "resolve_refs toolName allowed ps (js_put (fst p) v args) = Inr args'" by auto
  from Cons.IH [OF v(2)] v(1) show ?case by (cases "k \<in> fst ` set ps") auto
qed simp

lemma resolveActionReferences_Inr:
  assumes "resolveActionReferences a allowed reg continuation = Inr a'"
  obtains args where "resolve_refs (va_tool a) allowed (obj_entries (va_resultRefs a)) (va_arguments a) = Inr args"
    "a' = a\<lparr>va_arguments := args\<rparr>" "continuation \<longrightarrow> literal_ids_ok a args" "validatePlan (one_action_plan (va_tool a) args) reg \<noteq> Inl e"
  using assms by (auto simp: resolveActionReferences_def split: if_splits)


section \<open>A plan that reads a message it found\<close>

definition ex_search :: plan_tool where
  "ex_search = \<lparr>pt_name = ''email.read'', pt_required = [''id''], pt_properties = [(''id'', Some (JStr ''string''))],
     pt_check = (\<lambda>_. None), pt_removable = False\<rparr>"

definition ex_registry :: registry where
  "ex_registry = \<lparr>rg_tools = [ex_search], rg_hidden = []\<rparr>"

definition ex_model_plan :: jsval where
  "ex_model_plan = JObj [(''note'', JNull), (''actions'', JObj [(''tool'', JStr ''email.read''), (''arguments'', JObj [(''id'', JStr ''x'')])])]"

theorem validated_plan_well_formed_witness:
  "\<exists>vp. validatePlanWithRepair True ex_model_plan ex_registry = Inr vp \<and> length (vp_actions vp) = 1 \<and> action_ok ex_registry 0 (vp_actions vp ! 0)"
proof -
  have "case validatePlanWithRepair True ex_model_plan ex_registry of Inr vp \<Rightarrow> length (vp_actions vp) = 1 | Inl _ \<Rightarrow> False" by code_simp
  then obtain vp where v: "validatePlanWithRepair True ex_model_plan ex_registry = Inr vp" "length (vp_actions vp) = 1" by (auto split: sum.splits)
  with validated_plan_well_formed [OF v(1)] show ?thesis by auto
qed

definition ex_reading :: valid_action where
  "ex_reading = \<lparr>va_tool = ''email.read'', va_arguments = [(''id'', JStr ''?'')], va_reason = None, va_dependsOn = None,
     va_resultRefs = Some (JObj [(''id'', JObj [(''stepIndex'', JNum 0), (''itemIndex'', JNum 1), (''path'', JStr ''id'')])]), va_priorResultRefs = None\<rparr>"

definition ex_found :: observation where
  "ex_found = \<lparr>ob_stepIndex = 0, ob_actionId = ''act_1'', ob_status = ''executed'', ob_tool = ''email.search'',
     ob_items = [(1, Some (JObj [(''id'', JStr ''m7'')]))]\<rparr>"


end
