(* ===== verification/U2_Semver.thy ===== *)
theory U2_Semver
  imports U2_Prelude "HOL-Library.List_Lexorder" "HOL-Library.Char_ord"
begin

text \<open>
  Package versions and ranges (\<open>server/packages/semver.js\<close>). The two regular expressions are
  read as deterministic left-to-right scans: a run of digits ends where no digit follows,
  so no other split of the text can match. Version numbers are natural numbers (the code's
  doubles are exact up to $2^{53}$).
\<close>

section \<open>Versions\<close>

record version =
  v_major :: nat
  v_minor :: nat
  v_patch :: nat
  v_pre :: "string option"

definition is_digit :: "char \<Rightarrow> bool" where
  "is_digit c \<longleftrightarrow> 48 \<le> (of_char c :: nat) \<and> (of_char c :: nat) \<le> 57"

definition is_letter :: "char \<Rightarrow> bool" where
  "is_letter c \<longleftrightarrow> (let n = of_char c :: nat in 65 \<le> n \<and> n \<le> 90 \<or> 97 \<le> n \<and> n \<le> 122)"

definition pre_char :: "char \<Rightarrow> bool" where
  "pre_char c \<longleftrightarrow> is_digit c \<or> is_letter c \<or> c = CHR ''.'' \<or> c = CHR ''-''"

definition digit_value :: "char \<Rightarrow> nat" where
  "digit_value c = of_char c - 48"

definition number_of :: "string \<Rightarrow> nat" where
  "number_of s = foldl (\<lambda>n c. 10 * n + digit_value c) 0 s"

text \<open>\<open>(\d+)\<close>: the number and what follows it.\<close>

definition read_number :: "string \<Rightarrow> (nat \<times> string) option" where
  "read_number s = (case takeWhile is_digit s of [] \<Rightarrow> None | d # ds \<Rightarrow> Some (number_of (d # ds), dropWhile is_digit s))"

definition dot_number :: "string \<Rightarrow> (nat \<times> string) option" where
  "dot_number s = (case s of c # cs \<Rightarrow> if c = CHR ''.'' then read_number cs else None | [] \<Rightarrow> None)"

text \<open>The optional prerelease at the end of the text.\<close>

definition read_pre :: "string \<Rightarrow> string option option" where
  "read_pre s =
     (case s of
        [] \<Rightarrow> Some None
      | c # cs \<Rightarrow> if c = CHR ''-'' \<and> cs \<noteq> [] \<and> list_all pre_char cs then Some (Some cs) else None)"

definition parseVersion :: "string option \<Rightarrow> version option" where
  "parseVersion text =
     (case read_number (js_trim (case text of Some s \<Rightarrow> s | None \<Rightarrow> [])) of
        None \<Rightarrow> None
      | Some (a, r1) \<Rightarrow> (case dot_number r1 of
          None \<Rightarrow> None
        | Some (b, r2) \<Rightarrow> (case dot_number r2 of
            None \<Rightarrow> None
          | Some (c, r3) \<Rightarrow> (case read_pre r3 of
              None \<Rightarrow> None
            | Some p \<Rightarrow> Some \<lparr>v_major = a, v_minor = b, v_patch = c, v_pre = p\<rparr>))))"

definition isValidVersion :: "string option \<Rightarrow> bool" where
  "isValidVersion text \<longleftrightarrow> parseVersion text \<noteq> None"

record partial_version =
  p_major :: nat
  p_minor :: "nat option"
  p_patch :: "nat option"
  p_pre :: "string option"

definition parsePartial :: "string \<Rightarrow> partial_version option" where
  "parsePartial text =
     (case read_number (js_trim text) of
        None \<Rightarrow> None
      | Some (a, r1) \<Rightarrow>
          let (b, r2) = (case dot_number r1 of Some (n, r) \<Rightarrow> (Some n, r) | None \<Rightarrow> (None, r1));
              (c, r3) = (case dot_number r2 of Some (n, r) \<Rightarrow> (Some n, r) | None \<Rightarrow> (None, r2))
          in (case read_pre r3 of
                None \<Rightarrow> None
              | Some p \<Rightarrow> Some \<lparr>p_major = a, p_minor = b, p_patch = c, p_pre = p\<rparr>))"

definition compareVersions :: "version \<Rightarrow> version \<Rightarrow> int" where
  "compareVersions a b =
     (if v_major a \<noteq> v_major b then (if v_major a < v_major b then - 1 else 1)
      else if v_minor a \<noteq> v_minor b then (if v_minor a < v_minor b then - 1 else 1)
      else if v_patch a \<noteq> v_patch b then (if v_patch a < v_patch b then - 1 else 1)
      else if v_pre a = v_pre b then 0
      else (case (v_pre a, v_pre b) of
              (None, _) \<Rightarrow> 1
            | (Some _, None) \<Rightarrow> - 1
            | (Some p, Some q) \<Rightarrow> if p < q then - 1 else 1))"

section \<open>Ranges\<close>

datatype range_op = Caret | Tilde | GtEq | LtEq | Gt | Lt | Eq

record comparator =
  c_op :: range_op
  c_version :: version

text \<open>\<open>text.split(/\s+/)\<close> of a trimmed, non-empty text.\<close>

fun split_spaces :: "string \<Rightarrow> string list" where
  "split_spaces [] = []"
| "split_spaces (c # cs) =
     (if js_space c then split_spaces cs
      else (case cs of
              [] \<Rightarrow> [[c]]
            | d # ds \<Rightarrow> if js_space d then [c] # split_spaces cs
                        else (case split_spaces cs of [] \<Rightarrow> [[c]] | w # ws \<Rightarrow> (c # w) # ws)))"

text \<open>The operator in front of a part and the rest of it; no operator means \<open>=\<close>.\<close>

definition read_op :: "string \<Rightarrow> range_op \<times> string" where
  "read_op s =
     (if starts_with s ''^'' then (Caret, drop 1 s)
      else if starts_with s ''~'' then (Tilde, drop 1 s)
      else if starts_with s ''>='' then (GtEq, drop 2 s)
      else if starts_with s ''<='' then (LtEq, drop 2 s)
      else if starts_with s ''>'' then (Gt, drop 1 s)
      else if starts_with s ''<'' then (Lt, drop 1 s)
      else if starts_with s ''='' then (Eq, drop 1 s)
      else (Eq, s))"

definition release :: "nat \<Rightarrow> nat \<Rightarrow> nat \<Rightarrow> version" where
  "release a b c = \<lparr>v_major = a, v_minor = b, v_patch = c, v_pre = None\<rparr>"

definition base_version :: "partial_version \<Rightarrow> version" where
  "base_version p = \<lparr>v_major = p_major p, v_minor = (case p_minor p of Some n \<Rightarrow> n | None \<Rightarrow> 0),
     v_patch = (case p_patch p of Some n \<Rightarrow> n | None \<Rightarrow> 0), v_pre = p_pre p\<rparr>"

definition caret_upper :: "partial_version \<Rightarrow> version" where
  "caret_upper p =
     (let base = base_version p in
      if v_major base > 0 \<or> p_minor p = None then release (v_major base + 1) 0 0
      else if v_minor base > 0 \<or> p_patch p = None then release 0 (v_minor base + 1) 0
      else release 0 0 (v_patch base + 1))"

definition line_upper :: "partial_version \<Rightarrow> version" where
  "line_upper p = (if p_minor p = None then release (p_major p + 1) 0 0 else release (p_major p) (v_minor (base_version p) + 1) 0)"

definition part_comparators :: "range_op \<Rightarrow> partial_version \<Rightarrow> comparator list" where
  "part_comparators op p =
     (let base = base_version p in
      if op = Caret then [\<lparr>c_op = GtEq, c_version = base\<rparr>, \<lparr>c_op = Lt, c_version = caret_upper p\<rparr>]
      else if op = Tilde then [\<lparr>c_op = GtEq, c_version = base\<rparr>, \<lparr>c_op = Lt, c_version = line_upper p\<rparr>]
      else if op = Eq \<and> (p_minor p = None \<or> p_patch p = None)
      then [\<lparr>c_op = GtEq, c_version = base\<rparr>, \<lparr>c_op = Lt, c_version = line_upper p\<rparr>]
      else [\<lparr>c_op = op, c_version = base\<rparr>])"

fun parse_parts :: "string \<Rightarrow> string list \<Rightarrow> comparator list res" where
  "parse_parts rng [] = Inr []"
| "parse_parts rng (part # parts) =
     (case read_op part of (op, rest) \<Rightarrow>
        (case parsePartial rest of
           None \<Rightarrow> Inl (Error (''Invalid version range: '' @ rng))
         | Some p \<Rightarrow> (case parse_parts rng parts of Inl e \<Rightarrow> Inl e | Inr cs \<Rightarrow> Inr (part_comparators op p @ cs))))"

definition parseRange :: "string option \<Rightarrow> comparator list res" where
  "parseRange rng =
     (let raw = (case rng of Some s \<Rightarrow> s | None \<Rightarrow> ''*''); text = js_trim raw in
      if text \<in> {[], ''*'', ''x'', ''latest''} then Inr []
      else parse_parts raw (split_spaces text))"

definition isValidRange :: "string option \<Rightarrow> bool" where
  "isValidRange rng = (case parseRange rng of Inr _ \<Rightarrow> True | Inl _ \<Rightarrow> False)"

definition comparator_holds :: "version \<Rightarrow> comparator \<Rightarrow> bool" where
  "comparator_holds v c =
     (let cmp = compareVersions v (c_version c) in
      case c_op c of Gt \<Rightarrow> cmp > 0 | GtEq \<Rightarrow> cmp \<ge> 0 | Lt \<Rightarrow> cmp < 0 | LtEq \<Rightarrow> cmp \<le> 0 | _ \<Rightarrow> cmp = 0)"

definition satisfies :: "string option \<Rightarrow> string option \<Rightarrow> bool" where
  "satisfies version rng =
     (case parseVersion version of
        None \<Rightarrow> False
      | Some v \<Rightarrow> (case parseRange rng of Inl _ \<Rightarrow> False | Inr cs \<Rightarrow> list_all (comparator_holds v) cs))"

section \<open>Versions are totally ordered\<close>

lemma compareVersions_0: "compareVersions a b = 0 \<longleftrightarrow> a = b"
  by (auto simp: compareVersions_def split: option.splits if_splits)

lemma compareVersions_swap: "compareVersions b a = - compareVersions a b"
  by (auto simp: compareVersions_def split: option.splits)

lemma compareVersions_trans:
  "compareVersions a b < 0 \<Longrightarrow> compareVersions b c < 0 \<Longrightarrow> compareVersions a c < 0"
  by (auto simp: compareVersions_def split: option.splits if_splits)

section \<open>Printing and reading versions\<close>

text \<open>The text of a version.\<close>

definition version_text :: "version \<Rightarrow> string" where
  "version_text v = nat_str (v_major v) @ ''.'' @ nat_str (v_minor v) @ ''.'' @ nat_str (v_patch v) @
     (case v_pre v of None \<Rightarrow> [] | Some p \<Rightarrow> ''-'' @ p)"

definition version_ok :: "version \<Rightarrow> bool" where
  "version_ok v \<longleftrightarrow> (case v_pre v of None \<Rightarrow> True | Some p \<Rightarrow> p \<noteq> [] \<and> list_all pre_char p)"

lemma digit_char: "n < 10 \<Longrightarrow> is_digit (char_of (48 + n)) \<and> digit_value (char_of (48 + n)) = n"
  by (simp add: is_digit_def digit_value_def of_char_of)

lemma nat_str_digits: "list_all is_digit (nat_str n) \<and> nat_str n \<noteq> []"
proof (induction n rule: nat_str.induct)
  case (1 n)
  then show ?case using digit_char [of n] digit_char [of "n mod 10"] by (subst (1 2) nat_str.simps) auto
qed

lemma number_of_snoc: "number_of (s @ [c]) = 10 * number_of s + digit_value c"
  by (simp add: number_of_def)

lemma number_of_nat_str: "number_of (nat_str n) = n"
proof (induction n rule: nat_str.induct)
  case (1 n)
  show ?case
  proof (cases "n < 10")
    case True
    then show ?thesis using digit_char [of n] by (subst nat_str.simps) (simp add: number_of_def)
  next
    case False
    with "1.IH" digit_char [of "n mod 10"] show ?thesis
      by (subst nat_str.simps) (simp add: number_of_snoc)
  qed
qed

lemma read_number_nat_str:
  assumes "rest = [] \<or> \<not> is_digit (hd rest)"
  shows "read_number (nat_str n @ rest) = Some (n, rest)"
proof -
  have t: "takeWhile is_digit rest = []" "dropWhile is_digit rest = rest" using assms by (cases rest; simp)+
  have "takeWhile is_digit (nat_str n @ rest) = nat_str n" "dropWhile is_digit (nat_str n @ rest) = rest"
    using nat_str_digits [of n] t by (simp_all add: takeWhile_append2 dropWhile_append2 list_all_iff)
  with nat_str_digits [of n] number_of_nat_str [of n] show ?thesis
    by (cases "nat_str n") (simp_all add: read_number_def)
qed

lemma js_trim_solid:
  assumes "s = [] \<or> \<not> js_space (hd s) \<and> \<not> js_space (last s)"
  shows "js_trim s = s"
proof (cases "s = []")
  case False
  with assms have "dropWhile js_space s = s" "dropWhile js_space (rev s) = rev s"
    by (simp_all add: dropWhile_eq_self_iff hd_rev)
  then show ?thesis by (simp add: js_trim_def)
qed (simp add: js_trim_def)

lemma not_space: "is_digit c \<Longrightarrow> \<not> js_space c" "pre_char c \<Longrightarrow> \<not> js_space c"
  by (auto simp: is_digit_def pre_char_def is_letter_def js_space_def Let_def)

lemma version_text_solid:
  assumes "version_ok v"
  shows "js_trim (version_text v) = version_text v"
proof (rule js_trim_solid, intro disjI2 conjI)
  note d = nat_str_digits [of "v_major v"] nat_str_digits [of "v_patch v"]
  from d(1) obtain c cs where c: "nat_str (v_major v) = c # cs" "is_digit c" by (cases "nat_str (v_major v)") auto
  then show "\<not> js_space (hd (version_text v))" by (simp add: version_text_def not_space)
  from d(2) have "is_digit (last (nat_str (v_patch v)))" by (simp add: list_all_iff)
  then show "\<not> js_space (last (version_text v))"
    using d(2) assms by (auto simp: version_text_def version_ok_def list_all_iff not_space split: option.splits)
qed

text \<open>
  C23. Versions survive being written and read: the text of a version parses back to that
  version, and every text that parses denotes a version with numbers and, if any, a
  non-empty prerelease of the permitted characters.
\<close>

theorem version_roundtrip:
  "(version_ok v \<longrightarrow> parseVersion (Some (version_text v)) = Some v) \<and>
   (\<forall>text w. parseVersion text = Some w \<longrightarrow> version_ok w \<and> parseVersion (Some (version_text w)) = Some w)"
proof -
  have read: "parseVersion (Some (version_text w)) = Some w" if "version_ok w" for w
  proof -
    let ?pre = "case v_pre w of None \<Rightarrow> [] | Some p \<Rightarrow> ''-'' @ p"
    have dot: "\<not> is_digit CHR ''.''" "\<not> is_digit CHR ''-''" by (simp_all add: is_digit_def)
    have "read_number (nat_str (v_patch w) @ ?pre) = Some (v_patch w, ?pre)"
      using dot by (intro read_number_nat_str) (auto split: option.splits)
    moreover have "read_pre ?pre = Some (v_pre w)"
      using that by (auto simp: read_pre_def version_ok_def split: option.splits)
    ultimately show ?thesis
      using dot read_number_nat_str [of "''.'' @ nat_str (v_minor w) @ ''.'' @ nat_str (v_patch w) @ ?pre" "v_major w"]
        read_number_nat_str [of "''.'' @ nat_str (v_patch w) @ ?pre" "v_minor w"]
        version_text_solid [OF that, unfolded version_text_def]
      by (simp add: parseVersion_def version_text_def dot_number_def)
  qed
  moreover have "version_ok w" if "parseVersion t = Some w" for t w
    using that by (auto simp: parseVersion_def version_ok_def read_pre_def split: option.splits prod.splits list.splits if_splits)
  ultimately show ?thesis by blast
qed

theorem version_roundtrip_witness:
  "parseVersion (Some '' 1.02.30-rc.1 '') = Some \<lparr>v_major = 1, v_minor = 2, v_patch = 30, v_pre = Some ''rc.1''\<rparr> \<and>
   parseVersion (Some (version_text \<lparr>v_major = 1, v_minor = 2, v_patch = 30, v_pre = Some ''rc.1''\<rparr>)) =
     Some \<lparr>v_major = 1, v_minor = 2, v_patch = 30, v_pre = Some ''rc.1''\<rparr>"
proof -
  have "parseVersion (Some '' 1.02.30-rc.1 '') = Some \<lparr>v_major = 1, v_minor = 2, v_patch = 30, v_pre = Some ''rc.1''\<rparr>" by code_simp
  with version_roundtrip show ?thesis by blast
qed

section \<open>Ranges mean intervals\<close>

definition version_le :: "version \<Rightarrow> version \<Rightarrow> bool" where
  "version_le a b \<longleftrightarrow> compareVersions a b \<le> 0"

lemma version_le_lex:
  assumes "v_pre v = None" and "v_pre w = None"
  shows "compareVersions v w < 0 \<longleftrightarrow>
    v_major v < v_major w \<or> v_major v = v_major w \<and> (v_minor v < v_minor w \<or> v_minor v = v_minor w \<and> v_patch v < v_patch w)"
  using assms by (auto simp: compareVersions_def)

text \<open>What a caret range asks of a release: the same leading non-zero number and nothing older.\<close>

lemma caret_meaning:
  assumes "v_pre v = None" and "p_pre p = None" and "p_major p > 0"
  shows "list_all (comparator_holds v) (part_comparators Caret p) \<longleftrightarrow>
    v_major v = p_major p \<and> \<not> compareVersions v (base_version p) < 0"
proof -
  have "v_pre (base_version p) = None" using assms(2) by (simp add: base_version_def)
  have "compareVersions v (caret_upper p) < 0 \<longleftrightarrow> v_major v < Suc (p_major p)"
    using assms version_le_lex [of v "caret_upper p"] by (simp add: caret_upper_def release_def base_version_def)
  then show ?thesis
    using version_le_lex [OF assms(1) \<open>v_pre (base_version p) = None\<close>] assms(3)
    by (auto simp: part_comparators_def comparator_holds_def Let_def base_version_def)
qed

text \<open>A prerelease of the next major version satisfies a caret range: it is older than that release.\<close>

lemma caret_admits_next_prerelease: "satisfies (Some ''2.0.0-alpha'') (Some ''^1.0'')"
  by code_simp

end
