(* ===== verification/U2_Permissions.thy ===== *)
theory U2_Permissions
  imports U2_Semver
begin

text \<open>
  What a package may do at all (\<open>server/packages/permissions.js\<close>), the identifiers of
  \<open>server/packages/ids.js\<close> and the event types of \<open>server/packages/events.js\<close>. A declared
  permission is looked up in a table of JavaScript objects, so the lookup also finds what
  objects inherit (\<open>JNative\<close>): the list of permissions is a list of JavaScript values.
\<close>

section \<open>Names\<close>

definition lower_letter :: "char \<Rightarrow> bool" where
  "lower_letter c \<longleftrightarrow> 97 \<le> (of_char c :: nat) \<and> (of_char c :: nat) \<le> 122"

definition id_char :: "char \<Rightarrow> bool" where
  "id_char c \<longleftrightarrow> lower_letter c \<or> is_digit c \<or> c = CHR ''-''"

definition scope_char :: "char \<Rightarrow> bool" where
  "scope_char c \<longleftrightarrow> id_char c \<or> c = CHR ''_''"

definition segment :: "(char \<Rightarrow> bool) \<Rightarrow> (char \<Rightarrow> bool) \<Rightarrow> string \<Rightarrow> bool" where
  "segment first rest s = (case s of [] \<Rightarrow> False | c # cs \<Rightarrow> first c \<and> list_all rest cs)"

text \<open>\<open>^[a-z][a-z0-9_-]*(\.[a-z0-9_-]+)*(\.\*)?$\<close>\<close>

definition SCOPE :: "string \<Rightarrow> bool" where
  "SCOPE s =
     (case split_on CHR ''.'' s of
        [] \<Rightarrow> False
      | p # ps \<Rightarrow> segment lower_letter scope_char p \<and>
          list_all (segment scope_char scope_char) (if ps \<noteq> [] \<and> last ps = ''*'' then butlast ps else ps))"

definition dotted :: "(char \<Rightarrow> bool) \<Rightarrow> nat \<Rightarrow> string \<Rightarrow> bool" where
  "dotted rest most s =
     (case split_on CHR ''.'' s of
        [] \<Rightarrow> False
      | p # ps \<Rightarrow> segment lower_letter id_char p \<and> 1 \<le> length ps \<and> length ps \<le> most \<and>
          list_all (segment (\<lambda>c. lower_letter c \<or> is_digit c) rest) ps)"

definition PACKAGE_ID :: "string \<Rightarrow> bool" where "PACKAGE_ID = dotted id_char 7"
definition CAPABILITY_ID :: "string \<Rightarrow> bool" where "CAPABILITY_ID = dotted scope_char 4"
definition LOCAL_ID :: "string \<Rightarrow> bool" where "LOCAL_ID s \<longleftrightarrow> segment lower_letter id_char s \<and> length s \<le> 64"

definition REF_KINDS :: "string list" where
  "REF_KINDS = [''package'', ''capability'', ''skill'', ''automation'']"

definition ref :: "string \<Rightarrow> string \<Rightarrow> string" where
  "ref kind id' = kind @ '':'' @ id'"

text \<open>The text before and after the first colon; \<open>.+\<close> does not match line ends.\<close>

definition no_line_end :: "string \<Rightarrow> bool" where
  "no_line_end s \<longleftrightarrow> list_all (\<lambda>c. (of_char c :: nat) \<notin> {10, 13}) s"

definition parseRef :: "string option \<Rightarrow> (string \<times> string) option" where
  "parseRef text =
     (let s = (case text of Some t \<Rightarrow> t | None \<Rightarrow> []);
          kind = takeWhile (\<lambda>c. c \<noteq> CHR '':'') s; rest = drop (Suc (length kind)) s in
      if CHR '':'' \<in> set s \<and> kind \<noteq> [] \<and> list_all lower_letter kind \<and> rest \<noteq> [] \<and> no_line_end rest \<and>
         kind \<in> set REF_KINDS \<and>
         (if kind = ''package'' then PACKAGE_ID rest else if kind = ''capability'' then CAPABILITY_ID rest else LOCAL_ID rest)
      then Some (kind, rest) else None)"

section \<open>The permission tables\<close>

definition BOOLEAN_PERMISSIONS :: "(string \<times> (string \<times> jsval) list) list" where
  "BOOLEAN_PERMISSIONS =
     [(''email'', [(''read'', JStr ''email.read''), (''draft'', JStr ''email.draft''), (''send'', JStr ''email.send'')]),
      (''calendar'', [(''read'', JStr ''calendar.read''), (''write'', JStr ''calendar.write'')]),
      (''contacts'', [(''read'', JStr ''contacts.read''), (''write'', JStr ''contacts.write'')]),
      (''tasks'', [(''read'', JStr ''tasks.read''), (''write'', JStr ''tasks.write'')]),
      (''notifications'', [(''send'', JStr ''notifications.send'')]),
      (''browser'', [(''navigate'', JStr ''browser.navigate''), (''submitForms'', JStr ''browser.submit_forms'')]),
      (''shell'', [(''execute'', JStr ''shell.execute'')]),
      (''devices'', [(''control'', JStr ''devices.control'')]),
      (''payments'', [(''spend'', JStr ''payments.spend'')]),
      (''code'', [(''execute'', JStr ''code.execute'')])]"

definition FLAG_PERMISSIONS :: "string list" where
  "FLAG_PERMISSIONS = [''microphone'', ''camera'', ''location'']"

definition KNOWN :: "string list" where
  "KNOWN = concat (map (\<lambda>d. map (\<lambda>p. js_str (snd p)) (snd d)) BOOLEAN_PERMISSIONS) @ FLAG_PERMISSIONS @ [''network'']"

definition PERMISSION_DESCRIPTIONS :: "(string \<times> string) list" where
  "PERMISSION_DESCRIPTIONS =
     [(''network'', ''access the network''), (''email.read'', ''read your email''), (''email.draft'', ''draft email''),
      (''email.send'', ''send email''), (''calendar.read'', ''read your calendar''),
      (''calendar.write'', ''create and change calendar events''), (''contacts.read'', ''read your contacts''),
      (''contacts.write'', ''change your contacts''), (''tasks.read'', ''read your tasks''),
      (''tasks.write'', ''create and complete tasks''), (''notifications.send'', ''send you notifications''),
      (''browser.navigate'', ''control a browser''), (''browser.submit_forms'', ''submit web forms''),
      (''microphone'', ''use the microphone''), (''camera'', ''use the camera''), (''location'', ''know your location''),
      (''shell.execute'', ''run shell commands''), (''devices.control'', ''control devices''),
      (''payments.spend'', ''spend money''), (''code.execute'', ''run its own code inside U2OS (not sandboxed)'')]"

definition SENSITIVE_PERMISSIONS :: "string list" where
  "SENSITIVE_PERMISSIONS = [''email.send'', ''browser.submit_forms'', ''shell.execute'', ''payments.spend'', ''code.execute'', ''devices.control'']"

section \<open>Declared permissions\<close>

text \<open>Permissions added and errors reported, in order.\<close>

type_synonym normalized = "jsval list \<times> string list"

definition joined :: "normalized list \<Rightarrow> normalized" where
  "joined rs = (concat (map fst rs), concat (map snd rs))"

definition flag_result :: "jsval option \<Rightarrow> jsval \<Rightarrow> string \<Rightarrow> normalized" where
  "flag_result flag permission problem =
     (case flag of Some (JBool b) \<Rightarrow> (if b then [permission] else [], []) | _ \<Rightarrow> ([], [problem]))"

definition network_entry :: "jsval \<Rightarrow> normalized" where
  "network_entry v =
     (let allowed = (case v of JBool b \<Rightarrow> Some (JBool b) | JObj ps \<Rightarrow> map_of ps ''allowed'' | _ \<Rightarrow> None);
          unsupported = (case v of JObj ps \<Rightarrow> filter (\<lambda>k. k \<noteq> ''allowed'') (map fst ps) | _ \<Rightarrow> []) in
      joined [flag_result allowed (JStr ''network'') ''permissions.network: must be true/false or { allowed: true }'',
              ([], map (\<lambda>k. ''permissions.network.'' @ k @ '': unsupported (host allow-lists are not enforced yet)'') unsupported)])"

definition scope_entry :: "string \<Rightarrow> jsval \<Rightarrow> normalized" where
  "scope_entry mode scope =
     (case scope of
        JStr s \<Rightarrow>
          if SCOPE s then ([JStr (''filesystem.'' @ mode @ '':'' @ s)], [])
          else ([], [''permissions.filesystem.'' @ mode @ '': \"'' @ s @ ''\" is not a valid scope (use names like profile.resume or jobs.*)''])
      | _ \<Rightarrow> ([], [''permissions.filesystem.'' @ mode @ '': \"'' @ js_str scope @ ''\" is not a valid scope (use names like profile.resume or jobs.*)'']))"

definition filesystem_entry :: "jsval \<Rightarrow> normalized" where
  "filesystem_entry v =
     (case v of
        JObj ps \<Rightarrow>
          joined (map (\<lambda>(mode, scopes).
            if mode \<noteq> ''read'' \<and> mode \<noteq> ''write'' then ([], [''permissions.filesystem.'' @ mode @ '': use read or write''])
            else (case scopes of
                    JArr ss \<Rightarrow> joined (map (scope_entry mode) ss)
                  | _ \<Rightarrow> ([], [''permissions.filesystem.'' @ mode @ '': must be a list of scopes'']))) ps)
      | _ \<Rightarrow> ([], [''permissions.filesystem: must map read/write to scope lists'']))"

definition boolean_entry :: "string \<Rightarrow> (string \<times> jsval) list \<Rightarrow> jsval \<Rightarrow> normalized" where
  "boolean_entry domain table v =
     (case v of
        JObj ps \<Rightarrow>
          joined (map (\<lambda>(key, flag).
            case js_get (Some (JObj table)) key of
              None \<Rightarrow> ([], [''permissions.'' @ domain @ ''.'' @ key @ '': unknown permission''])
            | Some permission \<Rightarrow> flag_result (Some flag) permission (''permissions.'' @ domain @ ''.'' @ key @ '': must be true or false'')) ps)
      | _ \<Rightarrow> ([], [''permissions.'' @ domain @ '': must be a mapping'']))"

definition domain_entry :: "string \<times> jsval \<Rightarrow> normalized" where
  "domain_entry p =
     (let domain = fst p; v = snd p in
      if domain = ''network'' then network_entry v
      else if domain \<in> set FLAG_PERMISSIONS then flag_result (Some v) (JStr domain) (''permissions.'' @ domain @ '': must be true or false'')
      else if domain = ''filesystem'' then filesystem_entry v
      else (case map_of BOOLEAN_PERMISSIONS domain of
              Some table \<Rightarrow> boolean_entry domain table v
            | None \<Rightarrow> ([], [''permissions.'' @ domain @ '': unknown permission domain''])))"

definition normalizePermissions :: "jsval option \<Rightarrow> normalized" where
  "normalizePermissions declared =
     (case declared of
        None \<Rightarrow> ([], [])
      | Some JNull \<Rightarrow> ([], [])
      | Some (JObj ps) \<Rightarrow>
          (let (perms, errors) = joined (map domain_entry ps) in (sort_key js_str (rev (remdups (rev perms))), errors))
      | Some _ \<Rightarrow> ([], [''permissions: must be a mapping'']))"

text \<open>\<open>^filesystem\.(read|write):(.+)$\<close>\<close>

definition filesystem_parts :: "string \<Rightarrow> (string \<times> string) option" where
  "filesystem_parts s =
     (if starts_with s ''filesystem.read:'' \<and> drop 16 s \<noteq> [] \<and> no_line_end (drop 16 s) then Some (''read'', drop 16 s)
      else if starts_with s ''filesystem.write:'' \<and> drop 17 s \<noteq> [] \<and> no_line_end (drop 17 s) then Some (''write'', drop 17 s)
      else None)"

definition isKnownPermission :: "string \<Rightarrow> bool" where
  "isKnownPermission p \<longleftrightarrow> p \<in> set KNOWN \<or> (case filesystem_parts p of Some (_, s) \<Rightarrow> SCOPE s | None \<Rightarrow> False)"

definition covers :: "string \<Rightarrow> string \<Rightarrow> bool" where
  "covers held required \<longleftrightarrow>
     held = required \<or>
     (case (filesystem_parts held, filesystem_parts required) of
        (Some (m, h), Some (n, r)) \<Rightarrow> m = n \<and> ends_with h ''.*'' \<and> starts_with r (butlast h)
      | _ \<Rightarrow> False)"

record permission_check =
  pc_allowed :: bool
  pc_required :: "string list"
  pc_missingDeclared :: "string list"
  pc_missingGrant :: "string list"

definition uncovered :: "string list \<Rightarrow> string list \<Rightarrow> string list" where
  "uncovered held required = filter (\<lambda>p. \<not> list_ex (\<lambda>h. covers h p) held) required"

definition checkPermissions :: "string list \<Rightarrow> string list \<Rightarrow> string list \<Rightarrow> permission_check" where
  "checkPermissions required declared granted =
     (let missingDeclared = uncovered declared required; missingGrant = uncovered granted required in
      \<lparr>pc_allowed = (missingDeclared = [] \<and> missingGrant = []), pc_required = required,
       pc_missingDeclared = missingDeclared, pc_missingGrant = missingGrant\<rparr>)"

definition describePermission :: "string \<Rightarrow> jsval" where
  "describePermission p =
     (case js_get (Some (JObj (map (\<lambda>(k, d). (k, JStr d)) PERMISSION_DESCRIPTIONS))) p of
        Some d \<Rightarrow> d
      | None \<Rightarrow> JStr (case filesystem_parts p of Some (m, s) \<Rightarrow> m @ '' '' @ s | None \<Rightarrow> p))"

section \<open>Event types\<close>

text \<open>\<open>^[a-z][a-z0-9_-]*(\.[a-z0-9_-]+)+$\<close>\<close>

definition EVENT_TYPE :: "string \<Rightarrow> bool" where
  "EVENT_TYPE s =
     (case split_on CHR ''.'' s of
        [] \<Rightarrow> False
      | p # ps \<Rightarrow> segment lower_letter scope_char p \<and> ps \<noteq> [] \<and> list_all (segment scope_char scope_char) ps)"

definition RESERVED_EVENT_DOMAINS :: "string list" where
  "RESERVED_EVENT_DOMAINS =
     [''agent'', ''action'', ''run'', ''vault'', ''routine'', ''automation'', ''package'', ''capability'', ''skill'', ''workflow'',
      ''device'', ''stream'', ''email'', ''mail'', ''calendar'', ''contact'', ''contacts'', ''task'', ''tasks'', ''memory'', ''commitment'',
      ''notification'', ''user'', ''system'', ''goal'', ''trigger'', ''voice'', ''connector'', ''auth'', ''owner'', ''recommendation'',
      ''feedback'', ''coding'', ''presentation'', ''message'', ''subscription'', ''project'', ''document'', ''purchase'', ''location'']"

definition isValidEventType :: "jsval option \<Rightarrow> bool" where
  "isValidEventType type = (case type of Some (JStr s) \<Rightarrow> length s \<le> 128 \<and> EVENT_TYPE s | _ \<Rightarrow> False)"

definition isReservedEventType :: "string \<Rightarrow> bool" where
  "isReservedEventType type \<longleftrightarrow> hd (split_on CHR ''.'' type) \<in> set RESERVED_EVENT_DOMAINS"

definition emitProblem :: "string \<Rightarrow> string list \<Rightarrow> string option" where
  "emitProblem type declaredEmits =
     (if \<not> isValidEventType (Some (JStr type))
      then Some (''\"'' @ type @ ''\" is not a valid event type (use lowercase dotted names such as job.candidate)'')
      else if isReservedEventType type then Some (''\"'' @ type @ ''\" uses a reserved core event domain'')
      else if type \<notin> set declaredEmits then Some (''\"'' @ type @ ''\" is not declared in events.emits'')
      else None)"

section \<open>Covering is a preorder\<close>

text \<open>
  What the checks rely on: a permission covers itself, and what covers a permission covers
  all that one covers.
\<close>

locale permission_order =
  fixes cov :: "'p \<Rightarrow> 'p \<Rightarrow> bool"
  assumes cov_refl: "cov p p" and cov_trans: "cov p q \<Longrightarrow> cov q r \<Longrightarrow> cov p r"
begin

definition inside :: "'p list \<Rightarrow> 'p list \<Rightarrow> bool" where
  "inside held required \<longleftrightarrow> (\<forall>p\<in>set required. \<exists>h\<in>set held. cov h p)"

lemma inside_refl: "inside held held"
  using cov_refl by (auto simp: inside_def)

lemma inside_trans: "inside a b \<Longrightarrow> inside b c \<Longrightarrow> inside a c"
  unfolding inside_def using cov_trans by metis

lemma inside_grows: "inside a b \<Longrightarrow> set a \<subseteq> set a' \<Longrightarrow> inside a' b"
  unfolding inside_def by blast

end

lemma starts_with_iff: "starts_with s p \<longleftrightarrow> (\<exists>t. s = p @ t)"
  by (auto simp: starts_with_def) (metis append_take_drop_id)

lemma ends_with_iff: "ends_with s p \<longleftrightarrow> (\<exists>t. s = t @ p)"
  by (auto simp: ends_with_def) (metis append_take_drop_id)

lemma wildcard_prefix:
  assumes "ends_with h ''.*''" and "ends_with b ''.*''" and "starts_with b (butlast h)" and "starts_with r (butlast b)"
  shows "starts_with r (butlast h)"
proof -
  from assms(1,2) obtain y z where y: "h = y @ ''.*''" "b = z @ ''.*''" by (auto simp: ends_with_iff)
  from assms(3,4) y obtain t u where t: "z @ ''.*'' = y @ ''.'' @ t" "r = z @ ''.'' @ u" by (auto simp: starts_with_iff butlast_append)
  have ne: "t \<noteq> []"
  proof
    assume "t = []"
    with t(1) have "last (z @ ''.*'') = last (y @ ''.'')" by simp
    then show False by simp
  qed
  have "z @ ''.'' = butlast (z @ ''.*'')" by (simp add: butlast_append)
  also have "\<dots> = y @ ''.'' @ butlast t" unfolding t(1) using ne by (simp add: butlast_append)
  finally have "z @ ''.'' = y @ ''.'' @ butlast t" .
  with t(2) have "r = (y @ ''.'') @ butlast t @ u" by (metis append_assoc)
  with y show ?thesis by (auto simp: starts_with_iff butlast_append)
qed

lemma covers_trans:
  assumes "covers p q" and "covers q r"
  shows "covers p r"
proof (cases "p = q \<or> q = r")
  case True
  with assms show ?thesis by auto
next
  case False
  with assms obtain m h n b k t where f: "filesystem_parts p = Some (m, h)" "filesystem_parts q = Some (n, b)" "filesystem_parts r = Some (k, t)"
    "m = n" "n = k" "ends_with h ''.*''" "starts_with b (butlast h)" "ends_with b ''.*''" "starts_with t (butlast b)"
    by (auto simp: covers_def split: option.splits prod.splits)
  with wildcard_prefix [OF f(6,8,7,9)] show ?thesis by (simp add: covers_def)
qed

interpretation permissions: permission_order covers
  by unfold_locales (auto simp: covers_def [of p p for p] intro: covers_trans)

lemma uncovered_inside: "uncovered held required = [] \<longleftrightarrow> permissions.inside held required"
  by (auto simp: uncovered_def permissions.inside_def filter_empty_conv list_ex_iff)

lemma checkPermissions_allowed:
  "pc_allowed (checkPermissions required declared granted) \<longleftrightarrow> permissions.inside declared required \<and> permissions.inside granted required"
  by (simp add: checkPermissions_def uncovered_inside Let_def)

text \<open>
  Permissions only narrow. What a package is allowed to do stays allowed for anything its
  requirements cover and when more is granted; nothing is allowed without a grant and a
  declaration that cover it.
\<close>

theorem permission_check_monotone:
  assumes "pc_allowed (checkPermissions required declared granted)" and "\<forall>p\<in>set smaller. \<exists>r\<in>set required. covers r p"
    and "set granted \<subseteq> set granted'"
  shows "pc_allowed (checkPermissions smaller declared granted') \<and>
    (\<forall>p\<in>set smaller. (\<exists>d\<in>set declared. covers d p) \<and> (\<exists>g\<in>set granted'. covers g p))"
proof -
  have i: "permissions.inside required smaller" using assms(2) by (simp add: permissions.inside_def)
  note a = assms(1) [unfolded checkPermissions_allowed]
  have "permissions.inside declared smaller" using a i permissions.inside_trans by blast
  moreover have "permissions.inside granted' smaller"
    using a i assms(3) permissions.inside_trans permissions.inside_grows by blast
  ultimately show ?thesis unfolding checkPermissions_allowed by (simp add: permissions.inside_def)
qed

section \<open>Declared permissions are known ones, or inherited names\<close>

lemma joined_perms: "p \<in> set (fst (joined rs)) \<longleftrightarrow> (\<exists>r\<in>set rs. p \<in> set (fst r))"
  by (auto simp: joined_def)

definition permission_ok :: "jsval \<Rightarrow> bool" where
  "permission_ok p \<longleftrightarrow> (case p of JStr s \<Rightarrow> isKnownPermission s | JNative _ \<Rightarrow> True | _ \<Rightarrow> False)"

lemma flag_result_perm: "p \<in> set (fst (flag_result f q m)) \<Longrightarrow> p = q \<and> f = Some (JBool True)"
  by (auto simp: flag_result_def split: option.splits jsval.splits if_splits)

lemma scope_char_line: "scope_char c \<Longrightarrow> (of_char c :: nat) \<noteq> 10 \<and> (of_char c :: nat) \<noteq> 13"
  by (auto simp: scope_char_def id_char_def lower_letter_def is_digit_def)

lemma SCOPE_line: "SCOPE s \<Longrightarrow> s \<noteq> [] \<and> no_line_end s"
proof -
  assume sc: "SCOPE s"
  have seg: "no_line_end x" if "segment f scope_char x" "\<And>c. f c \<Longrightarrow> scope_char c" for f x
    using that scope_char_line by (auto simp: segment_def no_line_end_def list_all_iff split: list.splits)
  have join: "no_line_end (join_with ''.'' ws)" if "list_all no_line_end ws" for ws
    using that by (induction "''.''" ws rule: join_with.induct) (auto simp: no_line_end_def)
  obtain w ws where w: "split_on CHR ''.'' s = w # ws" by (cases "split_on CHR ''.'' s") auto
  have low: "scope_char c" if "lower_letter c" for c using that by (simp add: scope_char_def id_char_def)
  from sc w have "segment lower_letter scope_char w" by (simp add: SCOPE_def)
  then have "no_line_end w" by (rule seg) (rule low)
  moreover have "list_all no_line_end ws"
  proof (cases "ws \<noteq> [] \<and> last ws = ''*''")
    case True
    with sc w seg have "list_all no_line_end (butlast ws)" by (auto simp: SCOPE_def list_all_iff)
    moreover have "no_line_end (last ws)" using True by (simp add: no_line_end_def)
    ultimately have "list_all no_line_end (butlast ws @ [last ws])" by simp
    with True show ?thesis by (metis append_butlast_last_id)
  next
    case False
    with sc w seg show ?thesis by (auto simp: SCOPE_def list_all_iff)
  qed
  ultimately have "no_line_end s" using join [of "w # ws"] join_split_on [of "CHR ''.''" s] w by simp
  moreover have "s \<noteq> []" using sc by (auto simp: SCOPE_def segment_def)
  ultimately show ?thesis by simp
qed

lemma domain_entry_perm:
  assumes "p \<in> set (fst (domain_entry e))"
  shows "permission_ok p"
proof -
  have known: "isKnownPermission x" if "x \<in> set KNOWN" for x using that by (simp add: isKnownPermission_def)
  have fs: "permission_ok q" if q: "q \<in> set (fst (scope_entry m sc))" and m: "m = ''read'' \<or> m = ''write''" for q m sc
  proof -
    from q obtain s where s: "SCOPE s" "q = JStr (''filesystem.'' @ m @ '':'' @ s)"
      by (auto simp: scope_entry_def split: jsval.splits if_splits)
    with m SCOPE_line [OF s(1)] show ?thesis
      by (auto simp: permission_ok_def isKnownPermission_def filesystem_parts_def starts_with_def)
  qed
  have table: "permission_ok q" if "map_of BOOLEAN_PERMISSIONS d = Some t" "js_get (Some (JObj t)) k = Some q" for d t k q
  proof (cases q)
    case (JStr x)
    with that have "x \<in> set KNOWN"
      by (auto simp: BOOLEAN_PERMISSIONS_def KNOWN_def split: if_splits option.splits)
    with known JStr show ?thesis by (simp add: permission_ok_def)
  qed (use that in \<open>auto simp: BOOLEAN_PERMISSIONS_def permission_ok_def split: if_splits option.splits\<close>)
  show ?thesis
  proof (cases "fst e = ''network'' \<or> fst e \<in> set FLAG_PERMISSIONS")
    case True
    then have k: "fst e \<in> set KNOWN" by (auto simp: KNOWN_def)
    have "p = JStr (fst e)"
    proof (cases "fst e = ''network''")
      case True
      with assms have "p \<in> set (fst (network_entry (snd e)))" by (simp add: domain_entry_def)
      with True show ?thesis by (auto simp: network_entry_def joined_perms Let_def dest: flag_result_perm)
    next
      case False
      with True have f: "fst e \<in> set FLAG_PERMISSIONS" by simp
      from assms have "p \<in> set (fst (flag_result (Some (snd e)) (JStr (fst e)) (''permissions.'' @ fst e @ '': must be true or false'')))"
        unfolding domain_entry_def Let_def if_not_P [OF False] if_P [OF f] .
      then show ?thesis by (auto dest: flag_result_perm)
    qed
    with known k show ?thesis by (simp add: permission_ok_def)
  next
    case False
    show ?thesis
    proof (cases "fst e = ''filesystem''")
      case True
      with False assms show ?thesis
        by (auto simp: domain_entry_def Let_def filesystem_entry_def joined_perms split: jsval.splits if_splits intro: fs)
    next
      case not_fs: False
      with False assms obtain t where "map_of BOOLEAN_PERMISSIONS (fst e) = Some t" "p \<in> set (fst (boolean_entry (fst e) t (snd e)))"
        by (auto simp: domain_entry_def Let_def split: option.splits)
      then show ?thesis
        by (auto simp: boolean_entry_def joined_perms simp del: js_get.simps split: jsval.splits option.splits dest!: flag_result_perm intro: table)
    qed
  qed
qed

theorem normalized_permissions_known:
  assumes "p \<in> set (fst (normalizePermissions declared))"
  shows "permission_ok p"
proof -
  from assms obtain ps where "p \<in> set (fst (joined (map domain_entry ps)))"
    by (auto simp: normalizePermissions_def case_prod_beta split: option.splits jsval.splits)
  then obtain e where "p \<in> set (fst (domain_entry e))" unfolding joined_perms by auto
  then show ?thesis by (rule domain_entry_perm)
qed

text \<open>An inherited name is taken for a permission: it is granted and not reported.\<close>

lemma inherited_name_is_no_error:
  "normalizePermissions (Some (JObj [(''email'', JObj [(''toString'', JBool True)])])) = ([JNative ''toString''], [])"
  by code_simp

theorem permission_check_monotone_witness:
  "pc_allowed (checkPermissions [''filesystem.read:jobs.list''] [''filesystem.read:jobs.*''] [''filesystem.read:jobs.*'', ''network''])"
proof -
  have "pc_allowed (checkPermissions [''filesystem.read:jobs.*''] [''filesystem.read:jobs.*''] [''filesystem.read:jobs.*''])"
    "covers ''filesystem.read:jobs.*'' ''filesystem.read:jobs.list''" by (code_simp, code_simp)
  from permission_check_monotone [OF this(1), of "[''filesystem.read:jobs.list'']"] this(2) show ?thesis by simp
qed

end
