(* ===== verification/U2_Goal_Wakes.thy ===== *)
theory U2_Goal_Wakes
  imports U2_Goals U2_Date
begin

text \<open>
  Wakes of goals, \<open>server/agent/goal-wakes.js\<close>: the owner's single wake and the finite research
  series, the reconciliation that starts the next pass only after a confirmed one, and the start of
  a wake's run; with the timer triggers behind them and their leases,
  \<open>server/triggers/trigger-engine.js\<close>. \<open>Date.parse\<close> is a parameter; the model's work on a run is the
  awaited call of \<open>runScheduledGoalWake\<close>, which is split there.
\<close>

section \<open>Timer triggers\<close>

text \<open>\<open>createTrigger\<close> as a wake calls it.\<close>

definition wake_trigger :: "string \<Rightarrow> string \<Rightarrow> int \<Rightarrow> int \<Rightarrow> trigger_row" where
  "wake_trigger tid wakeId fireAt now =
     \<lparr>tr_id = tid, tr_name = ''Bounded goal wake'', tr_kind = ''timer'', tr_enabled = True,
      tr_config = JObj [(''fireAt'', JStr (iso_string fireAt)), (''action'', JObj [(''kind'', JStr ''goal_run''), (''wakeId'', JStr wakeId)])],
      tr_last_fired_at = None, tr_next_check_at = Some fireAt, tr_lease_owner = None, tr_lease_expires_at = None,
      tr_source = ''goal'', tr_created_at = now, tr_updated_at = now\<rparr>"

definition getTrigger :: "string \<Rightarrow> db \<Rightarrow> trigger_row option" where
  "getTrigger tid s = sql_get (\<lambda>t. tr_id t = tid) (triggers s)"

definition claimable :: "int \<Rightarrow> bool \<Rightarrow> trigger_row \<Rightarrow> bool" where
  "claimable now requireDue t \<longleftrightarrow>
     tr_enabled t \<and>
     (tr_lease_owner t = None \<or> (case tr_lease_expires_at t of None \<Rightarrow> True | Some e \<Rightarrow> e \<le> now)) \<and>
     (requireDue \<longrightarrow> (case tr_next_check_at t of None \<Rightarrow> False | Some c \<Rightarrow> c \<le> now))"

definition lease_trigger :: "string \<times> int \<times> int \<Rightarrow> trigger_row \<Rightarrow> trigger_row" where
  "lease_trigger p t = (case p of (owner, expires, now) \<Rightarrow> t\<lparr>tr_lease_owner := Some owner, tr_lease_expires_at := Some expires, tr_updated_at := now\<rparr>)"

definition claimTrigger :: "string \<Rightarrow> string \<Rightarrow> int \<Rightarrow> int \<Rightarrow> bool \<Rightarrow> db \<Rightarrow> trigger_row option \<times> db" where
  "claimTrigger tid owner leaseMs now requireDue s =
     (let P = (\<lambda>t. tr_id t = tid \<and> claimable now requireDue t);
          s' = s\<lparr>triggers := sql_update P (lease_trigger (owner, now + leaseMs, now)) (triggers s)\<rparr> in
      (if sql_changes P (triggers s) = 1 then getTrigger tid s' else None, s'))"

definition renew_trigger :: "int \<Rightarrow> trigger_row \<Rightarrow> trigger_row" where
  "renew_trigger expires t = t\<lparr>tr_lease_expires_at := Some expires\<rparr>"

definition renewTriggerLease :: "string \<Rightarrow> string \<Rightarrow> int \<Rightarrow> int \<Rightarrow> db \<Rightarrow> db" where
  "renewTriggerLease tid owner leaseMs now s =
     s\<lparr>triggers := sql_update (\<lambda>t. tr_id t = tid \<and> tr_lease_owner t = Some owner) (renew_trigger (now + leaseMs)) (triggers s)\<rparr>"

definition release_trigger :: "unit \<Rightarrow> trigger_row \<Rightarrow> trigger_row" where
  "release_trigger u t = t\<lparr>tr_lease_owner := None, tr_lease_expires_at := None\<rparr>"

definition releaseTriggerLease :: "string \<Rightarrow> string \<Rightarrow> db \<Rightarrow> db" where
  "releaseTriggerLease tid owner s =
     s\<lparr>triggers := sql_update (\<lambda>t. tr_id t = tid \<and> tr_lease_owner t = Some owner) (release_trigger ()) (triggers s)\<rparr>"

definition touch_trigger :: "int \<Rightarrow> trigger_row \<Rightarrow> trigger_row" where
  "touch_trigger now t = t\<lparr>tr_last_fired_at := Some now, tr_updated_at := now\<rparr>"

definition touchLastFired :: "string \<Rightarrow> int \<Rightarrow> db \<Rightarrow> db" where
  "touchLastFired tid now s = s\<lparr>triggers := sql_update (\<lambda>t. tr_id t = tid) (touch_trigger now) (triggers s)\<rparr>"

text \<open>The end of \<open>fireTimerOrSchedule\<close> for a timer: it has fired and disables itself.\<close>

definition spend_timer :: "int \<Rightarrow> trigger_row \<Rightarrow> trigger_row" where
  "spend_timer now t =
     t\<lparr>tr_enabled := False, tr_next_check_at := None, tr_lease_owner := None, tr_lease_expires_at := None, tr_updated_at := now\<rparr>"

definition finish_timer :: "string \<Rightarrow> string \<Rightarrow> int \<Rightarrow> db \<Rightarrow> db" where
  "finish_timer tid owner now s =
     s\<lparr>triggers := sql_update (\<lambda>t. tr_id t = tid \<and> tr_lease_owner t = Some owner) (spend_timer now) (triggers s)\<rparr>"

definition due_triggers :: "int \<Rightarrow> db \<Rightarrow> trigger_row list" where
  "due_triggers now s =
     filter (\<lambda>t. tr_enabled t \<and> tr_kind t \<in> {''timer'', ''schedule''} \<and> (case tr_next_check_at t of None \<Rightarrow> False | Some c \<Rightarrow> c \<le> now)) (triggers s)"

section \<open>Scheduling\<close>

text \<open>
  \<open>createWake\<close>, inside the caller's transaction: the trigger and the wake, with the constraints of
  the two tables (unique ids, one wake per trigger, one pending wake per goal).
\<close>

record wake_ids =
  wk_wake :: string
  wk_trigger :: string
  wk_research :: string

definition createWake :: "wake_ids \<Rightarrow> int \<Rightarrow> goal_row \<Rightarrow> int \<Rightarrow> int \<Rightarrow> (db, string) eff" where
  "createWake ids clock g fireAt now s =
     (if getTrigger (wk_trigger ids) s \<noteq> None then (Inl (SqlError ''UNIQUE constraint failed: triggers.id''), s)
      else
        let s1 = s\<lparr>triggers := triggers s @ [wake_trigger (wk_trigger ids) (wk_wake ids) fireAt clock]\<rparr> in
        if list_ex (\<lambda>w. w_id w = wk_wake ids) (wakes s1) then (Inl (SqlError ''UNIQUE constraint failed: goal_wakes.id''), s1)
        else if list_ex (\<lambda>w. w_trigger_id w = wk_trigger ids) (wakes s1)
        then (Inl (SqlError ''UNIQUE constraint failed: goal_wakes.trigger_id''), s1)
        else if list_ex (\<lambda>w. w_goal_id w = g_id g \<and> w_status w = W_pending) (wakes s1)
        then (Inl (SqlError ''UNIQUE constraint failed: goal_wakes.goal_id''), s1)
        else (Inr (wk_wake ids),
              s1\<lparr>wakes := wakes s1 @ [\<lparr>w_id = wk_wake ids, w_goal_id = g_id g, w_goal_revision = g_revision g, w_trigger_id = wk_trigger ids,
                   w_fire_at = fireAt, w_status = W_pending, w_run_id = None, w_blocker = None, w_created_at = now, w_updated_at = now\<rparr>]\<rparr>))"

definition MAX_WAKE_AHEAD :: int where "MAX_WAKE_AHEAD = 30 * 86400000"

text \<open>\<open>fireAt\<close> and \<open>expectedRevision\<close> of a request with no keys but the given ones.\<close>

definition wake_request :: "string list \<Rightarrow> jsval \<Rightarrow> (string \<times> int) option" where
  "wake_request keys input =
     (case input of
        JObj ps \<Rightarrow>
          if \<not> list_all (\<lambda>p. fst p \<in> set keys) ps then None
          else (case (expected_revision input, js_get (Some input) ''fireAt'') of
                  (Some n, Some (JStr t)) \<Rightarrow> Some (t, n)
                | _ \<Rightarrow> None)
      | _ \<Rightarrow> None)"

definition wake_time :: "(string \<Rightarrow> int option) \<Rightarrow> string \<Rightarrow> int \<Rightarrow> int option" where
  "wake_time parse text now =
     (case parse text of Some t \<Rightarrow> if t \<le> now \<or> t > now + MAX_WAKE_AHEAD then None else Some t | None \<Rightarrow> None)"

definition active_research :: "goal_view \<Rightarrow> bool" where
  "active_research v \<longleftrightarrow> map_option rs_status (gv_researchSchedule v) = Some ''active''"

definition scheduleGoalWake ::
  "(string \<Rightarrow> int option) \<Rightarrow> wake_ids \<Rightarrow> int \<Rightarrow> string \<Rightarrow> string \<Rightarrow> jsval \<Rightarrow> int \<Rightarrow> (db, goal_view) eff" where
  "scheduleGoalWake parse ids clock gid ownerId input now s =
     (case wake_request [''fireAt'', ''expectedRevision''] input of
        None \<Rightarrow> (Inl (HttpError 400 ''fireAt and a positive expectedRevision are required''), s)
      | Some (text, expected) \<Rightarrow>
          (case wake_time parse text now of
             None \<Rightarrow> (Inl (HttpError 400 ''Choose a future wake within 30 days''), s)
           | Some time \<Rightarrow>
               withTransaction (\<lambda>s.
                 case getGoalDraft gid ownerId s of
                   Inl e \<Rightarrow> (Inl e, s)
                 | Inr v \<Rightarrow>
                     if g_revision (gv_goal v) \<noteq> expected then (Inl (HttpError 409 ''Goal changed; reload before scheduling''), s)
                     else if \<not> gv_manualRunAvailable v
                     then (Inl (HttpError 409 ''Goal is stopped, busy, or out of budget; resolve it before scheduling''), s)
                     else if gv_nextWakeAt v \<noteq> None then (Inl (HttpError 409 ''A wake is already scheduled; pause the goal to cancel it''), s)
                     else if active_research v
                     then (Inl (HttpError 409 ''Research schedule is active; pause the goal before changing its timing''), s)
                     else (case createWake ids clock (gv_goal v) time now s of
                             (Inl e, s') \<Rightarrow> (Inl e, s')
                           | (Inr _, s') \<Rightarrow> (getGoalDraft gid ownerId s', s'))) s))"

definition research_request :: "jsval \<Rightarrow> (string \<times> int \<times> int \<times> int) option" where
  "research_request input =
     (case (wake_request [''fireAt'', ''expectedRevision'', ''intervalHours'', ''maxPasses''] input,
            integerBetween (js_get (Some input) ''intervalHours'') 24 720, integerBetween (js_get (Some input) ''maxPasses'') 2 10) of
        (Some (t, n), Some h, Some p) \<Rightarrow> Some (t, n, h, p)
      | _ \<Rightarrow> None)"

definition new_research :: "string \<Rightarrow> goal_row \<Rightarrow> int \<Rightarrow> int \<Rightarrow> string \<Rightarrow> int \<Rightarrow> research_row" where
  "new_research rid g hours passes wakeId now =
     \<lparr>rs_id = rid, rs_goal_id = g_id g, rs_goal_revision = g_revision g, rs_interval_hours = hours, rs_max_passes = passes,
      rs_scheduled_passes = 1, rs_successful_passes = 0, rs_wake_id = wakeId, rs_status = ''active'', rs_blocker = None,
      rs_checked_at = now, rs_created_at = now, rs_updated_at = now\<rparr>"

definition insert_research :: "research_row \<Rightarrow> (db, unit) eff" where
  "insert_research x s =
     (if list_ex (\<lambda>y. rs_id y = rs_id x) (researches s) then (Inl (SqlError ''UNIQUE constraint failed: goal_research_schedules.id''), s)
      else if list_ex (\<lambda>y. rs_goal_id y = rs_goal_id x \<and> rs_status y = ''active'') (researches s)
      then (Inl (SqlError ''UNIQUE constraint failed: goal_research_schedules.goal_id''), s)
      else (Inr (), s\<lparr>researches := researches s @ [x]\<rparr>))"

definition scheduleGoalResearch ::
  "(string \<Rightarrow> int option) \<Rightarrow> wake_ids \<Rightarrow> int \<Rightarrow> string \<Rightarrow> string \<Rightarrow> jsval \<Rightarrow> int \<Rightarrow> (db, goal_view) eff" where
  "scheduleGoalResearch parse ids clock gid ownerId input now s =
     (case research_request input of
        None \<Rightarrow> (Inl (HttpError 400 ''Choose 2-10 passes, 24-720 hour intervals, fireAt and expectedRevision''), s)
      | Some (text, expected, hours, passes) \<Rightarrow>
          (case wake_time parse text now of
             None \<Rightarrow> (Inl (HttpError 400 ''Choose a future start within 30 days''), s)
           | Some time \<Rightarrow>
               withTransaction (\<lambda>s.
                 case getGoalDraft gid ownerId s of
                   Inl e \<Rightarrow> (Inl e, s)
                 | Inr v \<Rightarrow>
                     let g = gv_goal v in
                     if g_revision g \<noteq> expected then (Inl (HttpError 409 ''Goal changed; reload before scheduling''), s)
                     else if g_domains g \<noteq> [''web''] then (Inl (HttpError 409 ''Finite research requires web-only goal scope''), s)
                     else if \<not> gv_manualRunAvailable v \<or> gv_nextWakeAt v \<noteq> None \<or> active_research v
                     then (Inl (HttpError 409 ''Goal is stopped, busy, scheduled or out of budget; review it first''), s)
                     else if int (gv_spentRuns v) + passes > maxRuns (g_budgets g) \<or> int (gv_spentModelCalls v) + passes > maxModelCalls (g_budgets g)
                     then (Inl (HttpError 409 ''Selected pass count exceeds remaining run/model budgets''), s)
                     else (case createWake ids clock g time now s of
                             (Inl e, s1) \<Rightarrow> (Inl e, s1)
                           | (Inr wakeId, s1) \<Rightarrow>
                               (case insert_research (new_research (wk_research ids) g hours passes wakeId now) s1 of
                                  (Inl e, s2) \<Rightarrow> (Inl e, s2)
                                | (Inr _, s2) \<Rightarrow> (getGoalDraft gid ownerId s2, s2)))) s))"

section \<open>Advancing a research series\<close>

definition stop_series :: "string \<times> int \<Rightarrow> research_row \<Rightarrow> research_row" where
  "stop_series p x = x\<lparr>rs_status := ''blocked'', rs_blocker := Some (fst p), rs_updated_at := snd p\<rparr>"

definition check_series :: "int \<Rightarrow> research_row \<Rightarrow> research_row" where
  "check_series now x = x\<lparr>rs_checked_at := now\<rparr>"

definition count_pass :: "int \<Rightarrow> research_row \<Rightarrow> research_row" where
  "count_pass now x = x\<lparr>rs_successful_passes := rs_successful_passes x + 1, rs_blocker := None, rs_updated_at := now\<rparr>"

definition complete_series :: "unit \<Rightarrow> research_row \<Rightarrow> research_row" where
  "complete_series u x = x\<lparr>rs_status := ''completed''\<rparr>"

definition next_pass :: "string \<times> int \<Rightarrow> research_row \<Rightarrow> research_row" where
  "next_pass p x = x\<lparr>rs_wake_id := fst p, rs_scheduled_passes := rs_scheduled_passes x + 1, rs_updated_at := snd p\<rparr>"

definition unavailable_series :: "int \<Rightarrow> research_row \<Rightarrow> research_row" where
  "unavailable_series now x = x\<lparr>rs_blocker := Some ''checkpoint_unavailable'', rs_checked_at := now\<rparr>"

definition on_series :: "string \<Rightarrow> (research_row \<Rightarrow> research_row) \<Rightarrow> db \<Rightarrow> db" where
  "on_series i f s = s\<lparr>researches := sql_update (\<lambda>x. rs_id x = i) f (researches s)\<rparr>"

definition failed_run :: "run_view \<Rightarrow> bool" where
  "failed_run v \<longleftrightarrow>
     rv_status v \<in> {R_failed, R_cancelled, R_budget_exhausted, R_needs_attention} \<or>
     (\<exists>t\<in>set (rv_steps v). sv_status t \<in> {S_failed, S_blocked, S_rejected, S_cancelled, S_skipped, S_outcome_uncertain, S_needs_attention})"

text \<open>Every step executed, as the step and as the action say, and one of them a web search.\<close>

definition step_outcome :: "db \<Rightarrow> step_row \<Rightarrow> action_status option" where
  "step_outcome s t = map_option a_status (Option.bind (s_action_id t) (\<lambda>a. getAgentAction a s))"

definition confirmed_research :: "string \<Rightarrow> db \<Rightarrow> bool" where
  "confirmed_research runId s \<longleftrightarrow>
     (let ts = filter (\<lambda>t. s_run_id t = runId) (steps s) in
      ts \<noteq> [] \<and> list_all (\<lambda>t. s_status t = S_executed \<and> step_outcome s t = Some AExecuted) ts \<and> list_ex (\<lambda>t. s_tool t = ''web.search'') ts)"

text \<open>After a confirmed pass: the series ends, stops, or gets its next wake.\<close>

definition after_pass :: "wake_ids \<Rightarrow> int \<Rightarrow> int \<Rightarrow> research_row \<Rightarrow> wake_row \<Rightarrow> goal_view \<Rightarrow> (db, unit) eff" where
  "after_pass ids clock now x w v s0 =
     (let s = on_series (rs_id x) (count_pass now) s0 in
      if rs_scheduled_passes x \<ge> rs_max_passes x then (Inr (), on_series (rs_id x) (complete_series ()) s)
      else if \<not> gv_manualRunAvailable v then (Inr (), on_series (rs_id x) (stop_series (''review_goal_budget_or_run'', now)) s)
      else (case createWake ids clock (gv_goal v) (max now (w_fire_at w) + rs_interval_hours x * 3600000) now s of
              (Inl e, s') \<Rightarrow> (Inl e, s')
            | (Inr wakeId, s') \<Rightarrow> (Inr (), on_series (rs_id x) (next_pass (wakeId, now)) s')))"

text \<open>What the wake's run says of the pass.\<close>

definition judge_pass :: "wake_ids \<Rightarrow> int \<Rightarrow> int \<Rightarrow> research_row \<Rightarrow> wake_row \<Rightarrow> goal_view \<Rightarrow> string \<Rightarrow> (db, unit) eff" where
  "judge_pass ids clock now x w v runId s =
     (case getRun runId clock s of
        (None, s') \<Rightarrow> (Inl (TypeError ''Cannot read properties of null''), s')
      | (Some rv, s') \<Rightarrow>
          if failed_run rv then (Inr (), on_series (rs_id x) (stop_series (''inspect_run_outcome'', now)) s')
          else if rv_status rv \<noteq> R_completed then (Inr (), s')
          else if \<not> confirmed_research runId s' then (Inr (), on_series (rs_id x) (stop_series (''no_confirmed_research'', now)) s')
          else after_pass ids clock now x w v s')"

definition advance_active :: "wake_ids \<Rightarrow> int \<Rightarrow> int \<Rightarrow> research_row \<Rightarrow> (db, unit) eff" where
  "advance_active ids clock now x s0 =
     (let s = on_series (rs_id x) (check_series now) s0; stop = (\<lambda>b. (Inr (), on_series (rs_id x) (stop_series (b, now)) s)) in
      case get_goal_row (rs_goal_id x) s of
        None \<Rightarrow> stop ''goal_unavailable''
      | Some owner \<Rightarrow>
          (case getGoalDraft (rs_goal_id x) (g_owner_id owner) s of
             Inl e \<Rightarrow> (Inl e, s)
           | Inr v \<Rightarrow>
               let g = gv_goal v in
               if g_revision g \<noteq> rs_goal_revision x \<or> g_status g \<notin> {G_draft, G_active} \<or> g_domains g \<noteq> [''web''] then stop ''goal_unavailable''
               else
                 (case sql_get (\<lambda>w. w_id w = rs_wake_id x \<and> w_goal_id w = g_id g \<and> w_goal_revision w = rs_goal_revision x) (wakes s) of
                    None \<Rightarrow> stop ''inspect_wake''
                  | Some w \<Rightarrow>
                      if w_status w = W_pending then (Inr (), s)
                      else
                        (case (w_status w, w_run_id w) of
                           (W_started, Some (c # cs)) \<Rightarrow>
                             if sql_get (\<lambda>r. r_id r = c # cs \<and> r_goal_id r = Some (g_id g) \<and> r_actor_id r = g_owner_id owner \<and>
                                             r_goal_revision r = Some (rs_goal_revision x)) (runs s) = None
                             then stop ''inspect_run''
                             else judge_pass ids clock now x w v (c # cs) s
                         | _ \<Rightarrow> stop ''inspect_wake''))))"

definition advance_series :: "wake_ids \<Rightarrow> int \<Rightarrow> int \<Rightarrow> string \<Rightarrow> (db, unit) eff" where
  "advance_series ids clock now i =
     withTransaction (\<lambda>s. case sql_get (\<lambda>x. rs_id x = i \<and> rs_status x = ''active'') (researches s) of
        None \<Rightarrow> (Inr (), s)
      | Some x \<Rightarrow> advance_active ids clock now x s)"

text \<open>A transaction that fails is undone and noted on the series.\<close>

definition advance_row :: "(string \<Rightarrow> wake_ids) \<Rightarrow> int \<Rightarrow> int \<Rightarrow> string \<Rightarrow> nat \<times> db \<Rightarrow> nat \<times> db" where
  "advance_row fresh clock now i acc =
     (case acc of (n, s) \<Rightarrow>
        (case advance_series (fresh i) clock now i s of
           (Inr _, s') \<Rightarrow> (n, s')
         | (Inl _, s') \<Rightarrow>
             (Suc n, s'\<lparr>researches := sql_update (\<lambda>x. rs_id x = i \<and> rs_status x = ''active'') (unavailable_series now) (researches s')\<rparr>)))"

definition active_series :: "db \<Rightarrow> string list" where
  "active_series s =
     take 20 (map rs_id (sort_key rs_checked_at (sort_key rs_id (filter (\<lambda>x. rs_status x = ''active'') (researches s)))))"

definition advanceGoalResearchSchedules :: "(string \<Rightarrow> wake_ids) \<Rightarrow> int \<Rightarrow> int \<Rightarrow> db \<Rightarrow> (nat \<times> nat) \<times> db" where
  "advanceGoalResearchSchedules fresh clock now s =
     (let ids = active_series s in case fold (advance_row fresh clock now) ids (0, s) of (n, s') \<Rightarrow> ((length ids, n), s'))"

section \<open>Starting the run of a wake\<close>

text \<open>Before the await: an answer, a blocker, or the goal to run for its owner.\<close>

datatype wake_start =
    Wake_answer string "string option" "string option"   \<comment> \<open>status, run, blocker\<close>
  | Wake_block wake_row string
  | Wake_run wake_row goal_view string

definition wake_status_text :: "wake_status \<Rightarrow> string" where
  "wake_status_text st = (case st of W_pending \<Rightarrow> ''pending'' | W_started \<Rightarrow> ''started'' | W_cancelled \<Rightarrow> ''cancelled'' | W_blocked \<Rightarrow> ''blocked'')"

text \<open>A value that SQLite cannot take as a parameter is thrown, before the \<open>try\<close>.\<close>

definition sql_parameter :: "jsval option \<Rightarrow> bool" where
  "sql_parameter v \<longleftrightarrow> (case v of Some (JStr _) \<Rightarrow> True | Some (JNum _) \<Rightarrow> True | Some JNull \<Rightarrow> True | _ \<Rightarrow> False)"

definition wake_prepare :: "trigger_row \<Rightarrow> db \<Rightarrow> wake_start res" where
  "wake_prepare t s =
     (let wakeId = js_get (js_get (Some (tr_config t)) ''action'') ''wakeId'' in
      if \<not> sql_parameter wakeId then Inl (TypeError ''Provided value cannot be bound to SQLite parameter 1.'')
      else Inr (case sql_get (\<lambda>w. wakeId = Some (JStr (w_id w)) \<and> w_trigger_id w = tr_id t) (wakes s) of
        None \<Rightarrow> Wake_answer ''blocked'' None (Some ''invalid_goal_wake'')
      | Some w \<Rightarrow>
          if tr_source t \<noteq> ''goal'' \<or> tr_kind t \<noteq> ''timer'' then Wake_answer ''blocked'' None (Some ''invalid_goal_wake'')
          else if w_status w \<noteq> W_pending then Wake_answer (wake_status_text (w_status w)) (w_run_id w) (w_blocker w)
          else
            (case get_goal_row (w_goal_id w) s of
               None \<Rightarrow> Wake_block w ''run_not_started''
             | Some owner \<Rightarrow>
                 (case getGoalDraft (w_goal_id w) (g_owner_id owner) s of
                    Inl e \<Rightarrow> Wake_block w ''run_not_started''
                  | Inr v \<Rightarrow>
                      if g_revision (gv_goal v) \<noteq> w_goal_revision w \<or> g_status (gv_goal v) \<notin> {G_draft, G_active} then Wake_block w ''goal_unavailable''
                      else if \<not> gv_manualRunAvailable v then Wake_block w ''review_goal_budget_or_run''
                      else Wake_run w v (g_owner_id owner)))))"

definition block_wake :: "string \<times> int \<Rightarrow> wake_row \<Rightarrow> wake_row" where
  "block_wake p w = w\<lparr>w_status := W_blocked, w_blocker := Some (fst p), w_updated_at := snd p\<rparr>"

definition note_wake :: "string \<Rightarrow> wake_row \<Rightarrow> wake_row" where
  "note_wake b w = w\<lparr>w_blocker := Some b\<rparr>"

text \<open>The \<open>catch\<close>: a wake still pending is blocked, one that started a run is left to be inspected.\<close>

definition wake_failed :: "string \<Rightarrow> string \<Rightarrow> int \<Rightarrow> (db, wake_start) eff" where
  "wake_failed wid blocker now s =
     (let s1 = s\<lparr>wakes := sql_update (\<lambda>w. w_id w = wid \<and> w_status w = W_pending) (block_wake (blocker, now)) (wakes s)\<rparr>;
          s2 = s1\<lparr>wakes := sql_update (\<lambda>w. w_id w = wid \<and> w_status w = W_started) (note_wake ''inspect_run_failure'') (wakes s1)\<rparr> in
      (case sql_get (\<lambda>w. w_id w = wid) (wakes s2) of
         None \<Rightarrow> (Inl (TypeError ''Cannot read properties of undefined''), s2)
       | Some w \<Rightarrow> (Inr (Wake_answer (wake_status_text (w_status w)) (w_run_id w)
                     (Some (if (case w_run_id w of Some (c # cs) \<Rightarrow> True | _ \<Rightarrow> False) then ''inspect_run_failure'' else blocker))), s2)))"

text \<open>After the awaited run: its status is noted unless it completed.\<close>

definition wake_done :: "string \<Rightarrow> string \<Rightarrow> int \<Rightarrow> (db, unit) eff" where
  "wake_done wid runId clock s =
     (case getRun runId clock s of
        (None, s') \<Rightarrow> (Inl (TypeError ''Cannot read properties of null''), s')
      | (Some rv, s') \<Rightarrow>
          (Inr (), if rv_status rv = R_completed then s'
                   else s'\<lparr>wakes := sql_update (\<lambda>w. w_id w = wid) (note_wake ''inspect_run_status'') (wakes s')\<rparr>))"


section \<open>What every operation keeps\<close>

text \<open>
  The rows of the two tables: the ids are distinct, a goal has at most one pending wake and one
  active series, and a series has scheduled no more passes than the owner chose, has counted no
  more than it scheduled, and while active waits for the outcome of exactly one.
\<close>

definition wakes_ok :: "wake_row list \<Rightarrow> bool" where
  "wakes_ok ws \<longleftrightarrow> distinct (map w_id ws) \<and>
     (\<forall>a\<in>set ws. \<forall>b\<in>set ws. w_status a = W_pending \<and> w_status b = W_pending \<and> w_goal_id a = w_goal_id b \<longrightarrow> a = b)"

definition passes_ok :: "research_row \<Rightarrow> bool" where
  "passes_ok x \<longleftrightarrow> 0 \<le> rs_successful_passes x \<and> rs_successful_passes x \<le> rs_scheduled_passes x \<and>
     rs_scheduled_passes x \<le> rs_max_passes x \<and> rs_max_passes x \<le> 10 \<and>
     (rs_status x = ''active'' \<longrightarrow> rs_scheduled_passes x = rs_successful_passes x + 1)"

definition series_ok :: "research_row list \<Rightarrow> bool" where
  "series_ok xs \<longleftrightarrow> distinct (map rs_id xs) \<and> (\<forall>x\<in>set xs. passes_ok x) \<and>
     (\<forall>a\<in>set xs. \<forall>b\<in>set xs. rs_status a = ''active'' \<and> rs_status b = ''active'' \<and> rs_goal_id a = rs_goal_id b \<longrightarrow> a = b)"

definition goals_ok :: "db \<Rightarrow> bool" where
  "goals_ok s \<longleftrightarrow> wakes_ok (wakes s) \<and> series_ok (researches s)"

text \<open>A wake that is no longer pending keeps its status and its run.\<close>

definition wakes_kept :: "wake_row list \<Rightarrow> wake_row list \<Rightarrow> bool" where
  "wakes_kept ws ws' \<longleftrightarrow>
     (\<forall>w\<in>set ws. w_status w \<noteq> W_pending \<longrightarrow> (\<exists>w'\<in>set ws'. w_id w' = w_id w \<and> w_status w' = w_status w \<and> w_run_id w' = w_run_id w))"

definition wakes_step :: "wake_row list \<Rightarrow> wake_row list \<Rightarrow> bool" where
  "wakes_step ws ws' \<longleftrightarrow> (wakes_ok ws \<longrightarrow> wakes_ok ws') \<and> wakes_kept ws ws'"

definition sound_step :: "db \<Rightarrow> db \<Rightarrow> bool" where
  "sound_step s s' \<longleftrightarrow> wakes_step (wakes s) (wakes s') \<and> (series_ok (researches s) \<longrightarrow> series_ok (researches s'))"

definition settles :: "(wake_row \<Rightarrow> bool) \<Rightarrow> (wake_row \<Rightarrow> wake_row) \<Rightarrow> bool" where
  "settles P f \<longleftrightarrow> (\<forall>w. w_id (f w) = w_id w \<and> w_goal_id (f w) = w_goal_id w \<and> (w_status w \<noteq> W_pending \<longrightarrow> w_status (f w) \<noteq> W_pending) \<and>
     (P w \<and> w_status w \<noteq> W_pending \<longrightarrow> w_status (f w) = w_status w \<and> w_run_id (f w) = w_run_id w))"

lemma wakes_kept_refl [simp]: "wakes_kept ws ws" by (auto simp: wakes_kept_def)

lemma wakes_kept_trans: "wakes_kept a b \<Longrightarrow> wakes_kept b c \<Longrightarrow> wakes_kept a c"
  unfolding wakes_kept_def
proof (intro ballI impI)
  fix w assume ab: "\<forall>w\<in>set a. w_status w \<noteq> W_pending \<longrightarrow> (\<exists>w'\<in>set b. w_id w' = w_id w \<and> w_status w' = w_status w \<and> w_run_id w' = w_run_id w)"
    and bc: "\<forall>w\<in>set b. w_status w \<noteq> W_pending \<longrightarrow> (\<exists>w'\<in>set c. w_id w' = w_id w \<and> w_status w' = w_status w \<and> w_run_id w' = w_run_id w)"
    and w: "w \<in> set a" "w_status w \<noteq> W_pending"
  from ab w obtain v where v: "v \<in> set b" "w_id v = w_id w" "w_status v = w_status w" "w_run_id v = w_run_id w" by blast
  with bc w(2) obtain u where "u \<in> set c" "w_id u = w_id v" "w_status u = w_status v" "w_run_id u = w_run_id v"
    using bspec [OF bc v(1)] by (simp only: v(3)) blast
  with v show "\<exists>w'\<in>set c. w_id w' = w_id w \<and> w_status w' = w_status w \<and> w_run_id w' = w_run_id w"
    by (intro bexI [of _ u]) simp_all
qed

lemma wakes_kept_append [simp]: "wakes_kept ws (ws @ us)" by (auto simp: wakes_kept_def)

lemma sound_refl: "wakes s' = wakes s \<Longrightarrow> researches s' = researches s \<Longrightarrow> sound_step s s'"
  by (simp add: sound_step_def wakes_step_def)

lemma sound_trans: "sound_step a b \<Longrightarrow> sound_step b c \<Longrightarrow> sound_step a c"
  by (auto simp: sound_step_def wakes_step_def intro: wakes_kept_trans)

lemma sound_goals_ok: "sound_step s s' \<Longrightarrow> goals_ok s \<Longrightarrow> goals_ok s'"
  by (simp add: sound_step_def wakes_step_def goals_ok_def)

lemma unique_image:
  assumes "\<forall>a\<in>S. \<forall>b\<in>S. R a b \<longrightarrow> a = b" and "\<And>a b. a \<in> S \<Longrightarrow> b \<in> S \<Longrightarrow> R (u a) (u b) \<Longrightarrow> R a b"
  shows "\<forall>a\<in>u ` S. \<forall>b\<in>u ` S. R a b \<longrightarrow> a = b"
proof (intro ballI impI)
  fix a b assume "a \<in> u ` S" "b \<in> u ` S" and R: "R a b"
  then obtain x y where xy: "x \<in> S" "y \<in> S" "a = u x" "b = u y" by blast
  with R assms(2) have "R x y" by simp
  with assms(1) xy show "a = b" by blast
qed

lemma wakes_update:
  assumes "settles P f"
  shows "wakes_kept ws (sql_update P f ws)" and "wakes_ok ws \<Longrightarrow> wakes_ok (sql_update P f ws)"
proof -
  let ?u = "\<lambda>w. if P w then f w else w"
  have u: "w_id (?u w) = w_id w" "w_goal_id (?u w) = w_goal_id w" "w_status w \<noteq> W_pending \<Longrightarrow> w_status (?u w) \<noteq> W_pending"
    "w_status w \<noteq> W_pending \<Longrightarrow> w_status (?u w) = w_status w \<and> w_run_id (?u w) = w_run_id w" for w
    using spec [OF assms [unfolded settles_def], of w] by (cases "P w"; simp)+
  show "wakes_kept ws (sql_update P f ws)"
    unfolding wakes_kept_def set_sql_update
  proof (intro ballI impI)
    fix w assume w: "w \<in> set ws" "w_status w \<noteq> W_pending"
    show "\<exists>w'\<in>?u ` set ws. w_id w' = w_id w \<and> w_status w' = w_status w \<and> w_run_id w' = w_run_id w"
    proof (rule bexI [of _ "?u w"])
      show "w_id (?u w) = w_id w \<and> w_status (?u w) = w_status w \<and> w_run_id (?u w) = w_run_id w"
        using u(1) [of w] u(4) [OF w(2)] by (rule conjI)
      show "?u w \<in> ?u ` set ws" using w(1) by (rule imageI)
    qed
  qed
  assume ok: "wakes_ok ws"
  have "map w_id (sql_update P f ws) = map w_id ws" using u(1) by (simp add: sql_update_def)
  moreover have "\<forall>a\<in>?u ` set ws. \<forall>b\<in>?u ` set ws. w_status a = W_pending \<and> w_status b = W_pending \<and> w_goal_id a = w_goal_id b \<longrightarrow> a = b"
    by (rule unique_image) (use ok u(2,3) in \<open>auto simp: wakes_ok_def\<close>)
  ultimately show "wakes_ok (sql_update P f ws)"
    using ok by (simp add: wakes_ok_def set_sql_update)
qed

lemma series_update:
  assumes "series_ok xs"
    and "\<And>x. x \<in> set xs \<Longrightarrow> P x \<Longrightarrow> passes_ok (f x) \<and> rs_id (f x) = rs_id x \<and> rs_goal_id (f x) = rs_goal_id x \<and>
            (rs_status (f x) = ''active'' \<longrightarrow> rs_status x = ''active'')"
  shows "series_ok (sql_update P f xs)"
proof -
  let ?u = "\<lambda>x. if P x then f x else x"
  have u: "passes_ok (?u x)" "rs_id (?u x) = rs_id x" "rs_goal_id (?u x) = rs_goal_id x"
    "rs_status (?u x) = ''active'' \<Longrightarrow> rs_status x = ''active''" if "x \<in> set xs" for x
    using assms that by (auto simp: series_ok_def split: if_split_asm)
  have "map rs_id (sql_update P f xs) = map rs_id xs" using u(2) by (simp add: sql_update_def)
  moreover have "\<forall>a\<in>?u ` set xs. \<forall>b\<in>?u ` set xs. rs_status a = ''active'' \<and> rs_status b = ''active'' \<and> rs_goal_id a = rs_goal_id b \<longrightarrow> a = b"
    by (rule unique_image) (use assms(1) u(3,4) in \<open>auto simp: series_ok_def\<close>)
  moreover have "\<forall>x\<in>?u ` set xs. passes_ok x" using u(1) by blast
  ultimately show ?thesis
    using assms(1) by (simp add: series_ok_def set_sql_update del: ball_Un)
qed


section \<open>The operations one by one\<close>

lemma sound_transaction:
  "(\<And>x s'. m s = (Inr x, s') \<Longrightarrow> sound_step s s') \<Longrightarrow> sound_step s (snd (withTransaction m s))"
  by (auto simp: withTransaction_def sound_refl split: prod.splits sum.splits)

lemma sound_wakes: "settles P f \<Longrightarrow> sound_step s (s\<lparr>wakes := sql_update P f (wakes s)\<rparr>)"
  by (simp add: sound_step_def wakes_step_def wakes_update)

lemma createWake_effect:
  assumes "createWake ids clock g fireAt now s = (Inr i, s')"
  shows "i = wk_wake ids" and "researches s' = researches s" and "runs s' = runs s" and "steps s' = steps s" and "actions s' = actions s"
    and "\<exists>w. wakes s' = wakes s @ [w] \<and> w_id w = i \<and> w_fire_at w = fireAt \<and> w_goal_id w = g_id g \<and> w_status w = W_pending"
    and "sound_step s s'"
proof -
  let ?w = "\<lparr>w_id = wk_wake ids, w_goal_id = g_id g, w_goal_revision = g_revision g, w_trigger_id = wk_trigger ids,
    w_fire_at = fireAt, w_status = W_pending, w_run_id = None, w_blocker = None, w_created_at = now, w_updated_at = now\<rparr>"
  have e: "i = wk_wake ids" "s' = s\<lparr>triggers := triggers s @ [wake_trigger (wk_trigger ids) (wk_wake ids) fireAt clock], wakes := wakes s @ [?w]\<rparr>"
    and new: "\<forall>w\<in>set (wakes s). w_id w \<noteq> wk_wake ids" "\<forall>w\<in>set (wakes s). \<not> (w_goal_id w = g_id g \<and> w_status w = W_pending)"
    using assms by (auto simp: createWake_def Let_def list_ex_iff split: if_split_asm)
  show "i = wk_wake ids" "researches s' = researches s" "runs s' = runs s" "steps s' = steps s" "actions s' = actions s"
    "\<exists>w. wakes s' = wakes s @ [w] \<and> w_id w = i \<and> w_fire_at w = fireAt \<and> w_goal_id w = g_id g \<and> w_status w = W_pending"
    by (simp_all add: e)
  have "wakes_ok (wakes s @ [?w])" if "wakes_ok (wakes s)"
    using that new by (auto simp: wakes_ok_def)
  then show "sound_step s s'" by (simp add: e sound_step_def wakes_step_def)
qed

lemma createWake_frame: "createWake ids clock g fireAt now s = (Inl e, s') \<Longrightarrow> wakes s' = wakes s \<and> researches s' = researches s"
  by (auto simp: createWake_def Let_def split: if_split_asm)

lemma scheduleGoalWake_sound: "sound_step s (snd (scheduleGoalWake parse ids clock gid owner input now s))"
  unfolding scheduleGoalWake_def
  by (auto simp: sound_refl Let_def split: option.split if_split
      intro!: sound_transaction split: sum.split_asm if_split_asm prod.split_asm dest: createWake_effect(7))

lemma research_request_passes:
  assumes "research_request input = Some (t, n, h, p)"
  shows "2 \<le> p" and "p \<le> 10" and "24 \<le> h"
  using assms by (auto simp: research_request_def integerBetween_def split: option.split_asm if_split_asm)

lemma insert_research_sound:
  assumes "insert_research x s = (Inr u, s')" and "passes_ok x"
  shows "sound_step s s'"
proof -
  have e: "s' = s\<lparr>researches := researches s @ [x]\<rparr>" and new: "\<forall>y\<in>set (researches s). rs_id y \<noteq> rs_id x"
    "\<forall>y\<in>set (researches s). \<not> (rs_goal_id y = rs_goal_id x \<and> rs_status y = ''active'')"
    using assms(1) by (auto simp: insert_research_def list_ex_iff split: if_split_asm)
  have "series_ok (researches s @ [x])" if "series_ok (researches s)"
    using that new assms(2) by (auto simp: series_ok_def)
  then show ?thesis by (simp add: e sound_step_def wakes_step_def)
qed

lemma start_series_sound:
  assumes "createWake ids clock g t now s = (Inr i, s1)" and "insert_research (new_research rid g h p i now) s1 = (Inr u, s')"
    and "2 \<le> p" and "p \<le> 10"
  shows "sound_step s s'"
  using createWake_effect(7) [OF assms(1)] insert_research_sound [OF assms(2)] assms(3,4)
  by (auto simp: passes_ok_def new_research_def intro: sound_trans)

lemma scheduleGoalResearch_sound: "sound_step s (snd (scheduleGoalResearch parse ids clock gid owner input now s))"
proof (cases "research_request input")
  case (Some q)
  obtain t n h p where q: "q = (t, n, h, p)" by (cases q)
  note bound = research_request_passes(1,2) [OF Some [unfolded q]]
  show ?thesis
    unfolding scheduleGoalResearch_def Some q
    by (auto simp: sound_refl Let_def split: option.split
        intro!: sound_transaction split: sum.split_asm if_split_asm prod.split_asm
        dest: start_series_sound [OF _ _ bound])
qed (simp add: scheduleGoalResearch_def sound_refl)

section \<open>A confirmed pass\<close>

text \<open>What one reconciliation does to its series: it is looked at, stopped, or its pass is counted.\<close>

lemma on_series_twice:
  "(\<And>x. rs_id (f x) = rs_id x) \<Longrightarrow> on_series i g (on_series i f s) = on_series i (\<lambda>x. g (f x)) s"
  by (auto simp: on_series_def sql_update_def)

lemma getRun_tables:
  "wakes (snd (getRun rid t s)) = wakes s" "researches (snd (getRun rid t s)) = researches s"
  "actions (snd (getRun rid t s)) = actions s"
  by (simp_all add: getRun_def Let_def split: option.split)

lemma series_ids [simp]:
  "rs_id (stop_series p x) = rs_id x" "rs_id (check_series n x) = rs_id x" "rs_id (count_pass n x) = rs_id x"
  "rs_id (complete_series u x) = rs_id x" "rs_id (next_pass q x) = rs_id x"
  by (simp_all add: stop_series_def check_series_def count_pass_def complete_series_def next_pass_def)

lemma on_series_frame [simp]:
  "wakes (on_series i f s) = wakes s" "steps (on_series i f s) = steps s" "runs (on_series i f s) = runs s"
  "actions (on_series i f s) = actions s" "goals (on_series i f s) = goals s"
  "researches (on_series i f s) = sql_update (\<lambda>x. rs_id x = i) f (researches s)"
  by (simp_all add: on_series_def)

definition after_count :: "research_row \<Rightarrow> (research_row \<Rightarrow> research_row) \<Rightarrow> bool" where
  "after_count x f \<longleftrightarrow>
     f = complete_series () \<or> (\<exists>p. f = stop_series p) \<or> (rs_scheduled_passes x < rs_max_passes x \<and> (\<exists>p. f = next_pass p))"

definition counted_pass :: "int \<Rightarrow> int \<Rightarrow> research_row \<Rightarrow> db \<Rightarrow> db \<Rightarrow> bool" where
  "counted_pass now fireAt x s s' \<longleftrightarrow>
     wakes_step (wakes s) (wakes s') \<and> steps s' = steps s \<and> actions s' = actions s \<and>
     (\<forall>w\<in>set (wakes s') - set (wakes s). w_fire_at w = fireAt) \<and>
     (\<exists>f. researches s' = sql_update (\<lambda>y. rs_id y = rs_id x) (\<lambda>y. f (count_pass now y)) (researches s) \<and> after_count x f)"

lemma counted_passI:
  assumes "researches s' = sql_update (\<lambda>y. rs_id y = rs_id x) (\<lambda>y. f (count_pass now y)) (researches s)" and "after_count x f"
    and "wakes_step (wakes s) (wakes s')" and "steps s' = steps s" and "actions s' = actions s"
    and "\<forall>w\<in>set (wakes s') - set (wakes s). w_fire_at w = fireAt"
  shows "counted_pass now fireAt x s s'"
  unfolding counted_pass_def using assms by blast

lemma after_pass_effect:
  assumes "after_pass ids clock now x w v s = (Inr u, s')"
  shows "counted_pass now (max now (w_fire_at w) + rs_interval_hours x * 3600000) x s s'"
proof -
  let ?u = "on_series (rs_id x) (count_pass now) s"
  consider (over) f where "s' = on_series (rs_id x) f ?u" "f = complete_series () \<or> (\<exists>p. f = stop_series p)"
    | (more) i s1 where "rs_scheduled_passes x < rs_max_passes x"
      "createWake ids clock (gv_goal v) (max now (w_fire_at w) + rs_interval_hours x * 3600000) now ?u = (Inr i, s1)"
      "s' = on_series (rs_id x) (next_pass (i, now)) s1"
    using assms by (auto simp: after_pass_def Let_def split: if_split_asm prod.split_asm sum.split_asm)
  then show ?thesis
  proof cases
    case over
    show ?thesis
    proof (rule counted_passI)
      show "researches s' = sql_update (\<lambda>y. rs_id y = rs_id x) (\<lambda>y. f (count_pass now y)) (researches s)"
        by (simp add: over(1) sql_update_def comp_def cong: if_cong)
      show "after_count x f" using over(2) by (auto simp: after_count_def)
    qed (simp_all add: over(1) wakes_step_def)
  next
    case more
    note c = createWake_effect [OF more(2)]
    show ?thesis
    proof (rule counted_passI)
      show "researches s' = sql_update (\<lambda>y. rs_id y = rs_id x) (\<lambda>y. next_pass (i, now) (count_pass now y)) (researches s)"
        by (simp add: more(3) c(2) sql_update_def comp_def cong: if_cong)
      show "after_count x (next_pass (i, now))" using more(1) by (auto simp: after_count_def)
      from c(6) obtain w' where w': "wakes s1 = wakes ?u @ [w']" "w_fire_at w' = max now (w_fire_at w) + rs_interval_hours x * 3600000" by blast
      then show "\<forall>w'\<in>set (wakes s') - set (wakes s). w_fire_at w' = max now (w_fire_at w) + rs_interval_hours x * 3600000"
        by (auto simp: more(3))
      show "wakes_step (wakes s) (wakes s')" using c(7) by (simp add: more(3) sound_step_def)
    qed (simp_all add: more(3) c)
  qed
qed


text \<open>
  A series' wake started a run of its goal that has completed, with every step executed and a
  search of the web among them. \<open>s\<close> is the state before, \<open>s'\<close> the one in which the steps are up to
  date.
\<close>

definition confirmed_wake :: "int \<Rightarrow> research_row \<Rightarrow> wake_row \<Rightarrow> db \<Rightarrow> db \<Rightarrow> bool" where
  "confirmed_wake clock x w s s' \<longleftrightarrow>
     w \<in> set (wakes s) \<and> w_id w = rs_wake_id x \<and> w_goal_id w = rs_goal_id x \<and> w_status w = W_started \<and>
     (\<exists>rid. w_run_id w = Some rid \<and>
        (\<exists>r\<in>set (runs s). r_id r = rid \<and> r_goal_id r = Some (rs_goal_id x) \<and> r_goal_revision r = Some (rs_goal_revision x)) \<and>
        (\<exists>rv. fst (getRun rid clock s) = Some rv \<and> rv_status rv = R_completed) \<and> confirmed_research rid s')"

definition keeps_passes :: "(research_row \<Rightarrow> research_row) \<Rightarrow> bool" where
  "keeps_passes f \<longleftrightarrow> (\<forall>y. rs_id (f y) = rs_id y \<and> rs_goal_id (f y) = rs_goal_id y \<and> rs_max_passes (f y) = rs_max_passes y \<and>
     rs_scheduled_passes (f y) = rs_scheduled_passes y \<and> rs_successful_passes (f y) = rs_successful_passes y \<and>
     (rs_status y \<noteq> ''active'' \<longrightarrow> rs_status (f y) \<noteq> ''active''))"

lemma keeps_passes_intros:
  "keeps_passes (check_series n)" "keeps_passes f \<Longrightarrow> keeps_passes (\<lambda>y. stop_series p (f y))" "keeps_passes (unavailable_series n)"
  by (simp_all add: keeps_passes_def check_series_def stop_series_def unavailable_series_def)

lemma confirmed_research_cong: "steps s = steps s' \<Longrightarrow> actions s = actions s' \<Longrightarrow> confirmed_research rid s = confirmed_research rid s'"
  by (simp add: confirmed_research_def step_outcome_def getAgentAction_def cong: if_cong)

lemma getGoalDraft_id: "getGoalDraft gid owner s = Inr v \<Longrightarrow> g_id (gv_goal v) = gid"
  by (auto simp: getGoalDraft_def present_def Let_def split: option.split_asm dest: sql_get_SomeD)

lemma current_status_series [simp]: "current_status (s\<lparr>researches := xs\<rparr>) = current_status s"
  by (rule ext) (simp add: current_status_def join_step_def getAgentAction_def getQueuedActionByActionId_def Let_def split: option.split)

lemma getRun_on_series: "fst (getRun rid t (on_series i f s)) = fst (getRun rid t s)"
  by (simp add: getRun_def get_run_row_def run_steps_def on_series_def Let_def split: option.split)

inductive series_outcome :: "int \<Rightarrow> int \<Rightarrow> research_row \<Rightarrow> db \<Rightarrow> db \<Rightarrow> bool" for clock now x s s' where
  outcome_kept: "wakes s' = wakes s \<Longrightarrow> keeps_passes f \<Longrightarrow> researches s' = sql_update (\<lambda>y. rs_id y = rs_id x) f (researches s) \<Longrightarrow>
     series_outcome clock now x s s'"
| outcome_counted: "confirmed_wake clock x w s s' \<Longrightarrow> wakes_step (wakes s) (wakes s') \<Longrightarrow>
     \<forall>u\<in>set (wakes s') - set (wakes s). w_fire_at u = max now (w_fire_at w) + rs_interval_hours x * 3600000 \<Longrightarrow>
     after_count x f \<Longrightarrow> researches s' = sql_update (\<lambda>y. rs_id y = rs_id x) (\<lambda>y. f (count_pass now (check_series now y))) (researches s) \<Longrightarrow>
     series_outcome clock now x s s'"

lemma judge_pass_cases:
  assumes "judge_pass ids clock now x w v rid s = (Inr u, s')"
  obtains (kept) "s' = snd (getRun rid clock s)"
  | (stopped) b where "s' = on_series (rs_id x) (stop_series b) (snd (getRun rid clock s))"
  | (counted) rv where "fst (getRun rid clock s) = Some rv" "rv_status rv = R_completed" "confirmed_research rid (snd (getRun rid clock s))"
      "counted_pass now (max now (w_fire_at w) + rs_interval_hours x * 3600000) x (snd (getRun rid clock s)) s'"
  using assms by (auto simp: judge_pass_def dest: after_pass_effect split: prod.split_asm option.split_asm if_split_asm)


lemma advance_active_outcome:
  assumes "advance_active ids clock now x s = (Inr u, s')"
  shows "series_outcome clock now x s s'"
proof -
  define t where "t = on_series (rs_id x) (check_series now) s"
  have t: "wakes t = wakes s" "runs t = runs s" "researches t = sql_update (\<lambda>y. rs_id y = rs_id x) (check_series now) (researches s)"
    by (simp_all add: t_def)
  have twice: "sql_update (\<lambda>y. rs_id y = rs_id x) f (researches t) = sql_update (\<lambda>y. rs_id y = rs_id x) (\<lambda>y. f (check_series now y)) (researches s)" for f
    by (simp add: t_def sql_update_def comp_def cong: if_cong)
  have stop_case: "series_outcome clock now x s s'" if "wakes s' = wakes t" "researches s' = sql_update (\<lambda>y. rs_id y = rs_id x) (stop_series p) (researches t)" for p
    using that by (intro outcome_kept [where f = "\<lambda>y. stop_series p (check_series now y)"])
      (simp_all add: t(1) twice keeps_passes_intros)
  have same: "series_outcome clock now x s s'" if "wakes s' = wakes t" "researches s' = researches t"
    using that by (intro outcome_kept [where f = "check_series now"]) (simp_all add: t keeps_passes_intros)
  have "(\<exists>p. s' = on_series (rs_id x) (stop_series p) t) \<or> s' = t \<or>
    (\<exists>w v c cs r. w \<in> set (wakes t) \<and> w_id w = rs_wake_id x \<and> w_goal_id w = g_id (gv_goal v) \<and> g_id (gv_goal v) = rs_goal_id x \<and>
       w_status w = W_started \<and> w_run_id w = Some (c # cs) \<and>
       r \<in> set (runs t) \<and> r_id r = c # cs \<and> r_goal_id r = Some (g_id (gv_goal v)) \<and> r_goal_revision r = Some (rs_goal_revision x) \<and>
       judge_pass ids clock now x w v (c # cs) t = (Inr u, s'))"
    using assms unfolding advance_active_def Let_def t_def [symmetric]
    by (auto split: option.split_asm sum.split_asm if_split_asm wake_status.split_asm list.split_asm
        dest!: sql_get_SomeD getGoalDraft_id)
  then consider (stop) p where "s' = on_series (rs_id x) (stop_series p) t" | (idle) "s' = t"
    | (judged) w v rid r where "w \<in> set (wakes t)" "w_id w = rs_wake_id x" "w_goal_id w = rs_goal_id x" "w_status w = W_started" "w_run_id w = Some rid"
       "r \<in> set (runs t)" "r_id r = rid" "r_goal_id r = Some (rs_goal_id x)" "r_goal_revision r = Some (rs_goal_revision x)"
       "judge_pass ids clock now x w v rid t = (Inr u, s')" by metis
  then show ?thesis
  proof cases
    case stop
    then show ?thesis by (intro stop_case) simp_all
  next
    case idle
    then show ?thesis by (intro same) simp_all
  next
    case judged
    from judged(10) show ?thesis
    proof (cases rule: judge_pass_cases)
      case kept
      then show ?thesis by (intro same) (simp_all add: getRun_tables)
    next
      case (stopped b)
      then show ?thesis by (intro stop_case) (simp_all add: getRun_tables)
    next
      case (counted rv)
      let ?r = "snd (getRun rid clock t)"
      from counted(4) obtain f where f: "researches s' = sql_update (\<lambda>y. rs_id y = rs_id x) (\<lambda>y. f (count_pass now y)) (researches ?r)" "after_count x f"
        and c: "wakes_step (wakes ?r) (wakes s')" "steps s' = steps ?r" "actions s' = actions ?r"
        "\<forall>u\<in>set (wakes s') - set (wakes ?r). w_fire_at u = max now (w_fire_at w) + rs_interval_hours x * 3600000"
        unfolding counted_pass_def by blast
      have "confirmed_research rid s'" using counted(3) confirmed_research_cong [OF c(2,3)] by simp
      then have "confirmed_wake clock x w s s'"
        using judged counted(1,2) by (auto simp: confirmed_wake_def t getRun_on_series t_def)
      then show ?thesis
        using c(1,4) f by (intro outcome_counted [where w = w and f = f]) (simp_all add: getRun_tables t(1) twice)
    qed
  qed
qed


lemma passes_ok_counted:
  assumes "passes_ok y" and "rs_status y = ''active''" and "after_count y f"
  shows "passes_ok (f (count_pass n (check_series m y)))"
  using assms by (auto simp: passes_ok_def after_count_def complete_series_def stop_series_def next_pass_def count_pass_def check_series_def)

lemma keeps_passes_ok: "keeps_passes f \<Longrightarrow> passes_ok y \<Longrightarrow> passes_ok (f y)"
  by (auto simp: keeps_passes_def passes_ok_def)

lemma keeps_passes_series: "keeps_passes f \<Longrightarrow> series_ok xs \<Longrightarrow> series_ok (sql_update P f xs)"
  by (rule series_update) (auto simp: series_ok_def keeps_passes_def intro: keeps_passes_ok)

lemma outcome_sound:
  assumes "series_outcome clock now x s s'" and "x \<in> set (researches s)" and "rs_status x = ''active''"
  shows "sound_step s s'"
  using assms(1)
proof cases
  case (outcome_kept f)
  then show ?thesis by (simp add: sound_step_def wakes_step_def keeps_passes_series)
next
  case (outcome_counted w f)
  have "series_ok (researches s')" if ok: "series_ok (researches s)"
    unfolding outcome_counted(5)
  proof (rule series_update [OF ok])
    fix y assume y: "y \<in> set (researches s)" "rs_id y = rs_id x"
    have "y = x" using key_unique [OF _ y(1) assms(2) y(2)] ok by (simp add: series_ok_def)
    have "passes_ok x" using ok assms(2) by (simp add: series_ok_def)
    from passes_ok_counted [OF this assms(3) outcome_counted(4)] \<open>y = x\<close>
    have "passes_ok (f (count_pass now (check_series now y)))" by simp
    then show "passes_ok (f (count_pass now (check_series now y))) \<and> rs_id (f (count_pass now (check_series now y))) = rs_id y \<and>
      rs_goal_id (f (count_pass now (check_series now y))) = rs_goal_id y \<and>
      (rs_status (f (count_pass now (check_series now y))) = ''active'' \<longrightarrow> rs_status y = ''active'')"
      using outcome_counted(4) \<open>y = x\<close> assms(3)
      by (auto simp: after_count_def complete_series_def stop_series_def next_pass_def count_pass_def check_series_def)
  qed
  with outcome_counted(2) show ?thesis by (simp add: sound_step_def)
qed

lemma advance_series_cases:
  assumes "advance_series ids clock now i s = (y, s')"
  obtains "s' = s" | x where "x \<in> set (researches s)" "rs_id x = i" "rs_status x = ''active''" "series_outcome clock now x s s'"
  using assms by (auto simp: advance_series_def withTransaction_def dest!: sql_get_SomeD dest: advance_active_outcome
      split: prod.split_asm option.split_asm sum.split_asm)

lemma advance_series_sound: "sound_step s (snd (advance_series ids clock now i s))"
  by (rule advance_series_cases [OF surjective_pairing]) (auto simp: sound_refl intro: outcome_sound)

lemma advance_row_sound: "sound_step (snd acc) (snd (advance_row fresh clock now i acc))"
proof -
  obtain n s where acc: "acc = (n, s)" by (cases acc)
  obtain y s' where a: "advance_series (fresh i) clock now i s = (y, s')" by (cases "advance_series (fresh i) clock now i s")
  have "sound_step s s'" using advance_series_sound [of s "fresh i" clock now i] a by simp
  moreover have "sound_step s' (s'\<lparr>researches := sql_update P (unavailable_series now) (researches s')\<rparr>)" for P
    by (simp add: sound_step_def wakes_step_def keeps_passes_series keeps_passes_intros)
  ultimately show ?thesis by (auto simp: advance_row_def acc a split: sum.split intro: sound_trans)
qed

lemma advance_fold_sound: "sound_step (snd acc) (snd (fold (advance_row fresh clock now) is acc))"
proof (induction "is" arbitrary: acc)
  case Nil
  then show ?case by (simp add: sound_refl)
next
  case (Cons i js)
  show ?case using sound_trans [OF advance_row_sound Cons.IH] by simp
qed

lemma advance_sound: "sound_step s (snd (advanceGoalResearchSchedules fresh clock now s))"
  using advance_fold_sound [of "(0, s)"] by (simp add: advanceGoalResearchSchedules_def Let_def split: prod.split) (metis snd_conv)


section \<open>The other operations on wakes\<close>

lemma settles_simps [simp]:
  "settles (\<lambda>w. w_goal_id w = gid \<and> w_status w = W_pending) (cancel_wake p)"
  "settles (\<lambda>w. w_id w = wid \<and> w_status w = W_pending) (block_wake q)"
  "settles P (note_wake b)"
  by (auto simp: settles_def cancel_wake_def block_wake_def note_wake_def split: prod.split)

lemma invalidate_sound: "sound_step s (invalidateGoalWakes gid reason t1 t2 (s\<lparr>goals := gs\<rparr>))"
proof -
  have "keeps_passes (\<lambda>x. x\<lparr>rs_status := ''cancelled'', rs_blocker := Some reason, rs_updated_at := t1\<rparr>)" by (simp add: keeps_passes_def)
  from keeps_passes_series [OF this] show ?thesis
    by (simp add: invalidateGoalWakes_def sound_step_def wakes_step_def wakes_update Let_def)
qed

lemma control_sound: "sound_step s (snd (controlGoal gid owner input now s))"
proof (cases "snd (controlGoal gid owner input now s) = s")
  case False
  obtain x s' where c: "controlGoal gid owner input now s = (x, s')" by (cases "controlGoal gid owner input now s")
  with controlGoal_changed [OF c] False invalidate_sound show ?thesis by auto
qed (simp add: sound_refl)

lemma update_sound: "sound_step s (snd (updateGoalDraft gid owner input now s))"
proof (cases "snd (updateGoalDraft gid owner input now s) = s")
  case False
  obtain x s' where c: "updateGoalDraft gid owner input now s = (x, s')" by (cases "updateGoalDraft gid owner input now s")
  with updateGoalDraft_changed [OF c] False invalidate_sound show ?thesis by auto
qed (simp add: sound_refl)

lemma start_goal_tables: "start_goal gid actor now s = (x, s') \<Longrightarrow> wakes s' = wakes s \<and> researches s' = researches s"
  by (auto simp: start_goal_def Let_def split: option.split_asm if_split_asm)

lemma insert_run_tables: "insert_run r s = (x, s') \<Longrightarrow> wakes s' = wakes s \<and> researches s' = researches s"
  by (auto simp: insert_run_def split: if_split_asm)

lemma consume_wake_sound: "consume_wake wid gid revision rid now s = (x, s') \<Longrightarrow> sound_step s s'"
proof -
  have "settles (\<lambda>w. w_id w = wid \<and> Some (w_goal_id w) = gid \<and> Some (w_goal_revision w) = revision \<and> w_status w = W_pending \<and> w_fire_at w \<le> now)
     (start_wake (rid, now))"
    by (auto simp: settles_def start_wake_def)
  note st = sound_wakes [OF this, of s]
  assume "consume_wake wid gid revision rid now s = (x, s')"
  then have "s' = s \<or> s' = s\<lparr>wakes := sql_update (\<lambda>w. w_id w = wid \<and> Some (w_goal_id w) = gid \<and> Some (w_goal_revision w) = revision \<and> w_status w = W_pending \<and> w_fire_at w \<le> now)
     (start_wake (rid, now)) (wakes s)\<rparr>"
    by (auto simp: consume_wake_def Let_def split: if_split_asm)
  with st show ?thesis by (auto simp: sound_refl)
qed

lemma createRun_sound: "sound_step s (snd (createRun newid now clock i s))"
proof -
  have frame: "sound_step s s'" if "start_goal gid actor now s = (x, s')" for gid actor x s s'
    using start_goal_tables [OF that] by (simp add: sound_refl)
  have added: "sound_step s s'" if "insert_run r s = (x, s')" for r x s s'
    using insert_run_tables [OF that] by (simp add: sound_refl)
  show ?thesis
    unfolding createRun_def
    by (rule sound_transaction)
      (auto simp: bindE_def ret_def sound_refl dest!: frame added consume_wake_sound intro: sound_trans
        split: option.split_asm list.split_asm prod.split_asm sum.split_asm)
qed

lemma wake_failed_sound: "sound_step s (snd (wake_failed wid blocker now s))"
proof -
  have "sound_step s (s\<lparr>wakes := sql_update (\<lambda>w. w_id w = wid \<and> w_status w = W_pending) (block_wake (blocker, now)) (wakes s)\<rparr>)" (is "sound_step s ?u")
    by (rule sound_wakes) simp
  moreover have "sound_step ?u (?u\<lparr>wakes := sql_update (\<lambda>w. w_id w = wid \<and> w_status w = W_started) (note_wake ''inspect_run_failure'') (wakes ?u)\<rparr>)"
    by (rule sound_wakes) simp
  ultimately show ?thesis
    by (auto simp: wake_failed_def Let_def split: option.split intro: sound_trans)
qed

lemma wake_done_sound: "sound_step s (snd (wake_done wid rid clock s))"
proof -
  obtain v s1 where g: "getRun rid clock s = (v, s1)" by (cases "getRun rid clock s")
  have "sound_step s s1" using getRun_tables(1,2) [of rid clock s] g by (simp add: sound_refl)
  moreover have "sound_step s1 (s1\<lparr>wakes := sql_update (\<lambda>w. w_id w = wid) (note_wake ''inspect_run_status'') (wakes s1)\<rparr>)"
    by (rule sound_wakes) simp
  ultimately show ?thesis by (auto simp: wake_done_def g split: option.split intro: sound_trans)
qed


section \<open>Steps of the goals' tables\<close>

lemma consume_needs_pending:
  assumes "consume_wake wid gid revision rid now s = (Inr u, s')"
  shows "\<exists>w\<in>set (wakes s). w_id w = wid \<and> w_status w = W_pending"
proof -
  have "sql_changes (\<lambda>w. w_id w = wid \<and> Some (w_goal_id w) = gid \<and> Some (w_goal_revision w) = revision \<and>
      w_status w = W_pending \<and> w_fire_at w \<le> now) (wakes s) = 1"
    by (rule ccontr) (use assms in \<open>simp add: consume_wake_def Let_def\<close>)
  from sql_changes_1_ex [OF this] show ?thesis by blast
qed

inductive goal_op :: "db \<Rightarrow> db \<Rightarrow> bool" where
  op_wake: "goal_op s (snd (scheduleGoalWake parse ids clock gid owner input now s))"
| op_research: "goal_op s (snd (scheduleGoalResearch parse ids clock gid owner input now s))"
| op_advance: "goal_op s (snd (advanceGoalResearchSchedules fresh clock now s))"
| op_run: "goal_op s (snd (createRun newid now clock i s))"
| op_failed: "goal_op s (snd (wake_failed wid blocker now s))"
| op_done: "goal_op s (snd (wake_done wid rid clock s))"
| op_control: "goal_op s (snd (controlGoal gid owner input now s))"
| op_update: "goal_op s (snd (updateGoalDraft gid owner input now s))"
| op_elsewhere: "wakes s' = wakes s \<Longrightarrow> researches s' = researches s \<Longrightarrow> goal_op s s'"

lemma goal_op_sound: "goal_op s s' \<Longrightarrow> sound_step s s'"
  by (cases rule: goal_op.cases)
    (auto intro: scheduleGoalWake_sound scheduleGoalResearch_sound advance_sound createRun_sound wake_failed_sound wake_done_sound
      control_sound update_sound sound_refl)

interpretation goal_tables: invariant_system goals_ok goal_op
  by unfold_locales (blast intro: sound_goals_ok goal_op_sound)

lemma run_sound: "run_of goal_op s t \<Longrightarrow> sound_step s t"
  by (induction rule: run_of.induct) (auto intro: sound_refl sound_trans goal_op_sound)

lemma empty_goals_ok: "goals_ok empty_db"
  by (simp add: goals_ok_def wakes_ok_def series_ok_def empty_db_def)

text \<open>
  C16. A research series stays within what the owner chose. From any sound state, such as the empty one,
  whatever the order in which goals are scheduled, reconciled, started, paused and revised: a series
  counts no more passes than it has scheduled, schedules no more than the owner's number and never more
  than ten, waits while active for exactly one pass, and a goal has at most one active series and one
  pending wake.
\<close>

theorem research_stays_within_passes:
  assumes "goals_ok s" and "run_of goal_op s t" and "x \<in> set (researches t)"
  shows "rs_successful_passes x \<le> rs_scheduled_passes x \<and> rs_scheduled_passes x \<le> rs_max_passes x \<and> rs_max_passes x \<le> 10 \<and>
         (rs_status x = ''active'' \<longrightarrow> rs_scheduled_passes x = rs_successful_passes x + 1 \<and>
            (\<forall>y\<in>set (researches t). rs_goal_id y = rs_goal_id x \<and> rs_status y = ''active'' \<longrightarrow> y = x)) \<and>
         (\<forall>a\<in>set (wakes t). \<forall>b\<in>set (wakes t). w_status a = W_pending \<and> w_status b = W_pending \<and> w_goal_id a = w_goal_id b \<longrightarrow> a = b)"
proof -
  from goal_tables.run_inv [OF assms(2,1)] have w: "wakes_ok (wakes t)" and r: "series_ok (researches t)" by (simp_all add: goals_ok_def)
  from r assms(3) have x: "passes_ok x" "\<forall>y\<in>set (researches t). rs_status y = ''active'' \<and> rs_status x = ''active'' \<and> rs_goal_id y = rs_goal_id x \<longrightarrow> y = x"
    by (auto simp: series_ok_def)
  show ?thesis
    using x(1) unfolding passes_ok_def
    by (intro conjI impI) (use x(2) w in \<open>auto simp: wakes_ok_def\<close>)
qed

text \<open>
  C14. A wake starts at most one run. Once a wake is no longer pending, it keeps its status and its run
  through every later operation, no run can be created for it again, and a trigger that fires for it
  is answered without calling the agent.
\<close>

theorem wake_fires_once:
  assumes "goals_ok s" and "run_of goal_op s t" and "w \<in> set (wakes s)" and "w_status w \<noteq> W_pending"
  shows "(\<exists>w'\<in>set (wakes t). w_id w' = w_id w \<and> w_status w' = w_status w \<and> w_run_id w' = w_run_id w) \<and>
         (\<forall>newid now clock i. ri_goalWakeId i = Some (w_id w) \<and> w_id w \<noteq> [] \<longrightarrow> (\<exists>e. fst (createRun newid now clock i t) = Inl e)) \<and>
         (\<forall>trigger w' v owner. wake_prepare trigger t = Inr (Wake_run w' v owner) \<longrightarrow> w_id w' \<noteq> w_id w)"
proof -
  obtain w' where w': "w' \<in> set (wakes t)" "w_id w' = w_id w" "w_status w' = w_status w" "w_run_id w' = w_run_id w"
    using run_sound [OF assms(2)] assms(3,4) by (auto simp: sound_step_def wakes_step_def wakes_kept_def)
  have "distinct (map w_id (wakes t))"
    using goal_tables.run_inv [OF assms(2,1)] by (simp add: goals_ok_def wakes_ok_def)
  then have none: "\<not> (u \<in> set (wakes t) \<and> w_id u = w_id w \<and> w_status u = W_pending)" for u
    using key_unique [of w_id "wakes t" u w'] w' assms(4) by auto
  have "\<exists>e. fst (createRun newid now clock i t) = Inl e" if i: "ri_goalWakeId i = Some (w_id w)" "w_id w \<noteq> []" for newid now clock i
  proof (rule ccontr)
    assume "\<not> ?thesis"
    then obtain x s' where c: "createRun newid now clock i t = (Inr x, s')"
      by (cases "createRun newid now clock i t"; cases "fst (createRun newid now clock i t)") auto
    obtain c cs where cs: "w_id w = c # cs" using i(2) by (cases "w_id w") auto
    from c i(1) cs obtain rev s1 s2 where "wakes s1 = wakes t" "consume_wake (w_id w) (ri_goalId i) rev newid now s1 = (Inr (), s2)"
      by (auto simp: createRun_def withTransaction_def bindE_def ret_def dest: start_goal_tables
          split: option.split_asm list.split_asm prod.split_asm sum.split_asm)
    with none show False by (auto dest!: consume_needs_pending)
  qed
  moreover have "w_id u \<noteq> w_id w" if "wake_prepare trigger t = Inr (Wake_run u v owner)" for trigger u v owner
    using that none [of u]
    by (auto simp: wake_prepare_def Let_def split: if_split_asm option.split_asm sum.split_asm dest!: sql_get_SomeD)
  ultimately show ?thesis using w' by blast
qed

text \<open>
  C15. A pass is counted only when it is confirmed. When a reconciliation changes the number of passes
  counted on a series, that series was the one reconciled and active; its wake had started a run of the
  goal, under the series' revision of the goal, that has completed, with every one of its steps executed,
  as the step and the audit row say, and a web search among them; one pass is counted; and
  a wake created in the same transaction fires no earlier than one interval from now.
\<close>

theorem pass_counted_only_if_confirmed:
  assumes "distinct (map rs_id (researches s))" and "advance_series ids clock now i s = (y, s')"
    and "x \<in> set (researches s)" and "x' \<in> set (researches s')" and "rs_id x' = rs_id x"
    and "rs_successful_passes x' \<noteq> rs_successful_passes x"
  shows "rs_id x = i \<and> rs_status x = ''active'' \<and> rs_successful_passes x' = rs_successful_passes x + 1 \<and>
         (\<exists>w\<in>set (wakes s). w_id w = rs_wake_id x \<and> w_status w = W_started \<and>
            (\<exists>rid r rv. w_run_id w = Some rid \<and> r \<in> set (runs s) \<and> r_id r = rid \<and> r_goal_id r = Some (rs_goal_id x) \<and>
               r_goal_revision r = Some (rs_goal_revision x) \<and> fst (getRun rid clock s) = Some rv \<and> rv_status rv = R_completed \<and>
               (\<forall>t\<in>set (steps s'). s_run_id t = rid \<longrightarrow> s_status t = S_executed \<and> step_outcome s' t = Some AExecuted) \<and>
               (\<exists>t\<in>set (steps s'). s_run_id t = rid \<and> s_tool t = ''web.search''))) \<and>
         (\<forall>w\<in>set (wakes s') - set (wakes s). now + rs_interval_hours x * 3600000 \<le> w_fire_at w)"
proof -
  have same: "z = x" if "z \<in> set (researches s)" "rs_id z = rs_id x" for z
    using key_unique [OF assms(1) that(1) assms(3) that(2)] .
  show ?thesis
    using assms(2)
  proof (cases rule: advance_series_cases)
    case 1
    then show ?thesis using assms(4,5,6) same [of x'] by simp
  next
    case (2 z)
    from 2(4) show ?thesis
    proof cases
      case (outcome_kept f)
      from assms(4) outcome_kept(3) obtain u where u: "u \<in> set (researches s)" "x' = (if rs_id u = rs_id z then f u else u)"
        by (auto simp: set_sql_update)
      have "rs_id u = rs_id x" "rs_successful_passes x' = rs_successful_passes u"
        using u(2) assms(5) outcome_kept(2) by (auto simp: keeps_passes_def split: if_split_asm)
      with same [OF u(1)] assms(6) show ?thesis by simp
    next
      case (outcome_counted w f)
      from assms(4) outcome_counted(5) obtain u where u: "u \<in> set (researches s)"
        "x' = (if rs_id u = rs_id z then f (count_pass now (check_series now u)) else u)"
        by (auto simp: set_sql_update)
      have keep: "rs_id (f r) = rs_id r" "rs_successful_passes (f r) = rs_successful_passes r" for r
        using outcome_counted(4) by (auto simp: after_count_def complete_series_def stop_series_def next_pass_def)
      have "rs_id u = rs_id x" using u(2) assms(5) keep(1) by (auto split: if_split_asm)
      then have ux: "u = x" using same [OF u(1)] by simp
      with u(2) assms(6) have zx: "rs_id z = rs_id x" by (auto split: if_split_asm)
      then have z: "z = x" using same [OF 2(1)] by simp
      have "rs_successful_passes x' = rs_successful_passes x + 1"
        using u(2) ux zx keep(2) by (simp add: count_pass_def check_series_def)
      moreover have "\<forall>v\<in>set (wakes s') - set (wakes s). now + rs_interval_hours x * 3600000 \<le> w_fire_at v"
        using outcome_counted(3) z by (auto simp: le_max_iff_disj)
      moreover from outcome_counted(1) z obtain rid r rv where o: "w \<in> set (wakes s)" "w_id w = rs_wake_id x" "w_status w = W_started"
        "w_run_id w = Some rid" "r \<in> set (runs s)" "r_id r = rid" "r_goal_id r = Some (rs_goal_id x)"
        "r_goal_revision r = Some (rs_goal_revision x)" "fst (getRun rid clock s) = Some rv" "rv_status rv = R_completed"
        "confirmed_research rid s'" unfolding confirmed_wake_def by blast
      moreover from o(11) have "(\<forall>t\<in>set (steps s'). s_run_id t = rid \<longrightarrow> s_status t = S_executed \<and> step_outcome s' t = Some AExecuted) \<and>
          (\<exists>t\<in>set (steps s'). s_run_id t = rid \<and> s_tool t = ''web.search'')"
        by (auto simp: confirmed_research_def Let_def list_all_iff list_ex_iff)
      ultimately show ?thesis using 2(2,3) z by blast
    qed
  qed
qed


section \<open>The lease of a trigger\<close>

text \<open>While a claim lasts, nobody else claims the trigger; a timer that has fired is never due again.\<close>

lemma leased_not_claimable: "t2 < t1 + leaseMs \<Longrightarrow> \<not> claimable t2 needDue (lease_trigger (owner, t1 + leaseMs, t1) r)"
  by (simp add: claimable_def lease_trigger_def)

lemma claimed_trigger_is_exclusive:
  assumes "distinct (map tr_id (triggers s))" and "claimTrigger tid owner leaseMs t1 needDue s = (Some r, s1)" and "t2 < t1 + leaseMs"
  shows "claimTrigger tid other ms t2 anyDue s1 = (None, s1)"
proof -
  let ?P = "\<lambda>t. tr_id t = tid \<and> claimable t1 needDue t"
  from assms(2) have s1: "s1 = s\<lparr>triggers := sql_update ?P (lease_trigger (owner, t1 + leaseMs, t1)) (triggers s)\<rparr>" and "sql_changes ?P (triggers s) = 1"
    by (auto simp: claimTrigger_def Let_def split: if_split_asm)
  from sql_changes_1_ex [OF this(2)] obtain q where q: "q \<in> set (triggers s)" "?P q" by blast
  have "\<not> (tr_id t = tid \<and> claimable t2 anyDue t)" if "t \<in> set (triggers s1)" for t
  proof
    assume t: "tr_id t = tid \<and> claimable t2 anyDue t"
    from that obtain u where u: "u \<in> set (triggers s)" "t = (if ?P u then lease_trigger (owner, t1 + leaseMs, t1) u else u)"
      by (auto simp: s1 set_sql_update)
    have "tr_id u = tid" using u(2) t by (auto simp: lease_trigger_def split: if_split_asm)
    with q key_unique [OF assms(1) u(1) q(1)] have "u = q" by simp
    with u(2) q(2) t leased_not_claimable [OF assms(3)] show False by simp
  qed
  then have none: "sql_changes (\<lambda>t. tr_id t = tid \<and> claimable t2 anyDue t) (triggers s1) = 0" by (simp add: sql_changes_0_iff)
  show ?thesis by (simp add: claimTrigger_def none sql_update_none [OF none] Let_def)
qed

lemma spent_timer_is_never_due:
  assumes "t \<in> set (triggers s)" and "tr_id t = tid" and "tr_lease_owner t = Some owner" and "distinct (map tr_id (triggers s))"
    and "u \<in> set (triggers (finish_timer tid owner now s))" and "tr_id u = tid"
  shows "u \<notin> set (due_triggers later (finish_timer tid owner now s)) \<and> \<not> claimable later needDue u"
proof -
  from assms(5) obtain q where q: "q \<in> set (triggers s)" "u = (if tr_id q = tid \<and> tr_lease_owner q = Some owner then spend_timer now q else q)"
    by (auto simp: finish_timer_def set_sql_update)
  have "tr_id q = tid" using q(2) assms(6) by (auto simp: spend_timer_def split: if_split_asm)
  with assms(1,2) key_unique [OF assms(4) q(1) assms(1)] have "q = t" by simp
  with q(2) assms(2,3) have "\<not> tr_enabled u" by (simp add: spend_timer_def)
  then show ?thesis by (simp add: due_triggers_def claimable_def)
qed

section \<open>A concrete series\<close>

definition ex_wake_ids :: wake_ids where
  "ex_wake_ids = \<lparr>wk_wake = ''w'', wk_trigger = ''t'', wk_research = ''s''\<rparr>"

definition ex_idle_db :: db where
  "ex_idle_db = empty_db\<lparr>goals := [ex_active_goal]\<rparr>"

definition ex_research_input :: jsval where
  "ex_research_input = JObj [(''fireAt'', JStr ''soon''), (''expectedRevision'', JNum 3), (''intervalHours'', JNum 24), (''maxPasses'', JNum 2)]"

lemma ex_series_scheduled:
  "researches (snd (scheduleGoalResearch (\<lambda>t. Some 20) ex_wake_ids 10 ''g'' ''o'' ex_research_input 10 ex_idle_db)) =
     [new_research ''s'' ex_active_goal 24 2 ''w'' 10]"
  by (simp add: scheduleGoalResearch_def research_request_def wake_request_def ex_research_input_def expected_revision_def safe_integer_def
      integerBetween_def wake_time_def MAX_WAKE_AHEAD_def withTransaction_def getGoalDraft_def present_def goalUsage_def goal_runs_def
      ex_idle_db_def empty_db_def ex_active_goal_def active_research_def createWake_def getTrigger_def insert_research_def new_research_def
      ex_wake_ids_def Let_def)

theorem research_stays_within_passes_witness:
  "\<exists>t x. run_of goal_op ex_idle_db t \<and> x \<in> set (researches t) \<and> rs_status x = ''active'' \<and> rs_scheduled_passes x = rs_successful_passes x + 1"
proof -
  let ?t = "snd (scheduleGoalResearch (\<lambda>t. Some 20) ex_wake_ids 10 ''g'' ''o'' ex_research_input 10 ex_idle_db)"
  let ?x = "new_research ''s'' ex_active_goal 24 2 ''w'' 10"
  have ok: "goals_ok ex_idle_db" using empty_goals_ok by (simp add: goals_ok_def ex_idle_db_def)
  have t: "run_of goal_op ex_idle_db ?t" by (rule run_more [where t = ex_idle_db]) (rule run_start, rule op_research)
  have x: "?x \<in> set (researches ?t)" "rs_status ?x = ''active''" by (simp add: ex_series_scheduled, simp add: new_research_def)
  from research_stays_within_passes [OF ok t x(1)] t x show ?thesis by blast
qed

definition ex_started_wake :: wake_row where
  "ex_started_wake = \<lparr>w_id = ''w'', w_goal_id = ''g'', w_goal_revision = 3, w_trigger_id = ''t'', w_fire_at = 0, w_status = W_started,
     w_run_id = Some ''r'', w_blocker = None, w_created_at = 0, w_updated_at = 0\<rparr>"

definition ex_last_pass :: research_row where
  "ex_last_pass = (new_research ''s'' ex_active_goal 24 2 ''w'' 0)\<lparr>rs_scheduled_passes := 2, rs_successful_passes := 1\<rparr>"

definition ex_searched :: step_row where
  "ex_searched = (step_of_action ''r'' 0 [] [] None 0 (0, \<lparr>pa_tool = ''web.search'', pa_arguments = JObj [], pa_dependsOn = []\<rparr>))
     \<lparr>s_status := S_executed, s_action_id := Some ''a''\<rparr>"

definition ex_search_action :: action_row where
  "ex_search_action = \<lparr>a_id = ''a'', a_requested_by = ''o'', a_request_text = None, a_model = None, a_tool = ''web.search'', a_arguments = JObj [],
     a_reasoning_summary = None, a_policy_domain = None, a_policy_rule = None, a_autonomy_level = None, a_requires_approval = False,
     a_status = AExecuted, a_approved_by = None, a_approved_at = None, a_rejected_by = None, a_rejected_at = None, a_result = None,
     a_correlation_id = None, a_contextProvenance = [], a_accountBinding = None, a_packageContext = None, a_created_at = 0, a_updated_at = 0\<rparr>"

definition ex_pass_db :: db where
  "ex_pass_db = ex_goal_db\<lparr>runs := [(new_run ''r'' 0 0 ex_goal_input (Some 3))\<lparr>r_status := R_completed\<rparr>], steps := [ex_searched],
     actions := [ex_search_action], wakes := [ex_started_wake], researches := [ex_last_pass]\<rparr>"

lemma ex_pass_ok: "goals_ok ex_pass_db"
  by (simp add: goals_ok_def wakes_ok_def series_ok_def passes_ok_def ex_pass_db_def ex_last_pass_def new_research_def)

theorem wake_fires_once_witness:
  "\<exists>e. fst (createRun ''r2'' 9 9 (ex_goal_input\<lparr>ri_goalWakeId := Some ''w''\<rparr>) ex_pass_db) = Inl e"
proof -
  have w: "ex_started_wake \<in> set (wakes ex_pass_db)" "w_status ex_started_wake \<noteq> W_pending" "w_id ex_started_wake = ''w''"
    by (simp_all add: ex_pass_db_def ex_started_wake_def)
  from wake_fires_once [OF ex_pass_ok run_start w(1,2)] w(3) show ?thesis by simp
qed

definition ex_checked_db :: db where
  "ex_checked_db = on_series ''s'' (check_series 9) ex_pass_db"

lemma ex_search_status: "actions s = [ex_search_action] \<Longrightarrow> queue s = [] \<Longrightarrow> current_status s ex_searched = S_executed"
  by (simp add: current_status_def currentStepStatus_def join_step_def ex_searched_def step_of_action_def ex_search_action_def
      getAgentAction_def getQueuedActionByActionId_def Let_def)

lemma ex_pass_run:
  "\<exists>rv. getRun ''r'' 9 ex_checked_db = (Some rv, ex_checked_db) \<and> rv_status rv = R_completed \<and> \<not> failed_run rv"
proof -
  have st: "current_status ex_checked_db ex_searched = S_executed"
    by (rule ex_search_status) (simp_all add: ex_checked_db_def ex_pass_db_def ex_goal_db_def empty_db_def on_series_def)
  have steps: "steps ex_checked_db = [ex_searched]" and run: "s_run_id ex_searched = ''r''" "s_status ex_searched = S_executed"
    by (simp_all add: ex_checked_db_def ex_pass_db_def on_series_def ex_searched_def step_of_action_def)
  let ?r = "(new_run ''r'' 0 0 ex_goal_input (Some 3))\<lparr>r_status := R_completed\<rparr>"
  have r: "get_run_row ''r'' ex_checked_db = Some ?r" by (simp add: get_run_row_def ex_checked_db_def ex_pass_db_def on_series_def new_run_def)
  have now: "run_status_now ?r [S_executed] = R_completed" by (simp add: run_status_now_def classifyRun_def truthy_text_def new_run_def)
  have kept: "refresh_step ex_checked_db ''r'' 9 ex_searched = ex_searched" by (simp add: refresh_step_def st run)
  show ?thesis
    by (simp add: getRun_def r run_steps_def steps run st now kept Let_def view_of_def failed_run_def)
qed


lemma ex_pass_confirmed: "confirmed_research ''r'' ex_checked_db"
  by (simp add: confirmed_research_def step_outcome_def ex_checked_db_def ex_pass_db_def on_series_def ex_searched_def step_of_action_def
      getAgentAction_def ex_search_action_def Let_def)

lemma ex_pass_judged:
  "judge_pass ids 9 9 ex_last_pass w v ''r'' ex_checked_db = after_pass ids 9 9 ex_last_pass w v ex_checked_db"
  using ex_pass_run ex_pass_confirmed by (auto simp: judge_pass_def)

lemma ex_pass_counted:
  "\<exists>s' x. advance_series ex_wake_ids 9 9 ''s'' ex_pass_db = (Inr (), s') \<and> researches s' = [x] \<and> rs_id x = ''s'' \<and> rs_successful_passes x = 2"
proof -
  have x: "sql_get (\<lambda>x. rs_id x = ''s'' \<and> rs_status x = ''active'') (researches ex_pass_db) = Some ex_last_pass"
    by (simp add: ex_pass_db_def ex_last_pass_def new_research_def)
  have i: "rs_id ex_last_pass = ''s''" "rs_goal_id ex_last_pass = ''g''" "rs_goal_revision ex_last_pass = 3" "rs_wake_id ex_last_pass = ''w''"
    by (simp_all add: ex_last_pass_def new_research_def ex_active_goal_def)
  have rows: "get_goal_row ''g'' ex_checked_db = Some ex_active_goal" "wakes ex_checked_db = [ex_started_wake]"
    "runs ex_checked_db = [(new_run ''r'' 0 0 ex_goal_input (Some 3))\<lparr>r_status := R_completed\<rparr>]"
    "\<exists>v. getGoalDraft ''g'' ''o'' ex_checked_db = Inr v \<and> gv_goal v = ex_active_goal"
    by (simp_all add: get_goal_row_def getGoalDraft_def present_def ex_checked_db_def on_series_def ex_pass_db_def ex_goal_db_def ex_active_goal_def Let_def)
  then obtain v where v: "getGoalDraft ''g'' ''o'' ex_checked_db = Inr v" "gv_goal v = ex_active_goal" by blast
  have "advance_active ex_wake_ids 9 9 ex_last_pass ex_pass_db = after_pass ex_wake_ids 9 9 ex_last_pass ex_started_wake v ex_checked_db"
    unfolding advance_active_def i ex_checked_db_def [symmetric] Let_def
    using v rows(1-3) ex_pass_judged
    by (simp add: ex_active_goal_def ex_started_wake_def new_run_def ex_goal_input_def)
  then show ?thesis
    by (simp add: advance_series_def withTransaction_def x after_pass_def ex_checked_db_def on_series_def ex_pass_db_def ex_last_pass_def
        new_research_def check_series_def count_pass_def complete_series_def Let_def)
qed

theorem pass_counted_only_if_confirmed_witness:
  "\<exists>s s' x'. advance_series ex_wake_ids 9 9 ''s'' s = (Inr (), s') \<and> x' \<in> set (researches s') \<and> rs_successful_passes x' = 2 \<and>
     (\<exists>t\<in>set (steps s'). s_tool t = ''web.search'' \<and> s_status t = S_executed)"
proof -
  from ex_pass_counted obtain s' x' where a: "advance_series ex_wake_ids 9 9 ''s'' ex_pass_db = (Inr (), s')"
    and x': "x' \<in> set (researches s')" "rs_id x' = ''s''" "rs_successful_passes x' = 2" by auto
  have s: "rs_successful_passes ex_last_pass = 1" "ex_last_pass \<in> set (researches ex_pass_db)" "distinct (map rs_id (researches ex_pass_db))"
    "rs_id ex_last_pass = ''s''"
    by (simp_all add: ex_pass_db_def ex_last_pass_def new_research_def)
  from pass_counted_only_if_confirmed [OF s(3) a s(2) x'(1)] x' s obtain rid where
    "\<forall>t\<in>set (steps s'). s_run_id t = rid \<longrightarrow> s_status t = S_executed \<and> step_outcome s' t = Some AExecuted"
    "\<exists>t\<in>set (steps s'). s_run_id t = rid \<and> s_tool t = ''web.search''" by auto
  with a x' show ?thesis by blast
qed

end
