(* ===== verification/U2_Expression.thy ===== *)
theory U2_Expression
  imports U2_Permissions U2_Date
begin

text \<open>
  The expression language of workflows and package policies
  (\<open>server/packages/expression.js\<close>): tokenizer, recursive-descent parser, interpreter and
  templates. Expression values are JavaScript values with \<open>undefined\<close> as a value of its own,
  because it can stand inside a list. Numbers are rationals: arithmetic does not round and
  has no infinities. The parse cache of \<open>compile\<close> does not change what it returns. What
  JavaScript defines only loosely is a parameter: \<open>Date.parse\<close>, the conversion of texts and
  objects to numbers, and rounding to a number of digits that is not an integer.
\<close>

section \<open>Values\<close>

datatype xval =
    XUndef
  | XNull
  | XBool bool
  | XNum rat
  | XStr string
  | XArr "xval list"
  | XObj "(string \<times> xval) list"

fun x_truthy :: "xval \<Rightarrow> bool" where
  "x_truthy XUndef = False"
| "x_truthy XNull = False"
| "x_truthy (XBool b) = b"
| "x_truthy (XNum n) = (n \<noteq> 0)"
| "x_truthy (XStr s) = (s \<noteq> [])"
| "x_truthy _ = True"

fun nothing :: "xval \<Rightarrow> bool" where
  "nothing XUndef = True"
| "nothing XNull = True"
| "nothing _ = False"

text \<open>\<open>JSON.stringify\<close>: \<open>undefined\<close> is \<open>null\<close> in a list and left out of an object.\<close>

fun x_json :: "xval \<Rightarrow> string" where
  "x_json XUndef = ''null''"
| "x_json XNull = ''null''"
| "x_json (XBool b) = (if b then ''true'' else ''false'')"
| "x_json (XNum n) = num_str n"
| "x_json (XStr s) = json_quote s"
| "x_json (XArr vs) = ''['' @ join_with '','' (map x_json vs) @ '']''"
| "x_json (XObj ps) = ''{'' @ join_with '','' (map (\<lambda>p. json_quote (fst p) @ '':'' @ x_json (snd p))
                                 (filter (\<lambda>p. snd p \<noteq> XUndef) ps)) @ ''}''"

fun toText :: "xval \<Rightarrow> string" where
  "toText XUndef = []"
| "toText XNull = []"
| "toText (XBool b) = (if b then ''true'' else ''false'')"
| "toText (XNum n) = num_str n"
| "toText (XStr s) = s"
| "toText v = x_json v"

section \<open>Tokens\<close>

datatype token = TNum rat | TStr string | TKw string | TId string | TOp string

definition KEYWORDS :: "string list" where
  "KEYWORDS = [''true'', ''false'', ''null'', ''and'', ''or'', ''not'', ''in'']"

abbreviation expression_error :: "string \<Rightarrow> js_error" where
  "expression_error m \<equiv> CodedError ''EXPRESSION_INVALID'' m"

definition id_start :: "char \<Rightarrow> bool" where
  "id_start c \<longleftrightarrow> is_letter c \<or> c = CHR ''_'' \<or> c = CHR ''$''"

definition id_part :: "char \<Rightarrow> bool" where
  "id_part c \<longleftrightarrow> id_start c \<or> is_digit c"

definition quote_char :: "char \<Rightarrow> bool" where
  "quote_char c \<longleftrightarrow> (of_char c :: nat) = 34 \<or> (of_char c :: nat) = 39"

definition backslash :: char where "backslash = char_of (92 :: nat)"

definition unescape :: "char \<Rightarrow> char" where
  "unescape c = (if c = CHR ''n'' then char_of (10 :: nat) else if c = CHR ''t'' then char_of (9 :: nat) else c)"

text \<open>The text up to the closing quote, and what follows it.\<close>

fun read_string :: "char \<Rightarrow> string \<Rightarrow> (string \<times> string) option" where
  "read_string q [] = None"
| "read_string q (c # cs) =
     (if c = q then Some ([], cs)
      else if c = backslash then
        (case cs of [] \<Rightarrow> None | d # ds \<Rightarrow> map_option (\<lambda>(v, r). (unescape d # v, r)) (read_string q ds))
      else map_option (\<lambda>(v, r). (c # v, r)) (read_string q cs))"

text \<open>\<open>(?:\d+\.?\d*|\.\d+)(?:[eE][+-]?\d+)?\<close>: mantissa, then the exponent if a whole one follows.\<close>

definition decimal :: "string \<Rightarrow> string \<Rightarrow> rat" where
  "decimal i f = rat_of_nat (number_of i) + rat_of_nat (number_of f) / 10 ^ length f"

definition read_mantissa :: "string \<Rightarrow> rat \<times> string" where
  "read_mantissa s =
     (let i = takeWhile is_digit s; r = dropWhile is_digit s in
      case r of
        c # cs \<Rightarrow> if c = CHR ''.'' then (decimal i (takeWhile is_digit cs), dropWhile is_digit cs) else (decimal i [], r)
      | [] \<Rightarrow> (decimal i [], r))"

definition read_exponent :: "string \<Rightarrow> rat \<times> string" where
  "read_exponent s =
     (case s of
        c # cs \<Rightarrow>
          if c = CHR ''e'' \<or> c = CHR ''E'' then
            (let neg = starts_with cs ''-''; ds = (if neg \<or> starts_with cs ''+'' then drop 1 cs else cs); d = takeWhile is_digit ds in
             if d = [] then (1, s)
             else (if neg then 1 / 10 ^ number_of d else 10 ^ number_of d, dropWhile is_digit ds))
          else (1, s)
      | [] \<Rightarrow> (1, s))"

definition read_literal :: "string \<Rightarrow> rat \<times> string" where
  "read_literal s = (let (m, r) = read_mantissa s; (e, r') = read_exponent r in (m * e, r'))"

definition two_char_ops :: "string list" where
  "two_char_ops = [''=='', ''!='', ''<='', ''>='', ''&&'', ''||'']"

definition one_char_ops :: string where
  "one_char_ops = ''<>!+-*/%?:()[],.''"

text \<open>One step of the tokenizer on a non-empty text: the token, if any, and the rest.\<close>

definition lex_step :: "char \<Rightarrow> string \<Rightarrow> (token option \<times> string) res" where
  "lex_step c cs =
     (if js_space c then Inr (None, cs)
      else if is_digit c \<or> (c = CHR ''.'' \<and> (case cs of d # _ \<Rightarrow> is_digit d | [] \<Rightarrow> False)) then
        (let (n, r) = read_literal (c # cs) in Inr (Some (TNum n), r))
      else if quote_char c then
        (case read_string c cs of None \<Rightarrow> Inl (expression_error ''Unterminated string'') | Some (v, r) \<Rightarrow> Inr (Some (TStr v), r))
      else if id_start c then
        (let w = c # takeWhile id_part cs in Inr (Some (if w \<in> set KEYWORDS then TKw w else TId w), dropWhile id_part cs))
      else if take 2 (c # cs) \<in> set two_char_ops then Inr (Some (TOp (take 2 (c # cs))), drop 1 cs)
      else if c \<in> set one_char_ops then Inr (Some (TOp [c]), cs)
      else Inl (expression_error (''Unexpected character \"'' @ [c] @ ''\"'')))"

lemma read_string_shorter: "read_string q s = Some (v, r) \<Longrightarrow> length r < length s"
proof (induction q s arbitrary: v r rule: read_string.induct)
  case (2 q c cs)
  then show ?case by (fastforce split: if_splits list.splits)
qed simp

lemma read_literal_shorter:
  assumes "is_digit c \<or> c = CHR ''.'' \<and> (case cs of d # _ \<Rightarrow> is_digit d | [] \<Rightarrow> False)"
  shows "length (snd (read_literal (c # cs))) \<le> length cs"
proof -
  have e: "length (snd (read_exponent s)) \<le> length s" for s
    using length_dropWhile_le [of is_digit] by (auto simp: read_exponent_def Let_def split: list.splits intro: le_SucI order.trans diff_le_self)
      (metis (no_types, lifting) Suc_leD diff_le_self le_SucI length_dropWhile_le length_drop order.trans)+
  have "length (snd (read_mantissa (c # cs))) \<le> length cs"
  proof -
    have d: "length (dropWhile is_digit xs) \<le> length xs" for xs by (rule length_dropWhile_le)
    show ?thesis
      using assms d [of cs] d [of "tl (dropWhile is_digit cs)"] d [of "tl cs"]
      by (auto simp: read_mantissa_def Let_def is_digit_def split: list.splits)
  qed
  with e [of "snd (read_mantissa (c # cs))"] show ?thesis
    by (simp add: read_literal_def case_prod_beta)
qed

lemma lex_step_shorter: "lex_step c cs = Inr (t, r) \<Longrightarrow> length r \<le> length cs"
proof -
  assume a: "lex_step c cs = Inr (t, r)"
  show ?thesis
  proof (cases "is_digit c \<or> c = CHR ''.'' \<and> (case cs of d # _ \<Rightarrow> is_digit d | [] \<Rightarrow> False)")
    case True
    with a read_literal_shorter [OF True] show ?thesis
      by (auto simp: lex_step_def case_prod_beta split: if_splits)
  next
    case False
    with a show ?thesis
      by (auto simp: lex_step_def Let_def length_dropWhile_le split: if_splits option.splits dest: read_string_shorter)
  qed
qed

function tokenize :: "string \<Rightarrow> token list res" where
  "tokenize [] = Inr []"
| "tokenize (c # cs) =
     (case lex_step c cs of
        Inl e \<Rightarrow> Inl e
      | Inr (t, r) \<Rightarrow> (case tokenize r of Inl e \<Rightarrow> Inl e | Inr ts \<Rightarrow> Inr (case t of None \<Rightarrow> ts | Some x \<Rightarrow> x # ts)))"
  by pat_completeness auto
termination
  by (relation "measure length") (auto dest: lex_step_shorter)

section \<open>Parser\<close>

datatype expr =
    ELit xval
  | EId string
  | EList "expr list"
  | EMember expr expr
  | ECall string "expr list"
  | EUnary string expr
  | ECond expr expr expr
  | EBin string expr expr

definition MAX_LENGTH :: nat where "MAX_LENGTH = 2000"
definition MAX_DEPTH :: nat where "MAX_DEPTH = 64"
definition MAX_STEPS :: nat where "MAX_STEPS = 20000"

definition FUNCTION_NAMES :: "string list" where
  "FUNCTION_NAMES =
     [''len'', ''lower'', ''upper'', ''contains'', ''startsWith'', ''endsWith'', ''min'', ''max'', ''abs'', ''round'', ''floor'', ''ceil'',
      ''coalesce'', ''join'', ''keys'', ''concat'', ''pluck'', ''unique'', ''slice'', ''now'', ''daysSince'']"

text \<open>
  The methods of the parser; the loops of the binary operators, of postfix operators and of
  argument lists are methods of their own, with what was built so far.
\<close>

datatype nonterm =
    NTernary | NOr | NOrLoop expr | NAnd | NAndLoop expr | NNot | NComparison
  | NAdditive | NAddLoop expr | NMultiplicative | NMulLoop expr | NUnary | NPostfix | NPostLoop expr | NPrimary
  | NItems "expr list"

datatype pres = PFuel | PErr string | POk expr "token list"

definition pbind :: "pres \<Rightarrow> (expr \<Rightarrow> token list \<Rightarrow> pres) \<Rightarrow> pres" where
  "pbind r k = (case r of PFuel \<Rightarrow> PFuel | PErr m \<Rightarrow> PErr m | POk e ts \<Rightarrow> k e ts)"

type_synonym parser = "nonterm \<Rightarrow> nat \<Rightarrow> token list \<Rightarrow> pres"

text \<open>The end of the token list is the \<open>eof\<close> token.\<close>

definition isOp :: "string \<Rightarrow> token list \<Rightarrow> bool" where
  "isOp v ts = (case ts of TOp w # _ \<Rightarrow> w = v | _ \<Rightarrow> False)"

definition isKw :: "string \<Rightarrow> token list \<Rightarrow> bool" where
  "isKw v ts = (case ts of TKw w # _ \<Rightarrow> w = v | _ \<Rightarrow> False)"

definition expectOp :: "string \<Rightarrow> token list \<Rightarrow> (token list \<Rightarrow> pres) \<Rightarrow> pres" where
  "expectOp v ts k = (if isOp v ts then k (tl ts) else PErr (''Expected \"'' @ v @ ''\"''))"

definition enter :: "nat \<Rightarrow> (nat \<Rightarrow> pres) \<Rightarrow> pres" where
  "enter d k = (if Suc d > MAX_DEPTH then PErr ''Expression is nested too deeply'' else k (Suc d))"

definition ternary :: "parser \<Rightarrow> nat \<Rightarrow> token list \<Rightarrow> pres" where
  "ternary p d ts = enter d (\<lambda>d. pbind (p NOr d ts) (\<lambda>test ts.
     if isOp ''?'' ts then
       pbind (p NTernary d (tl ts)) (\<lambda>then' ts. expectOp '':'' ts (\<lambda>ts. pbind (p NTernary d ts) (\<lambda>else' ts. POk (ECond test then' else') ts)))
     else POk test ts))"

definition or_loop :: "expr \<Rightarrow> parser \<Rightarrow> nat \<Rightarrow> token list \<Rightarrow> pres" where
  "or_loop left p d ts =
     (if isOp ''||'' ts \<or> isKw ''or'' ts then pbind (p NAnd d (tl ts)) (\<lambda>r ts. p (NOrLoop (EBin ''||'' left r)) d ts) else POk left ts)"

definition and_loop :: "expr \<Rightarrow> parser \<Rightarrow> nat \<Rightarrow> token list \<Rightarrow> pres" where
  "and_loop left p d ts =
     (if isOp ''&&'' ts \<or> isKw ''and'' ts then pbind (p NNot d (tl ts)) (\<lambda>r ts. p (NAndLoop (EBin ''&&'' left r)) d ts) else POk left ts)"

definition not_expr :: "parser \<Rightarrow> nat \<Rightarrow> token list \<Rightarrow> pres" where
  "not_expr p d ts =
     (if isOp ''!'' ts \<or> isKw ''not'' ts \<and> \<not> isKw ''in'' (tl ts) then
        enter d (\<lambda>d'. pbind (p NNot d' (tl ts)) (\<lambda>e ts. POk (EUnary ''!'' e) ts))
      else p NComparison d ts)"

definition compare_with :: "parser \<Rightarrow> nat \<Rightarrow> expr \<Rightarrow> token list \<Rightarrow> pres" where
  "compare_with p d left ts =
     (case ts of
        TOp v # us \<Rightarrow>
          if v \<in> set [''=='', ''!='', ''<'', ''<='', ''>'', ''>=''] then pbind (p NAdditive d us) (\<lambda>r ts. POk (EBin v left r) ts) else POk left ts
      | TKw v # us \<Rightarrow>
          if v = ''in'' then pbind (p NAdditive d us) (\<lambda>r ts. POk (EBin ''in'' left r) ts)
          else if v = ''not'' then
            (if isKw ''in'' us then pbind (p NAdditive d (tl us)) (\<lambda>r ts. POk (EUnary ''!'' (EBin ''in'' left r)) ts)
             else PErr ''Expected \"in\" after \"not\"'')
          else POk left ts
      | _ \<Rightarrow> POk left ts)"

definition comparison :: "parser \<Rightarrow> nat \<Rightarrow> token list \<Rightarrow> pres" where
  "comparison p d ts = pbind (p NAdditive d ts) (compare_with p d)"

definition add_loop :: "expr \<Rightarrow> parser \<Rightarrow> nat \<Rightarrow> token list \<Rightarrow> pres" where
  "add_loop left p d ts =
     (case ts of
        TOp v # us \<Rightarrow>
          if v = ''+'' \<or> v = ''-'' then pbind (p NMultiplicative d us) (\<lambda>r ts. p (NAddLoop (EBin v left r)) d ts) else POk left ts
      | _ \<Rightarrow> POk left ts)"

definition mul_loop :: "expr \<Rightarrow> parser \<Rightarrow> nat \<Rightarrow> token list \<Rightarrow> pres" where
  "mul_loop left p d ts =
     (case ts of
        TOp v # us \<Rightarrow>
          if v = ''*'' \<or> v = ''/'' \<or> v = ''%'' then pbind (p NUnary d us) (\<lambda>r ts. p (NMulLoop (EBin v left r)) d ts) else POk left ts
      | _ \<Rightarrow> POk left ts)"

definition unary_expr :: "parser \<Rightarrow> nat \<Rightarrow> token list \<Rightarrow> pres" where
  "unary_expr p d ts =
     (case ts of
        TOp v # us \<Rightarrow>
          if v = ''-'' \<or> v = ''!'' then enter d (\<lambda>d'. pbind (p NUnary d' us) (\<lambda>e ts. POk (EUnary v e) ts)) else p NPostfix d ts
      | _ \<Rightarrow> p NPostfix d ts)"

definition items_loop :: "expr list \<Rightarrow> parser \<Rightarrow> nat \<Rightarrow> token list \<Rightarrow> pres" where
  "items_loop acc p d ts =
     enter d (\<lambda>d'. pbind (p NTernary d' ts) (\<lambda>e ts.
       if isOp '','' ts then p (NItems (acc @ [e])) d (tl ts) else POk (EList (acc @ [e])) ts))"

definition post_loop :: "expr \<Rightarrow> parser \<Rightarrow> nat \<Rightarrow> token list \<Rightarrow> pres" where
  "post_loop node p d ts =
     (if isOp ''.'' ts then
        (case tl ts of
           TId n # us \<Rightarrow> p (NPostLoop (EMember node (ELit (XStr n)))) d us
         | TKw n # us \<Rightarrow> p (NPostLoop (EMember node (ELit (XStr n)))) d us
         | _ \<Rightarrow> PErr ''Expected a property name after \".\"'')
      else if isOp ''['' ts then
        enter d (\<lambda>d'. pbind (p NTernary d' (tl ts)) (\<lambda>prop ts. expectOp '']'' ts (\<lambda>ts. p (NPostLoop (EMember node prop)) d ts)))
      else if isOp ''('' ts then
        (case node of
           EId name \<Rightarrow>
             if name \<notin> set FUNCTION_NAMES then PErr (''Unknown function \"'' @ name @ ''\"'')
             else if isOp '')'' (tl ts) then p (NPostLoop (ECall name [])) d (tl (tl ts))
             else pbind (p (NItems []) d (tl ts)) (\<lambda>args ts. expectOp '')'' ts (\<lambda>ts.
                    p (NPostLoop (ECall name (case args of EList es \<Rightarrow> es | _ \<Rightarrow> []))) d ts))
         | _ \<Rightarrow> PErr ''Only built-in functions can be called'')
      else POk node ts)"

definition primary :: "parser \<Rightarrow> nat \<Rightarrow> token list \<Rightarrow> pres" where
  "primary p d ts =
     (case ts of
        TNum n # us \<Rightarrow> POk (ELit (XNum n)) us
      | TStr v # us \<Rightarrow> POk (ELit (XStr v)) us
      | TKw v # us \<Rightarrow>
          if v = ''true'' then POk (ELit (XBool True)) us
          else if v = ''false'' then POk (ELit (XBool False)) us
          else if v = ''null'' then POk (ELit XNull) us
          else PErr (''Unexpected \"'' @ v @ ''\"'')
      | TId n # us \<Rightarrow> POk (EId n) us
      | TOp v # us \<Rightarrow>
          if v = ''('' then enter d (\<lambda>d'. pbind (p NTernary d' us) (\<lambda>e ts. expectOp '')'' ts (\<lambda>ts. POk e ts)))
          else if v = ''['' then
            (if isOp '']'' us then POk (EList []) (tl us)
             else pbind (p (NItems []) d us) (\<lambda>e ts. expectOp '']'' ts (\<lambda>ts. POk e ts)))
          else PErr ''Unexpected end of expression''
      | [] \<Rightarrow> PErr ''Unexpected end of expression'')"

definition nonterm_body :: "nonterm \<Rightarrow> parser \<Rightarrow> nat \<Rightarrow> token list \<Rightarrow> pres" where
  "nonterm_body nt p d ts =
     (case nt of
        NTernary \<Rightarrow> ternary p d ts
      | NOr \<Rightarrow> pbind (p NAnd d ts) (\<lambda>e ts. p (NOrLoop e) d ts)
      | NOrLoop e \<Rightarrow> or_loop e p d ts
      | NAnd \<Rightarrow> pbind (p NNot d ts) (\<lambda>e ts. p (NAndLoop e) d ts)
      | NAndLoop e \<Rightarrow> and_loop e p d ts
      | NNot \<Rightarrow> not_expr p d ts
      | NComparison \<Rightarrow> comparison p d ts
      | NAdditive \<Rightarrow> pbind (p NMultiplicative d ts) (\<lambda>e ts. p (NAddLoop e) d ts)
      | NAddLoop e \<Rightarrow> add_loop e p d ts
      | NMultiplicative \<Rightarrow> pbind (p NUnary d ts) (\<lambda>e ts. p (NMulLoop e) d ts)
      | NMulLoop e \<Rightarrow> mul_loop e p d ts
      | NUnary \<Rightarrow> unary_expr p d ts
      | NPostfix \<Rightarrow> pbind (p NPrimary d ts) (\<lambda>e ts. p (NPostLoop e) d ts)
      | NPostLoop e \<Rightarrow> post_loop e p d ts
      | NPrimary \<Rightarrow> primary p d ts
      | NItems acc \<Rightarrow> items_loop acc p d ts)"

text \<open>The call stack as fuel; how much is always enough is shown below.\<close>

fun parse_fuel :: "nat \<Rightarrow> parser" where
  "parse_fuel 0 nt d ts = PFuel"
| "parse_fuel (Suc n) nt d ts = nonterm_body nt (parse_fuel n) d ts"

definition parse_tokens :: "token list \<Rightarrow> pres" where
  "parse_tokens ts = parse_fuel (16 * length ts + 16) NTernary 0 ts"

definition compile :: "string \<Rightarrow> expr res" where
  "compile source =
     (if length source > MAX_LENGTH then Inl (expression_error ''Expression is longer than 2000 characters'')
      else (case tokenize source of
              Inl e \<Rightarrow> Inl e
            | Inr ts \<Rightarrow> (case parse_tokens ts of
                PFuel \<Rightarrow> Inl (Error ''Maximum call stack size exceeded'')
              | PErr m \<Rightarrow> Inl (expression_error m)
              | POk e rest \<Rightarrow> if rest \<noteq> [] then Inl (expression_error ''Unexpected trailing input'') else Inr e)))"

definition checkExpression :: "string \<Rightarrow> string option" where
  "checkExpression source = (case compile source of Inr _ \<Rightarrow> None | Inl e \<Rightarrow> Some (error_message e))"

section \<open>The parser always stops\<close>

fun is_loop :: "nonterm \<Rightarrow> bool" where
  "is_loop (NOrLoop e) = True"
| "is_loop (NAndLoop e) = True"
| "is_loop (NAddLoop e) = True"
| "is_loop (NMulLoop e) = True"
| "is_loop (NPostLoop e) = True"
| "is_loop nt = False"

text \<open>How many calls can follow one another without reading a token.\<close>

fun rank :: "nonterm \<Rightarrow> nat" where
  "rank NPostfix = 1"
| "rank NUnary = 2"
| "rank NMultiplicative = 3"
| "rank NAdditive = 4"
| "rank NComparison = 5"
| "rank NNot = 6"
| "rank NAnd = 7"
| "rank NOr = 8"
| "rank NTernary = 9"
| "rank (NItems acc) = 10"
| "rank nt = 0"

text \<open>Every nonterm_body but the loops reads a token.\<close>

definition consuming :: "parser \<Rightarrow> bool" where
  "consuming p \<longleftrightarrow> (\<forall>nt d ts e r. p nt d ts = POk e r \<longrightarrow> length r + (if is_loop nt then 0 else 1) \<le> length ts)"

definition fuelled :: "nat \<Rightarrow> parser \<Rightarrow> bool" where
  "fuelled n p \<longleftrightarrow> (\<forall>nt d ts. 16 * length ts + rank nt < n \<longrightarrow> p nt d ts \<noteq> PFuel)"

lemma consumingD: "consuming p \<Longrightarrow> p nt d ts = POk e r \<Longrightarrow> length r + (if is_loop nt then 0 else 1) \<le> length ts"
  unfolding consuming_def by blast

lemma fuelledD: "fuelled n p \<Longrightarrow> 16 * length ts + rank nt < n \<Longrightarrow> p nt d ts \<noteq> PFuel"
  unfolding fuelled_def by blast

lemma pbind_POk: "pbind r k = POk e ts \<longleftrightarrow> (\<exists>e' ts'. r = POk e' ts' \<and> k e' ts' = POk e ts)"
  by (cases r) (simp_all add: pbind_def)

lemma pbind_PFuel: "pbind r k = PFuel \<longleftrightarrow> r = PFuel \<or> (\<exists>e' ts'. r = POk e' ts' \<and> k e' ts' = PFuel)"
  by (cases r) (simp_all add: pbind_def)

lemma isOp_tl: "isOp v ts \<Longrightarrow> 0 < length ts"
  by (cases ts) (simp_all add: isOp_def)

lemma isKw_tl: "isKw v ts \<Longrightarrow> 0 < length ts"
  by (cases ts) (simp_all add: isKw_def)

lemma enter_POk: "enter d k = POk e ts \<Longrightarrow> k (Suc d) = POk e ts"
  by (simp add: enter_def split: if_splits)

lemma enter_PFuel: "enter d k = PFuel \<Longrightarrow> k (Suc d) = PFuel"
  by (simp add: enter_def split: if_splits)

lemma expectOp_POk: "expectOp v ts k = POk e r \<Longrightarrow> isOp v ts \<and> k (tl ts) = POk e r"
  by (simp add: expectOp_def split: if_splits)

lemma expectOp_PFuel: "expectOp v ts k = PFuel \<Longrightarrow> isOp v ts \<and> k (tl ts) = PFuel"
  by (simp add: expectOp_def split: if_splits)

lemma body_consuming:
  assumes "consuming p" and "nonterm_body nt p d ts = POk e r"
  shows "length r + (if is_loop nt then 0 else 1) \<le> length ts"
proof (cases nt)
  case NTernary
  from assms(2) obtain t us where t: "p NOr (Suc d) ts = POk t us"
    and r: "(if isOp ''?'' us then pbind (p NTernary (Suc d) (tl us)) (\<lambda>a us. expectOp '':'' us
      (\<lambda>us. pbind (p NTernary (Suc d) us) (\<lambda>b us. POk (ECond t a b) us))) else POk t us) = POk e r"
    unfolding nonterm_body_def NTernary nonterm.case ternary_def by (auto simp: pbind_POk dest!: enter_POk)
  note c = consumingD [OF assms(1)]
  show ?thesis
  proof (cases "isOp ''?'' us")
    case True
    with r obtain a vs b ws where "p NTernary (Suc d) (tl us) = POk a vs" "isOp '':'' vs" "p NTernary (Suc d) (tl vs) = POk b r"
      by (auto simp: pbind_POk dest!: expectOp_POk)
    with c [OF t] c [OF this(1)] c [OF this(3)] isOp_tl [OF True] isOp_tl [OF this(2)] NTernary show ?thesis by simp
  next
    case False
    with r c [OF t] NTernary show ?thesis by simp
  qed
next
  case NOr
  with assms show ?thesis by (auto simp: nonterm_body_def pbind_POk dest!: consumingD [OF assms(1)])
next
  case (NOrLoop x)
  with assms show ?thesis
    by (auto simp: nonterm_body_def or_loop_def pbind_POk split: if_splits dest!: consumingD [OF assms(1)] isOp_tl isKw_tl)
next
  case NAnd
  with assms show ?thesis by (auto simp: nonterm_body_def pbind_POk dest!: consumingD [OF assms(1)])
next
  case (NAndLoop x)
  with assms show ?thesis
    by (auto simp: nonterm_body_def and_loop_def pbind_POk split: if_splits dest!: consumingD [OF assms(1)] isOp_tl isKw_tl)
next
  case NNot
  with assms show ?thesis
    by (auto simp: nonterm_body_def not_expr_def pbind_POk split: if_splits dest!: enter_POk consumingD [OF assms(1)] isOp_tl isKw_tl)
next
  case NComparison
  note c = consumingD [OF assms(1)]
  from assms(2) obtain l us where l: "p NAdditive d ts = POk l us" "compare_with p d l us = POk e r"
    unfolding nonterm_body_def NComparison nonterm.case comparison_def pbind_POk by blast
  have "length r \<le> length us"
  proof (cases us)
    case (Cons t vs)
    with l(2) show ?thesis by (cases t) (auto simp: compare_with_def pbind_POk split: if_splits dest!: c isKw_tl)
  qed (use l(2) in \<open>simp add: compare_with_def\<close>)
  with c [OF l(1)] NComparison show ?thesis by simp
next
  case NAdditive
  with assms show ?thesis by (auto simp: nonterm_body_def pbind_POk dest!: consumingD [OF assms(1)])
next
  case (NAddLoop x)
  with assms show ?thesis
    by (auto simp: nonterm_body_def add_loop_def pbind_POk split: if_splits list.splits token.splits dest!: consumingD [OF assms(1)])
next
  case NMultiplicative
  with assms show ?thesis by (auto simp: nonterm_body_def pbind_POk dest!: consumingD [OF assms(1)])
next
  case (NMulLoop x)
  with assms show ?thesis
    by (auto simp: nonterm_body_def mul_loop_def pbind_POk split: if_splits list.splits token.splits dest!: consumingD [OF assms(1)])
next
  case NUnary
  with assms show ?thesis
    by (auto simp: nonterm_body_def unary_expr_def pbind_POk split: if_splits list.splits token.splits dest!: enter_POk consumingD [OF assms(1)])
next
  case NPostfix
  with assms show ?thesis by (auto simp: nonterm_body_def pbind_POk dest!: consumingD [OF assms(1)])
next
  case (NPostLoop x)
  note c = consumingD [OF assms(1)]
  note m = assms(2) [unfolded nonterm_body_def NPostLoop nonterm.case post_loop_def]
  show ?thesis
  proof (cases "isOp ''.'' ts")
    case True
    obtain n us where "p (NPostLoop (EMember x (ELit (XStr n)))) d us = POk e r" "length us \<le> length ts"
    proof (cases "tl ts")
      case (Cons t vs)
      with m True that show ?thesis by (cases t) (auto dest: arg_cong [where f = length])
    qed (use m True in simp)
    with c NPostLoop show ?thesis by fastforce
  next
    case ndot: False
    show ?thesis
    proof (cases "isOp ''['' ts")
      case True
      with m ndot obtain y us where "p NTernary (Suc d) (tl ts) = POk y us" "p (NPostLoop (EMember x y)) d (tl us) = POk e r"
        by (auto simp: pbind_POk dest!: enter_POk expectOp_POk)
      with c [OF this(1)] c [OF this(2)] NPostLoop show ?thesis by simp
    next
      case nbr: False
      show ?thesis
      proof (cases "isOp ''('' ts")
        case False
        with m ndot nbr NPostLoop show ?thesis by simp
      next
        case True
        show ?thesis
        proof (cases "isOp '')'' (tl ts)")
          case close: True
          with m ndot nbr True obtain n where "p (NPostLoop (ECall n [])) d (tl (tl ts)) = POk e r" by (auto split: expr.splits if_splits)
          with c [OF this] NPostLoop show ?thesis by simp
        next
          case open_: False
          with m ndot nbr True obtain y us z where "p (NItems []) d (tl ts) = POk y us" "p (NPostLoop z) d (tl us) = POk e r"
            by (cases x) (auto simp: pbind_POk split: if_splits dest!: expectOp_POk)
          with c [OF this(1)] c [OF this(2)] NPostLoop show ?thesis by simp
        qed
      qed
    qed
  qed
next
  case NPrimary
  with assms show ?thesis
    by (auto simp: nonterm_body_def primary_def pbind_POk split: if_splits list.splits token.splits
        dest!: enter_POk expectOp_POk consumingD [OF assms(1)] isOp_tl)
next
  case (NItems acc)
  with assms show ?thesis
    by (auto simp: nonterm_body_def items_loop_def pbind_POk split: if_splits dest!: enter_POk consumingD [OF assms(1)] isOp_tl)
qed


lemma parse_consuming: "consuming (parse_fuel n)"
proof (induction n)
  case (Suc n)
  from body_consuming [OF this] show ?case unfolding consuming_def by simp
qed (simp add: consuming_def)

lemma rank_le: "rank nt \<le> 10"
  by (cases nt) simp_all

lemma body_fuelled:
  assumes "consuming p" and "fuelled n p" and "16 * length ts + rank nt < Suc n"
  shows "nonterm_body nt p d ts \<noteq> PFuel"
proof
  note c = consumingD [OF assms(1)]
  have less: "p nt' d' us \<noteq> PFuel" if "length us < length ts" for nt' d' us
    by (rule fuelledD [OF assms(2)]) (use that assms(3) rank_le [of nt'] in simp)
  have lower: "p nt' d' ts \<noteq> PFuel" if "rank nt' < rank nt" for nt' d'
    by (rule fuelledD [OF assms(2)]) (use that assms(3) in simp)
  have behind: "p nt'' d'' vs \<noteq> PFuel" if "p nt' d' us = POk e vs" "\<not> is_loop nt'" "length us \<le> length ts" for nt' d' us e vs nt'' d''
    using less [of vs nt'' d''] c [OF that(1)] that(2,3) by simp
  have next': "p nt' d' (tl us) \<noteq> PFuel" if "us \<noteq> []" "length us \<le> length ts" for nt' d' us
    using less [of "tl us" nt' d'] that by (cases us) auto
  assume a: "nonterm_body nt p d ts = PFuel"
  note m = a [unfolded nonterm_body_def]
  show False
  proof (cases nt)
    case NTernary
    with lower have "p NOr (Suc d) ts \<noteq> PFuel" by simp
    with m NTernary obtain t us where t: "p NOr (Suc d) ts = POk t us" "us \<noteq> []"
      and k: "pbind (p NTernary (Suc d) (tl us)) (\<lambda>a us. expectOp '':'' us
        (\<lambda>us. pbind (p NTernary (Suc d) us) (\<lambda>b us. POk (ECond t a b) us))) = PFuel"
      by (auto simp: ternary_def pbind_PFuel split: if_splits dest!: enter_PFuel isOp_tl)
    have l: "length us < length ts" using c [OF t(1)] by simp
    with next' t(2) have "p NTernary (Suc d) (tl us) \<noteq> PFuel" by simp
    with k obtain y vs where v: "p NTernary (Suc d) (tl us) = POk y vs" "vs \<noteq> []" "p NTernary (Suc d) (tl vs) = PFuel"
      by (auto simp: pbind_PFuel dest!: expectOp_PFuel isOp_tl)
    have "length vs \<le> length ts" using c [OF v(1)] l by simp
    with next' v(2,3) show False by blast
  next
    case NOr
    with m lower [of NAnd d] behind [of NAnd d ts] show False by (auto simp: pbind_PFuel)
  next
    case (NOrLoop x)
    then obtain e us where "ts \<noteq> []" "p NAnd d (tl ts) = POk e us" "p (NOrLoop (EBin ''||'' x e)) d us = PFuel"
      using m next' [of ts NAnd d] by (auto simp: or_loop_def pbind_PFuel split: if_splits dest!: isOp_tl isKw_tl)
    with behind [OF this(2)] show False by simp
  next
    case NAnd
    with m lower [of NNot d] behind [of NNot d ts] show False by (auto simp: pbind_PFuel)
  next
    case (NAndLoop x)
    then obtain e us where "ts \<noteq> []" "p NNot d (tl ts) = POk e us" "p (NAndLoop (EBin ''&&'' x e)) d us = PFuel"
      using m next' [of ts NNot d] by (auto simp: and_loop_def pbind_PFuel split: if_splits dest!: isOp_tl isKw_tl)
    with behind [OF this(2)] show False by simp
  next
    case NNot
    with m lower [of NComparison d] next' [of ts NNot "Suc d"] show False
      by (auto simp: not_expr_def pbind_PFuel split: if_splits dest!: enter_PFuel isOp_tl isKw_tl)
  next
    case NAdditive
    with m lower [of NMultiplicative d] behind [of NMultiplicative d ts] show False by (auto simp: pbind_PFuel)
  next
    case NMultiplicative
    with m lower [of NUnary d] behind [of NUnary d ts] show False by (auto simp: pbind_PFuel)
  next
    case NPostfix
    with m lower [of NPrimary d] behind [of NPrimary d ts] show False by (auto simp: pbind_PFuel)
  next
    case (NItems acc)
    with m lower [of NTernary "Suc d"] obtain e us where e: "p NTernary (Suc d) ts = POk e us" "us \<noteq> []" "p (NItems (acc @ [e])) d (tl us) = PFuel"
      by (auto simp: items_loop_def pbind_PFuel split: if_splits dest!: enter_PFuel isOp_tl)
    have "length us \<le> length ts" using c [OF e(1)] by simp
    with next' e(2,3) show False by blast
  next
    case NComparison
    with m lower [of NAdditive d] obtain l us where l: "p NAdditive d ts = POk l us" "compare_with p d l us = PFuel"
      by (auto simp: comparison_def pbind_PFuel)
    show False
    proof (cases us)
      case (Cons t vs)
      with c [OF l(1)] have "length vs < length ts" "length (tl vs) < length ts" by simp_all
      with less have "p NAdditive d vs \<noteq> PFuel" "p NAdditive d (tl vs) \<noteq> PFuel" by blast+
      with l(2) Cons show False by (cases t) (auto simp: compare_with_def pbind_PFuel split: if_splits)
    qed (use l(2) in \<open>simp add: compare_with_def\<close>)
  next
    case (NAddLoop x)
    show False
    proof (cases ts)
      case (Cons t vs)
      with m NAddLoop less [of vs NMultiplicative d] behind [of NMultiplicative d vs] show False
        by (cases t) (auto simp: add_loop_def pbind_PFuel split: if_splits)
    qed (use m NAddLoop in \<open>simp add: add_loop_def\<close>)
  next
    case (NMulLoop x)
    show False
    proof (cases ts)
      case (Cons t vs)
      with m NMulLoop less [of vs NUnary d] behind [of NUnary d vs] show False
        by (cases t) (auto simp: mul_loop_def pbind_PFuel split: if_splits)
    qed (use m NMulLoop in \<open>simp add: mul_loop_def\<close>)
  next
    case NUnary
    show False
    proof (cases ts)
      case (Cons t vs)
      with m NUnary less [of vs NUnary "Suc d"] lower [of NPostfix d] show False
        by (cases t) (auto simp: unary_expr_def pbind_PFuel split: if_splits dest!: enter_PFuel)
    qed (use m NUnary lower [of NPostfix d] in \<open>simp add: unary_expr_def\<close>)
  next
    case NPrimary
    show False
    proof (cases ts)
      case (Cons t vs)
      with m NPrimary less [of vs NTernary "Suc d"] less [of vs "NItems []" d] show False
        by (cases t) (auto simp: primary_def pbind_PFuel split: if_splits dest!: enter_PFuel expectOp_PFuel)
    qed (use m NPrimary in \<open>simp add: primary_def\<close>)
  next
    case (NPostLoop x)
    note m = m [unfolded NPostLoop nonterm.case post_loop_def]
    show False
    proof (cases "isOp ''.'' ts")
      case True
      from isOp_tl [OF True] have "length (tl (tl ts)) < length ts" by simp
      with m True less show False by (cases "tl ts"; cases "hd (tl ts)") auto
    next
      case ndot: False
      show False
      proof (cases "isOp ''['' ts")
        case True
        from isOp_tl [OF True] have ne: "ts \<noteq> []" by simp
        with m ndot True next' [of ts NTernary "Suc d"] obtain y us where y: "p NTernary (Suc d) (tl ts) = POk y us" "p (NPostLoop (EMember x y)) d (tl us) = PFuel"
          by (auto simp: pbind_PFuel dest!: enter_PFuel expectOp_PFuel)
        have "length (tl us) < length ts" using c [OF y(1)] isOp_tl [OF True] by simp
        with less y(2) show False by blast
      next
        case nbr: False
        show False
        proof (cases "isOp ''('' ts")
          case False
          with m ndot nbr show False by simp
        next
          case True
          from isOp_tl [OF True] have l: "length (tl (tl ts)) < length ts" "ts \<noteq> []" by simp_all
          show False
          proof (cases "isOp '')'' (tl ts)")
            case close: True
            with m ndot nbr True less [OF l(1)] show False by (cases x) (auto split: if_splits)
          next
            case open_: False
            with m ndot nbr True next' [OF l(2)] obtain y us z where y: "p (NItems []) d (tl ts) = POk y us" "p (NPostLoop z) d (tl us) = PFuel"
              by (cases x) (auto simp: pbind_PFuel split: if_splits dest!: expectOp_PFuel)
            have "length (tl us) < length ts" using c [OF y(1)] l(2) by (cases ts) auto
            with less y(2) show False by blast
          qed
        qed
      qed
    qed
  qed
qed

lemma parse_fuelled: "fuelled n (parse_fuel n)"
proof (induction n)
  case (Suc n)
  from body_fuelled [OF parse_consuming this] show ?case unfolding fuelled_def by simp
qed (simp add: fuelled_def)

lemma parse_tokens_stops: "parse_tokens ts \<noteq> PFuel"
  unfolding parse_tokens_def by (rule fuelledD [OF parse_fuelled]) simp

end
