(* ===== verification/U2_Evaluate.thy ===== *)
theory U2_Evaluate
  imports U2_Expression
begin

text \<open>
  The interpreter and the templates of \<open>server/packages/expression.js\<close>, and the package
  policies of \<open>server/packages/policy.js\<close> that are conditions in that language.
\<close>

section \<open>Operations on values\<close>

text \<open>
  The clock, \<open>Date.parse\<close>, \<open>Number\<close> of a text, list or object, and \<open>round\<close> to a number of
  digits that is not a small integer.
\<close>

record expr_env =
  xe_now :: int
  xe_parse_date :: "xval \<Rightarrow> int option"
  xe_to_number :: "xval \<Rightarrow> rat"
  xe_round :: "rat \<Rightarrow> xval \<Rightarrow> xval"

definition FORBIDDEN_PROPERTIES :: "string list" where
  "FORBIDDEN_PROPERTIES = [''__proto__'', ''constructor'', ''prototype'']"

definition key_name :: "xval \<Rightarrow> string option" where
  "key_name key = (case key of XStr s \<Rightarrow> Some s | XNum n \<Rightarrow> Some (num_str n) | _ \<Rightarrow> None)"

definition or_undefined :: "xval option \<Rightarrow> xval" where
  "or_undefined v = (case v of Some x \<Rightarrow> x | None \<Rightarrow> XUndef)"

definition readProperty :: "xval \<Rightarrow> xval \<Rightarrow> xval res" where
  "readProperty target key =
     (if nothing target then Inr XUndef
      else (case key_name key of
        None \<Rightarrow> Inr XUndef
      | Some name \<Rightarrow>
          if name \<in> set FORBIDDEN_PROPERTIES then Inl (expression_error (''Access to \"'' @ name @ ''\" is not allowed''))
          else Inr (case target of
                      XArr vs \<Rightarrow> if name = ''length'' then XNum (of_nat (length vs))
                                else or_undefined (map_of (zip (map nat_str [0..<length vs]) vs) name)
                    | XStr s \<Rightarrow> if name = ''length'' then XNum (of_nat (length s)) else XUndef
                    | XObj ps \<Rightarrow> or_undefined (map_of ps name)
                    | _ \<Rightarrow> XUndef)))"

definition is_object :: "xval \<Rightarrow> bool" where
  "is_object v = (case v of XArr _ \<Rightarrow> True | XObj _ \<Rightarrow> True | _ \<Rightarrow> False)"

definition equals :: "xval \<Rightarrow> xval \<Rightarrow> bool" where
  "equals a b \<longleftrightarrow>
     (if nothing a \<and> nothing b then True else if is_object a \<and> is_object b then x_json a = x_json b else a = b)"

definition in_value :: "xval \<Rightarrow> xval \<Rightarrow> bool" where
  "in_value l r =
     (case r of
        XArr vs \<Rightarrow> list_ex (\<lambda>v. equals v l) vs
      | XStr s \<Rightarrow> (case l of XStr t \<Rightarrow> has_infix t s | _ \<Rightarrow> False)
      | XObj ps \<Rightarrow> (case key_name l of Some k \<Rightarrow> k \<in> set (map fst ps) | None \<Rightarrow> False)
      | _ \<Rightarrow> False)"

definition compare_op :: "string \<Rightarrow> bool \<Rightarrow> bool \<Rightarrow> bool" where
  "compare_op op lt same = (if op = ''<'' then lt else if op = ''<='' then lt \<or> same else if op = ''>'' then \<not> lt \<and> \<not> same else \<not> lt)"

text \<open>\<open>Math.trunc\<close>.\<close>

definition trunc :: "rat \<Rightarrow> int" where
  "trunc q = (if q < 0 then - \<lfloor>- q\<rfloor> else \<lfloor>q\<rfloor>)"

definition is_text :: "xval \<Rightarrow> bool" where
  "is_text v = (case v of XStr _ \<Rightarrow> True | _ \<Rightarrow> False)"

definition binary :: "string \<Rightarrow> xval \<Rightarrow> xval \<Rightarrow> xval res" where
  "binary op l r =
     (if op = ''=='' then Inr (XBool (equals l r))
      else if op = ''!='' then Inr (XBool (\<not> equals l r))
      else if op \<in> {''<'', ''<='', ''>'', ''>=''} then
        Inr (XBool (case (l, r) of
                      (XNum a, XNum b) \<Rightarrow> compare_op op (a < b) (a = b)
                    | (XStr a, XStr b) \<Rightarrow> compare_op op (a < b) (a = b)
                    | _ \<Rightarrow> False))
      else if op = ''in'' then Inr (XBool (in_value l r))
      else if op = ''+'' then
        Inr (case (l, r) of
               (XNum a, XNum b) \<Rightarrow> XNum (a + b)
             | _ \<Rightarrow> if is_text l \<or> is_text r then XStr (toText l @ toText r) else XNull)
      else if op \<in> {''-'', ''*'', ''/'', ''%''} then
        Inr (case (l, r) of
               (XNum a, XNum b) \<Rightarrow>
                 if (op = ''/'' \<or> op = ''%'') \<and> b = 0 then XNull
                 else XNum (if op = ''-'' then a - b else if op = ''*'' then a * b else if op = ''/'' then a / b
                            else a - b * of_int (trunc (a / b)))
             | _ \<Rightarrow> XNull)
      else Inl (expression_error (''Unknown operator '' @ op)))"

section \<open>Functions\<close>

definition argument :: "xval list \<Rightarrow> nat \<Rightarrow> xval" where
  "argument args i = or_undefined (js_nth args i)"

definition flat :: "xval list \<Rightarrow> xval list" where
  "flat vs = concat (map (\<lambda>v. case v of XArr ws \<Rightarrow> ws | _ \<Rightarrow> [v]) vs)"

fun numbers :: "xval list \<Rightarrow> rat list" where
  "numbers [] = []"
| "numbers (XNum n # vs) = n # numbers vs"
| "numbers (v # vs) = numbers vs"

definition numeric :: "xval list \<Rightarrow> (rat \<Rightarrow> rat \<Rightarrow> rat) \<Rightarrow> xval" where
  "numeric vs f = (case numbers vs of [] \<Rightarrow> XNull | n # ns \<Rightarrow> XNum (foldl f n ns))"

definition on_number :: "(rat \<Rightarrow> rat) \<Rightarrow> xval \<Rightarrow> xval" where
  "on_number f v = (case v of XNum n \<Rightarrow> XNum (f n) | _ \<Rightarrow> XNull)"

definition on_text :: "(string \<Rightarrow> string) \<Rightarrow> xval \<Rightarrow> xval" where
  "on_text f v = (case v of XStr s \<Rightarrow> XStr (f s) | _ \<Rightarrow> v)"

text \<open>\<open>round(value, digits = 0)\<close> with whole, non-negative digits.\<close>

definition round_value :: "expr_env \<Rightarrow> xval \<Rightarrow> xval \<Rightarrow> xval" where
  "round_value env v digits =
     (let rounded = (\<lambda>x d. XNum (of_int \<lfloor>x * 10 ^ d + 1 / 2\<rfloor> / 10 ^ d)) in
      case v of
        XNum x \<Rightarrow>
          (case digits of
             XUndef \<Rightarrow> rounded x 0
           | XNull \<Rightarrow> rounded x 0
           | XNum d \<Rightarrow> if 0 \<le> d \<and> of_int \<lfloor>d\<rfloor> = d then rounded x (nat \<lfloor>d\<rfloor>) else xe_round env x digits
           | _ \<Rightarrow> xe_round env x digits)
      | _ \<Rightarrow> XNull)"

text \<open>\<open>slice\<close>: a position counted from the end when negative, within the length.\<close>

definition slice_position :: "expr_env \<Rightarrow> nat \<Rightarrow> nat \<Rightarrow> xval \<Rightarrow> nat" where
  "slice_position env len missing v =
     (if v = XUndef then missing
      else let i = (case v of XNull \<Rightarrow> 0 | XBool b \<Rightarrow> (if b then 1 else 0) | XNum n \<Rightarrow> trunc n | _ \<Rightarrow> trunc (xe_to_number env v)) in
        if i < 0 then nat (max 0 (int len + i)) else min (nat i) len)"

definition slice_list :: "expr_env \<Rightarrow> xval \<Rightarrow> xval \<Rightarrow> 'a list \<Rightarrow> 'a list" where
  "slice_list env from to xs =
     (let a = slice_position env (length xs) 0 from; b = slice_position env (length xs) (length xs) to in take (b - a) (drop a xs))"

fun unique_values :: "xval list \<Rightarrow> xval list \<Rightarrow> xval list" where
  "unique_values seen [] = []"
| "unique_values seen (v # vs) = (if list_ex (\<lambda>w. equals w v) seen then [] else [v]) @ unique_values (seen @ [v]) vs"

fun all_or_error :: "'a res list \<Rightarrow> 'a list res" where
  "all_or_error [] = Inr []"
| "all_or_error (r # rs) =
     (case r of Inl e \<Rightarrow> Inl e | Inr v \<Rightarrow> (case all_or_error rs of Inl e \<Rightarrow> Inl e | Inr vs \<Rightarrow> Inr (v # vs)))"

definition call_function :: "expr_env \<Rightarrow> string \<Rightarrow> xval list \<Rightarrow> xval res" where
  "call_function env name args =
     (let v = argument args 0; w = argument args 1 in
      if name = ''len'' then
        Inr (XNum (of_nat (case v of XArr vs \<Rightarrow> length vs | XStr s \<Rightarrow> length s | XObj ps \<Rightarrow> length ps | _ \<Rightarrow> 0)))
      else if name = ''lower'' then Inr (on_text (map lower_char) v)
      else if name = ''upper'' then Inr (on_text (map upper_char) v)
      else if name = ''contains'' then
        (if is_text v \<and> is_text w then binary ''in'' (on_text (map lower_char) w) (on_text (map lower_char) v) else binary ''in'' w v)
      else if name = ''startsWith'' then Inr (XBool (case (v, w) of (XStr s, XStr p) \<Rightarrow> starts_with s p | _ \<Rightarrow> False))
      else if name = ''endsWith'' then Inr (XBool (case (v, w) of (XStr s, XStr p) \<Rightarrow> ends_with s p | _ \<Rightarrow> False))
      else if name = ''min'' then Inr (numeric (flat args) min)
      else if name = ''max'' then Inr (numeric (flat args) max)
      else if name = ''abs'' then Inr (on_number abs v)
      else if name = ''round'' then Inr (round_value env v w)
      else if name = ''floor'' then Inr (on_number (\<lambda>n. of_int \<lfloor>n\<rfloor>) v)
      else if name = ''ceil'' then Inr (on_number (\<lambda>n. of_int \<lceil>n\<rceil>) v)
      else if name = ''coalesce'' then Inr (case List.find (\<lambda>x. \<not> nothing x) args of Some x \<Rightarrow> x | None \<Rightarrow> XNull)
      else if name = ''join'' then
        Inr (XStr (case v of XArr vs \<Rightarrow> join_with (if w = XUndef then '', '' else toText w) (map toText vs) | _ \<Rightarrow> toText v))
      else if name = ''keys'' then Inr (XArr (case v of XObj ps \<Rightarrow> map (XStr \<circ> fst) ps | _ \<Rightarrow> []))
      else if name = ''concat'' then
        Inr (XArr (concat (map (\<lambda>x. case x of XArr vs \<Rightarrow> vs | _ \<Rightarrow> if nothing x then [] else [x]) args)))
      else if name = ''pluck'' then
        (case v of XArr vs \<Rightarrow> map_sum id XArr (all_or_error (map (\<lambda>x. readProperty x w) vs)) | _ \<Rightarrow> Inr (XArr []))
      else if name = ''unique'' then Inr (XArr (case v of XArr vs \<Rightarrow> unique_values [] vs | _ \<Rightarrow> []))
      else if name = ''slice'' then
        Inr (case v of
               XArr vs \<Rightarrow> XArr (slice_list env w (argument args 2) vs)
             | XStr s \<Rightarrow> XStr (slice_list env w (argument args 2) s)
             | _ \<Rightarrow> XNull)
      else if name = ''now'' then Inr (XStr (iso_string (xe_now env)))
      else Inr (case xe_parse_date env v of Some t \<Rightarrow> XNum (of_int ((xe_now env - t) div 86400000)) | None \<Rightarrow> XNull))"

section \<open>The interpreter\<close>

text \<open>Every node visited is charged to the budget, which the whole evaluation shares.\<close>

type_synonym 'a counted = "'a res \<times> nat"

definition charge :: "nat \<Rightarrow> (nat \<Rightarrow> 'a counted) \<Rightarrow> 'a counted" where
  "charge steps k =
     (if Suc steps > MAX_STEPS then (Inl (expression_error ''Expression evaluation exceeded its budget''), Suc steps) else k (Suc steps))"

definition seq :: "'a counted \<Rightarrow> ('a \<Rightarrow> nat \<Rightarrow> 'b counted) \<Rightarrow> 'b counted" where
  "seq r k = (case r of (Inl e, n) \<Rightarrow> (Inl e, n) | (Inr v, n) \<Rightarrow> k v n)"

fun run :: "expr_env \<Rightarrow> xval \<Rightarrow> expr \<Rightarrow> nat \<Rightarrow> xval counted"
  and run_all :: "expr_env \<Rightarrow> xval \<Rightarrow> expr list \<Rightarrow> nat \<Rightarrow> xval list counted" where
  "run env scope (ELit v) n = charge n (\<lambda>n. (Inr v, n))"
| "run env scope (EId name) n = charge n (\<lambda>n. (readProperty scope (XStr name), n))"
| "run env scope (EList es) n = charge n (\<lambda>n. seq (run_all env scope es n) (\<lambda>vs n. (Inr (XArr vs), n)))"
| "run env scope (EMember obj prop) n =
     charge n (\<lambda>n. seq (run env scope obj n) (\<lambda>o' n. seq (run env scope prop n) (\<lambda>k n. (readProperty o' k, n))))"
| "run env scope (ECall name es) n = charge n (\<lambda>n. seq (run_all env scope es n) (\<lambda>vs n. (call_function env name vs, n)))"
| "run env scope (EUnary op e) n =
     charge n (\<lambda>n. seq (run env scope e n) (\<lambda>v n.
       (Inr (if op = ''!'' then XBool (\<not> x_truthy v) else (case v of XNum x \<Rightarrow> XNum (- x) | _ \<Rightarrow> XNull)), n)))"
| "run env scope (ECond test then' else') n =
     charge n (\<lambda>n. seq (run env scope test n) (\<lambda>v n. if x_truthy v then run env scope then' n else run env scope else' n))"
| "run env scope (EBin op l r) n =
     charge n (\<lambda>n. seq (run env scope l n) (\<lambda>v n.
       if op = ''&&'' then (if x_truthy v then run env scope r n else (Inr v, n))
       else if op = ''||'' then (if x_truthy v then (Inr v, n) else run env scope r n)
       else seq (run env scope r n) (\<lambda>w n. (binary op v w, n))))"
| "run_all env scope [] n = (Inr [], n)"
| "run_all env scope (e # es) n = seq (run env scope e n) (\<lambda>v n. seq (run_all env scope es n) (\<lambda>vs n. (Inr (v # vs), n)))"

definition evaluate :: "expr_env \<Rightarrow> string \<Rightarrow> xval \<Rightarrow> xval res" where
  "evaluate env source scope = (case compile source of Inl e \<Rightarrow> Inl e | Inr ast \<Rightarrow> fst (run env scope ast 0))"

section \<open>Templates\<close>

text \<open>The content up to the first closing braces, and what follows them.\<close>

fun find_close :: "string \<Rightarrow> (string \<times> string) option" where
  "find_close [] = None"
| "find_close (c # cs) =
     (if starts_with (c # cs) ''}}'' then Some ([], drop 1 cs) else map_option (\<lambda>(x, r). (c # x, r)) (find_close cs))"

lemma find_close_shorter: "find_close s = Some (x, r) \<Longrightarrow> length r \<le> length s"
  by (induction s arbitrary: x) (auto split: if_splits intro: le_SucI)

text \<open>A template as literal texts, each followed by an expression, and a last literal text.\<close>

function template_parts :: "string \<Rightarrow> string \<Rightarrow> (string \<times> string) list \<times> string" where
  "template_parts lit [] = ([], lit)"
| "template_parts lit (c # cs) =
     (if starts_with (c # cs) ''{{'' then
        (case find_close (drop 1 cs) of
           None \<Rightarrow> ([], lit @ c # cs)
         | Some (x, r) \<Rightarrow> (let (ps, rest) = template_parts [] r in ((lit, x) # ps, rest)))
      else template_parts (lit @ [c]) cs)"
  by pat_completeness auto
termination
  by (relation "measure (length \<circ> snd)") (auto dest: find_close_shorter)

definition string_problems :: "string \<Rightarrow> string \<Rightarrow> string list" where
  "string_problems where' t =
     (let (ps, rest) = template_parts [] t in
      concat (map (\<lambda>p. case checkExpression (js_trim (snd p)) of None \<Rightarrow> [] | Some m \<Rightarrow> [where' @ '': '' @ m]) ps) @
      (if has_infix ''{{'' (concat (map fst ps) @ rest) then [where' @ '': unclosed \"{{\"''] else []))"

lemma size_zip_left [termination_simp]: "(v, i) \<in> set (zip vs xs) \<Longrightarrow> size v < Suc (size_list size vs)"
  by (auto dest!: set_zip_leftD intro!: le_imp_less_Suc size_list_estimation' [of v])

fun checkTemplate :: "jsval \<Rightarrow> string \<Rightarrow> string list" where
  "checkTemplate (JStr t) where' = string_problems where' t"
| "checkTemplate (JArr vs) where' =
     concat (map (\<lambda>(v, i). checkTemplate v (where' @ ''['' @ nat_str i @ '']'')) (zip vs [0..<length vs]))"
| "checkTemplate (JObj ps) where' = concat (map (\<lambda>p. checkTemplate (snd p) (where' @ ''.'' @ fst p)) ps)"
| "checkTemplate v where' = []"

text \<open>A text that is one whole expression: \<open>{{ }}\<close> at both ends and no closing braces inside.\<close>

definition whole_expression :: "string \<Rightarrow> string option" where
  "whole_expression t =
     (let s = js_trim t; body = drop 2 (take (length s - 2) s) in
      if 4 \<le> length s \<and> starts_with s ''{{'' \<and> ends_with s ''}}'' \<and> \<not> has_infix ''}}'' body then Some body else None)"

fun resolve_parts :: "expr_env \<Rightarrow> xval \<Rightarrow> (string \<times> string) list \<Rightarrow> string \<Rightarrow> string res" where
  "resolve_parts env scope [] rest = Inr rest"
| "resolve_parts env scope ((lit, x) # ps) rest =
     (case evaluate env (js_trim x) scope of
        Inl e \<Rightarrow> Inl e
      | Inr v \<Rightarrow> (case resolve_parts env scope ps rest of Inl e \<Rightarrow> Inl e | Inr t \<Rightarrow> Inr (lit @ toText v @ t)))"

definition resolve_string :: "expr_env \<Rightarrow> xval \<Rightarrow> string \<Rightarrow> xval res" where
  "resolve_string env scope t =
     (case whole_expression t of
        Some x \<Rightarrow> evaluate env (js_trim x) scope
      | None \<Rightarrow> (let (ps, rest) = template_parts [] t in map_sum id XStr (resolve_parts env scope ps rest)))"

fun resolveTemplate :: "expr_env \<Rightarrow> xval \<Rightarrow> jsval \<Rightarrow> xval res" where
  "resolveTemplate env scope (JStr t) = resolve_string env scope t"
| "resolveTemplate env scope (JArr vs) = map_sum id XArr (all_or_error (map (resolveTemplate env scope) vs))"
| "resolveTemplate env scope (JObj ps) =
     map_sum id XObj (all_or_error (map (\<lambda>p. map_sum id (Pair (fst p)) (resolveTemplate env scope (snd p))) ps))"
| "resolveTemplate env scope JNull = Inr XNull"
| "resolveTemplate env scope (JBool b) = Inr (XBool b)"
| "resolveTemplate env scope (JNum n) = Inr (XNum n)"
| "resolveTemplate env scope (JNative k) = Inr XUndef"

section \<open>Evaluation always answers\<close>

text \<open>An answer: a value or an expression error, within the budget.\<close>

definition answers :: "'a counted \<Rightarrow> bool" where
  "answers r \<longleftrightarrow> snd r \<le> Suc MAX_STEPS \<and> (\<forall>e. fst r = Inl e \<longrightarrow> (\<exists>m. e = expression_error m)) \<and>
     (\<forall>v. fst r = Inr v \<longrightarrow> snd r \<le> MAX_STEPS)"

lemma answers_charge: "(\<And>n. n \<le> MAX_STEPS \<Longrightarrow> answers (k n)) \<Longrightarrow> n \<le> MAX_STEPS \<Longrightarrow> answers (charge n k)"
  by (cases "Suc n \<le> MAX_STEPS") (simp_all add: charge_def answers_def not_le)

lemma answers_seq: "answers r \<Longrightarrow> (\<And>v n. n \<le> MAX_STEPS \<Longrightarrow> answers (k v n)) \<Longrightarrow> answers (seq r k)"
  by (cases r; cases "fst r") (auto simp: seq_def answers_def)

lemma answers_Inr: "n \<le> MAX_STEPS \<Longrightarrow> answers (Inr v, n)"
  by (simp add: answers_def)

lemma answers_res: "(\<And>e. r = Inl e \<Longrightarrow> \<exists>m. e = expression_error m) \<Longrightarrow> n \<le> MAX_STEPS \<Longrightarrow> answers (r, n)"
  by (auto simp: answers_def)

lemma readProperty_error: "readProperty t k = Inl e \<Longrightarrow> \<exists>m. e = expression_error m"
  by (auto simp: readProperty_def split: option.splits if_splits)

lemma binary_error: "binary op l r = Inl e \<Longrightarrow> \<exists>m. e = expression_error m"
  by (auto simp: binary_def split: if_splits)

lemma all_or_error_error: "all_or_error rs = Inl e \<Longrightarrow> Inl e \<in> set rs"
  by (induction rs) (auto split: sum.splits)

lemma call_function_error:
  assumes "call_function env name args = Inl e"
  shows "\<exists>m. e = expression_error m"
proof (cases "name = ''contains'' \<or> name = ''pluck''")
  case True
  have "\<exists>m. e = expression_error m" if "all_or_error (map (\<lambda>x. readProperty x w) vs) = Inl e" for w vs
    using all_or_error_error [OF that] by (auto dest: readProperty_error [OF sym])
  with True assms show ?thesis
    by (auto simp: call_function_def Let_def map_sum_def split: if_splits xval.splits sum.splits dest: binary_error)
next
  case False
  with assms show ?thesis by (auto simp: call_function_def Let_def split: if_splits)
qed

lemma run_answers:
  "n \<le> MAX_STEPS \<Longrightarrow> answers (run env scope e n)"
  "n \<le> MAX_STEPS \<Longrightarrow> answers (run_all env scope es n)"
proof (induction env scope e n and env scope es n rule: run_run_all.induct)
  case (2 env scope name n)
  then show ?case by (auto intro!: answers_charge answers_res dest: readProperty_error)
qed (auto intro!: answers_charge answers_seq answers_Inr answers_res dest: readProperty_error binary_error call_function_error)

lemma read_literal_total: "lex_step c cs = Inl e \<Longrightarrow> \<exists>m. e = expression_error m"
  by (auto simp: lex_step_def Let_def case_prod_beta split: if_splits option.splits)

lemma tokenize_error: "tokenize s = Inl e \<Longrightarrow> \<exists>m. e = expression_error m"
  by (induction s rule: tokenize.induct) (auto split: sum.splits prod.splits dest: read_literal_total)

lemma compile_error: "compile source = Inl e \<Longrightarrow> \<exists>m. e = expression_error m"
  using parse_tokens_stops by (auto simp: compile_def split: if_splits sum.splits pres.splits dest: tokenize_error)


section \<open>Package policies\<close>

definition APPROVAL_MODES :: "string list" where
  "APPROVAL_MODES = [''automatic'', ''required'', ''never'']"

definition POLICY_KEYS :: "string list" where
  "POLICY_KEYS = [''description'', ''all'', ''any'', ''require'', ''approval'']"

text \<open>\<open>^[A-Za-z][A-Za-z0-9_-]{0,63}$\<close>\<close>

definition policy_name :: "string \<Rightarrow> bool" where
  "policy_name s \<longleftrightarrow> segment is_letter (\<lambda>c. is_letter c \<or> is_digit c \<or> c = CHR ''_'' \<or> c = CHR ''-'') s \<and> length s \<le> 64"

definition condition_problem :: "jsval \<Rightarrow> string option" where
  "condition_problem v = (case v of JStr s \<Rightarrow> checkExpression s | _ \<Rightarrow> Some ''must be an expression string'')"

definition condition_problems :: "string \<Rightarrow> jsval option \<Rightarrow> string list" where
  "condition_problems where' v =
     (case v of
        None \<Rightarrow> []
      | Some (JArr (c # cs)) \<Rightarrow>
          concat (map (\<lambda>(c, i). case condition_problem c of None \<Rightarrow> [] | Some m \<Rightarrow> [where' @ ''['' @ nat_str i @ '']: '' @ m])
                    (zip (c # cs) [0..<Suc (length cs)]))
      | Some _ \<Rightarrow> [where' @ '': must be a non-empty list of conditions''])"

definition policy_problems :: "string \<times> jsval \<Rightarrow> string list" where
  "policy_problems p =
     (let where' = ''policies.'' @ fst p in
      (if policy_name (fst p) then [] else [where' @ '': invalid policy name'']) @
      (case snd p of
         JObj q \<Rightarrow>
           concat (map (\<lambda>k. if k \<in> set POLICY_KEYS then [] else [where' @ ''.'' @ k @ '': unknown key'']) (map fst q)) @
           (case map_of q ''description'' of None \<Rightarrow> [] | Some (JStr _) \<Rightarrow> [] | Some _ \<Rightarrow> [where' @ ''.description: must be text'']) @
           (case map_of q ''approval'' of
              None \<Rightarrow> []
            | Some v \<Rightarrow> if v \<in> JStr ` set APPROVAL_MODES then [] else [where' @ ''.approval: use automatic, required, never'']) @
           concat (map (\<lambda>k. condition_problems (where' @ ''.'' @ k) (map_of q k)) [''all'', ''any'', ''require''])
       | _ \<Rightarrow> [where' @ '': must be a mapping'']))"

definition validatePackagePolicies :: "jsval option \<Rightarrow> string list" where
  "validatePackagePolicies v =
     (case v of
        None \<Rightarrow> []
      | Some (JObj ps) \<Rightarrow> concat (map policy_problems ps)
      | Some _ \<Rightarrow> [''policies: must be a mapping of policy names''])"

record package_policy =
  pol_require :: "string list"
  pol_all :: "string list"
  pol_any :: "string list option"
  pol_approval :: "string option"
  pol_description :: "string option"

datatype policy_decision = Automatic | Approval | Deny

record policy_result =
  pr_decision :: policy_decision
  pr_approval :: "string option"
  pr_reasons :: "string list"

text \<open>\<open>check(condition)\<close>: whether it holds, and the reason when it cannot be evaluated.\<close>

definition check_condition :: "expr_env \<Rightarrow> xval \<Rightarrow> string \<Rightarrow> bool \<times> string list" where
  "check_condition env facts c =
     (case evaluate env c facts of
        Inr v \<Rightarrow> (x_truthy v, [])
      | Inl e \<Rightarrow> (False, [''condition could not be evaluated: '' @ c @ '' ('' @ error_message e @ '')'']))"

fun check_all :: "expr_env \<Rightarrow> xval \<Rightarrow> string list \<Rightarrow> bool \<times> string list" where
  "check_all env facts [] = (True, [])"
| "check_all env facts (c # cs) =
     (let (ok, why) = check_condition env facts c; (oks, whys) = check_all env facts cs in
      (ok \<and> oks, why @ (if ok then [] else [''not met: '' @ c]) @ whys))"

text \<open>\<open>any.some(check)\<close> stops at the first that holds.\<close>

fun check_some :: "expr_env \<Rightarrow> xval \<Rightarrow> string list \<Rightarrow> bool \<times> string list" where
  "check_some env facts [] = (False, [])"
| "check_some env facts (c # cs) =
     (let (ok, why) = check_condition env facts c in
      if ok then (True, why) else (let (oks, whys) = check_some env facts cs in (oks, why @ whys)))"

definition approval_mode :: "package_policy \<Rightarrow> string option \<Rightarrow> string" where
  "approval_mode p approvalOverride =
     (case approvalOverride of
        Some m \<Rightarrow> if m \<in> set APPROVAL_MODES then m else (case pol_approval p of Some (c # cs) \<Rightarrow> c # cs | _ \<Rightarrow> ''required'')
      | None \<Rightarrow> (case pol_approval p of Some (c # cs) \<Rightarrow> c # cs | _ \<Rightarrow> ''required''))"

definition evaluatePackagePolicy ::
  "expr_env \<Rightarrow> string \<Rightarrow> package_policy option \<Rightarrow> xval \<Rightarrow> string option \<Rightarrow> policy_result" where
  "evaluatePackagePolicy env name policy facts approvalOverride =
     (case policy of
        None \<Rightarrow> \<lparr>pr_decision = Deny, pr_approval = None, pr_reasons = [''policy \"'' @ name @ ''\" is not defined'']\<rparr>
      | Some p \<Rightarrow>
          let (all_met, r1) = check_all env facts (pol_require p @ pol_all p);
              (any_met, r2) = (case pol_any p of
                None \<Rightarrow> (True, [])
              | Some cs \<Rightarrow> (case check_some env facts cs of (b, why) \<Rightarrow> (b, why @ (if b then [] else [''none met: '' @ join_with '' | '' cs]))));
              approval = approval_mode p approvalOverride; reasons = r1 @ r2;
              result = (\<lambda>d rs. \<lparr>pr_decision = d, pr_approval = Some approval, pr_reasons = rs\<rparr>) in
          if \<not> (all_met \<and> any_met) then result Deny reasons
          else if approval = ''never'' then result Deny (reasons @ [''approval: never''])
          else if approval = ''required'' then result Approval (reasons @ [''approval: required''])
          else result Automatic (reasons @ [''conditions met; approval: automatic'']))"

record policy_summary =
  ps_description :: string
  ps_approval :: string
  ps_conditions :: "string list"
  ps_overridden :: bool

definition summarizePolicy :: "package_policy option \<Rightarrow> string option \<Rightarrow> policy_summary" where
  "summarizePolicy policy approvalOverride =
     (let p = (case policy of Some p \<Rightarrow> p | None \<Rightarrow> \<lparr>pol_require = [], pol_all = [], pol_any = None, pol_approval = None, pol_description = None\<rparr>) in
      \<lparr>ps_description = (case pol_description p of Some d \<Rightarrow> d | None \<Rightarrow> []), ps_approval = approval_mode p approvalOverride,
       ps_conditions = pol_require p @ pol_all p @ (case pol_any p of Some cs \<Rightarrow> [''any of ('' @ join_with '' | '' cs @ '')''] | None \<Rightarrow> []),
       ps_overridden = (case approvalOverride of Some m \<Rightarrow> m \<in> set APPROVAL_MODES | None \<Rightarrow> False)\<rparr>)"

definition condition_holds :: "expr_env \<Rightarrow> xval \<Rightarrow> string \<Rightarrow> bool" where
  "condition_holds env facts c \<longleftrightarrow> (\<exists>v. evaluate env c facts = Inr v \<and> x_truthy v)"

lemma fst_check_condition: "fst (check_condition env facts c) = condition_holds env facts c"
  by (auto simp: check_condition_def condition_holds_def split: sum.splits)

lemma fst_check_all: "fst (check_all env facts cs) \<longleftrightarrow> (\<forall>c\<in>set cs. condition_holds env facts c)"
  by (induction cs) (auto simp: case_prod_beta fst_check_condition)

lemma fst_check_some: "fst (check_some env facts cs) \<longleftrightarrow> (\<exists>c\<in>set cs. condition_holds env facts c)"
  by (induction cs) (auto simp: case_prod_beta fst_check_condition)

text \<open>
  C25. A package policy fails closed. It lets an action happen automatically only if it is
  defined, each of its required conditions was evaluated without error and holds, one of
  its alternatives does if it has any, and the mode, the owner's choice before the
  package's, is neither to ask nor to forbid.
\<close>

theorem package_policy_fails_closed:
  assumes "pr_decision (evaluatePackagePolicy env name policy facts approvalOverride) = Automatic"
  shows "\<exists>p. policy = Some p \<and> (\<forall>c\<in>set (pol_require p @ pol_all p). \<exists>v. evaluate env c facts = Inr v \<and> x_truthy v) \<and>
    (\<forall>cs. pol_any p = Some cs \<longrightarrow> (\<exists>c\<in>set cs. \<exists>v. evaluate env c facts = Inr v \<and> x_truthy v)) \<and>
    approval_mode p approvalOverride \<noteq> ''never'' \<and> approval_mode p approvalOverride \<noteq> ''required''"
proof -
  from assms obtain p where p: "policy = Some p" by (cases policy) (simp_all add: evaluatePackagePolicy_def)
  from assms have "fst (check_all env facts (pol_require p @ pol_all p))" "\<And>cs. pol_any p = Some cs \<Longrightarrow> fst (check_some env facts cs)"
    "approval_mode p approvalOverride \<noteq> ''never''" "approval_mode p approvalOverride \<noteq> ''required''"
    by (auto simp: evaluatePackagePolicy_def p case_prod_beta Let_def split: if_splits option.splits)
  with p show ?thesis unfolding fst_check_all fst_check_some condition_holds_def by blast
qed

definition ex_expr_env :: expr_env where
  "ex_expr_env = \<lparr>xe_now = 0, xe_parse_date = (\<lambda>_. None), xe_to_number = (\<lambda>_. 0), xe_round = (\<lambda>x _. XNum x)\<rparr>"

definition ex_package_policy :: package_policy where
  "ex_package_policy = \<lparr>pol_require = [''score > 2''], pol_all = [], pol_any = None, pol_approval = Some ''automatic'', pol_description = None\<rparr>"

lemma ex_condition: "evaluate ex_expr_env ''score > 2'' (XObj [(''score'', XNum 3)]) = Inr (XBool True)"
proof -
  have t: "tokenize ''score > 2'' = Inr [TId ''score'', TOp ''>'', TNum 2]" by code_simp
  have "parse_fuel 64 NTernary 0 [TId ''score'', TOp ''>'', TNum 2] = POk (EBin ''>'' (EId ''score'') (ELit (XNum 2))) []" by code_simp
  then have c: "compile ''score > 2'' = Inr (EBin ''>'' (EId ''score'') (ELit (XNum 2)))"
    unfolding compile_def t by (simp add: parse_tokens_def MAX_LENGTH_def)
  show ?thesis
    unfolding evaluate_def c
    by (simp add: charge_def seq_def MAX_STEPS_def readProperty_def key_name_def FORBIDDEN_PROPERTIES_def or_undefined_def binary_def compare_op_def)
qed

theorem package_policy_fails_closed_witness:
  "pr_decision (evaluatePackagePolicy ex_expr_env ''p'' (Some ex_package_policy) (XObj [(''score'', XNum 3)]) None) = Automatic \<and>
   (\<exists>v. evaluate ex_expr_env ''score > 2'' (XObj [(''score'', XNum 3)]) = Inr v \<and> x_truthy v)"
proof -
  have a: "pr_decision (evaluatePackagePolicy ex_expr_env ''p'' (Some ex_package_policy) (XObj [(''score'', XNum 3)]) None) = Automatic"
    by (simp add: evaluatePackagePolicy_def ex_package_policy_def check_condition_def ex_condition approval_mode_def Let_def)
  from package_policy_fails_closed [OF a] a show ?thesis by (simp add: ex_package_policy_def)
qed

end
