(* ===== verification/U2_Json_Schema.thy ===== *)
theory U2_Json_Schema
  imports U2_Evaluate
begin

text \<open>
  The JSON Schema subset of \<open>server/packages/json-schema.js\<close>: the check a declared schema goes
  through when a package is installed, the validation of a value against it, and defaults. A
  schema is package text (\<open>jsval\<close>); a value is a computed one (\<open>xval\<close>), which may hold
  \<open>undefined\<close>. A bound that is not a number is converted by \<open>Number\<close>, a parameter
  (\<open>None\<close> is \<open>NaN\<close>): no schema that passed the check has one.
\<close>

section \<open>Checking a schema\<close>

definition TYPES :: "string list" where
  "TYPES = [''string'', ''number'', ''integer'', ''boolean'', ''object'', ''array'', ''null'']"

definition SUPPORTED :: "string list" where
  "SUPPORTED =
     [''type'', ''properties'', ''required'', ''items'', ''enum'', ''const'', ''minimum'', ''maximum'',
      ''minLength'', ''maxLength'', ''minItems'', ''maxItems'', ''additionalProperties'',
      ''description'', ''title'', ''default'', ''format'', ''examples'']"

definition SCHEMA_MAX_DEPTH :: nat where "SCHEMA_MAX_DEPTH = 16"
definition MAX_ERRORS :: nat where "MAX_ERRORS = 20"

definition NUMBER_KEYS :: "string list" where
  "NUMBER_KEYS = [''minimum'', ''maximum'', ''minLength'', ''maxLength'', ''minItems'', ''maxItems'']"

fun types_of :: "jsval \<Rightarrow> jsval list" where
  "types_of (JArr ts) = ts"
| "types_of t = [t]"

fun is_string :: "jsval \<Rightarrow> bool" where
  "is_string (JStr s) = True"
| "is_string _ = False"

fun is_number :: "jsval \<Rightarrow> bool" where
  "is_number (JNum n) = True"
| "is_number _ = False"

fun is_list :: "jsval \<Rightarrow> bool" where
  "is_list (JArr vs) = True"
| "is_list _ = False"

definition type_problems :: "(string \<times> jsval) list \<Rightarrow> string \<Rightarrow> string list" where
  "type_problems ps w =
     (case map_of ps ''type'' of
        None \<Rightarrow> []
      | Some t \<Rightarrow> if types_of t = [] \<or> list_ex (\<lambda>x. x \<notin> JStr ` set TYPES) (types_of t)
                  then [w @ ''.type: must be one of '' @ join_with '', '' TYPES] else [])"

definition required_problems :: "(string \<times> jsval) list \<Rightarrow> string \<Rightarrow> string list" where
  "required_problems ps w =
     (case map_of ps ''required'' of
        None \<Rightarrow> []
      | Some (JArr names) \<Rightarrow> if list_all is_string names then [] else [w @ ''.required: must be a list of property names'']
      | Some _ \<Rightarrow> [w @ ''.required: must be a list of property names''])"

definition enum_problems :: "(string \<times> jsval) list \<Rightarrow> string \<Rightarrow> string list" where
  "enum_problems ps w =
     (case map_of ps ''enum'' of
        None \<Rightarrow> []
      | Some (JArr (v # vs)) \<Rightarrow> []
      | Some _ \<Rightarrow> [w @ ''.enum: must be a non-empty list''])"

definition number_problems :: "(string \<times> jsval) list \<Rightarrow> string \<Rightarrow> string list" where
  "number_problems ps w =
     concat (map (\<lambda>k. case map_of ps k of
                        None \<Rightarrow> []
                      | Some v \<Rightarrow> if is_number v then [] else [w @ ''.'' @ k @ '': must be a number'']) NUMBER_KEYS)"

function checkSchema :: "jsval \<Rightarrow> string \<Rightarrow> nat \<Rightarrow> string list" where
  "checkSchema schema w depth =
     (if SCHEMA_MAX_DEPTH < depth then [w @ '': nested too deeply'']
      else (case schema of
        JObj ps \<Rightarrow>
          concat (map (\<lambda>p. if fst p \<in> set SUPPORTED then [] else [w @ '': unsupported keyword \"'' @ fst p @ ''\"'']) ps) @
          type_problems ps w @
          (case map_of ps ''properties'' of
             None \<Rightarrow> []
           | Some (JObj qs) \<Rightarrow> concat (map (\<lambda>q. checkSchema (snd q) (w @ ''.properties.'' @ fst q) (Suc depth)) qs)
           | Some _ \<Rightarrow> [w @ ''.properties: must be a mapping'']) @
          required_problems ps w @
          (case map_of ps ''items'' of None \<Rightarrow> [] | Some s \<Rightarrow> checkSchema s (w @ ''.items'') (Suc depth)) @
          (case map_of ps ''additionalProperties'' of
             None \<Rightarrow> []
           | Some s \<Rightarrow> if js_typeof (Some s) = ''boolean'' then [] else checkSchema s (w @ ''.additionalProperties'') (Suc depth)) @
          enum_problems ps w @ number_problems ps w
      | _ \<Rightarrow> [w @ '': must be a mapping'']))"
  by pat_completeness auto
termination
  by (relation "measure (\<lambda>(s, w, depth). Suc SCHEMA_MAX_DEPTH - depth)") auto

declare checkSchema.simps [simp del]

section \<open>Validating a value\<close>

definition schema_matchesType :: "jsval \<Rightarrow> xval \<Rightarrow> bool" where
  "schema_matchesType t v =
     (if t = JStr ''string'' then (case v of XStr _ \<Rightarrow> True | _ \<Rightarrow> False)
      else if t = JStr ''number'' then (case v of XNum _ \<Rightarrow> True | _ \<Rightarrow> False)
      else if t = JStr ''integer'' then (case v of XNum n \<Rightarrow> of_int \<lfloor>n\<rfloor> = n | _ \<Rightarrow> False)
      else if t = JStr ''boolean'' then (case v of XBool _ \<Rightarrow> True | _ \<Rightarrow> False)
      else if t = JStr ''object'' then (case v of XObj _ \<Rightarrow> True | _ \<Rightarrow> False)
      else if t = JStr ''array'' then (case v of XArr _ \<Rightarrow> True | _ \<Rightarrow> False)
      else if t = JStr ''null'' then v = XNull
      else False)"

text \<open>\<open>deepEqual\<close>: the same JSON text; \<open>undefined\<close> has none.\<close>

definition deepEqual :: "jsval \<Rightarrow> xval \<Rightarrow> bool" where
  "deepEqual a v \<longleftrightarrow> v \<noteq> XUndef \<and> json_text a = x_json v"

fun property :: "jsval \<Rightarrow> string \<Rightarrow> jsval option" where
  "property (JObj ps) k = map_of ps k"
| "property _ k = None"

text \<open>What \<open>Object.hasOwn\<close> and a read see of \<open>schema.properties || {}\<close>, were it a list or a text.\<close>

fun own_property :: "jsval \<Rightarrow> string \<Rightarrow> jsval option" where
  "own_property (JObj ps) k = map_of ps k"
| "own_property (JArr vs) k =
     (if k = ''length'' then Some (JNum (of_nat (length vs))) else map_of (zip (map nat_str [0..<length vs]) vs) k)"
| "own_property (JStr s) k =
     (if s = [] then None
      else if k = ''length'' then Some (JNum (of_nat (length s)))
      else map_of (zip (map nat_str [0..<length s]) (map (\<lambda>c. JStr [c]) s)) k)"
| "own_property _ k = None"

definition bound :: "(jsval \<Rightarrow> rat option) \<Rightarrow> jsval \<Rightarrow> string \<Rightarrow> rat option" where
  "bound num schema k = (case property schema k of None \<Rightarrow> None | Some (JNum n) \<Rightarrow> Some n | Some v \<Rightarrow> num v)"

definition bound_text :: "jsval \<Rightarrow> string \<Rightarrow> string" where
  "bound_text schema k = (case property schema k of None \<Rightarrow> [] | Some v \<Rightarrow> js_str v)"

definition bounds_errors :: "(jsval \<Rightarrow> rat option) \<Rightarrow> jsval \<Rightarrow> rat \<Rightarrow> string \<Rightarrow> (string \<Rightarrow> string) \<Rightarrow> string \<Rightarrow> (string \<Rightarrow> string) \<Rightarrow> string list" where
  "bounds_errors num schema x low low_text high high_text =
     (case bound num schema low of None \<Rightarrow> [] | Some n \<Rightarrow> if x < n then [low_text (bound_text schema low)] else []) @
     (case bound num schema high of None \<Rightarrow> [] | Some n \<Rightarrow> if n < x then [high_text (bound_text schema high)] else [])"

definition range_errors :: "(jsval \<Rightarrow> rat option) \<Rightarrow> jsval \<Rightarrow> xval \<Rightarrow> string \<Rightarrow> string list" where
  "range_errors num schema value w =
     (case value of
        XNum x \<Rightarrow> bounds_errors num schema x ''minimum'' (\<lambda>n. w @ '': must be >= '' @ n) ''maximum'' (\<lambda>n. w @ '': must be <= '' @ n)
      | XStr s \<Rightarrow> bounds_errors num schema (of_nat (length s)) ''minLength'' (\<lambda>n. w @ '': must be at least '' @ n @ '' characters'')
                    ''maxLength'' (\<lambda>n. w @ '': must be at most '' @ n @ '' characters'')
      | XArr vs \<Rightarrow> bounds_errors num schema (of_nat (length vs)) ''minItems'' (\<lambda>n. w @ '': must have at least '' @ n @ '' items'')
                    ''maxItems'' (\<lambda>n. w @ '': must have at most '' @ n @ '' items'')
      | _ \<Rightarrow> [])"

definition const_errors :: "jsval \<Rightarrow> xval \<Rightarrow> string \<Rightarrow> string list" where
  "const_errors schema value w =
     (case property schema ''const'' of
        None \<Rightarrow> []
      | Some c \<Rightarrow> if deepEqual c value then [] else [w @ '': must equal '' @ json_text c])"

definition enum_errors :: "jsval \<Rightarrow> xval \<Rightarrow> string \<Rightarrow> string list res" where
  "enum_errors schema value w =
     (case property schema ''enum'' of
        None \<Rightarrow> Inr []
      | Some (JArr vs) \<Rightarrow>
          Inr (if list_ex (\<lambda>c. deepEqual c value) vs then [] else [w @ '': must be one of '' @ join_with '', '' (map json_text vs)])
      | Some v \<Rightarrow> if truthy (Some v) then Inl (TypeError ''schema.enum.some is not a function'') else Inr [])"

definition missing_errors :: "(string \<times> xval) list \<Rightarrow> string list \<Rightarrow> string \<Rightarrow> string list" where
  "missing_errors ps names w =
     concat (map (\<lambda>n. case map_of ps n of
                        None \<Rightarrow> [w @ ''.'' @ n @ '': is required'']
                      | Some v \<Rightarrow> if v = XUndef then [w @ ''.'' @ n @ '': is required''] else []) names)"

definition required_errors :: "jsval \<Rightarrow> xval \<Rightarrow> string \<Rightarrow> string list res" where
  "required_errors schema value w =
     (case value of
        XObj ps \<Rightarrow>
          (case property schema ''required'' of
             None \<Rightarrow> Inr []
           | Some (JArr names) \<Rightarrow> Inr (missing_errors ps (map js_str names) w)
           | Some (JStr s) \<Rightarrow> Inr (missing_errors ps (map (\<lambda>c. [c]) s) w)
           | Some v \<Rightarrow> if truthy (Some v) then Inl (TypeError ''schema.required is not iterable'') else Inr [])
      | _ \<Rightarrow> Inr [])"

definition type_ok :: "jsval \<Rightarrow> xval \<Rightarrow> bool" where
  "type_ok schema value =
     (case property schema ''type'' of None \<Rightarrow> True | Some t \<Rightarrow> list_ex (\<lambda>x. schema_matchesType x value) (types_of t))"

definition expected_text :: "jsval \<Rightarrow> string" where
  "expected_text schema =
     (case property schema ''type'' of
        None \<Rightarrow> []
      | Some t \<Rightarrow> join_with '' or '' (map (\<lambda>x. if x = JNull then [] else js_str x) (types_of t)))"

text \<open>The schema an unlisted member is held to: none, a schema, or \<open>false\<close> (it is not allowed).\<close>

definition additional :: "jsval \<Rightarrow> jsval option" where
  "additional schema =
     (case property schema ''additionalProperties'' of
        Some (JBool False) \<Rightarrow> Some (JBool False)
      | Some (JObj s) \<Rightarrow> Some (JObj s)
      | _ \<Rightarrow> None)"

definition member_schema :: "jsval \<Rightarrow> string \<Rightarrow> jsval option" where
  "member_schema schema name =
     (case property schema ''properties'' of
        None \<Rightarrow> None
      | Some qs \<Rightarrow> own_property qs name)"

function visit :: "(jsval \<Rightarrow> rat option) \<Rightarrow> jsval \<Rightarrow> xval \<Rightarrow> string \<Rightarrow> nat \<Rightarrow> string list \<Rightarrow> string list res"
  and visit_items :: "(jsval \<Rightarrow> rat option) \<Rightarrow> jsval \<Rightarrow> (xval \<times> nat) list \<Rightarrow> string \<Rightarrow> nat \<Rightarrow> string list \<Rightarrow> string list res"
  and visit_members :: "(jsval \<Rightarrow> rat option) \<Rightarrow> jsval \<Rightarrow> (string \<times> xval) list \<Rightarrow> string \<Rightarrow> nat \<Rightarrow> string list \<Rightarrow> string list res" where
  "visit num schema value w depth errors =
     (if \<not> truthy (Some schema) \<or> MAX_ERRORS \<le> length errors then Inr errors
      else if SCHEMA_MAX_DEPTH < depth then Inr (errors @ [w @ '': nested too deeply''])
      else if \<not> type_ok schema value then Inr (errors @ [w @ '': expected '' @ expected_text schema])
      else (case enum_errors schema value w of
        Inl e \<Rightarrow> Inl e
      | Inr es \<Rightarrow>
          (let errors' = errors @ const_errors schema value w @ es @ range_errors num schema value w in
           case value of
             XArr vs \<Rightarrow>
               (case property schema ''items'' of
                  Some s \<Rightarrow> if truthy (Some s) then visit_items num s (zip vs [0..<length vs]) w (Suc depth) errors' else Inr errors'
                | None \<Rightarrow> Inr errors')
           | XObj ps \<Rightarrow>
               (case required_errors schema value w of
                  Inl e \<Rightarrow> Inl e
                | Inr rs \<Rightarrow> visit_members num schema ps w (Suc depth) (errors' @ rs))
           | _ \<Rightarrow> Inr errors')))"
| "visit_items num s [] w depth errors = Inr errors"
| "visit_items num s ((v, i) # vs) w depth errors =
     (case visit num s v (w @ ''['' @ nat_str i @ '']'') depth errors of
        Inl e \<Rightarrow> Inl e
      | Inr errors' \<Rightarrow> visit_items num s vs w depth errors')"
| "visit_members num schema [] w depth errors = Inr errors"
| "visit_members num schema ((name, child) # ps) w depth errors =
     (case (case member_schema schema name of
              Some s \<Rightarrow> visit num s child (w @ ''.'' @ name) depth errors
            | None \<Rightarrow>
                (case additional schema of
                   None \<Rightarrow> Inr errors
                 | Some (JObj s) \<Rightarrow> visit num (JObj s) child (w @ ''.'' @ name) depth errors
                 | Some _ \<Rightarrow> Inr (errors @ [w @ ''.'' @ name @ '': is not allowed'']))) of
        Inl e \<Rightarrow> Inl e
      | Inr errors' \<Rightarrow> visit_members num schema ps w depth errors')"
  by pat_completeness auto
termination
  by (relation "measures
        [case_sum (\<lambda>(num, s, v, w, depth, es). Suc SCHEMA_MAX_DEPTH - depth)
           (case_sum (\<lambda>(num, s, vs, w, depth, es). Suc SCHEMA_MAX_DEPTH - depth) (\<lambda>(num, s, ps, w, depth, es). Suc SCHEMA_MAX_DEPTH - depth)),
         case_sum (\<lambda>_. 0) (case_sum (\<lambda>(num, s, vs, w, depth, es). Suc (length vs)) (\<lambda>(num, s, ps, w, depth, es). Suc (length ps)))]")
    auto

declare visit.simps [simp del]

definition validate :: "(jsval \<Rightarrow> rat option) \<Rightarrow> jsval \<Rightarrow> xval \<Rightarrow> string \<Rightarrow> string list res" where
  "validate num schema value w = visit num schema value w 0 []"

definition assertValid :: "(jsval \<Rightarrow> rat option) \<Rightarrow> jsval \<Rightarrow> xval \<Rightarrow> string \<Rightarrow> xval res" where
  "assertValid num schema value w =
     (case validate num schema value w of
        Inl e \<Rightarrow> Inl e
      | Inr [] \<Rightarrow> Inr value
      | Inr errors \<Rightarrow> Inl (CodedError ''SCHEMA_INVALID'' (''Schema validation failed: '' @ join_with ''; '' errors)))"

section \<open>Defaults\<close>

fun of_json :: "jsval \<Rightarrow> xval" where
  "of_json JNull = XNull"
| "of_json (JBool b) = XBool b"
| "of_json (JNum n) = XNum n"
| "of_json (JStr s) = XStr s"
| "of_json (JArr vs) = XArr (map of_json vs)"
| "of_json (JObj ps) = XObj (map (\<lambda>p. (fst p, of_json (snd p))) ps)"
| "of_json (JNative k) = XUndef"

text \<open>What \<open>JSON.parse(JSON.stringify(v))\<close> gives of a computed value.\<close>

fun to_json :: "xval \<Rightarrow> jsval" where
  "to_json XUndef = JNull"
| "to_json XNull = JNull"
| "to_json (XBool b) = JBool b"
| "to_json (XNum n) = JNum n"
| "to_json (XStr s) = JStr s"
| "to_json (XArr vs) = JArr (map to_json vs)"
| "to_json (XObj ps) = JObj (map (\<lambda>p. (fst p, to_json (snd p))) (filter (\<lambda>p. snd p \<noteq> XUndef) ps))"

text \<open>\<open>Object.entries\<close>.\<close>

fun own_entries :: "jsval \<Rightarrow> (string \<times> jsval) list" where
  "own_entries (JObj ps) = ps"
| "own_entries (JArr vs) = zip (map nat_str [0..<length vs]) vs"
| "own_entries (JStr s) = zip (map nat_str [0..<length s]) (map (\<lambda>c. JStr [c]) s)"
| "own_entries _ = []"

text \<open>\<open>result[name] === undefined\<close>: a name every object inherits is never missing.\<close>

definition is_missing :: "(string \<times> xval) list \<Rightarrow> string \<Rightarrow> bool" where
  "is_missing ps name =
     (case map_of ps name of None \<Rightarrow> name \<notin> set object_prototype_keys | Some v \<Rightarrow> v = XUndef)"

definition put_default :: "string \<times> jsval \<Rightarrow> (string \<times> xval) list \<Rightarrow> (string \<times> xval) list" where
  "put_default p ps =
     (case property (snd p) ''default'' of
        None \<Rightarrow> ps
      | Some d \<Rightarrow> if is_missing ps (fst p) then js_put (fst p) (of_json d) ps else ps)"

definition applyDefaults :: "jsval option \<Rightarrow> xval \<Rightarrow> xval" where
  "applyDefaults schema value =
     (case schema of
        None \<Rightarrow> value
      | Some s \<Rightarrow>
          (case property s ''properties'' of
             None \<Rightarrow> value
           | Some qs \<Rightarrow>
               if \<not> truthy (Some qs) then value
               else (case value of
                 XUndef \<Rightarrow> XObj (fold put_default (own_entries qs) [])
               | XObj ps \<Rightarrow> XObj (fold put_default (own_entries qs) ps)
               | _ \<Rightarrow> value)))"

section \<open>What a schema means\<close>

text \<open>
  The reference: when a value conforms to a schema, with no error texts, no limits and no
  conversions. It recurses on the value.
\<close>

definition at_least :: "jsval option \<Rightarrow> rat \<Rightarrow> bool" where
  "at_least b x = (case b of Some (JNum n) \<Rightarrow> n \<le> x | _ \<Rightarrow> True)"

definition at_most :: "jsval option \<Rightarrow> rat \<Rightarrow> bool" where
  "at_most b x = (case b of Some (JNum n) \<Rightarrow> x \<le> n | _ \<Rightarrow> True)"

definition in_range :: "jsval \<Rightarrow> xval \<Rightarrow> bool" where
  "in_range s v =
     (case v of
        XNum x \<Rightarrow> at_least (property s ''minimum'') x \<and> at_most (property s ''maximum'') x
      | XStr t \<Rightarrow> at_least (property s ''minLength'') (of_nat (length t)) \<and> at_most (property s ''maxLength'') (of_nat (length t))
      | XArr vs \<Rightarrow> at_least (property s ''minItems'') (of_nat (length vs)) \<and> at_most (property s ''maxItems'') (of_nat (length vs))
      | _ \<Rightarrow> True)"

definition value_ok :: "jsval \<Rightarrow> xval \<Rightarrow> bool" where
  "value_ok s v \<longleftrightarrow>
     type_ok s v \<and> in_range s v \<and>
     (case property s ''const'' of None \<Rightarrow> True | Some c \<Rightarrow> deepEqual c v) \<and>
     (case property s ''enum'' of Some (JArr cs) \<Rightarrow> list_ex (\<lambda>c. deepEqual c v) cs | _ \<Rightarrow> True)"

definition has_required :: "jsval \<Rightarrow> (string \<times> xval) list \<Rightarrow> bool" where
  "has_required s ps =
     (case property s ''required'' of
        Some (JArr names) \<Rightarrow> list_all (\<lambda>n. map_of ps (js_str n) \<notin> {None, Some XUndef}) names
      | _ \<Rightarrow> True)"

lemma size_of_member [termination_simp]: "p \<in> set ps \<Longrightarrow> size (snd p) < Suc (size_list (size_prod (\<lambda>_. 0) size) ps)"
  by (induction ps) (auto simp: less_Suc_eq)

fun conforms :: "jsval \<Rightarrow> xval \<Rightarrow> bool" where
  "conforms s (XArr vs) \<longleftrightarrow>
     value_ok s (XArr vs) \<and> (case property s ''items'' of None \<Rightarrow> True | Some i \<Rightarrow> list_all (conforms i) vs)"
| "conforms s (XObj ps) \<longleftrightarrow>
     value_ok s (XObj ps) \<and> has_required s ps \<and>
     list_all (\<lambda>p. case member_schema s (fst p) of
                     Some m \<Rightarrow> conforms m (snd p)
                   | None \<Rightarrow> (case additional s of
                       None \<Rightarrow> True
                     | Some (JObj a) \<Rightarrow> conforms (JObj a) (snd p)
                     | Some _ \<Rightarrow> False)) ps"
| "conforms s v \<longleftrightarrow> value_ok s v"

section \<open>Validation decides conformance\<close>

lemma checkSchema_mapping: "checkSchema s w d = [] \<Longrightarrow> \<exists>ps. s = JObj ps"
  by (cases s) (simp_all add: checkSchema.simps split: if_splits)

text \<open>The parts of a schema that passed the check.\<close>

lemma checkSchema_parts:
  assumes "checkSchema (JObj ps) w d = []"
  shows "d \<le> SCHEMA_MAX_DEPTH" and "type_problems ps w = []" and "required_problems ps w = []" and "enum_problems ps w = []"
    and "number_problems ps w = []"
    and "map_of ps ''items'' = Some s \<Longrightarrow> checkSchema s (w @ ''.items'') (Suc d) = []"
    and "map_of ps ''additionalProperties'' = Some (JObj a) \<Longrightarrow> checkSchema (JObj a) (w @ ''.additionalProperties'') (Suc d) = []"
    and "map_of ps ''properties'' = Some q \<Longrightarrow> \<exists>qs. q = JObj qs \<and> (\<forall>x\<in>set qs. checkSchema (snd x) (w @ ''.properties.'' @ fst x) (Suc d) = [])"
proof -
  note a = assms [unfolded checkSchema.simps [of "JObj ps"]]
  from a show d: "d \<le> SCHEMA_MAX_DEPTH" by (simp split: if_splits)
  with a have a: "type_problems ps w = [] \<and> required_problems ps w = [] \<and> enum_problems ps w = [] \<and> number_problems ps w = [] \<and>
     (case map_of ps ''properties'' of
             None \<Rightarrow> []
           | Some (JObj qs) \<Rightarrow> concat (map (\<lambda>q. checkSchema (snd q) (w @ ''.properties.'' @ fst q) (Suc d)) qs)
           | Some _ \<Rightarrow> [w @ ''.properties: must be a mapping'']) = [] \<and>
     (case map_of ps ''items'' of None \<Rightarrow> [] | Some s \<Rightarrow> checkSchema s (w @ ''.items'') (Suc d)) = [] \<and>
     (case map_of ps ''additionalProperties'' of
             None \<Rightarrow> []
           | Some s \<Rightarrow> if js_typeof (Some s) = ''boolean'' then [] else checkSchema s (w @ ''.additionalProperties'') (Suc d)) = []" by simp
  from a show "type_problems ps w = []" "required_problems ps w = []" "enum_problems ps w = []" "number_problems ps w = []" by blast+
  from a show "checkSchema s (w @ ''.items'') (Suc d) = []" if "map_of ps ''items'' = Some s" using that by simp
  from a show "checkSchema (JObj a) (w @ ''.additionalProperties'') (Suc d) = []" if "map_of ps ''additionalProperties'' = Some (JObj a)"
    using that by simp
  from a show "\<exists>qs. q = JObj qs \<and> (\<forall>x\<in>set qs. checkSchema (snd x) (w @ ''.properties.'' @ fst x) (Suc d) = [])"
    if "map_of ps ''properties'' = Some q" using that by (cases q) simp_all
qed

text \<open>Whether a schema passes does not depend on the name it is reported under.\<close>

lemma checkSchema_where: "checkSchema s w d = [] \<Longrightarrow> checkSchema s w' d = []"
proof (induction s w d arbitrary: w' rule: checkSchema.induct)
  case (1 s w d)
  obtain ps where s: "s = JObj ps" using checkSchema_mapping [OF 1(4)] by blast
  note parts = checkSchema_parts [OF 1(4) [unfolded s]]
  have d: "\<not> SCHEMA_MAX_DEPTH < d" using parts(1) by simp
  have own: "type_problems ps w' = []" "required_problems ps w' = []" "enum_problems ps w' = []" "number_problems ps w' = []"
    using parts(2-5) by (auto simp: type_problems_def required_problems_def enum_problems_def number_problems_def
        split: option.splits if_splits jsval.splits list.splits)
  have keys: "concat (map (\<lambda>p. if fst p \<in> set SUPPORTED then [] else [w' @ '': unsupported keyword \"'' @ fst p @ ''\"'']) ps) = []"
    using 1(4) d unfolding s checkSchema.simps [of "JObj ps"] by (auto split: if_splits)
  have props: "(case map_of ps ''properties'' of
        None \<Rightarrow> []
      | Some (JObj qs) \<Rightarrow> concat (map (\<lambda>q. checkSchema (snd q) (w' @ ''.properties.'' @ fst q) (Suc d)) qs)
      | Some _ \<Rightarrow> [w' @ ''.properties: must be a mapping'']) = []"
  proof (cases "map_of ps ''properties''")
    case (Some q)
    with parts(8) obtain qs where qs: "q = JObj qs" "\<forall>x\<in>set qs. checkSchema (snd x) (w @ ''.properties.'' @ fst x) (Suc d) = []" by blast
    have "checkSchema (snd x) (w' @ ''.properties.'' @ fst x) (Suc d) = []" if "x \<in> set qs" for x
      using 1(1) [OF d s Some qs(1) that] qs(2) that by blast
    then show ?thesis using Some qs(1) by simp
  qed simp
  have items: "(case map_of ps ''items'' of None \<Rightarrow> [] | Some s \<Rightarrow> checkSchema s (w' @ ''.items'') (Suc d)) = []"
    by (cases "map_of ps ''items''") (simp_all add: 1(2) [OF d s] parts(6))
  have more: "(case map_of ps ''additionalProperties'' of
        None \<Rightarrow> []
      | Some s \<Rightarrow> if js_typeof (Some s) = ''boolean'' then [] else checkSchema s (w' @ ''.additionalProperties'') (Suc d)) = []"
  proof (cases "map_of ps ''additionalProperties''")
    case (Some t)
    show ?thesis
    proof (cases "js_typeof (Some t) = ''boolean''")
      case False
      with 1(4) d Some have "checkSchema t (w @ ''.additionalProperties'') (Suc d) = []"
        unfolding s checkSchema.simps [of "JObj ps"] by simp
      from 1(3) [OF d s Some False this] Some show ?thesis by simp
    qed (simp add: Some)
  qed simp
  show ?case unfolding s checkSchema.simps [of "JObj ps"] jsval.case keys own props items more using d by simp
qed

text \<open>The reads of a checked schema give what the check promised.\<close>

lemma checked_bounds:
  assumes "checkSchema (JObj ps) w d = []" and "k \<in> set NUMBER_KEYS"
  shows "bound num (JObj ps) k = (case map_of ps k of Some (JNum n) \<Rightarrow> Some n | _ \<Rightarrow> None)"
proof (cases "map_of ps k")
  case (Some v)
  with checkSchema_parts(5) [OF assms(1)] assms(2) have "is_number v"
    unfolding number_problems_def by (auto split: if_splits dest!: bspec [of _ _ k])
  then show ?thesis using Some by (cases v) (simp_all add: bound_def)
qed (simp add: bound_def)

lemma bounds_errors_nil:
  assumes "checkSchema (JObj ps) w d = []" and "lo \<in> set NUMBER_KEYS" and "hi \<in> set NUMBER_KEYS"
  shows "bounds_errors num (JObj ps) x lo f hi g = [] \<longleftrightarrow> at_least (map_of ps lo) x \<and> at_most (map_of ps hi) x"
  unfolding bounds_errors_def checked_bounds [OF assms(1,2)] checked_bounds [OF assms(1,3)] at_least_def at_most_def
  by (auto split: option.splits jsval.splits)

lemma range_errors_nil:
  assumes "checkSchema (JObj ps) w d = []"
  shows "range_errors num (JObj ps) v w' = [] \<longleftrightarrow> in_range (JObj ps) v"
  by (cases v) (simp_all add: range_errors_def in_range_def bounds_errors_nil [OF assms] NUMBER_KEYS_def)

lemma enum_errors_checked:
  assumes "checkSchema (JObj ps) w d = []"
  shows "\<exists>es. enum_errors (JObj ps) v w' = Inr es \<and>
    (es = [] \<longleftrightarrow> (case map_of ps ''enum'' of Some (JArr cs) \<Rightarrow> list_ex (\<lambda>c. deepEqual c v) cs | _ \<Rightarrow> True))"
  using checkSchema_parts(4) [OF assms]
  by (auto simp: enum_errors_def enum_problems_def split: option.splits jsval.splits list.splits)

lemma missing_errors_nil: "missing_errors ps names w = [] \<longleftrightarrow> list_all (\<lambda>n. map_of ps n \<notin> {None, Some XUndef}) names"
  by (induction names) (auto simp: missing_errors_def split: option.splits)

lemma required_errors_checked:
  assumes "checkSchema (JObj ps) w d = []"
  shows "\<exists>es. required_errors (JObj ps) (XObj qs) w' = Inr es \<and> (es = [] \<longleftrightarrow> has_required (JObj ps) qs)"
  using checkSchema_parts(3) [OF assms]
  by (auto simp: required_errors_def required_problems_def has_required_def missing_errors_nil list_all_iff
      split: option.splits jsval.splits list.splits)

text \<open>What a member must conform to under a schema.\<close>

definition member_conforms :: "jsval \<Rightarrow> string \<times> xval \<Rightarrow> bool" where
  "member_conforms s p =
     (case member_schema s (fst p) of
        Some m \<Rightarrow> conforms m (snd p)
      | None \<Rightarrow> (case additional s of None \<Rightarrow> True | Some (JObj a) \<Rightarrow> conforms (JObj a) (snd p) | Some _ \<Rightarrow> False))"

lemma conforms_object: "conforms s (XObj ps) \<longleftrightarrow> value_ok s (XObj ps) \<and> has_required s ps \<and> list_all (member_conforms s) ps"
  by (simp add: member_conforms_def [abs_def])

lemma conforms_leaf: "\<nexists>vs. v = XArr vs \<Longrightarrow> \<nexists>ps. v = XObj ps \<Longrightarrow> conforms s v = value_ok s v"
  by (cases v) simp_all

lemma conforms_value_ok: "conforms s v \<Longrightarrow> value_ok s v"
  by (cases v) simp_all

lemma member_schema_checked:
  assumes "checkSchema s w d = []" and "member_schema s name = Some m"
  shows "checkSchema m w' (Suc d) = []"
proof -
  obtain ps where s: "s = JObj ps" using checkSchema_mapping [OF assms(1)] by blast
  from assms(2) obtain q where q: "map_of ps ''properties'' = Some q" "own_property q name = Some m"
    by (auto simp: member_schema_def s split: option.splits)
  from checkSchema_parts(8) [OF assms(1) [unfolded s] q(1)] obtain qs
    where qs: "q = JObj qs" "\<forall>x\<in>set qs. checkSchema (snd x) (w @ ''.properties.'' @ fst x) (Suc d) = []" by blast
  from q(2) qs(1) have "(name, m) \<in> set qs" by (auto dest: map_of_SomeD)
  with qs(2) have "checkSchema m (w @ ''.properties.'' @ name) (Suc d) = []" by fastforce
  then show ?thesis by (rule checkSchema_where)
qed

lemma additional_checked:
  assumes "checkSchema s w d = []" and "additional s = Some (JObj a)"
  shows "checkSchema (JObj a) w' (Suc d) = []"
proof -
  obtain ps where s: "s = JObj ps" using checkSchema_mapping [OF assms(1)] by blast
  from assms(2) have "map_of ps ''additionalProperties'' = Some (JObj a)"
    by (auto simp: additional_def s split: option.splits jsval.splits bool.splits)
  with checkSchema_parts(7) [OF assms(1) [unfolded s]] show ?thesis by (auto intro: checkSchema_where)
qed

lemma visit_checked:
  "checkSchema s w0 d = [] \<Longrightarrow>
     \<exists>out. visit num s v w d errs = Inr out \<and> (out = [] \<longleftrightarrow> errs = [] \<and> conforms s v)"
  "checkSchema s w0 d = [] \<Longrightarrow>
     \<exists>out. visit_items num s vs w d errs = Inr out \<and> (out = [] \<longleftrightarrow> errs = [] \<and> list_all (\<lambda>p. conforms s (fst p)) vs)"
  "d = Suc d0 \<Longrightarrow> checkSchema s w0 d0 = [] \<Longrightarrow>
     \<exists>out. visit_members num s qs w d errs = Inr out \<and> (out = [] \<longleftrightarrow> errs = [] \<and> list_all (member_conforms s) qs)"
proof (induction num s v w d errs and num s vs w d errs and num s qs w d errs
    arbitrary: w0 and w0 and w0 d0 rule: visit_visit_items_visit_members.induct)
  case (1 num s v w d errs)
  obtain ps where s: "s = JObj ps" using checkSchema_mapping [OF 1(3)] by blast
  note chk = 1(3) [unfolded s]
  have d: "\<not> SCHEMA_MAX_DEPTH < d" using checkSchema_parts(1) [OF chk] by simp
  show ?case
  proof (cases "MAX_ERRORS \<le> length errs \<or> \<not> type_ok s v")
    case True
    show ?thesis
    proof (cases "MAX_ERRORS \<le> length errs")
      case True
      then have "visit num s v w d errs = Inr errs" "errs \<noteq> []" by (auto simp: visit.simps [of num s] MAX_ERRORS_def)
      then show ?thesis by simp
    next
      case False
      have tr: "truthy (Some s)" by (simp add: s)
      from True False d tr have "visit num s v w d errs = Inr (errs @ [w @ '': expected '' @ expected_text s])"
        by (simp add: visit.simps [of num s])
      moreover from True False have "\<not> conforms s v" using conforms_value_ok [of s v] by (auto simp: value_ok_def)
      ultimately show ?thesis by simp
    qed
  next
    case False
    then have go: "\<not> (\<not> truthy (Some s) \<or> MAX_ERRORS \<le> length errs)" "type_ok s v" by (simp_all add: s)
    obtain es where es: "enum_errors s v w = Inr es"
        "es = [] \<longleftrightarrow> (case map_of ps ''enum'' of Some (JArr cs) \<Rightarrow> list_ex (\<lambda>c. deepEqual c v) cs | _ \<Rightarrow> True)"
      using enum_errors_checked [OF chk, of v w] by (auto simp: s)
    let ?errs = "errs @ const_errors s v w @ es @ range_errors num s v w"
    have own: "?errs = [] \<longleftrightarrow> errs = [] \<and> value_ok s v"
      using go(2) es(2) range_errors_nil [OF chk, of num v w]
      by (auto simp: value_ok_def const_errors_def s split: option.splits)
    have v: "visit num s v w d errs =
        (case v of
             XArr vs \<Rightarrow>
               (case property s ''items'' of
                  Some i \<Rightarrow> if truthy (Some i) then visit_items num i (zip vs [0..<length vs]) w (Suc d) ?errs else Inr ?errs
                | None \<Rightarrow> Inr ?errs)
           | XObj qs \<Rightarrow>
               (case required_errors s v w of
                  Inl e \<Rightarrow> Inl e
                | Inr rs \<Rightarrow> visit_members num s qs w (Suc d) (?errs @ rs))
           | _ \<Rightarrow> Inr ?errs)"
      using go d by (simp add: visit.simps [of num s] es(1) Let_def)
    show ?thesis
    proof (cases "\<exists>vs. v = XArr vs")
      case True
      then obtain vs where vs: "v = XArr vs" by blast
      show ?thesis
      proof (cases "map_of ps ''items''")
        case None
        with v own show ?thesis by (simp add: vs s)
      next
        case (Some i)
        from checkSchema_parts(6) [OF chk Some] have i: "checkSchema i (w @ ''.items'') (Suc d) = []"
          by (rule checkSchema_where)
        then have t: "truthy (Some i)" using checkSchema_mapping by fastforce
        from Some have it: "property s ''items'' = Some i" by (simp add: s)
        have "list_all (\<lambda>p. conforms i (fst p)) (zip vs [0..<length vs]) = list_all (conforms i) vs"
          using list.pred_map [of "conforms i" fst "zip vs [0..<length vs]"] by (simp add: comp_def)
        with 1(1) [OF go(1) d _ es(1) refl vs it t i] go(2) v own it t show ?thesis by (auto simp: vs)
      qed
    next
      case False
      note no_list = this
      show ?thesis
      proof (cases "\<exists>qs. v = XObj qs")
        case True
        then obtain qs where qs: "v = XObj qs" by blast
        obtain rs where rs: "required_errors s v w = Inr rs" "rs = [] \<longleftrightarrow> has_required s qs"
          using required_errors_checked [OF chk, of qs w] by (auto simp: s qs)
        from 1(2) [OF go(1) d _ es(1) refl qs rs(1) refl 1(3)] go(2) obtain out
          where out: "visit_members num s qs w (Suc d) (?errs @ rs) = Inr out"
            "out = [] \<longleftrightarrow> ?errs @ rs = [] \<and> list_all (member_conforms s) qs" by blast
        from v rs(1) out(1) have "visit num s v w d errs = Inr out" by (simp add: qs)
        moreover have "out = [] \<longleftrightarrow> errs = [] \<and> conforms s v"
          unfolding out(2) qs conforms_object using own rs(2) by (auto simp: qs)
        ultimately show ?thesis by blast
      next
        case False
        with no_list v own conforms_leaf [of v s] show ?thesis by (cases v) simp_all
      qed
    qed
  qed
next
  case (3 num s v i vs w d errs)
  from 3(1) [OF 3(3)] obtain out where out: "visit num s v (w @ ''['' @ nat_str i @ '']'') d errs = Inr out"
    "out = [] \<longleftrightarrow> errs = [] \<and> conforms s v" by blast
  from 3(2) [OF out(1) 3(3)] out show ?case by auto
next
  case (5 num s name child qs w d errs)
  let ?r = "case member_schema s name of
              Some m \<Rightarrow> visit num m child (w @ ''.'' @ name) d errs
            | None \<Rightarrow>
                (case additional s of
                   None \<Rightarrow> Inr errs
                 | Some (JObj a) \<Rightarrow> visit num (JObj a) child (w @ ''.'' @ name) d errs
                 | Some _ \<Rightarrow> Inr (errs @ [w @ ''.'' @ name @ '': is not allowed'']))"
  have "\<exists>out. ?r = Inr out \<and> (out = [] \<longleftrightarrow> errs = [] \<and> member_conforms s (name, child))"
  proof (cases "member_schema s name")
    case (Some m)
    with 5(2) [OF Some] member_schema_checked [OF 5(5) Some] 5(4) show ?thesis by (auto simp: member_conforms_def)
  next
    case None
    note none = this
    show ?thesis
    proof (cases "additional s")
      case None
      with none show ?thesis by (simp add: member_conforms_def)
    next
      case (Some a)
      show ?thesis
      proof (cases a)
        case (JObj b)
        from Some JObj have a: "additional s = Some (JObj b)" by simp
        from 5(1) [OF none Some JObj additional_checked [OF 5(5) a, of w0, folded 5(4)]] none a
        show ?thesis by (simp add: member_conforms_def)
      qed (use none Some in \<open>simp_all add: member_conforms_def\<close>)
    qed
  qed
  then obtain out where out: "?r = Inr out" "out = [] \<longleftrightarrow> errs = [] \<and> member_conforms s (name, child)" by blast
  from 5(3) [OF out(1) 5(4,5)] out show ?case by auto
qed simp_all

text \<open>
  C26. Validation decides conformance. For a schema that passed the installation check,
  \<open>validate\<close> never throws, whatever the value, and reports no error exactly when the value
  conforms to the schema.
\<close>

theorem validation_decides_conformance:
  assumes "checkSchema schema w0 0 = []"
  shows "\<exists>errors. validate num schema v w = Inr errors \<and> (errors = [] \<longleftrightarrow> conforms schema v)"
  using visit_checked(1) [OF assms, of num v w "[]"] by (simp add: validate_def)

definition ex_schema :: jsval where
  "ex_schema = JObj [(''type'', JStr ''object''), (''required'', JArr [JStr ''n'']),
     (''properties'', JObj [(''n'', JObj [(''type'', JStr ''integer''), (''minimum'', JNum 1)])])]"

theorem validation_decides_conformance_witness:
  "checkSchema ex_schema ''s'' 0 = [] \<and> conforms ex_schema (XObj [(''n'', XNum 2)]) \<and> \<not> conforms ex_schema (XObj []) \<and>
   (\<exists>errors. validate (\<lambda>_. None) ex_schema (XObj [(''n'', XNum 0)]) ''v'' = Inr errors \<and> errors \<noteq> [])"
proof -
  have c: "checkSchema ex_schema ''s'' 0 = []" by code_simp
  moreover have "\<not> conforms ex_schema (XObj [(''n'', XNum 0)])" "\<not> conforms ex_schema (XObj [])" "conforms ex_schema (XObj [(''n'', XNum 2)])"
    by code_simp+
  ultimately show ?thesis using validation_decides_conformance [OF c, of "\<lambda>_. None" "XObj [(''n'', XNum 0)]" "''v''"] by auto
qed

end
