(* ===== verification/U2_Workflow.thy ===== *)
theory U2_Workflow
  imports U2_Json_Schema
begin

text \<open>
  Declarative workflows, \<open>server/packages/workflow.js\<close>: durations, step kinds, the validation
  of a skill or an automation at install time, and the capabilities and skills a workflow
  uses. A workflow is package text (\<open>jsval\<close>); what passes the validation is what
  \<open>workflow-engine.js\<close> runs.
\<close>

section \<open>Step kinds and durations\<close>

definition STEP_KINDS :: "string list" where
  "STEP_KINDS = [''capability'', ''skill'', ''transform'', ''filter'', ''emit'', ''state'', ''sleep'', ''wait'']"

definition AUTOMATION_ONLY_KINDS :: "string list" where
  "AUTOMATION_ONLY_KINDS = [''state'', ''sleep'', ''wait'']"

definition STEP_KEYS :: "string list" where
  "STEP_KEYS = [''id'', ''description'', ''use'', ''with'', ''when'', ''foreach'', ''retry'', ''timeout'', ''policy'', ''onError'']"

definition WORKFLOW_KEYS :: "string list" where
  "WORKFLOW_KEYS = [''id'', ''description'', ''inputs'', ''steps'', ''output'']"

text \<open>\<open>^[A-Za-z][A-Za-z0-9_-]{0,63}$\<close>, as for policy names.\<close>

definition STEP_ID :: "string \<Rightarrow> bool" where "STEP_ID = policy_name"

definition WORKFLOW_MAX_STEPS :: nat where "WORKFLOW_MAX_STEPS = 100"
definition MAX_RETRY_ATTEMPTS :: int where "MAX_RETRY_ATTEMPTS = 5"
definition MAX_TIMEOUT_MS :: rat where "MAX_TIMEOUT_MS = 60 * 60000"
definition MAX_SLEEP_MS :: rat where "MAX_SLEEP_MS = 366 * 86400000"

definition UNITS :: "(string \<times> rat) list" where
  "UNITS = [(''ms'', 1), (''s'', 1000), (''m'', 60000), (''h'', 3600000), (''d'', 86400000)]"

text \<open>\<open>^(\d{1,9})(ms|s|m|h|d)$\<close>\<close>

definition duration_of :: "string \<Rightarrow> rat option" where
  "duration_of s =
     (let ds = takeWhile is_digit s in
      if 1 \<le> length ds \<and> length ds \<le> 9
      then map_option (\<lambda>u. of_nat (number_of ds) * u) (map_of UNITS (drop (length ds) s))
      else None)"

definition parseDuration :: "jsval option \<Rightarrow> rat option" where
  "parseDuration v =
     (case v of
        Some (JNum n) \<Rightarrow> if of_int \<lfloor>n\<rfloor> = n \<and> 0 \<le> n then Some n else duration_of (num_str n)
      | Some JNull \<Rightarrow> duration_of []
      | None \<Rightarrow> duration_of []
      | Some x \<Rightarrow> duration_of (js_trim (js_str x)))"

definition withinDuration :: "jsval option \<Rightarrow> rat \<Rightarrow> rat \<Rightarrow> bool" where
  "withinDuration v max' min' = (case parseDuration v of None \<Rightarrow> False | Some ms \<Rightarrow> min' \<le> ms \<and> ms \<le> max')"

record use =
  u_kind :: string
  u_target :: "string option"

text \<open>\<open>^(capability|skill):(.+)$\<close>, or one of the other kinds.\<close>

definition prefixed_use :: "string \<Rightarrow> string \<Rightarrow> use option" where
  "prefixed_use kind s =
     (let rest = drop (Suc (length kind)) s in
      if starts_with s (kind @ '':'') \<and> rest \<noteq> [] \<and> no_line_end rest then Some \<lparr>u_kind = kind, u_target = Some rest\<rparr> else None)"

definition parseUse :: "jsval option \<Rightarrow> use option" where
  "parseUse v =
     (case v of
        Some (JStr s) \<Rightarrow>
          (case prefixed_use ''capability'' s of
             Some u \<Rightarrow> Some u
           | None \<Rightarrow>
               (case prefixed_use ''skill'' s of
                  Some u \<Rightarrow> Some u
                | None \<Rightarrow> if s \<in> set STEP_KINDS \<and> s \<noteq> ''capability'' \<and> s \<noteq> ''skill'' then Some \<lparr>u_kind = s, u_target = None\<rparr> else None))
      | _ \<Rightarrow> None)"

definition conditionSource :: "jsval \<Rightarrow> string" where
  "conditionSource v =
     (let t = js_trim (js_str v) in
      if 4 \<le> length t \<and> starts_with t ''{{'' \<and> ends_with t ''}}'' then js_trim (drop 2 (take (length t - 2) t)) else t)"

section \<open>Validating a step\<close>

text \<open>What the package declares: the names of its policies and the events it emits, if known.\<close>

record declared =
  de_automation :: bool
  de_policies :: "string list option"
  de_emits :: "string list option"

definition unknown_keys :: "string list \<Rightarrow> (string \<times> jsval) list \<Rightarrow> string \<Rightarrow> string list" where
  "unknown_keys known ps w = concat (map (\<lambda>k. if k \<in> set known then [] else [w @ ''.'' @ k @ '': unknown key'']) (map fst ps))"

definition problem_at :: "string \<Rightarrow> string option \<Rightarrow> string list" where
  "problem_at w p = (case p of None \<Rightarrow> [] | Some m \<Rightarrow> [w @ '': '' @ m])"

definition when_true :: "bool \<Rightarrow> string \<Rightarrow> string list" where
  "when_true b m = (if b then [m] else [])"

text \<open>A condition: an expression as text, or nothing.\<close>

definition condition_check :: "jsval option \<Rightarrow> string \<Rightarrow> string list" where
  "condition_check v w =
     (case v of
        None \<Rightarrow> []
      | Some (JStr s) \<Rightarrow> problem_at w (checkExpression (conditionSource (JStr s)))
      | Some _ \<Rightarrow> [w @ '': must be an expression''])"

definition validateStepInput :: "string \<Rightarrow> (string \<times> jsval) list \<Rightarrow> string \<Rightarrow> string list option \<Rightarrow> string list" where
  "validateStepInput kind input w emits =
     (let required = (\<lambda>key. when_true (map_of input key = None) (w @ ''.with.'' @ key @ '': is required for '' @ kind @ '' steps''));
          duration = map_of input ''duration''; until = map_of input ''until'' in
      if kind = ''transform'' then required ''value''
      else if kind = ''filter'' then
        required ''source'' @
        (case map_of input ''where'' of
           Some (JStr s) \<Rightarrow> problem_at (w @ ''.with.where'') (checkExpression (conditionSource (JStr s)))
         | _ \<Rightarrow> [w @ ''.with.where: is required for filter steps''])
      else if kind = ''emit'' then
        (if \<not> isValidEventType (map_of input ''type'') then [w @ ''.with.type: a literal event type such as job.candidate'']
         else (case (map_of input ''type'', emits) of
           (Some (JStr t), Some es) \<Rightarrow> when_true (t \<notin> set es) (w @ ''.with.type: \"'' @ t @ ''\" is not declared in events.emits'')
         | _ \<Rightarrow> []))
      else if kind = ''state'' then when_true (\<not> is_mapping (map_of input ''set'')) (w @ ''.with.set: must map state keys to values'')
      else if kind = ''sleep'' then
        when_true ((duration = None) = (until = None)) (w @ ''.with: sleep takes exactly one of duration or until'') @
        when_true (duration \<noteq> None \<and> \<not> (case duration of Some (JStr s) \<Rightarrow> has_infix ''{{'' s | _ \<Rightarrow> False) \<and> \<not> withinDuration duration MAX_SLEEP_MS 0)
          (w @ ''.with.duration: a duration such as 10m, at most 366d'')
      else if kind = ''wait'' then
        when_true (\<not> isValidEventType (map_of input ''event'')) (w @ ''.with.event: a literal event type to wait for'') @
        condition_check (map_of input ''where'') (w @ ''.with.where'') @
        when_true (map_of input ''timeout'' \<noteq> None \<and> \<not> withinDuration (map_of input ''timeout'') MAX_SLEEP_MS 1) (w @ ''.with.timeout: a duration such as 1d'')
      else [])"

definition id_problems :: "jsval option \<Rightarrow> string list \<Rightarrow> string \<Rightarrow> string list" where
  "id_problems v seen w =
     (case v of
        Some (JStr i) \<Rightarrow>
          if \<not> STEP_ID i then [w @ ''.id: required, letters/digits/-/_'']
          else when_true (i \<in> set seen) (w @ ''.id: duplicate step id \"'' @ i @ ''\"'')
      | _ \<Rightarrow> [w @ ''.id: required, letters/digits/-/_''])"

definition target_problems :: "use \<Rightarrow> bool \<Rightarrow> string \<Rightarrow> string list" where
  "target_problems u automation w =
     (let target = (case u_target u of Some t \<Rightarrow> t | None \<Rightarrow> []) in
      when_true (u_kind u = ''capability'' \<and> \<not> CAPABILITY_ID target) (w @ ''.use: invalid capability id \"'' @ target @ ''\"'') @
      when_true (u_kind u = ''skill'' \<and> \<not> LOCAL_ID target) (w @ ''.use: invalid skill id \"'' @ target @ ''\"'') @
      when_true (\<not> automation \<and> u_kind u \<in> set AUTOMATION_ONLY_KINDS) (w @ ''.use: \"'' @ u_kind u @ ''\" steps are only allowed in automations''))"

definition attempts_ok :: "jsval option \<Rightarrow> bool" where
  "attempts_ok v = (case v of Some (JNum n) \<Rightarrow> of_int \<lfloor>n\<rfloor> = n \<and> 1 \<le> n \<and> n \<le> of_int MAX_RETRY_ATTEMPTS | _ \<Rightarrow> False)"

definition retry_problems :: "jsval option \<Rightarrow> string \<Rightarrow> string list" where
  "retry_problems v w =
     (case v of
        None \<Rightarrow> []
      | Some (JObj r) \<Rightarrow>
          when_true (\<not> attempts_ok (map_of r ''attempts'')) (w @ ''.retry.attempts: 1 to 5'') @
          when_true (map_of r ''backoff'' \<noteq> None \<and> \<not> withinDuration (map_of r ''backoff'') MAX_TIMEOUT_MS 0) (w @ ''.retry.backoff: a duration such as 5s, at most 1h'') @
          unknown_keys [''attempts'', ''backoff''] r (w @ ''.retry'')
      | Some _ \<Rightarrow> [w @ ''.retry: must be { attempts, backoff }''])"

definition policy_ref_problems :: "jsval option \<Rightarrow> use \<Rightarrow> string list option \<Rightarrow> string \<Rightarrow> string list" where
  "policy_ref_problems v u policies w =
     (case v of
        None \<Rightarrow> []
      | Some p \<Rightarrow>
          if u_kind u \<noteq> ''capability'' then [w @ ''.policy: only capability steps take a policy'']
          else (case p of
            JStr name \<Rightarrow>
              (case policies of
                 None \<Rightarrow> []
               | Some names \<Rightarrow> when_true (name \<notin> set names) (w @ ''.policy: \"'' @ name @ ''\" is not defined in the package's policies''))
          | _ \<Rightarrow> [w @ ''.policy: must be a policy name'']))"

definition step_input :: "(string \<times> jsval) list \<Rightarrow> (string \<times> jsval) list" where
  "step_input st = (case map_of st ''with'' of Some (JObj ps) \<Rightarrow> ps | _ \<Rightarrow> [])"

definition step_problems :: "declared \<Rightarrow> string list \<Rightarrow> string \<Rightarrow> (string \<times> jsval) list \<Rightarrow> string list" where
  "step_problems d seen w st =
     unknown_keys STEP_KEYS st w @ id_problems (map_of st ''id'') seen w @
     (case parseUse (map_of st ''use'') of
        None \<Rightarrow> [w @ ''.use: must be capability:<id>, skill:<id> or one of '' @ join_with '', '' (drop 2 STEP_KINDS)]
      | Some u \<Rightarrow>
          target_problems u (de_automation d) w @
          when_true (map_of st ''with'' \<noteq> None \<and> \<not> is_mapping (map_of st ''with'')) (w @ ''.with: must be a mapping'') @
          checkTemplate (JObj (step_input st)) (w @ ''.with'') @
          condition_check (map_of st ''when'') (w @ ''.when'') @
          (case map_of st ''foreach'' of
             None \<Rightarrow> []
           | Some (JStr s) \<Rightarrow> checkTemplate (JStr s) (w @ ''.foreach'')
           | Some _ \<Rightarrow> [w @ ''.foreach: must be an expression'']) @
          retry_problems (map_of st ''retry'') w @
          when_true (map_of st ''timeout'' \<noteq> None \<and> \<not> withinDuration (map_of st ''timeout'') MAX_TIMEOUT_MS 1) (w @ ''.timeout: a duration such as 30s, at most 1h'') @
          when_true (map_of st ''onError'' \<notin> {None, Some (JStr ''fail''), Some (JStr ''continue'')}) (w @ ''.onError: use fail or continue'') @
          policy_ref_problems (map_of st ''policy'') u (de_policies d) w @
          validateStepInput (u_kind u) (step_input st) w (de_emits d))"

text \<open>The id a step adds to those seen.\<close>

definition new_id :: "jsval option \<Rightarrow> string list \<Rightarrow> string list" where
  "new_id v seen = (case v of Some (JStr i) \<Rightarrow> if STEP_ID i \<and> i \<notin> set seen then [i] else [] | _ \<Rightarrow> [])"

fun steps_problems :: "declared \<Rightarrow> string \<Rightarrow> string list \<Rightarrow> nat \<Rightarrow> jsval list \<Rightarrow> string list" where
  "steps_problems d w seen i [] = []"
| "steps_problems d w seen i (v # vs) =
     (let at' = w @ ''.steps['' @ nat_str i @ '']'' in
      (case v of JObj st \<Rightarrow> step_problems d seen at' st | _ \<Rightarrow> [at' @ '': must be a mapping'']) @
      steps_problems d w ((case v of JObj st \<Rightarrow> new_id (map_of st ''id'') seen | _ \<Rightarrow> []) @ seen) (Suc i) vs)"

definition validateWorkflow :: "jsval \<Rightarrow> declared \<Rightarrow> string \<Rightarrow> string list" where
  "validateWorkflow workflow d w =
     (case workflow of
        JObj ps \<Rightarrow>
          unknown_keys WORKFLOW_KEYS ps w @
          (case map_of ps ''inputs'' of
             None \<Rightarrow> []
           | Some (JObj qs) \<Rightarrow> concat (map (\<lambda>q. checkSchema (snd q) (w @ ''.inputs.'' @ fst q) 0) qs)
           | Some _ \<Rightarrow> [w @ ''.inputs: must map input names to schemas'']) @
          (case map_of ps ''steps'' of
             Some (JArr (s # ss)) \<Rightarrow>
               when_true (WORKFLOW_MAX_STEPS < Suc (length ss)) (w @ ''.steps: at most 100 steps'') @
               steps_problems d w [] 0 (s # ss) @
               (case map_of ps ''output'' of None \<Rightarrow> [] | Some t \<Rightarrow> checkTemplate t (w @ ''.output''))
           | _ \<Rightarrow> [w @ ''.steps: must be a non-empty list''])
      | _ \<Rightarrow> [w @ '': must be a mapping''])"

section \<open>What a workflow uses\<close>

definition steps_of :: "jsval option \<Rightarrow> jsval list" where
  "steps_of workflow = (case js_get workflow ''steps'' of Some (JArr vs) \<Rightarrow> vs | _ \<Rightarrow> [])"

definition targets :: "string \<Rightarrow> jsval option \<Rightarrow> string list" where
  "targets kind workflow =
     concat (map (\<lambda>st. case parseUse (js_get (Some st) ''use'') of
                         Some u \<Rightarrow> if u_kind u = kind then (case u_target u of Some t \<Rightarrow> [t] | None \<Rightarrow> []) else []
                       | None \<Rightarrow> []) (steps_of workflow))"

text \<open>A \<open>Set\<close> keeps the order of first insertion.\<close>

definition workflowReferences :: "jsval option \<Rightarrow> string list \<times> string list" where
  "workflowReferences workflow =
     (rev (remdups (rev (targets ''capability'' workflow))), rev (remdups (rev (targets ''skill'' workflow))))"

section \<open>What the validation guarantees\<close>

lemma when_true_nil [simp]: "when_true b m = [] \<longleftrightarrow> \<not> b"
  by (simp add: when_true_def)

lemma problem_at_nil [simp]: "problem_at w p = [] \<longleftrightarrow> p = None"
  by (simp add: problem_at_def split: option.split)

lemma unknown_keys_nil: "unknown_keys known ps w = [] \<longleftrightarrow> set (map fst ps) \<subseteq> set known"
  by (auto simp: unknown_keys_def)

lemma checkExpression_None: "checkExpression s = None \<longleftrightarrow> (\<exists>ast. compile s = Inr ast)"
  by (auto simp: checkExpression_def split: sum.splits)

definition compiles :: "jsval option \<Rightarrow> bool" where
  "compiles v = (case v of None \<Rightarrow> True | Some c \<Rightarrow> (case compile (conditionSource c) of Inl _ \<Rightarrow> False | Inr _ \<Rightarrow> True))"

lemma condition_check_nil: "condition_check v w = [] \<Longrightarrow> compiles v"
  by (auto simp: condition_check_def compiles_def checkExpression_None split: option.splits jsval.splits)

definition lasts :: "jsval option \<Rightarrow> rat \<Rightarrow> rat \<Rightarrow> bool" where
  "lasts v low high = (case v of None \<Rightarrow> True | Some _ \<Rightarrow> (case parseDuration v of None \<Rightarrow> False | Some ms \<Rightarrow> low \<le> ms \<and> ms \<le> high))"

lemma withinDuration_lasts: "v = None \<or> withinDuration v high low \<Longrightarrow> lasts v low high"
  by (auto simp: withinDuration_def lasts_def split: option.splits)

text \<open>
  A step the engine may run: it names one operation, of a kind its workflow may use, with a
  valid target; conditions compile; retries, time limits and sleeps are bounded; a policy or
  an event is one the package declares.
\<close>

definition target_ok :: "use \<Rightarrow> bool" where
  "target_ok u \<longleftrightarrow>
     (case u_target u of
        None \<Rightarrow> u_kind u \<in> set STEP_KINDS - {''capability'', ''skill''}
      | Some t \<Rightarrow> u_kind u = ''capability'' \<and> CAPABILITY_ID t \<or> u_kind u = ''skill'' \<and> LOCAL_ID t)"

definition retry_ok :: "jsval option \<Rightarrow> bool" where
  "retry_ok v =
     (case v of
        None \<Rightarrow> True
      | Some r \<Rightarrow> (case js_get (Some r) ''attempts'' of Some (JNum n) \<Rightarrow> n \<in> {1, 2, 3, 4, 5} | _ \<Rightarrow> False) \<and> lasts (js_get (Some r) ''backoff'') 0 3600000)"

definition policy_ref_ok :: "jsval option \<Rightarrow> use \<Rightarrow> string list option \<Rightarrow> bool" where
  "policy_ref_ok v u policies =
     (case v of
        None \<Rightarrow> True
      | Some p \<Rightarrow> u_kind u = ''capability'' \<and> (\<exists>name. p = JStr name \<and> (\<forall>names. policies = Some names \<longrightarrow> name \<in> set names)))"

definition input_ok :: "string \<Rightarrow> (string \<times> jsval) list \<Rightarrow> string list option \<Rightarrow> bool" where
  "input_ok kind input emits \<longleftrightarrow>
     (kind = ''filter'' \<longrightarrow> map_of input ''where'' \<noteq> None \<and> compiles (map_of input ''where'')) \<and>
     (kind = ''emit'' \<longrightarrow> (\<exists>t. map_of input ''type'' = Some (JStr t) \<and> EVENT_TYPE t \<and> (\<forall>es. emits = Some es \<longrightarrow> t \<in> set es))) \<and>
     (kind = ''sleep'' \<longrightarrow> (map_of input ''duration'' = None) \<noteq> (map_of input ''until'' = None)) \<and>
     (kind = ''wait'' \<longrightarrow> compiles (map_of input ''where'') \<and> lasts (map_of input ''timeout'') 1 31622400000)"

definition wf_step_ok :: "declared \<Rightarrow> (string \<times> jsval) list \<Rightarrow> bool" where
  "wf_step_ok d st \<longleftrightarrow>
     (\<exists>u. parseUse (map_of st ''use'') = Some u \<and> target_ok u \<and>
        (u_kind u \<in> set AUTOMATION_ONLY_KINDS \<longrightarrow> de_automation d) \<and>
        compiles (map_of st ''when'') \<and> retry_ok (map_of st ''retry'') \<and> lasts (map_of st ''timeout'') 1 3600000 \<and>
        policy_ref_ok (map_of st ''policy'') u (de_policies d) \<and>
        input_ok (u_kind u) (step_input st) (de_emits d))"

lemma prefixed_use_Some: "prefixed_use k s = Some u \<Longrightarrow> \<exists>t. u = \<lparr>u_kind = k, u_target = Some t\<rparr>"
  by (auto simp: prefixed_use_def Let_def split: if_splits)

lemma parseUse_target:
  assumes "parseUse v = Some u" and "target_problems u a w = []"
  shows "target_ok u" and "u_kind u \<in> set AUTOMATION_ONLY_KINDS \<longrightarrow> a"
  using assms by (auto simp: parseUse_def target_problems_def target_ok_def Let_def dest!: prefixed_use_Some
      split: option.splits jsval.splits if_splits)

lemma attempts_ok_5:
  assumes "attempts_ok (Some (JNum n))"
  shows "n \<in> {1, 2, 3, 4, 5}"
proof -
  from assms obtain i :: int where n: "n = of_int i" and "1 \<le> n" "n \<le> 5"
    by (auto simp: attempts_ok_def MAX_RETRY_ATTEMPTS_def)
  then have "1 \<le> i" "i \<le> 5" by simp_all
  then have "i = 1 \<or> i = 2 \<or> i = 3 \<or> i = 4 \<or> i = 5" by arith
  with n show ?thesis by auto
qed

lemma retry_problems_ok:
  assumes "retry_problems v w = []"
  shows "retry_ok v"
proof (cases v)
  case (Some r)
  with assms obtain ps where r: "r = JObj ps" by (cases r) (simp_all add: retry_problems_def)
  have get: "js_get (Some r) ''attempts'' = map_of ps ''attempts''" "js_get (Some r) ''backoff'' = map_of ps ''backoff''"
    by (simp_all add: r object_prototype_keys_def split: option.split)
  from assms Some r have "attempts_ok (map_of ps ''attempts'')" "lasts (map_of ps ''backoff'') 0 3600000"
    using withinDuration_lasts [of "map_of ps ''backoff''" MAX_TIMEOUT_MS 0] by (auto simp: retry_problems_def MAX_TIMEOUT_MS_def)
  then show ?thesis using attempts_ok_5 unfolding Some retry_ok_def option.case get
    by (auto simp: attempts_ok_def split: option.splits jsval.splits)
qed (simp add: retry_ok_def)

lemma validateStepInput_ok:
  assumes "validateStepInput kind input w emits = []"
  shows "input_ok kind input emits"
  unfolding input_ok_def
proof (intro conjI impI)
  assume "kind = ''filter''"
  with assms have "case map_of input ''where'' of
           Some (JStr s) \<Rightarrow> problem_at (w @ ''.with.where'') (checkExpression (conditionSource (JStr s))) = []
         | _ \<Rightarrow> False" by (simp add: validateStepInput_def Let_def split: option.splits jsval.splits)
  then show "map_of input ''where'' \<noteq> None" "compiles (map_of input ''where'')"
    by (auto simp: compiles_def checkExpression_None split: option.splits jsval.splits)
next
  assume "kind = ''emit''"
  with assms show "\<exists>t. map_of input ''type'' = Some (JStr t) \<and> EVENT_TYPE t \<and> (\<forall>es. emits = Some es \<longrightarrow> t \<in> set es)"
    by (auto simp: validateStepInput_def Let_def isValidEventType_def split: option.splits jsval.splits if_splits)
next
  assume "kind = ''sleep''"
  with assms show "(map_of input ''duration'' = None) \<noteq> (map_of input ''until'' = None)"
    by (simp add: validateStepInput_def Let_def)
next
  assume "kind = ''wait''"
  with assms have c: "condition_check (map_of input ''where'') (w @ ''.with.where'') = []"
    "map_of input ''timeout'' = None \<or> withinDuration (map_of input ''timeout'') MAX_SLEEP_MS 1"
    by (simp_all add: validateStepInput_def Let_def)
  show "compiles (map_of input ''where'')" by (rule condition_check_nil [OF c(1)])
  show "lasts (map_of input ''timeout'') 1 31622400000" using withinDuration_lasts [OF c(2)] by (simp add: MAX_SLEEP_MS_def)
qed

lemma policy_ref_problems_ok: "policy_ref_problems v u policies w = [] \<Longrightarrow> policy_ref_ok v u policies"
  by (auto simp: policy_ref_problems_def policy_ref_ok_def split: option.splits if_splits jsval.splits)

lemma step_problems_ok:
  assumes "step_problems d seen w st = []"
  shows "wf_step_ok d st"
proof -
  from assms obtain u where u: "parseUse (map_of st ''use'') = Some u" by (cases "parseUse (map_of st ''use'')") (simp_all add: step_problems_def)
  with assms have p: "target_problems u (de_automation d) w = []" "condition_check (map_of st ''when'') (w @ ''.when'') = []"
    "retry_problems (map_of st ''retry'') w = []" "map_of st ''timeout'' = None \<or> withinDuration (map_of st ''timeout'') MAX_TIMEOUT_MS 1"
    "policy_ref_problems (map_of st ''policy'') u (de_policies d) w = []"
    "validateStepInput (u_kind u) (step_input st) w (de_emits d) = []" by (simp_all add: step_problems_def)
  show ?thesis
    unfolding wf_step_ok_def
    using u parseUse_target [OF u p(1)] condition_check_nil [OF p(2)] retry_problems_ok [OF p(3)] withinDuration_lasts [OF p(4)]
      policy_ref_problems_ok [OF p(5)] validateStepInput_ok [OF p(6)] by (simp add: MAX_TIMEOUT_MS_def)
qed

definition draft_step_id :: "(string \<times> jsval) list \<Rightarrow> string" where
  "draft_step_id st = (case map_of st ''id'' of Some (JStr i) \<Rightarrow> i | _ \<Rightarrow> [])"

lemma id_problems_ok:
  assumes "id_problems (map_of st ''id'') seen w = []"
  shows "STEP_ID (draft_step_id st)" and "draft_step_id st \<notin> set seen" and "new_id (map_of st ''id'') seen = [draft_step_id st]"
  using assms by (auto simp: id_problems_def new_id_def draft_step_id_def split: option.splits jsval.splits if_splits)

lemma steps_problems_ok:
  "steps_problems d w seen i vs = [] \<Longrightarrow>
     \<exists>sts. vs = map JObj sts \<and> distinct (map draft_step_id sts) \<and> (\<forall>st\<in>set sts. wf_step_ok d st \<and> STEP_ID (draft_step_id st) \<and> draft_step_id st \<notin> set seen)"
proof (induction d w seen i vs rule: steps_problems.induct)
  case (2 d w seen i v vs)
  let ?at = "w @ ''.steps['' @ nat_str i @ '']''"
  from 2(2) obtain st where v: "v = JObj st" by (cases v) (simp_all add: Let_def)
  with 2(2) have p: "step_problems d seen ?at st = []" "steps_problems d w (new_id (map_of st ''id'') seen @ seen) (Suc i) vs = []"
    by (simp_all add: Let_def)
  from p(1) have "id_problems (map_of st ''id'') seen ?at = []" by (simp add: step_problems_def)
  note new = id_problems_ok [OF this]
  from 2(1) [OF refl] p(2) obtain sts where sts: "vs = map JObj sts" "distinct (map draft_step_id sts)"
    "\<forall>s\<in>set sts. wf_step_ok d s \<and> STEP_ID (draft_step_id s) \<and> draft_step_id s \<noteq> draft_step_id st \<and> draft_step_id s \<notin> set seen" unfolding v jsval.case new(3) by auto
  from sts have "distinct (map draft_step_id (st # sts))" by auto
  moreover have "v # vs = map JObj (st # sts)" using v sts by simp
  moreover have "\<forall>s\<in>set (st # sts). wf_step_ok d s \<and> STEP_ID (draft_step_id s) \<and> draft_step_id s \<notin> set seen"
    using sts(3) step_problems_ok [OF p(1)] new by auto
  ultimately show ?case by (intro exI conjI)
qed simp

text \<open>
  C27. A workflow that passes validation is one the engine can run. It has between one and a
  hundred steps with distinct well-formed ids; each step names one known operation with a
  valid target, and one reserved to automations only in an automation; its conditions
  compile; it is retried at most five times, with at most an hour between and at most an hour
  per call; the policy it names and the event it emits are ones the package declares.
\<close>

theorem validated_workflow_well_formed:
  assumes "validateWorkflow workflow d w = []"
  shows "\<exists>sts. js_get (Some workflow) ''steps'' = Some (JArr (map JObj sts)) \<and> sts \<noteq> [] \<and> length sts \<le> 100 \<and>
     distinct (map draft_step_id sts) \<and> (\<forall>st\<in>set sts. wf_step_ok d st \<and> STEP_ID (draft_step_id st))"
proof -
  from assms obtain ps where ps: "workflow = JObj ps" by (cases workflow) (simp_all add: validateWorkflow_def)
  from assms obtain s ss where steps: "map_of ps ''steps'' = Some (JArr (s # ss))"
    by (auto simp: validateWorkflow_def ps split: option.splits jsval.splits list.splits)
  from assms have "steps_problems d w [] 0 (s # ss) = []" and len: "Suc (length ss) \<le> 100"
    by (simp_all add: validateWorkflow_def ps steps WORKFLOW_MAX_STEPS_def not_less del: steps_problems.simps)
  from steps_problems_ok [OF this(1)] obtain sts where "s # ss = map JObj sts" "distinct (map draft_step_id sts)"
    "\<forall>st\<in>set sts. wf_step_ok d st \<and> STEP_ID (draft_step_id st) \<and> draft_step_id st \<notin> set []" by (elim exE conjE)
  moreover from this(1) have "length sts = Suc (length ss)" by (metis length_Cons length_map)
  ultimately show ?thesis using steps ps len by (auto intro!: exI [of _ sts])
qed

definition ex_workflow :: jsval where
  "ex_workflow = JObj [(''steps'', JArr [JObj [(''id'', JStr ''note''), (''use'', JStr ''emit''),
     (''with'', JObj [(''type'', JStr ''job.candidate'')]), (''timeout'', JStr ''30s'')]])]"

theorem validated_workflow_well_formed_witness:
  "validateWorkflow ex_workflow \<lparr>de_automation = False, de_policies = None, de_emits = Some [''job.candidate'']\<rparr> ''w'' = [] \<and>
   (\<exists>sts. js_get (Some ex_workflow) ''steps'' = Some (JArr (map JObj sts)) \<and> length sts \<le> 100)"
proof -
  have v: "validateWorkflow ex_workflow \<lparr>de_automation = False, de_policies = None, de_emits = Some [''job.candidate'']\<rparr> ''w'' = []"
    by code_simp
  from validated_workflow_well_formed [OF v] v show ?thesis by blast
qed

end
