(* ===== verification/U2_Registries.thy ===== *)
theory U2_Registries
  imports U2_Workflow
begin

text \<open>
  The registries of \<open>server/packages/capability-registry.js\<close> and \<open>registries.js\<close>, which hold
  what installed packages and the core provide, and the dependency check of
  \<open>dependencies.js\<close> every package passes before it is registered. A \<open>Map\<close> is an association
  list in insertion order. A provider's \<open>execute\<close> function is not code of the repository;
  the model keeps whether there is one. The version of U2OS itself is a parameter.
\<close>

section \<open>What packages contain\<close>

record contract =
  ct_id :: string
  ct_version :: string
  ct_description :: string
  ct_effect :: string
  ct_domain :: string
  ct_inputSchema :: jsval
  ct_outputSchema :: "jsval option"
  ct_requiredPermissions :: "string list"
  ct_source :: string

record provider =
  pv_id :: string
  pv_capability :: string
  pv_packageId :: "string option"
  pv_kind :: string
  pv_description :: string
  pv_executable :: bool

record capability_def =
  cd_id :: string
  cd_version :: string
  cd_description :: string
  cd_effect :: string
  cd_implements :: "string option"
  cd_requiredPermissions :: "string list"
  cd_inputSchema :: jsval
  cd_outputSchema :: "jsval option"
  cd_kind :: string   \<comment> \<open>\<open>implementation.type\<close>\<close>

record requirements =
  rq_u2os :: "string option"
  rq_capabilities :: "(string \<times> string) list"
  rq_skills :: "(string \<times> string) list"

record skill_def =
  sd_id :: string
  sd_packageId :: string
  sd_version :: string
  sd_inputSchema :: jsval
  sd_outputSchema :: "jsval option"
  sd_requires :: requirements
  sd_workflow :: "jsval option"
  sd_implementation :: "jsval option"

record automation_def =
  ad_id :: string
  ad_packageId :: string
  ad_triggers :: "jsval list"
  ad_concurrency :: string
  ad_workflow :: jsval
  ad_state_schema :: "jsval option"

record manifest =
  mf_id :: string
  mf_name :: string
  mf_version :: string
  mf_description :: string
  mf_requires :: requirements
  mf_capabilities :: "string list"   \<comment> \<open>the ids under \<open>exports\<close>\<close>
  mf_skills :: "string list"
  mf_permissions :: "string list"
  mf_policies :: "(string \<times> package_policy) list"
  mf_settings :: "(string \<times> jsval) list"
  mf_emits :: "string list"

record package_bundle =
  bu_manifest :: manifest
  bu_capabilities :: "capability_def list"
  bu_skills :: "skill_def list"
  bu_automations :: "automation_def list"
  bu_providers :: "string list"   \<comment> \<open>the capabilities it has an \<open>execute\<close> for\<close>
  bu_enabled :: bool

record package_record =
  pk_manifest :: manifest
  pk_enabled :: bool

section \<open>The capability registry\<close>

record capability_registry =
  cr_contracts :: "(string \<times> contract) list"
  cr_providers :: "(string \<times> provider list) list"
  cr_selections :: "(string \<times> string) list"

definition map_delete :: "string \<Rightarrow> (string \<times> 'v) list \<Rightarrow> (string \<times> 'v) list" where
  "map_delete k ps = filter (\<lambda>p. fst p \<noteq> k) ps"

definition put_contract :: "contract \<Rightarrow> (string \<times> contract) list \<Rightarrow> (string \<times> contract) list res" where
  "put_contract c cs =
     (if ct_id c = [] then Inl (Error ''Capability contract needs an id'')
      else (case map_of cs (ct_id c) of
        Some old \<Rightarrow>
          if ct_source old \<noteq> ct_source c then Inl (Error (''Capability '' @ ct_id c @ '' is already provided by '' @ ct_source old))
          else Inr (js_put (ct_id c) c cs)
      | None \<Rightarrow> Inr (js_put (ct_id c) c cs)))"

definition registerContract :: "contract \<Rightarrow> capability_registry \<Rightarrow> capability_registry res" where
  "registerContract c r = map_sum id (\<lambda>cs. r\<lparr>cr_contracts := cs\<rparr>) (put_contract c (cr_contracts r))"

definition providers :: "capability_registry \<Rightarrow> string \<Rightarrow> provider list" where
  "providers r cap = (case map_of (cr_providers r) cap of Some ps \<Rightarrow> ps | None \<Rightarrow> [])"

definition registerProvider :: "provider \<Rightarrow> capability_registry \<Rightarrow> capability_registry res" where
  "registerProvider p r =
     (if pv_id p = [] \<or> pv_capability p = [] then Inl (Error ''Capability provider needs an id and a capability'')
      else if list_ex (\<lambda>q. pv_id q = pv_id p) (providers r (pv_capability p))
      then Inl (Error (''Provider '' @ pv_id p @ '' already registered for '' @ pv_capability p))
      else Inr (r\<lparr>cr_providers := js_put (pv_capability p) (providers r (pv_capability p) @ [p]) (cr_providers r)\<rparr>))"

definition getContract :: "capability_registry \<Rightarrow> string \<Rightarrow> contract res" where
  "getContract r cap =
     (case map_of (cr_contracts r) cap of
        None \<Rightarrow> Inl (CodedError ''CAPABILITY_UNKNOWN'' (''Unknown capability: '' @ cap))
      | Some c \<Rightarrow> Inr c)"

definition select :: "string \<Rightarrow> string option \<Rightarrow> capability_registry \<Rightarrow> capability_registry res" where
  "select cap providerId r =
     (case providerId of
        None \<Rightarrow> Inr (r\<lparr>cr_selections := map_delete cap (cr_selections r)\<rparr>)
      | Some pid \<Rightarrow>
          if \<not> list_ex (\<lambda>p. pv_id p = pid) (providers r cap) then Inl (HttpError 400 (''No provider '' @ pid @ '' for '' @ cap))
          else Inr (r\<lparr>cr_selections := js_put cap pid (cr_selections r)\<rparr>))"

definition resolveProvider :: "capability_registry \<Rightarrow> string \<Rightarrow> provider option" where
  "resolveProvider r cap =
     (let ps = providers r cap in
      case sql_get (\<lambda>p. Some (pv_id p) = map_of (cr_selections r) cap) ps of
        Some p \<Rightarrow> Some p
      | None \<Rightarrow>
          (case sql_get (\<lambda>p. pv_id p = ''core'') ps of
             Some p \<Rightarrow> Some p
           | None \<Rightarrow> (case ps of [] \<Rightarrow> None | p # _ \<Rightarrow> Some p)))"

definition package_source :: "string \<Rightarrow> string" where
  "package_source packageId = ''package:'' @ packageId"

definition kept_providers :: "string \<Rightarrow> provider list \<Rightarrow> provider list" where
  "kept_providers packageId ps = filter (\<lambda>p. pv_packageId p \<noteq> Some packageId) ps"

text \<open>The selection of a capability that has an entry is dropped unless one of the providers kept is the selected one.\<close>

definition unregisterCapabilities :: "string \<Rightarrow> capability_registry \<Rightarrow> capability_registry" where
  "unregisterCapabilities packageId r =
     (let kept = map (\<lambda>(cap, ps). (cap, kept_providers packageId ps)) (cr_providers r) in
      \<lparr>cr_contracts = filter (\<lambda>c. ct_source (snd c) \<noteq> package_source packageId) (cr_contracts r),
       cr_providers = filter (\<lambda>p. snd p \<noteq> []) kept,
       cr_selections = filter (\<lambda>s. case map_of kept (fst s) of
                                     None \<Rightarrow> True
                                   | Some ps \<Rightarrow> list_ex (\<lambda>p. pv_id p = snd s) ps) (cr_selections r)\<rparr>)"

section \<open>The definition registries\<close>

text \<open>\<open>DefinitionRegistry\<close>: skills and automations, by id; the kind names it in messages.\<close>

definition register_def :: "string \<Rightarrow> ('d \<Rightarrow> string) \<Rightarrow> ('d \<Rightarrow> string) \<Rightarrow> 'd \<Rightarrow> (string \<times> 'd) list \<Rightarrow> (string \<times> 'd) list res" where
  "register_def kind ident pkg d items =
     (if ident d = [] then Inl (Error (kind @ '' needs an id''))
      else (case map_of items (ident d) of
        Some old \<Rightarrow>
          if pkg old \<noteq> pkg d then Inl (Error (kind @ '' '' @ ident d @ '' is already provided by package '' @ pkg old))
          else Inr (js_put (ident d) d items)
      | None \<Rightarrow> Inr (js_put (ident d) d items)))"

definition get_def :: "string \<Rightarrow> string \<Rightarrow> (string \<times> 'd) list \<Rightarrow> 'd res" where
  "get_def kind i items =
     (case map_of items i of
        None \<Rightarrow> Inl (CodedError (map upper_char kind @ ''_UNKNOWN'') (''Unknown '' @ kind @ '': '' @ i))
      | Some d \<Rightarrow> Inr d)"

definition unregister_defs :: "('d \<Rightarrow> string) \<Rightarrow> string \<Rightarrow> (string \<times> 'd) list \<Rightarrow> (string \<times> 'd) list" where
  "unregister_defs pkg packageId items = filter (\<lambda>p. pkg (snd p) \<noteq> packageId) items"

record platform =
  pf_packages :: "(string \<times> package_record) list"
  pf_capabilities :: capability_registry
  pf_skills :: "(string \<times> skill_def) list"
  pf_automations :: "(string \<times> automation_def) list"

definition dependentsOf :: "string \<Rightarrow> platform \<Rightarrow> string list" where
  "dependentsOf packageId pf =
     (case map_of (pf_packages pf) packageId of
        None \<Rightarrow> []
      | Some target \<Rightarrow>
          map (mf_id \<circ> pk_manifest) (filter (\<lambda>r. mf_id (pk_manifest r) \<noteq> packageId \<and>
              (list_ex (\<lambda>(i, _). i \<in> set (mf_capabilities (pk_manifest target))) (rq_capabilities (mf_requires (pk_manifest r))) \<or>
               list_ex (\<lambda>(i, _). i \<in> set (mf_skills (pk_manifest target))) (rq_skills (mf_requires (pk_manifest r)))))
            (map snd (pf_packages pf))))"

section \<open>Capabilities a workflow reaches\<close>

definition find_skill :: "skill_def list \<Rightarrow> string \<Rightarrow> skill_def option" where
  "find_skill known i = sql_get (\<lambda>s. sd_id s = i) known"

definition skill_workflow :: "skill_def list \<Rightarrow> string \<Rightarrow> jsval option" where
  "skill_workflow known i =
     (case find_skill known i of None \<Rightarrow> None | Some s \<Rightarrow> if truthy (sd_workflow s) then sd_workflow s else None)"

definition unseen :: "skill_def list \<Rightarrow> string list \<Rightarrow> nat" where
  "unseen known seen = card (sd_id ` set known - set seen)"

lemma unseen_less:
  assumes "i \<notin> set seen" and "find_skill known i = Some s"
  shows "unseen known (i # seen) < unseen known seen"
proof -
  from assms(2) have "i \<in> sd_id ` set known" by (auto simp: find_skill_def dest: sql_get_SomeD)
  with assms(1) show ?thesis unfolding unseen_def by (intro psubset_card_mono) auto
qed

lemma unseen_le: "unseen known (i # seen) \<le> unseen known seen"
  unfolding unseen_def by (intro card_mono) auto

text \<open>
  \<open>visit\<close> of \<open>capabilityClosure\<close>: the skills still to look at are the list (the call stack of
  the recursion), the workflows entered are added at the end of the result.
\<close>

function closure_visit :: "skill_def list \<Rightarrow> string list \<Rightarrow> string list \<Rightarrow> jsval option list \<Rightarrow> jsval option list" where
  "closure_visit known [] seen acc = acc"
| "closure_visit known (i # todo) seen acc =
     (if i \<in> set seen then closure_visit known todo seen acc
      else (case skill_workflow known i of
        None \<Rightarrow> closure_visit known todo (i # seen) acc
      | Some w \<Rightarrow> closure_visit known (snd (workflowReferences (Some w)) @ todo) (i # seen) (acc @ [Some w])))"
  by pat_completeness auto
termination
proof (relation "measures [\<lambda>(known, todo, seen, acc). unseen known seen, \<lambda>(known, todo, seen, acc). length todo]", goal_cases)
  case (4 known i todo seen acc w)
  then show ?case by (auto simp: skill_workflow_def split: option.splits dest: unseen_less)
next
  case (3 known i todo seen acc)
  then show ?case using unseen_le [of known i seen] by (auto simp: le_less)
qed simp_all

definition capabilityClosure :: "skill_def list \<Rightarrow> jsval option \<Rightarrow> string list" where
  "capabilityClosure known workflow =
     (if truthy workflow
      then rev (remdups (rev (concat (map (\<lambda>w. fst (workflowReferences w))
             (closure_visit known (snd (workflowReferences workflow)) [] [workflow])))))
      else [])"

section \<open>Dependencies\<close>

text \<open>\<open>required[kind][id] ??= range\<close>: a name that every object inherits is never missing.\<close>

definition add_required :: "string \<times> string \<Rightarrow> (string \<times> string) list \<Rightarrow> (string \<times> string) list" where
  "add_required p rs = (if map_of rs (fst p) = None \<and> fst p \<notin> set object_prototype_keys then js_put (fst p) (snd p) rs else rs)"

definition required_of :: "(requirements \<Rightarrow> (string \<times> string) list) \<Rightarrow> package_bundle \<Rightarrow> (string \<times> string) list" where
  "required_of kind b =
     fold (\<lambda>s. fold add_required (kind (sd_requires s))) (bu_skills b) (js_spread [] (kind (mf_requires (bu_manifest b))))"

definition ownCapabilities :: "package_bundle \<Rightarrow> (string \<times> string) list" where
  "ownCapabilities b = js_spread [] (map (\<lambda>c. (cd_id c, cd_version c)) (filter (\<lambda>c. cd_implements c = None) (bu_capabilities b)))"

definition ownSkills :: "package_bundle \<Rightarrow> (string \<times> string) list" where
  "ownSkills b = js_spread [] (map (\<lambda>s. (sd_id s, sd_version s)) (bu_skills b))"

text \<open>
  \<open>check(kind, id, range, \<dots>)\<close>: the problem with one requirement, and what satisfies it
  (version and source) otherwise.
\<close>

definition check_requirement ::
  "string \<Rightarrow> string \<Rightarrow> (string \<times> string) list \<Rightarrow> (string \<Rightarrow> (string \<times> string) option) \<Rightarrow> string \<times> string \<Rightarrow>
     string list \<times> (string \<times> string \<times> string) list" where
  "check_requirement kind packageId own existing p =
     (case p of (i, range') \<Rightarrow>
       (case map_of own i of
          Some v \<Rightarrow>
            ((if satisfies (Some v) (Some range') then [] else [kind @ '' '' @ i @ '' is '' @ v @ '' in this package, but '' @ range' @ '' is required'']),
             [(i, v, package_source packageId)])
        | None \<Rightarrow>
            (case existing i of
               None \<Rightarrow> ([''missing '' @ kind @ '' '' @ i @ '' ('' @ range' @ '')''], [])
             | Some (v, source) \<Rightarrow>
                 if satisfies (Some v) (Some range') then ([], [(i, v, source)])
                 else ([''incompatible '' @ kind @ '' '' @ i @ '': '' @ v @ '' is installed, '' @ range' @ '' is required''], []))))"

definition existing_capability :: "platform \<Rightarrow> string \<Rightarrow> (string \<times> string) option" where
  "existing_capability pf i = map_option (\<lambda>c. (ct_version c, ct_source c)) (map_of (cr_contracts (pf_capabilities pf)) i)"

definition existing_skill :: "platform \<Rightarrow> string \<Rightarrow> (string \<times> string) option" where
  "existing_skill pf i = map_option (\<lambda>s. (sd_version s, package_source (sd_packageId s))) (map_of (pf_skills pf) i)"

definition implements_problems :: "package_bundle \<Rightarrow> platform \<Rightarrow> capability_def \<Rightarrow> string list" where
  "implements_problems b pf c =
     (case cd_implements c of
        None \<Rightarrow> []
      | Some i \<Rightarrow>
          (case map_of (cr_contracts (pf_capabilities pf)) i of
             None \<Rightarrow> if map_of (ownCapabilities b) i = None
                     then [''capability '' @ cd_id c @ '' implements unknown capability '' @ i] else []
           | Some k \<Rightarrow> if ct_source k = ''core''
                      then [''capability '' @ cd_id c @ '': packages cannot yet provide core capability '' @ i] else []))"

text \<open>The workflows of a bundle, with the name each is reported under.\<close>

definition bundle_workflows :: "package_bundle \<Rightarrow> (string \<times> jsval option) list" where
  "bundle_workflows b =
     map (\<lambda>s. (''skill '' @ sd_id s, sd_workflow s)) (filter (\<lambda>s. truthy (sd_workflow s)) (bu_skills b)) @
     map (\<lambda>a. (''automation '' @ ad_id a, Some (ad_workflow a))) (bu_automations b)"

definition undeclared_problems ::
  "string \<Rightarrow> string \<Rightarrow> string \<Rightarrow> (string \<times> string) list \<Rightarrow> (string \<times> string) list \<Rightarrow> string list \<Rightarrow> string list" where
  "undeclared_problems w kind field own required ids =
     concat (map (\<lambda>i. if map_of own i = None \<and> map_of required i = None \<and> i \<notin> set object_prototype_keys
                     then [w @ '' uses '' @ kind @ '' '' @ i @ '', which is not declared in requires.'' @ field] else []) ids)"

definition known_skills :: "package_bundle \<Rightarrow> platform \<Rightarrow> skill_def list" where
  "known_skills b pf = bu_skills b @ map snd (pf_skills pf)"

text \<open>The permissions the contract of a capability asks for: the bundle's own contract first.\<close>

definition contract_permissions :: "package_bundle \<Rightarrow> platform \<Rightarrow> string \<Rightarrow> string list" where
  "contract_permissions b pf i =
     (case sql_get (\<lambda>c. cd_id c = i \<and> cd_implements c = None) (bu_capabilities b) of
        Some c \<Rightarrow> cd_requiredPermissions c
      | None \<Rightarrow> (case map_of (cr_contracts (pf_capabilities pf)) i of Some k \<Rightarrow> ct_requiredPermissions k | None \<Rightarrow> []))"

definition used_capabilities :: "package_bundle \<Rightarrow> platform \<Rightarrow> string list" where
  "used_capabilities b pf =
     rev (remdups (rev (map fst (required_of rq_capabilities b) @
        concat (map (\<lambda>w. capabilityClosure (known_skills b pf) (snd w)) (bundle_workflows b)))))"

definition permission_problems :: "package_bundle \<Rightarrow> platform \<Rightarrow> string list" where
  "permission_problems b pf =
     concat (map (\<lambda>i. map (\<lambda>p. ''capability '' @ i @ '' requires permission '' @ p @ '', which the package does not declare'')
         (uncovered (mf_permissions (bu_manifest b)) (contract_permissions b pf i))) (used_capabilities b pf))"

record dependency_report =
  dr_errors :: "string list"
  dr_capabilities :: "(string \<times> string \<times> string) list"
  dr_skills :: "(string \<times> string \<times> string) list"

definition u2os_problems :: "string \<Rightarrow> requirements \<Rightarrow> string list" where
  "u2os_problems u2osVersion rq =
     (case rq_u2os rq of
        None \<Rightarrow> []
      | Some [] \<Rightarrow> []
      | Some r \<Rightarrow> if satisfies (Some u2osVersion) (Some r) then [] else [''requires U2OS '' @ r @ '', but this is '' @ u2osVersion])"

definition validateDependencies :: "string \<Rightarrow> package_bundle \<Rightarrow> platform \<Rightarrow> dependency_report" where
  "validateDependencies u2osVersion b pf =
     (let m = bu_manifest b;
          capabilities = required_of rq_capabilities b; skills = required_of rq_skills b;
          cs = map (check_requirement ''capability'' (mf_id m) (ownCapabilities b) (existing_capability pf)) capabilities;
          ss = map (check_requirement ''skill'' (mf_id m) (ownSkills b) (existing_skill pf)) skills in
      \<lparr>dr_errors =
         u2os_problems u2osVersion (mf_requires m) @ concat (map fst cs) @ concat (map fst ss) @
         concat (map (implements_problems b pf) (bu_capabilities b)) @
         concat (map (\<lambda>(w, workflow).
             undeclared_problems w ''capability'' ''capabilities'' (ownCapabilities b) capabilities (fst (workflowReferences workflow)) @
             undeclared_problems w ''skill'' ''skills'' (ownSkills b) skills (snd (workflowReferences workflow))) (bundle_workflows b)) @
         permission_problems b pf,
       dr_capabilities = js_spread [] (concat (map snd cs)), dr_skills = js_spread [] (concat (map snd ss))\<rparr>)"

record automation_needs =
  an_capabilities :: "string list"
  an_permissions :: "string list"

definition automationRequirements :: "automation_def \<Rightarrow> platform \<Rightarrow> automation_needs" where
  "automationRequirements a pf =
     (let caps = sort_key id (capabilityClosure (map snd (pf_skills pf)) (Some (ad_workflow a))) in
      \<lparr>an_capabilities = caps,
       an_permissions = sort_key id (remdups (concat (map (\<lambda>i. case map_of (cr_contracts (pf_capabilities pf)) i of
           Some c \<Rightarrow> ct_requiredPermissions c | None \<Rightarrow> []) caps)))\<rparr>)"

section \<open>Registering a package\<close>

definition taken_problems :: "string \<Rightarrow> ('d \<Rightarrow> string) \<Rightarrow> ('d \<Rightarrow> string) \<Rightarrow> string \<Rightarrow> (string \<times> 'd) list \<Rightarrow> 'd list \<Rightarrow> string list" where
  "taken_problems kind ident pkg packageId items ds =
     concat (map (\<lambda>d. case map_of items (ident d) of
                        None \<Rightarrow> []
                      | Some old \<Rightarrow> if pkg old = packageId then [] else [kind @ '' '' @ ident d @ '' is already provided by package '' @ pkg old]) ds)"

definition contract_taken :: "string \<Rightarrow> platform \<Rightarrow> capability_def \<Rightarrow> string list" where
  "contract_taken packageId pf c =
     (if cd_implements c \<noteq> None then []
      else (case map_of (cr_contracts (pf_capabilities pf)) (cd_id c) of
        None \<Rightarrow> []
      | Some old \<Rightarrow> if ct_source old = package_source packageId then []
                   else [''capability '' @ cd_id c @ '' is already provided by '' @ ct_source old]))"

definition check_bundle :: "string \<Rightarrow> package_bundle \<Rightarrow> platform \<Rightarrow> string list" where
  "check_bundle u2osVersion b pf =
     (let packageId = mf_id (bu_manifest b) in
      concat (map (contract_taken packageId pf) (bu_capabilities b)) @
      taken_problems ''skill'' sd_id sd_packageId packageId (pf_skills pf) (bu_skills b) @
      taken_problems ''automation'' ad_id ad_packageId packageId (pf_automations pf) (bu_automations b) @
      dr_errors (validateDependencies u2osVersion b pf))"

definition unregisterPackage :: "string \<Rightarrow> platform \<Rightarrow> platform" where
  "unregisterPackage packageId pf =
     \<lparr>pf_packages = map_delete packageId (pf_packages pf),
      pf_capabilities = unregisterCapabilities packageId (pf_capabilities pf),
      pf_skills = unregister_defs sd_packageId packageId (pf_skills pf),
      pf_automations = unregister_defs ad_packageId packageId (pf_automations pf)\<rparr>"

definition contract_of :: "string \<Rightarrow> capability_def \<Rightarrow> contract" where
  "contract_of packageId c =
     \<lparr>ct_id = cd_id c, ct_version = (if cd_version c = [] then ''1.0.0'' else cd_version c), ct_description = cd_description c,
      ct_effect = (if cd_effect c = ''read'' then ''read'' else ''write''), ct_domain = hd (split_on CHR ''.'' (cd_id c)),
      ct_inputSchema = cd_inputSchema c, ct_outputSchema = cd_outputSchema c,
      ct_requiredPermissions = sort_key id (cd_requiredPermissions c), ct_source = package_source packageId\<rparr>"

definition provider_of :: "package_bundle \<Rightarrow> capability_def \<Rightarrow> provider" where
  "provider_of b c =
     (let packageId = mf_id (bu_manifest b) in
      \<lparr>pv_id = (case cd_implements c of None \<Rightarrow> packageId | Some _ \<Rightarrow> packageId @ ''/'' @ cd_id c),
       pv_capability = (case cd_implements c of None \<Rightarrow> cd_id c | Some i \<Rightarrow> i),
       pv_packageId = Some packageId, pv_kind = cd_kind c, pv_description = cd_description c,
       pv_executable = (cd_id c \<in> set (bu_providers b))\<rparr>)"

definition register_capability :: "package_bundle \<Rightarrow> capability_def \<Rightarrow> capability_registry \<Rightarrow> capability_registry res" where
  "register_capability b c r =
     (case (if cd_implements c = None then registerContract (contract_of (mf_id (bu_manifest b)) c) r else Inr r) of
        Inl e \<Rightarrow> Inl e
      | Inr r' \<Rightarrow> registerProvider (provider_of b c) r')"

text \<open>A loop of registrations; an exception leaves what was registered before it.\<close>

fun register_all :: "('d \<Rightarrow> 'r \<Rightarrow> 'r res) \<Rightarrow> 'd list \<Rightarrow> ('r, unit) eff" where
  "register_all f [] r = (Inr (), r)"
| "register_all f (d # ds) r = (case f d r of Inl e \<Rightarrow> (Inl e, r) | Inr r' \<Rightarrow> register_all f ds r')"

definition registerBundle :: "string \<Rightarrow> package_bundle \<Rightarrow> (platform, package_record) eff" where
  "registerBundle u2osVersion b pf =
     (let packageId = mf_id (bu_manifest b); errors = check_bundle u2osVersion b pf in
      if errors \<noteq> []
      then (Inl (CodedError ''PACKAGE_DEPENDENCIES'' (''Cannot register '' @ packageId @ '':'' @ concat (map (\<lambda>e. [CHR 0x0A] @ ''- '' @ e) errors))), pf)
      else
        (let pf1 = unregisterPackage packageId pf;
             record' = \<lparr>pk_manifest = bu_manifest b, pk_enabled = bu_enabled b\<rparr>;
             pf2 = pf1\<lparr>pf_packages := js_put packageId record' (pf_packages pf1)\<rparr>;
             (r1, caps) = register_all (register_capability b) (bu_capabilities b) (pf_capabilities pf2);
             pf3 = pf2\<lparr>pf_capabilities := caps\<rparr> in
         case r1 of
           Inl e \<Rightarrow> (Inl e, pf3)
         | Inr _ \<Rightarrow>
             (let (r2, skills) = register_all (\<lambda>s. register_def ''skill'' sd_id sd_packageId (s\<lparr>sd_packageId := packageId\<rparr>)) (bu_skills b) (pf_skills pf3);
                  pf4 = pf3\<lparr>pf_skills := skills\<rparr> in
              case r2 of
                Inl e \<Rightarrow> (Inl e, pf4)
              | Inr _ \<Rightarrow>
                  (let (r3, autos) = register_all (\<lambda>a. register_def ''automation'' ad_id ad_packageId (a\<lparr>ad_packageId := packageId\<rparr>))
                                       (bu_automations b) (pf_automations pf4);
                       pf5 = pf4\<lparr>pf_automations := autos\<rparr> in
                   case r3 of Inl e \<Rightarrow> (Inl e, pf5) | Inr _ \<Rightarrow> (Inr record', pf5)))))"

section \<open>The closure is what a workflow can reach\<close>

inductive reaches :: "skill_def list \<Rightarrow> jsval option \<Rightarrow> jsval option \<Rightarrow> bool" for known w where
  reach_self: "reaches known w w"
| reach_skill: "reaches known w v \<Longrightarrow> i \<in> set (snd (workflowReferences v)) \<Longrightarrow> skill_workflow known i = Some u \<Longrightarrow>
    reaches known w (Some u)"

lemma closure_visit_sound:
  assumes "\<forall>v\<in>set acc. reaches known w v" and "\<forall>i\<in>set todo. \<exists>v. reaches known w v \<and> i \<in> set (snd (workflowReferences v))"
  shows "\<forall>v\<in>set (closure_visit known todo seen acc). reaches known w v"
  using assms
proof (induction known todo seen acc rule: closure_visit.induct)
  case (2 known i todo seen acc)
  show ?case
  proof (cases "i \<in> set seen")
    case True
    have "\<forall>v\<in>set (closure_visit known todo seen acc). reaches known w v"
      by (rule 2(1) [OF True 2(4)]) (use 2(5) in simp)
    with True show ?thesis by simp
  next
    case False
    show ?thesis
    proof (cases "skill_workflow known i")
      case None
      have "\<forall>v\<in>set (closure_visit known todo (i # seen) acc). reaches known w v"
        by (rule 2(2) [OF False None 2(4)]) (use 2(5) in simp)
      with False None show ?thesis by simp
    next
      case (Some u)
      with 2(5) have u: "reaches known w (Some u)" by (auto intro: reach_skill)
      have "\<forall>v\<in>set (closure_visit known (snd (workflowReferences (Some u)) @ todo) (i # seen) (acc @ [Some u])). reaches known w v"
        by (rule 2(3) [OF False Some]) (use u 2(4,5) in auto)
      with False Some show ?thesis by simp
    qed
  qed
qed simp

lemma closure_visit_closed:
  assumes "\<forall>i\<in>set seen. \<forall>u. skill_workflow known i = Some u \<longrightarrow> Some u \<in> set acc"
    and "\<forall>v\<in>set acc. set (snd (workflowReferences v)) \<subseteq> set seen \<union> set todo"
  shows "set acc \<subseteq> set (closure_visit known todo seen acc) \<and>
    (\<forall>v\<in>set (closure_visit known todo seen acc). \<forall>i\<in>set (snd (workflowReferences v)). \<forall>u.
       skill_workflow known i = Some u \<longrightarrow> Some u \<in> set (closure_visit known todo seen acc))"
  using assms
proof (induction known todo seen acc rule: closure_visit.induct)
  case (1 known seen acc)
  then show ?case by auto
next
  case (2 known i todo seen acc)
  show ?case
  proof (cases "i \<in> set seen")
    case True
    have "\<forall>v\<in>set acc. set (snd (workflowReferences v)) \<subseteq> set seen \<union> set todo" using 2(5) True by auto
    from 2(1) [OF True 2(4) this] True show ?thesis by simp
  next
    case False
    show ?thesis
    proof (cases "skill_workflow known i")
      case None
      have "\<forall>j\<in>set (i # seen). \<forall>u. skill_workflow known j = Some u \<longrightarrow> Some u \<in> set acc"
        "\<forall>v\<in>set acc. set (snd (workflowReferences v)) \<subseteq> set (i # seen) \<union> set todo" using None 2(4,5) by auto
      from 2(2) [OF False None this] False None show ?thesis by simp
    next
      case (Some u)
      have "\<forall>j\<in>set (i # seen). \<forall>x. skill_workflow known j = Some x \<longrightarrow> Some x \<in> set (acc @ [Some u])"
        "\<forall>v\<in>set (acc @ [Some u]). set (snd (workflowReferences v)) \<subseteq> set (i # seen) \<union> set (snd (workflowReferences (Some u)) @ todo)"
        using Some 2(4,5) by auto
      from 2(3) [OF False Some this] False Some show ?thesis by simp
    qed
  qed
qed

lemma capabilityClosure_iff:
  assumes "truthy w"
  shows "c \<in> set (capabilityClosure known w) \<longleftrightarrow> (\<exists>v. reaches known w v \<and> c \<in> set (fst (workflowReferences v)))"
proof -
  let ?C = "closure_visit known (snd (workflowReferences w)) [] [w]"
  have "reaches known w v" if "v \<in> set ?C" for v
    using that closure_visit_sound [of "[w]" known w "snd (workflowReferences w)" "[]"] reach_self by auto
  moreover have "v \<in> set ?C" if "reaches known w v" for v
    using that
  proof (induction rule: reaches.induct)
    case reach_self
    then show ?case using closure_visit_closed [of "[]" known "[w]" "snd (workflowReferences w)"] by simp
  next
    case (reach_skill v i u)
    then show ?case using closure_visit_closed [of "[]" known "[w]" "snd (workflowReferences w)"] by auto
  qed
  ultimately show ?thesis using assms by (auto simp: capabilityClosure_def)
qed

text \<open>A package that is registered declares every permission its workflows can come to need.\<close>

lemma permission_problems_nil:
  assumes "permission_problems b pf = []" and "(n, w) \<in> set (bundle_workflows b)" and "truthy w"
    and "reaches (known_skills b pf) w v" and "i \<in> set (fst (workflowReferences v))" and "p \<in> set (contract_permissions b pf i)"
  shows "\<exists>h\<in>set (mf_permissions (bu_manifest b)). covers h p"
proof -
  from assms(3-5) have "i \<in> set (capabilityClosure (known_skills b pf) w)" by (auto simp: capabilityClosure_iff)
  with assms(2) have "i \<in> set (used_capabilities b pf)" by (force simp: used_capabilities_def)
  with assms(1) have "uncovered (mf_permissions (bu_manifest b)) (contract_permissions b pf i) = []"
    by (auto simp: permission_problems_def)
  with assms(6) show ?thesis by (auto simp: uncovered_def filter_empty_conv list_ex_iff)
qed

text \<open>
  C28. A package cannot be registered with less than it needs. If registering a bundle
  succeeds, then every capability that a workflow of the bundle reaches, in its own steps or
  through any chain of skills of this or other packages, asks only for permissions that the
  package's manifest declares, so the owner was shown them.
\<close>

theorem registered_package_declares_permissions:
  assumes "fst (registerBundle u2os b pf) = Inr r"
    and "(n, w) \<in> set (bundle_workflows b)" and "truthy w"
    and "reaches (known_skills b pf) w v" and "i \<in> set (fst (workflowReferences v))" and "p \<in> set (contract_permissions b pf i)"
  shows "\<exists>h\<in>set (mf_permissions (bu_manifest b)). covers h p"
proof (rule permission_problems_nil [OF _ assms(2-6)])
  from assms(1) have "check_bundle u2os b pf = []" by (auto simp: registerBundle_def Let_def split: if_splits)
  then show "permission_problems b pf = []" by (simp add: check_bundle_def validateDependencies_def Let_def)
qed

section \<open>Registering touches nothing of others\<close>

lemma map_of_filter:
  "distinct (map fst ps) \<Longrightarrow> map_of (filter P ps) k = (case map_of ps k of Some v \<Rightarrow> if P (k, v) then Some v else None | None \<Rightarrow> None)"
proof (induction ps)
  case (Cons p ps)
  then show ?case by (cases p; cases "fst p = k") (auto simp: map_of_eq_None_iff image_iff split: option.split)
qed simp

lemma distinct_filter_keys: "distinct (map fst ps) \<Longrightarrow> distinct (map fst (filter P ps))"
  by (simp add: distinct_map_filter)

text \<open>
  A registry of owned items: writing an item replaces none of another owner. What follows
  from it holds for contracts, skills and automations alike.
\<close>

locale owned_registry =
  fixes owner :: "'d \<Rightarrow> 'o"
    and put :: "'d \<Rightarrow> (string \<times> 'd) list \<Rightarrow> (string \<times> 'd) list res"
  assumes put_law: "put d items = Inr items' \<Longrightarrow>
    \<exists>k. items' = js_put k d items \<and> (\<forall>old. map_of items k = Some old \<longrightarrow> owner old = owner d)"
begin

definition same_others :: "'o \<Rightarrow> (string \<times> 'd) list \<Rightarrow> (string \<times> 'd) list \<Rightarrow> bool" where
  "same_others me items items' \<longleftrightarrow>
     distinct (map fst items') \<and> (\<forall>i d. owner d \<noteq> me \<longrightarrow> (map_of items' i = Some d \<longleftrightarrow> map_of items i = Some d))"

lemma same_refl: "distinct (map fst items) \<Longrightarrow> same_others me items items"
  by (simp add: same_others_def)

lemma same_trans: "same_others me a b \<Longrightarrow> same_others me b c \<Longrightarrow> same_others me a c"
  unfolding same_others_def by blast

lemma same_drop:
  assumes "distinct (map fst items)"
  shows "same_others me items (filter (\<lambda>p. owner (snd p) \<noteq> me) items)"
proof -
  have "map_of (filter (\<lambda>p. owner (snd p) \<noteq> me) items) i = Some d \<longleftrightarrow> map_of items i = Some d" if "owner d \<noteq> me" for i d
    unfolding map_of_filter [OF assms] using that by (cases "map_of items i") auto
  with distinct_filter_keys [OF assms] show ?thesis by (simp add: same_others_def)
qed

lemma same_put:
  assumes "put d items = Inr items'" and "owner d = me" and "distinct (map fst items)"
  shows "same_others me items items'"
proof -
  from put_law [OF assms(1)] obtain k where k: "items' = js_put k d items" "\<forall>old. map_of items k = Some old \<longrightarrow> owner old = owner d" by blast
  with assms(2,3) show ?thesis by (auto simp: same_others_def distinct_js_put)
qed

lemma same_register_all:
  "register_all (\<lambda>d. put (f d)) ds items = (x, items') \<Longrightarrow> (\<And>d. owner (f d) = me) \<Longrightarrow> distinct (map fst items) \<Longrightarrow>
     same_others me items items'"
proof (induction ds arbitrary: items)
  case Nil
  then show ?case by (simp add: same_refl)
next
  case (Cons d ds)
  show ?case
  proof (cases "put (f d) items")
    case (Inl e)
    with Cons.prems show ?thesis by (simp add: same_refl)
  next
    case (Inr items1)
    have s: "same_others me items items1" by (rule same_put [OF Inr Cons.prems(2,3)])
    have d: "distinct (map fst items1)" using s by (simp add: same_others_def)
    from Cons.prems(1) Inr have "register_all (\<lambda>d. put (f d)) ds items1 = (x, items')" by simp
    from same_trans [OF s Cons.IH [OF this Cons.prems(2) d]] show ?thesis .
  qed
qed

end

interpretation contracts: owned_registry ct_source put_contract
  by unfold_locales (auto simp: put_contract_def split: if_splits option.splits)

interpretation skills: owned_registry sd_packageId "register_def ''skill'' sd_id sd_packageId"
  by unfold_locales (auto simp: register_def_def split: if_splits option.splits)

interpretation automations: owned_registry ad_packageId "register_def ''automation'' ad_id ad_packageId"
  by unfold_locales (auto simp: register_def_def split: if_splits option.splits)

text \<open>Registering capabilities: contracts are put, providers are added at the end, selections stay.\<close>

lemma providers_put: "providers (r\<lparr>cr_providers := js_put k ps (cr_providers r)\<rparr>) i = (if i = k then ps else providers r i)"
  by (simp add: providers_def)

lemma providers_contracts [simp]: "providers (r\<lparr>cr_contracts := cs\<rparr>) i = providers r i"
  by (simp add: providers_def)

lemma register_capability_Inr:
  assumes "register_capability b c r = Inr r'"
  shows "cr_selections r' = cr_selections r"
    and "providers r' i = providers r i @ (if i = pv_capability (provider_of b c) then [provider_of b c] else [])"
    and "distinct (map fst (cr_providers r)) \<Longrightarrow> distinct (map fst (cr_providers r'))"
    and "distinct (map fst (cr_contracts r)) \<Longrightarrow> contracts.same_others (package_source (mf_id (bu_manifest b))) (cr_contracts r) (cr_contracts r')"
proof -
  from assms obtain r1 where r1: "(if cd_implements c = None then registerContract (contract_of (mf_id (bu_manifest b)) c) r else Inr r) = Inr r1"
    and r': "registerProvider (provider_of b c) r1 = Inr r'" by (auto simp: register_capability_def split: sum.splits)
  from r1 have one: "cr_selections r1 = cr_selections r" "cr_providers r1 = cr_providers r"
    by (auto simp: registerContract_def split: if_splits sum.splits simp: map_sum_def)
  from r' have two: "r' = r1\<lparr>cr_providers := js_put (pv_capability (provider_of b c)) (providers r1 (pv_capability (provider_of b c)) @ [provider_of b c]) (cr_providers r1)\<rparr>"
    by (simp add: registerProvider_def split: if_splits)
  from one two show "cr_selections r' = cr_selections r" by simp
  from one two show "providers r' i = providers r i @ (if i = pv_capability (provider_of b c) then [provider_of b c] else [])"
    by (simp add: providers_def)
  from one two show "distinct (map fst (cr_providers r'))" if "distinct (map fst (cr_providers r))"
    using that by (simp add: distinct_js_put)
  show "contracts.same_others (package_source (mf_id (bu_manifest b))) (cr_contracts r) (cr_contracts r')"
    if d: "distinct (map fst (cr_contracts r))"
  proof (cases "cd_implements c")
    case None
    with r1 have "put_contract (contract_of (mf_id (bu_manifest b)) c) (cr_contracts r) = Inr (cr_contracts r1)"
      by (cases "put_contract (contract_of (mf_id (bu_manifest b)) c) (cr_contracts r)") (auto simp: registerContract_def)
    from contracts.same_put [OF this _ d] two show ?thesis by (simp add: contract_of_def)
  next
    case (Some k)
    with r1 two d show ?thesis by (simp add: contracts.same_refl)
  qed
qed

lemma register_capabilities:
  assumes "register_all (register_capability b) cs r = (x, r')"
    and "distinct (map fst (cr_contracts r))" and "distinct (map fst (cr_providers r))"
  shows "contracts.same_others (package_source (mf_id (bu_manifest b))) (cr_contracts r) (cr_contracts r') \<and>
    cr_selections r' = cr_selections r \<and> distinct (map fst (cr_providers r')) \<and>
    (\<exists>added. providers r' i = providers r i @ added \<and> (\<forall>p\<in>set added. \<exists>c\<in>set cs. p = provider_of b c \<and> pv_capability p = i))"
  using assms
proof (induction cs arbitrary: r)
  case Nil
  then show ?case by (simp add: contracts.same_refl)
next
  case (Cons c cs)
  show ?case
  proof (cases "register_capability b c r")
    case (Inl e)
    with Cons.prems show ?thesis by (simp add: contracts.same_refl)
  next
    case (Inr r1)
    note one = register_capability_Inr [OF Inr]
    have s: "contracts.same_others (package_source (mf_id (bu_manifest b))) (cr_contracts r) (cr_contracts r1)"
      by (rule one(4) [OF Cons.prems(2)])
    then have d: "distinct (map fst (cr_contracts r1))" by (simp add: contracts.same_others_def)
    from Cons.prems(1) Inr have "register_all (register_capability b) cs r1 = (x, r')" by simp
    from Cons.IH [OF this d one(3) [OF Cons.prems(3)]] obtain added where
      rest: "contracts.same_others (package_source (mf_id (bu_manifest b))) (cr_contracts r1) (cr_contracts r')"
        "cr_selections r' = cr_selections r1" "distinct (map fst (cr_providers r'))"
        "providers r' i = providers r1 i @ added" "\<forall>p\<in>set added. \<exists>c\<in>set cs. p = provider_of b c \<and> pv_capability p = i" by blast
    let ?new = "if i = pv_capability (provider_of b c) then [provider_of b c] else []"
    have "providers r' i = providers r i @ (?new @ added)" using rest(4) one(2) [of i] by simp
    moreover have "\<forall>p\<in>set (?new @ added). \<exists>c'\<in>set (c # cs). p = provider_of b c' \<and> pv_capability p = i" using rest(5) by auto
    ultimately show ?thesis using contracts.same_trans [OF s rest(1)] rest(2,3) one(1) by metis
  qed
qed

lemma keys_map_values: "map fst (map (\<lambda>(k, v). (k, g v)) xs) = map fst xs"
  by (induction xs) auto

lemma providers_unregister:
  assumes "distinct (map fst (cr_providers r))"
  shows "providers (unregisterCapabilities packageId r) i = kept_providers packageId (providers r i)"
proof -
  let ?kept = "map (\<lambda>(cap, ps). (cap, kept_providers packageId ps)) (cr_providers r)"
  from assms have "distinct (map fst ?kept)" by (simp only: keys_map_values)
  from map_of_filter [OF this, of "\<lambda>p. snd p \<noteq> []" i]
  have "map_of (filter (\<lambda>p. snd p \<noteq> []) ?kept) i =
      (case map_option (kept_providers packageId) (map_of (cr_providers r) i) of Some v \<Rightarrow> if v \<noteq> [] then Some v else None | None \<Rightarrow> None)"
    by (simp only: map_of_map snd_conv comp_apply)
  moreover have "cr_providers (unregisterCapabilities packageId r) = filter (\<lambda>p. snd p \<noteq> []) ?kept"
    unfolding unregisterCapabilities_def Let_def by (simp only: capability_registry.simps)
  ultimately show ?thesis by (simp add: providers_def kept_providers_def split: option.split)
qed

lemma unregister_keys:
  assumes "distinct (map fst (cr_providers r))"
  shows "distinct (map fst (cr_providers (unregisterCapabilities packageId r)))"
proof -
  from assms have "distinct (map fst (map (\<lambda>(cap, ps). (cap, kept_providers packageId ps)) (cr_providers r)))"
    by (simp only: keys_map_values)
  from distinct_filter_keys [OF this] show ?thesis unfolding unregisterCapabilities_def Let_def by (simp only: capability_registry.simps)
qed

text \<open>
  What holds of the registries: keys are unique, and only the core provides a capability
  whose contract is the core's.
\<close>

definition registry_ok :: "capability_registry \<Rightarrow> bool" where
  "registry_ok r \<longleftrightarrow>
     distinct (map fst (cr_contracts r)) \<and> distinct (map fst (cr_providers r)) \<and> distinct (map fst (cr_selections r)) \<and>
     (\<forall>i k. map_of (cr_contracts r) i = Some k \<longrightarrow> ct_source k = ''core'' \<longrightarrow> (\<forall>p\<in>set (providers r i). pv_packageId p = None))"

definition platform_ok :: "platform \<Rightarrow> bool" where
  "platform_ok pf \<longleftrightarrow> registry_ok (pf_capabilities pf) \<and> distinct (map fst (pf_skills pf)) \<and> distinct (map fst (pf_automations pf))"

lemma kept_all: "\<forall>p\<in>set ps. pv_packageId p = None \<Longrightarrow> kept_providers packageId ps = ps"
  by (simp add: kept_providers_def filter_id_conv)

text \<open>Removing a package's contributions changes no other contract, and nothing at all about a core capability.\<close>

lemma unregister_contracts:
  assumes "registry_ok r"
  shows "contracts.same_others (package_source packageId) (cr_contracts r) (cr_contracts (unregisterCapabilities packageId r))"
  using assms contracts.same_drop by (simp add: unregisterCapabilities_def Let_def registry_ok_def)

lemma unregister_ok:
  assumes "registry_ok r"
  shows "registry_ok (unregisterCapabilities packageId r)"
proof -
  let ?r = "unregisterCapabilities packageId r"
  from assms have d: "distinct (map fst (cr_contracts r))" "distinct (map fst (cr_providers r))" "distinct (map fst (cr_selections r))"
    by (simp_all add: registry_ok_def)
  have "distinct (map fst (cr_contracts ?r))" "distinct (map fst (cr_selections ?r))"
    using d by (simp_all add: unregisterCapabilities_def Let_def distinct_filter_keys)
  moreover have "\<forall>p\<in>set (providers ?r i). pv_packageId p = None"
    if "map_of (cr_contracts ?r) i = Some k" "ct_source k = ''core''" for i k
  proof -
    from unregister_contracts [OF assms, of packageId] that have "map_of (cr_contracts r) i = Some k"
      by (auto simp: contracts.same_others_def package_source_def)
    with assms that(2) have "\<forall>p\<in>set (providers r i). pv_packageId p = None" by (simp add: registry_ok_def)
    then show ?thesis by (simp add: providers_unregister [OF d(2)] kept_providers_def)
  qed
  ultimately show ?thesis using unregister_keys [OF d(2)] by (simp add: registry_ok_def)
qed

lemma unregister_core:
  assumes "registry_ok r" and "map_of (cr_contracts r) i = Some k" and "ct_source k = ''core''"
  shows "providers (unregisterCapabilities packageId r) i = providers r i"
    and "resolveProvider (unregisterCapabilities packageId r) i = resolveProvider r i"
proof -
  from assms have n: "\<forall>p\<in>set (providers r i). pv_packageId p = None" and d: "distinct (map fst (cr_providers r))" "distinct (map fst (cr_selections r))"
    by (auto simp: registry_ok_def)
  show p: "providers (unregisterCapabilities packageId r) i = providers r i"
    using providers_unregister [OF d(1)] kept_all [OF n] by simp
  let ?kept = "map (\<lambda>(cap, ps). (cap, kept_providers packageId ps)) (cr_providers r)"
  have kept: "map_of ?kept i = (case map_of (cr_providers r) i of None \<Rightarrow> None | Some ps \<Rightarrow> Some (providers r i))"
    using kept_all [OF n, of packageId] by (auto simp: map_of_map providers_def split: option.split)
  let ?s = "map_of (cr_selections r) i" and ?s' = "map_of (cr_selections (unregisterCapabilities packageId r)) i"
  have s': "?s' = (case ?s of None \<Rightarrow> None | Some v \<Rightarrow>
      if (case map_of (cr_providers r) i of None \<Rightarrow> True | Some _ \<Rightarrow> list_ex (\<lambda>p. pv_id p = v) (providers r i)) then Some v else None)"
    using d(2) kept by (simp add: unregisterCapabilities_def Let_def map_of_filter split: option.split)
  have "sql_get (\<lambda>p. Some (pv_id p) = ?s') (providers r i) = sql_get (\<lambda>p. Some (pv_id p) = ?s) (providers r i)"
  proof (cases "?s' = ?s")
    case False
    with s' obtain v where v: "?s = Some v" "?s' = None" "\<not> list_ex (\<lambda>p. pv_id p = v) (providers r i)"
      by (auto split: option.splits if_splits)
    then have "sql_get (\<lambda>p. Some (pv_id p) = ?s) (providers r i) = None" by (auto simp: sql_get_None_iff list_ex_iff)
    moreover have "sql_get (\<lambda>p. Some (pv_id p) = ?s') (providers r i) = None" using v(2) by (simp add: sql_get_None_iff)
    ultimately show ?thesis by simp
  qed simp
  with p show "resolveProvider (unregisterCapabilities packageId r) i = resolveProvider r i" by (simp add: resolveProvider_def)
qed

text \<open>The states a registration can leave.\<close>

definition skill_put :: "string \<Rightarrow> skill_def \<Rightarrow> (string \<times> skill_def) list \<Rightarrow> (string \<times> skill_def) list res" where
  "skill_put me d = register_def ''skill'' sd_id sd_packageId (d\<lparr>sd_packageId := me\<rparr>)"

definition automation_put :: "string \<Rightarrow> automation_def \<Rightarrow> (string \<times> automation_def) list \<Rightarrow> (string \<times> automation_def) list res" where
  "automation_put me d = register_def ''automation'' ad_id ad_packageId (d\<lparr>ad_packageId := me\<rparr>)"

lemma registerBundle_cases:
  assumes "registerBundle u2os b pf = (r, pf')" and "pf' \<noteq> pf"
  shows "check_bundle u2os b pf = [] \<and>
    (\<exists>x. register_all (register_capability b) (bu_capabilities b) (unregisterCapabilities (mf_id (bu_manifest b)) (pf_capabilities pf)) = (x, pf_capabilities pf')) \<and>
    (\<exists>ds x. register_all (skill_put (mf_id (bu_manifest b))) ds (unregister_defs sd_packageId (mf_id (bu_manifest b)) (pf_skills pf)) = (x, pf_skills pf')) \<and>
    (\<exists>ds x. register_all (automation_put (mf_id (bu_manifest b))) ds (unregister_defs ad_packageId (mf_id (bu_manifest b)) (pf_automations pf)) = (x, pf_automations pf'))"
proof -
  let ?me = "mf_id (bu_manifest b)"
  from assms have c: "check_bundle u2os b pf = []" by (auto simp: registerBundle_def Let_def split: if_splits)
  obtain x caps where caps: "register_all (register_capability b) (bu_capabilities b) (unregisterCapabilities ?me (pf_capabilities pf)) = (x, caps)" by force
  obtain y skills where skills: "register_all (skill_put ?me) (bu_skills b) (unregister_defs sd_packageId ?me (pf_skills pf)) = (y, skills)" by force
  obtain z autos where autos: "register_all (automation_put ?me) (bu_automations b) (unregister_defs ad_packageId ?me (pf_automations pf)) = (z, autos)" by force
  have none: "register_all f [] items = (Inr (), items)" for f :: "'d \<Rightarrow> 'r \<Rightarrow> 'r res" and items by simp
  note regs = caps skills [unfolded skill_put_def [abs_def]] autos [unfolded automation_put_def [abs_def]]
  show ?thesis
  proof (cases "isl x")
    case True
    with assms(1) c regs have "pf_capabilities pf' = caps" "pf_skills pf' = unregister_defs sd_packageId ?me (pf_skills pf)"
      "pf_automations pf' = unregister_defs ad_packageId ?me (pf_automations pf)"
      by (auto simp: registerBundle_def Let_def unregisterPackage_def isl_def)
    with c caps none show ?thesis by metis
  next
    case False
    then obtain u where x: "x = Inr u" by (cases x) auto
    show ?thesis
    proof (cases "isl y")
      case True
      with assms(1) c regs x have "pf_capabilities pf' = caps" "pf_skills pf' = skills"
        "pf_automations pf' = unregister_defs ad_packageId ?me (pf_automations pf)"
        by (auto simp: registerBundle_def Let_def unregisterPackage_def isl_def)
      with c caps skills none show ?thesis by metis
    next
      case False
      then obtain v where y: "y = Inr v" by (cases y) auto
      with assms(1) c regs x have "pf_capabilities pf' = caps" "pf_skills pf' = skills" "pf_automations pf' = autos"
        by (auto simp: registerBundle_def Let_def unregisterPackage_def split: sum.splits)
      with c caps skills autos show ?thesis by metis
    qed
  qed
qed

lemma check_bundle_core:
  assumes "check_bundle u2os b pf = []" and "map_of (cr_contracts (pf_capabilities pf)) i = Some k" and "ct_source k = ''core''"
    and "c \<in> set (bu_capabilities b)"
  shows "pv_capability (provider_of b c) \<noteq> i"
proof
  assume i: "pv_capability (provider_of b c) = i"
  show False
  proof (cases "cd_implements c")
    case None
    with i have "cd_id c = i" by (simp add: provider_of_def Let_def)
    with None assms(2,3) have "contract_taken (mf_id (bu_manifest b)) pf c \<noteq> []" by (simp add: contract_taken_def package_source_def)
    with assms(1,4) show False by (simp add: check_bundle_def Let_def)
  next
    case (Some j)
    with i have "j = i" by (simp add: provider_of_def Let_def)
    with Some assms(2,3) have "implements_problems b pf c \<noteq> []" by (simp add: implements_problems_def)
    with assms(1,4) show False by (simp add: check_bundle_def validateDependencies_def Let_def)
  qed
qed

text \<open>What a registration does to the capability registry.\<close>

lemma registered_capabilities:
  assumes "registry_ok r0" and "pf_capabilities pf = r0" and "check_bundle u2os b pf = []"
    and "register_all (register_capability b) (bu_capabilities b) (unregisterCapabilities (mf_id (bu_manifest b)) r0) = (x, r')"
  shows "contracts.same_others (package_source (mf_id (bu_manifest b))) (cr_contracts r0) (cr_contracts r')"
    and "kept_providers (mf_id (bu_manifest b)) (providers r' i) = kept_providers (mf_id (bu_manifest b)) (providers r0 i)"
    and "map_of (cr_contracts r0) i = Some k \<Longrightarrow> ct_source k = ''core'' \<Longrightarrow>
      providers r' i = providers r0 i \<and> resolveProvider r' i = resolveProvider r0 i"
    and "registry_ok r'"
proof -
  let ?me = "mf_id (bu_manifest b)" and ?r1 = "unregisterCapabilities (mf_id (bu_manifest b)) r0"
  have ok1: "registry_ok ?r1" by (rule unregister_ok [OF assms(1)])
  then have d1: "distinct (map fst (cr_contracts ?r1))" "distinct (map fst (cr_providers ?r1))" by (simp_all add: registry_ok_def)
  note reg = register_capabilities [OF assms(4) d1]
  show same: "contracts.same_others (package_source ?me) (cr_contracts r0) (cr_contracts r')"
    using contracts.same_trans [OF unregister_contracts [OF assms(1)]] reg by blast
  from assms(1) have d0: "distinct (map fst (cr_providers r0))" by (simp add: registry_ok_def)
  from reg [of i] obtain added where added: "providers r' i = providers ?r1 i @ added"
    "\<forall>p\<in>set added. \<exists>c\<in>set (bu_capabilities b). p = provider_of b c \<and> pv_capability p = i" by blast
  then have "kept_providers ?me added = []" by (auto simp: kept_providers_def filter_empty_conv provider_of_def Let_def)
  with added(1) show "kept_providers ?me (providers r' i) = kept_providers ?me (providers r0 i)"
    by (simp add: providers_unregister [OF d0] kept_providers_def)
  have core: "providers r' j = providers r0 j \<and> resolveProvider r' j = resolveProvider r0 j"
    if k: "map_of (cr_contracts r0) j = Some k" "ct_source k = ''core''" for j k
  proof -
    from reg [of j] obtain more where more: "providers r' j = providers ?r1 j @ more"
      "\<forall>p\<in>set more. \<exists>c\<in>set (bu_capabilities b). p = provider_of b c \<and> pv_capability p = j" by blast
    have "more = []" using more(2) check_bundle_core [OF assms(3), of j k] k assms(2) by (cases more) auto
    with more(1) have "providers r' j = providers ?r1 j" by simp
    moreover from reg have "cr_selections r' = cr_selections ?r1" by blast
    ultimately show ?thesis using unregister_core [OF assms(1) k, of ?me] by (simp add: resolveProvider_def)
  qed
  then show "map_of (cr_contracts r0) i = Some k \<Longrightarrow> ct_source k = ''core'' \<Longrightarrow>
      providers r' i = providers r0 i \<and> resolveProvider r' i = resolveProvider r0 i" by blast
  have "\<forall>p\<in>set (providers r' j). pv_packageId p = None" if "map_of (cr_contracts r') j = Some k" "ct_source k = ''core''" for j k
  proof -
    from same that have "map_of (cr_contracts r0) j = Some k" by (auto simp: contracts.same_others_def package_source_def)
    with core that(2) assms(1) show ?thesis by (simp add: registry_ok_def)
  qed
  with same reg ok1 show "registry_ok r'" by (simp add: registry_ok_def contracts.same_others_def)
qed

text \<open>
  Registering or upgrading a package, whether or not it succeeds, changes nothing that
  is not its own: the contracts, skills and automations of the core and of other packages are
  the same, no provider of another package is lost, reordered or added, and a capability of
  the core keeps its providers and the one that is chosen to run.
\<close>

theorem registration_changes_only_its_own:
  assumes "platform_ok pf" and "registerBundle u2os b pf = (r, pf')"
  shows "platform_ok pf' \<and>
    (\<forall>i k. ct_source k \<noteq> ''package:'' @ mf_id (bu_manifest b) \<longrightarrow>
       (map_of (cr_contracts (pf_capabilities pf')) i = Some k \<longleftrightarrow> map_of (cr_contracts (pf_capabilities pf)) i = Some k)) \<and>
    (\<forall>i d. sd_packageId d \<noteq> mf_id (bu_manifest b) \<longrightarrow> (map_of (pf_skills pf') i = Some d \<longleftrightarrow> map_of (pf_skills pf) i = Some d)) \<and>
    (\<forall>i d. ad_packageId d \<noteq> mf_id (bu_manifest b) \<longrightarrow> (map_of (pf_automations pf') i = Some d \<longleftrightarrow> map_of (pf_automations pf) i = Some d)) \<and>
    (\<forall>i. filter (\<lambda>p. pv_packageId p \<noteq> Some (mf_id (bu_manifest b))) (providers (pf_capabilities pf') i) =
         filter (\<lambda>p. pv_packageId p \<noteq> Some (mf_id (bu_manifest b))) (providers (pf_capabilities pf) i)) \<and>
    (\<forall>i k. map_of (cr_contracts (pf_capabilities pf)) i = Some k \<longrightarrow> ct_source k = ''core'' \<longrightarrow>
       resolveProvider (pf_capabilities pf') i = resolveProvider (pf_capabilities pf) i)"
proof (cases "pf' = pf")
  case True
  with assms(1) show ?thesis by simp
next
  case False
  let ?me = "mf_id (bu_manifest b)"
  from assms(1) have ok: "registry_ok (pf_capabilities pf)" "distinct (map fst (pf_skills pf))" "distinct (map fst (pf_automations pf))"
    by (simp_all add: platform_ok_def)
  from registerBundle_cases [OF assms(2) False] obtain x ds y es z where c: "check_bundle u2os b pf = []"
    and caps: "register_all (register_capability b) (bu_capabilities b) (unregisterCapabilities ?me (pf_capabilities pf)) = (x, pf_capabilities pf')"
    and sk: "register_all (skill_put ?me) ds (unregister_defs sd_packageId ?me (pf_skills pf)) = (y, pf_skills pf')"
    and au: "register_all (automation_put ?me) es (unregister_defs ad_packageId ?me (pf_automations pf)) = (z, pf_automations pf')" by blast
  note cap = registered_capabilities [OF ok(1) refl c caps]
  have sk0: "skills.same_others ?me (pf_skills pf) (unregister_defs sd_packageId ?me (pf_skills pf))"
    using skills.same_drop [OF ok(2)] by (simp add: unregister_defs_def)
  have "skills.same_others ?me (unregister_defs sd_packageId ?me (pf_skills pf)) (pf_skills pf')"
    by (rule skills.same_register_all [OF sk [unfolded skill_put_def [abs_def]]]) (use sk0 in \<open>simp_all add: skills.same_others_def\<close>)
  note sk' = skills.same_trans [OF sk0 this]
  have au0: "automations.same_others ?me (pf_automations pf) (unregister_defs ad_packageId ?me (pf_automations pf))"
    using automations.same_drop [OF ok(3)] by (simp add: unregister_defs_def)
  have "automations.same_others ?me (unregister_defs ad_packageId ?me (pf_automations pf)) (pf_automations pf')"
    by (rule automations.same_register_all [OF au [unfolded automation_put_def [abs_def]]]) (use au0 in \<open>simp_all add: automations.same_others_def\<close>)
  note au' = automations.same_trans [OF au0 this]
  show ?thesis
    using cap sk' au' unfolding platform_ok_def skills.same_others_def automations.same_others_def contracts.same_others_def
      kept_providers_def package_source_def by blast
qed

text \<open>
  An upgrade forgets the owner's choice: when a package is registered anew, the selection of
  each provider of its own is dropped from the registry and not restored (\<open>select\<close> is called
  only at startup), so the provider that runs may change although the owner chose it.
\<close>

lemma upgrade_forgets_selection:
  assumes "platform_ok pf" and "registerBundle u2os b pf = (Inr r, pf')"
    and "map_of (cr_selections (pf_capabilities pf)) i = Some chosen"
    and "map_of (cr_providers (pf_capabilities pf)) i = Some ps"
    and "\<forall>p\<in>set ps. pv_id p = chosen \<longrightarrow> pv_packageId p = Some (mf_id (bu_manifest b))"
  shows "map_of (cr_selections (pf_capabilities pf')) i = None"
proof -
  let ?me = "mf_id (bu_manifest b)" and ?r0 = "pf_capabilities pf"
  from assms(1) have ok: "registry_ok ?r0" by (simp add: platform_ok_def)
  then have d: "distinct (map fst (cr_selections ?r0))" by (simp add: registry_ok_def)
  have kept: "map_of (map (\<lambda>(cap, ps). (cap, kept_providers ?me ps)) (cr_providers ?r0)) i = Some (kept_providers ?me ps)"
    using assms(4) by (simp add: map_of_map)
  have "\<not> list_ex (\<lambda>p. pv_id p = chosen) (kept_providers ?me ps)" using assms(5) by (auto simp: list_ex_iff kept_providers_def)
  then have gone: "map_of (cr_selections (unregisterCapabilities ?me ?r0)) i = None"
    using assms(3) kept by (simp add: unregisterCapabilities_def Let_def map_of_filter [OF d])
  obtain x caps where caps: "register_all (register_capability b) (bu_capabilities b) (unregisterCapabilities ?me ?r0) = (x, caps)" by force
  from unregister_ok [OF ok, of ?me] have d1: "distinct (map fst (cr_contracts (unregisterCapabilities ?me ?r0)))"
    "distinct (map fst (cr_providers (unregisterCapabilities ?me ?r0)))" by (simp_all add: registry_ok_def)
  from assms(2) caps have "pf_capabilities pf' = caps"
    by (auto simp: registerBundle_def Let_def unregisterPackage_def case_prod_beta split: if_splits sum.splits)
  moreover from register_capabilities [OF caps d1] have "cr_selections caps = cr_selections (unregisterCapabilities ?me ?r0)" by blast
  ultimately show ?thesis using gone by simp
qed

section \<open>Examples\<close>

definition ex_core :: platform where
  "ex_core =
     \<lparr>pf_packages = [],
      pf_capabilities = \<lparr>cr_contracts = [(''email.send'', \<lparr>ct_id = ''email.send'', ct_version = ''1.0.0'', ct_description = [], ct_effect = ''write'',
          ct_domain = ''email'', ct_inputSchema = JObj [], ct_outputSchema = None, ct_requiredPermissions = [''email.send''], ct_source = ''core''\<rparr>)],
        cr_providers = [(''email.send'', [\<lparr>pv_id = ''core'', pv_capability = ''email.send'', pv_packageId = None, pv_kind = ''tool'',
          pv_description = [], pv_executable = True\<rparr>])], cr_selections = []\<rparr>,
      pf_skills = [], pf_automations = []\<rparr>"

definition ex_manifest :: manifest where
  "ex_manifest =
     \<lparr>mf_id = ''com.example.mailer'', mf_name = ''Mailer'', mf_version = ''0.1.0'', mf_description = [], mf_requires = \<lparr>rq_u2os = None, rq_capabilities = [(''email.send'', ''^1.0'')], rq_skills = []\<rparr>,
      mf_capabilities = [], mf_skills = [], mf_permissions = [''email.send''], mf_policies = [], mf_settings = [], mf_emits = []\<rparr>"

definition ex_send_workflow :: jsval where
  "ex_send_workflow = JObj [(''steps'', JArr [JObj [(''id'', JStr ''send''), (''use'', JStr ''capability:email.send'')]])]"

definition ex_bundle :: package_bundle where
  "ex_bundle =
     \<lparr>bu_manifest = ex_manifest, bu_capabilities = [], bu_skills = [],
      bu_automations = [\<lparr>ad_id = ''weekly'', ad_packageId = [], ad_triggers = [], ad_concurrency = ''single'', ad_workflow = ex_send_workflow, ad_state_schema = None\<rparr>],
      bu_providers = [], bu_enabled = True\<rparr>"

lemma ex_registered: "fst (registerBundle ''0.5.0'' ex_bundle ex_core) = Inr \<lparr>pk_manifest = ex_manifest, pk_enabled = True\<rparr>"
  by code_simp

theorem registered_package_declares_permissions_witness:
  "contract_permissions ex_bundle ex_core ''email.send'' = [''email.send''] \<and> (\<exists>h\<in>set (mf_permissions ex_manifest). covers h ''email.send'')"
proof -
  have "(''automation weekly'', Some ex_send_workflow) \<in> set (bundle_workflows ex_bundle)" by (simp add: bundle_workflows_def ex_bundle_def)
  moreover have "truthy (Some ex_send_workflow)" by (simp add: ex_send_workflow_def)
  moreover have "''email.send'' \<in> set (fst (workflowReferences (Some ex_send_workflow)))" by code_simp
  moreover have p: "contract_permissions ex_bundle ex_core ''email.send'' = [''email.send'']" by code_simp
  ultimately have "\<exists>h\<in>set (mf_permissions (bu_manifest ex_bundle)). covers h ''email.send''"
    by (intro registered_package_declares_permissions [OF ex_registered _ _ reach_self]) auto
  with p show ?thesis by (simp add: ex_bundle_def)
qed

theorem registration_changes_only_its_own_witness:
  "platform_ok ex_core \<and>
   resolveProvider (pf_capabilities (snd (registerBundle ''0.5.0'' ex_bundle ex_core))) ''email.send'' = resolveProvider (pf_capabilities ex_core) ''email.send''"
proof -
  have ok: "platform_ok ex_core" by (simp add: platform_ok_def registry_ok_def ex_core_def providers_def)
  obtain k where "map_of (cr_contracts (pf_capabilities ex_core)) ''email.send'' = Some k" "ct_source k = ''core''"
    by (simp add: ex_core_def)
  then show ?thesis using ok registration_changes_only_its_own [OF ok, of "''0.5.0''" ex_bundle
      "fst (registerBundle ''0.5.0'' ex_bundle ex_core)" "snd (registerBundle ''0.5.0'' ex_bundle ex_core)"] by simp
qed

end
