(* ===== verification/U2_Package_Store.thy ===== *)
theory U2_Package_Store
  imports U2_Registries
begin

text \<open>
  The persistent state of packages, \<open>server/packages/store.js\<close>: which packages are installed,
  the permissions the owner granted, the owner's settings and policy modes, and the choice
  of providers. Each table is a list of rows; the clock is an argument.
\<close>

section \<open>Tables\<close>

record package_row =
  pw_id :: string
  pw_version :: string
  pw_name :: string
  pw_description :: string
  pw_sourceType :: string
  pw_sourceRef :: "string option"
  pw_installPath :: "string option"
  pw_manifest :: manifest
  pw_status :: string
  pw_enabled :: bool
  pw_installedAt :: int
  pw_updatedAt :: int

record grant_row =
  gw_package :: string
  gw_permission :: string
  gw_grantedBy :: string
  gw_grantedAt :: int

record setting_row =
  sw_package :: string
  sw_kind :: string
  sw_key :: string
  sw_value :: jsval
  sw_updatedAt :: int

record package_db =
  pd_packages :: "package_row list"
  pd_grants :: "grant_row list"
  pd_settings :: "setting_row list"
  pd_choices :: "(string \<times> string) list"

section \<open>Packages\<close>

record package_input =
  pi_manifest :: manifest
  pi_sourceType :: string
  pi_sourceRef :: "string option"
  pi_installPath :: "string option"
  pi_enabled :: bool

definition getPackageRow :: "string \<Rightarrow> package_db \<Rightarrow> package_row option" where
  "getPackageRow i d = sql_get (\<lambda>r. pw_id r = i) (pd_packages d)"

definition new_package_row :: "package_input \<Rightarrow> int \<Rightarrow> package_row" where
  "new_package_row p now =
     (let m = pi_manifest p in
      \<lparr>pw_id = mf_id m, pw_version = mf_version m, pw_name = mf_name m, pw_description = mf_description m,
       pw_sourceType = pi_sourceType p, pw_sourceRef = pi_sourceRef p, pw_installPath = pi_installPath p, pw_manifest = m,
       pw_status = ''installed'', pw_enabled = pi_enabled p, pw_installedAt = now, pw_updatedAt = now\<rparr>)"

text \<open>\<open>ON CONFLICT(id) DO UPDATE\<close> rewrites every column but the id and the time of installation.\<close>

definition upsert_row :: "package_row \<Rightarrow> package_row \<Rightarrow> package_row" where
  "upsert_row new old = new\<lparr>pw_id := pw_id old, pw_installedAt := pw_installedAt old\<rparr>"

definition upsertPackage :: "package_input \<Rightarrow> int \<Rightarrow> package_db \<Rightarrow> package_row option \<times> package_db" where
  "upsertPackage p now d =
     (let i = mf_id (pi_manifest p); new = new_package_row p now;
          d' = (case getPackageRow i d of
                  None \<Rightarrow> d\<lparr>pd_packages := pd_packages d @ [new]\<rparr>
                | Some _ \<Rightarrow> d\<lparr>pd_packages := sql_update (\<lambda>r. pw_id r = i) (upsert_row new) (pd_packages d)\<rparr>) in
      (getPackageRow i d', d'))"

definition listPackageRows :: "bool \<Rightarrow> package_db \<Rightarrow> package_row list" where
  "listPackageRows includeUninstalled d =
     sort_key pw_id (if includeUninstalled then pd_packages d else filter (\<lambda>r. pw_status r = ''installed'') (pd_packages d))"

definition enable_row :: "bool \<times> int \<Rightarrow> package_row \<Rightarrow> package_row" where
  "enable_row p r = r\<lparr>pw_enabled := fst p, pw_updatedAt := snd p\<rparr>"

definition setPackageEnabled :: "string \<Rightarrow> bool \<Rightarrow> int \<Rightarrow> package_db \<Rightarrow> package_row option \<times> package_db" where
  "setPackageEnabled i enabled now d =
     (let d' = d\<lparr>pd_packages := sql_update (\<lambda>r. pw_id r = i) (enable_row (enabled, now)) (pd_packages d)\<rparr> in (getPackageRow i d', d'))"

definition uninstall_row :: "int \<Rightarrow> package_row \<Rightarrow> package_row" where
  "uninstall_row now r = r\<lparr>pw_status := ''uninstalled'', pw_enabled := False, pw_installPath := None, pw_updatedAt := now\<rparr>"

definition markPackageUninstalled :: "string \<Rightarrow> int \<Rightarrow> package_db \<Rightarrow> package_db" where
  "markPackageUninstalled i now d = d\<lparr>pd_packages := sql_update (\<lambda>r. pw_id r = i) (uninstall_row now) (pd_packages d)\<rparr>"

section \<open>Grants\<close>

definition listGrants :: "string \<Rightarrow> package_db \<Rightarrow> string list" where
  "listGrants i d = sort_key id (map gw_permission (filter (\<lambda>g. gw_package g = i) (pd_grants d)))"

definition insert_grant :: "string \<Rightarrow> string \<Rightarrow> int \<Rightarrow> string \<Rightarrow> grant_row list \<Rightarrow> grant_row list" where
  "insert_grant i by' now perm gs =
     (if list_ex (\<lambda>g. gw_package g = i \<and> gw_permission g = perm) gs then gs
      else gs @ [\<lparr>gw_package = i, gw_permission = perm, gw_grantedBy = by', gw_grantedAt = now\<rparr>])"

definition grantPermissions :: "string \<Rightarrow> string list \<Rightarrow> string \<Rightarrow> int \<Rightarrow> (package_db, string list) eff" where
  "grantPermissions i perms by' now d =
     (case getPackageRow i d of
        None \<Rightarrow> (Inl (HttpError 404 (''Package '' @ i @ '' is not installed'')), d)
      | Some r \<Rightarrow>
          if pw_status r \<noteq> ''installed'' then (Inl (HttpError 404 (''Package '' @ i @ '' is not installed'')), d)
          else (let undeclared = filter (\<lambda>p. p \<notin> set (mf_permissions (pw_manifest r))) perms in
            if undeclared \<noteq> [] then (Inl (HttpError 400 (i @ '' does not declare: '' @ join_with '', '' undeclared)), d)
            else (let d' = d\<lparr>pd_grants := fold (insert_grant i by' now) perms (pd_grants d)\<rparr> in (Inr (listGrants i d'), d'))))"

definition revokePermissions :: "string \<Rightarrow> string list option \<Rightarrow> package_db \<Rightarrow> string list \<times> package_db" where
  "revokePermissions i perms d =
     (let d' = d\<lparr>pd_grants := filter (\<lambda>g. \<not> (gw_package g = i \<and> (case perms of None \<Rightarrow> True | Some ps \<Rightarrow> gw_permission g \<in> set ps))) (pd_grants d)\<rparr> in
      (listGrants i d', d'))"

definition pruneGrants :: "string \<Rightarrow> string list \<Rightarrow> package_db \<Rightarrow> string list \<times> package_db" where
  "pruneGrants i declared d =
     (let stale = filter (\<lambda>p. p \<notin> set declared) (listGrants i d);
          d' = (if stale \<noteq> [] then snd (revokePermissions i (Some stale) d) else d) in (listGrants i d', d'))"

section \<open>Settings\<close>

record stored_settings =
  ss_settings :: "(string \<times> jsval) list"
  ss_policies :: "(string \<times> jsval) list"

definition settings_of :: "string \<Rightarrow> (string \<Rightarrow> bool) \<Rightarrow> package_db \<Rightarrow> (string \<times> jsval) list" where
  "settings_of i kind d =
     js_spread [] (map (\<lambda>r. (sw_key r, sw_value r)) (filter (\<lambda>r. sw_package r = i \<and> kind (sw_kind r)) (pd_settings d)))"

definition getStoredSettings :: "string \<Rightarrow> package_db \<Rightarrow> stored_settings" where
  "getStoredSettings i d =
     \<lparr>ss_settings = settings_of i (\<lambda>k. k \<noteq> ''policy'') d, ss_policies = settings_of i (\<lambda>k. k = ''policy'') d\<rparr>"

definition setting_value :: "stored_settings \<Rightarrow> string \<times> jsval \<Rightarrow> (string \<times> jsval) list" where
  "setting_value stored p =
     (case map_of (ss_settings stored) (fst p) of
        Some v \<Rightarrow> [(fst p, v)]
      | None \<Rightarrow> (case property (snd p) ''default'' of Some v \<Rightarrow> [(fst p, v)] | None \<Rightarrow> []))"

definition effectiveSettings :: "manifest \<Rightarrow> stored_settings \<Rightarrow> (string \<times> jsval) list" where
  "effectiveSettings m stored = concat (map (setting_value stored) (mf_settings m))"

definition setting_errors :: "(jsval \<Rightarrow> rat option) \<Rightarrow> manifest \<Rightarrow> string \<times> jsval \<Rightarrow> string list res" where
  "setting_errors num m p =
     (case js_get (Some (JObj (mf_settings m))) (fst p) of
        None \<Rightarrow> Inr [fst p @ '': unknown setting'']
      | Some schema \<Rightarrow>
          if \<not> truthy (Some schema) then Inr [fst p @ '': unknown setting'']
          else if snd p = JNull then Inr []
          else validate num schema (of_json (snd p)) (fst p))"

text \<open>One row per package, kind and key: \<open>ON CONFLICT \<dots> DO UPDATE\<close>, or its deletion.\<close>

definition put_setting :: "string \<Rightarrow> string \<Rightarrow> int \<Rightarrow> string \<times> jsval option \<Rightarrow> setting_row list \<Rightarrow> setting_row list" where
  "put_setting i kind now p rows =
     (let this = (\<lambda>r. sw_package r = i \<and> sw_kind r = kind \<and> sw_key r = fst p) in
      case snd p of
        None \<Rightarrow> filter (\<lambda>r. \<not> this r) rows
      | Some v \<Rightarrow>
          if list_ex this rows then sql_update this (\<lambda>r. r\<lparr>sw_value := v, sw_updatedAt := now\<rparr>) rows
          else rows @ [\<lparr>sw_package = i, sw_kind = kind, sw_key = fst p, sw_value = v, sw_updatedAt = now\<rparr>])"

definition setSettings :: "(jsval \<Rightarrow> rat option) \<Rightarrow> manifest \<Rightarrow> (string \<times> jsval) list \<Rightarrow> int \<Rightarrow> (package_db, (string \<times> jsval) list) eff" where
  "setSettings num m values now d =
     (case all_or_error (map (setting_errors num m) values) of
        Inl e \<Rightarrow> (Inl e, d)
      | Inr errs \<Rightarrow>
          if concat errs \<noteq> [] then (Inl (HttpError 400 (''Invalid settings: '' @ join_with ''; '' (concat errs))), d)
          else (let d' = d\<lparr>pd_settings := fold (\<lambda>p. put_setting (mf_id m) ''setting'' now (fst p, if snd p = JNull then None else Some (snd p))) values (pd_settings d)\<rparr> in
            (Inr (effectiveSettings m (getStoredSettings (mf_id m) d')), d')))"

definition setPolicyApproval :: "manifest \<Rightarrow> string \<Rightarrow> jsval \<Rightarrow> int \<Rightarrow> (package_db, (string \<times> jsval) list) eff" where
  "setPolicyApproval m name approval now d =
     (if map_of (mf_policies m) name = None \<and> name \<notin> set object_prototype_keys
      then (Inl (HttpError 400 (''Unknown policy '' @ name)), d)
      else if approval \<noteq> JNull \<and> approval \<notin> JStr ` set APPROVAL_MODES
      then (Inl (HttpError 400 (''approval must be one of '' @ join_with '', '' APPROVAL_MODES)), d)
      else (let d' = d\<lparr>pd_settings := put_setting (mf_id m) ''policy'' now (name, if approval = JNull then None else Some approval) (pd_settings d)\<rparr> in
        (Inr (ss_policies (getStoredSettings (mf_id m) d')), d')))"

section \<open>The choice of providers\<close>

definition listProviderSelections :: "package_db \<Rightarrow> (string \<times> string) list" where
  "listProviderSelections d = js_spread [] (pd_choices d)"

definition saveProviderSelection :: "string \<Rightarrow> string option \<Rightarrow> package_db \<Rightarrow> package_db" where
  "saveProviderSelection cap pid d =
     d\<lparr>pd_choices := (case pid of None \<Rightarrow> map_delete cap (pd_choices d) | Some p \<Rightarrow> js_put cap p (pd_choices d))\<rparr>"

section \<open>Grants stay within what is declared\<close>

text \<open>
  What the owner can do to a package through \<open>manager.js\<close>, at the level of the tables: an
  installation writes the new manifest, prunes the grants and may grant more.
\<close>

datatype package_op =
    Install package_input "string list" string
  | GrantOp string "string list" string
  | Revoke string "string list option"
  | SetEnabled string bool
  | Uninstall string
  | Configure manifest "(string \<times> jsval) list"
  | PolicyMode manifest string jsval

fun apply_op :: "(jsval \<Rightarrow> rat option) \<Rightarrow> package_op \<Rightarrow> int \<Rightarrow> package_db \<Rightarrow> package_db" where
  "apply_op num (Install p grant by') now d =
     (let d1 = snd (upsertPackage p now d);
          d2 = snd (pruneGrants (mf_id (pi_manifest p)) (mf_permissions (pi_manifest p)) d1) in
      if grant = [] then d2 else snd (grantPermissions (mf_id (pi_manifest p)) grant by' now d2))"
| "apply_op num (GrantOp i perms by') now d = snd (grantPermissions i perms by' now d)"
| "apply_op num (Revoke i perms) now d = snd (revokePermissions i perms d)"
| "apply_op num (SetEnabled i b) now d = snd (setPackageEnabled i b now d)"
| "apply_op num (Uninstall i) now d = markPackageUninstalled i now (snd (revokePermissions i None d))"
| "apply_op num (Configure m values) now d = snd (setSettings num m values now d)"
| "apply_op num (PolicyMode m name mode) now d = snd (setPolicyApproval m name mode now d)"

definition grants_ok :: "package_db \<Rightarrow> bool" where
  "grants_ok d \<longleftrightarrow>
     distinct (map pw_id (pd_packages d)) \<and>
     (\<forall>g\<in>set (pd_grants d). \<exists>r. getPackageRow (gw_package g) d = Some r \<and> gw_permission g \<in> set (mf_permissions (pw_manifest r)))"

interpretation enable: keyed_update pw_id enable_row
  by unfold_locales (simp add: enable_row_def)

interpretation uninstall: keyed_update pw_id uninstall_row
  by unfold_locales (simp add: uninstall_row_def)

interpretation upsert: keyed_update pw_id upsert_row
  by unfold_locales (simp add: upsert_row_def)

lemma set_insert_grants:
  "g \<in> set (fold (insert_grant i by' now) perms gs) \<Longrightarrow> g \<in> set gs \<or> (gw_package g = i \<and> gw_permission g \<in> set perms)"
proof (induction perms arbitrary: gs)
  case (Cons p perms)
  from Cons.IH [of "insert_grant i by' now p gs"] Cons.prems show ?case by (auto simp: insert_grant_def split: if_splits)
qed simp

lemma grants_cong:
  assumes "grants_ok d" and "distinct (map pw_id (pd_packages d'))" and "set (pd_grants d') \<subseteq> set (pd_grants d)"
    and "\<And>i r. getPackageRow i d = Some r \<Longrightarrow> \<exists>r'. getPackageRow i d' = Some r' \<and> pw_manifest r' = pw_manifest r"
  shows "grants_ok d'"
  using assms unfolding grants_ok_def by (metis subsetD)

lemma grantPermissions_ok: "grants_ok d \<Longrightarrow> grants_ok (snd (grantPermissions i perms by' now d))"
  by (auto simp: grantPermissions_def grants_ok_def getPackageRow_def filter_empty_conv Let_def split: option.splits
      dest!: set_insert_grants)

lemma revokePermissions_ok: "grants_ok d \<Longrightarrow> grants_ok (snd (revokePermissions i perms d))"
  by (auto simp: revokePermissions_def grants_ok_def getPackageRow_def Let_def)

lemma setPackageEnabled_ok: "grants_ok d \<Longrightarrow> grants_ok (snd (setPackageEnabled i b now d))"
  by (rule grants_cong, assumption) (auto simp: setPackageEnabled_def Let_def getPackageRow_def enable.map_key_update enable.get_after_update
      enable_row_def grants_ok_def)

lemma markPackageUninstalled_ok: "grants_ok d \<Longrightarrow> grants_ok (markPackageUninstalled i now d)"
  by (rule grants_cong, assumption) (auto simp: markPackageUninstalled_def getPackageRow_def uninstall.map_key_update uninstall.get_after_update
      uninstall_row_def grants_ok_def)

lemma upsertPackage_row:
  "getPackageRow (mf_id (pi_manifest p)) (snd (upsertPackage p now d)) \<noteq> None \<and>
   (\<forall>r. getPackageRow (mf_id (pi_manifest p)) (snd (upsertPackage p now d)) = Some r \<longrightarrow> pw_manifest r = pi_manifest p) \<and>
   (\<forall>j. j \<noteq> mf_id (pi_manifest p) \<longrightarrow> getPackageRow j (snd (upsertPackage p now d)) = getPackageRow j d) \<and>
   pd_grants (snd (upsertPackage p now d)) = pd_grants d"
proof (cases "getPackageRow (mf_id (pi_manifest p)) d")
  case None
  then show ?thesis by (auto simp: upsertPackage_def Let_def getPackageRow_def sql_get_append new_package_row_def split: option.splits)
next
  case (Some r)
  have other: "sql_get (\<lambda>r. pw_id r = j) (sql_update (\<lambda>r. pw_id r = mf_id (pi_manifest p)) (upsert_row (new_package_row p now)) (pd_packages d)) =
      sql_get (\<lambda>r. pw_id r = j) (pd_packages d)" if "j \<noteq> mf_id (pi_manifest p)" for j
    using that by (intro upsert.get_other_key) simp
  from sql_get_SomeD [OF Some [unfolded getPackageRow_def]] have "pw_id r = mf_id (pi_manifest p)" by simp
  with Some other show ?thesis
    by (simp add: upsertPackage_def Let_def getPackageRow_def upsert.get_after_update upsert_row_def new_package_row_def)
qed

lemma upsertPackage_keys: "distinct (map pw_id (pd_packages d)) \<Longrightarrow> distinct (map pw_id (pd_packages (snd (upsertPackage p now d))))"
  by (auto simp: upsertPackage_def Let_def getPackageRow_def upsert.map_key_update sql_get_None_iff new_package_row_def split: option.split)

lemma install_ok:
  assumes "grants_ok d"
  shows "grants_ok (snd (pruneGrants (mf_id (pi_manifest p)) (mf_permissions (pi_manifest p)) (snd (upsertPackage p now d))))"
proof -
  let ?i = "mf_id (pi_manifest p)" and ?d1 = "snd (upsertPackage p now d)"
  let ?d2 = "snd (pruneGrants ?i (mf_permissions (pi_manifest p)) ?d1)"
  note row = upsertPackage_row [of p now d]
  have pk: "pd_packages ?d2 = pd_packages ?d1" by (simp add: pruneGrants_def revokePermissions_def Let_def)
  have "\<exists>r. getPackageRow (gw_package g) ?d2 = Some r \<and> gw_permission g \<in> set (mf_permissions (pw_manifest r))" if g: "g \<in> set (pd_grants ?d2)" for g
  proof (cases "gw_package g = ?i")
    case True
    from g True have "gw_permission g \<in> set (mf_permissions (pi_manifest p))"
      by (auto simp: pruneGrants_def revokePermissions_def listGrants_def Let_def filter_empty_conv split: if_splits)
    with row True pk show ?thesis by (cases "getPackageRow ?i ?d1") (auto simp: getPackageRow_def)
  next
    case False
    from g row have "g \<in> set (pd_grants d)" by (auto simp: pruneGrants_def revokePermissions_def Let_def split: if_splits)
    with assms obtain r where "getPackageRow (gw_package g) d = Some r" "gw_permission g \<in> set (mf_permissions (pw_manifest r))"
      by (auto simp: grants_ok_def)
    with row False pk show ?thesis by (auto simp: getPackageRow_def)
  qed
  with pk upsertPackage_keys [of d p now] assms show ?thesis by (simp add: grants_ok_def)
qed

lemma apply_op_ok: "grants_ok d \<Longrightarrow> grants_ok (apply_op num op now d)"
proof (induction num op now d rule: apply_op.induct)
  case (1 num p grant by' now d)
  then show ?case by (simp add: Let_def install_ok grantPermissions_ok)
next
  case (6 num m vs now d)
  then show ?case by (auto simp: setSettings_def grants_ok_def getPackageRow_def Let_def split: sum.split)
next
  case (7 num m name mode now d)
  then show ?case by (auto simp: setPolicyApproval_def grants_ok_def getPackageRow_def Let_def)
qed (simp_all add: grantPermissions_ok revokePermissions_ok setPackageEnabled_ok markPackageUninstalled_ok)

definition package_step :: "(jsval \<Rightarrow> rat option) \<Rightarrow> package_db \<Rightarrow> package_db \<Rightarrow> bool" where
  "package_step num d d' \<longleftrightarrow> (\<exists>op now. d' = apply_op num op now d)"

interpretation package_store: invariant_system grants_ok "package_step num" for num
  by unfold_locales (auto simp: package_step_def apply_op_ok)

definition empty_packages :: package_db where
  "empty_packages = \<lparr>pd_packages = [], pd_grants = [], pd_settings = [], pd_choices = []\<rparr>"

text \<open>
  Whatever the owner does to packages, nothing is ever granted that the manifest in the table
  does not declare: an upgrade to a manifest that declares less takes the rest away.
\<close>

lemma granted_is_declared:
  assumes "run_of (package_step num) empty_packages d" and "p \<in> set (listGrants i d)"
  shows "\<exists>r. getPackageRow i d = Some r \<and> p \<in> set (mf_permissions (pw_manifest r))"
proof -
  have "grants_ok d" using package_store.run_inv [OF assms(1)] by (simp add: grants_ok_def empty_packages_def)
  with assms(2) show ?thesis by (auto simp: grants_ok_def listGrants_def)
qed

end
