(* ===== verification/U2_Invoker.thy ===== *)
theory U2_Invoker
  imports U2_Package_Store U2_Agent
begin

text \<open>
  \<open>CapabilityInvoker\<close> of \<open>server/packages/invoker.js\<close>, the only way package workflows and code
  reach a capability: input check, permission, and the one gate of \<open>U2_Agent\<close>; the
  execution-time re-check it installs into the queue worker; and the hidden tools that stand
  for package capabilities. The registries are read, the database is passed on.
\<close>

section \<open>Permissions\<close>

text \<open>What the invoker reads: the registries, and the tables of packages.\<close>

record package_world =
  wo_platform :: platform
  wo_packages :: package_db

definition permissionFor :: "package_world \<Rightarrow> string \<Rightarrow> string list \<Rightarrow> pkg_permission" where
  "permissionFor w packageId required =
     (let refused = (\<lambda>m. \<lparr>pm_allowed = False, pm_required = required, pm_missingDeclared = [], pm_missingGrant = [], pm_reason = Some m\<rparr>) in
      case map_of (pf_packages (wo_platform w)) packageId of
        None \<Rightarrow> refused ''package is not installed''
      | Some r \<Rightarrow>
          if \<not> pk_enabled r then refused ''package is disabled''
          else (let c = checkPermissions required (mf_permissions (pk_manifest r)) (listGrants packageId (wo_packages w)) in
            \<lparr>pm_allowed = pc_allowed c, pm_required = pc_required c, pm_missingDeclared = pc_missingDeclared c,
             pm_missingGrant = pc_missingGrant c, pm_reason = None\<rparr>))"

section \<open>Outcomes\<close>

datatype invoke_status = InvCompleted | InvWaiting | InvDenied | InvFailed

record invoke_outcome =
  iu_status :: invoke_status
  iu_actionId :: "string option"
  iu_reason :: "string option"
  iu_code :: "string option"
  iu_output :: "jsval option"

definition inv_failed :: "string \<Rightarrow> string \<Rightarrow> invoke_outcome" where
  "inv_failed reason code = \<lparr>iu_status = InvFailed, iu_actionId = None, iu_reason = Some reason, iu_code = Some code, iu_output = None\<rparr>"

text \<open>The first text that is not empty.\<close>

fun first_text :: "string option list \<Rightarrow> string \<Rightarrow> string" where
  "first_text [] dflt = dflt"
| "first_text (Some (c # cs) # ts) dflt = c # cs"
| "first_text (_ # ts) dflt = first_text ts dflt"

record raw_outcome =
  rw_id :: string
  rw_status :: step_status
  rw_result :: "jsval option"
  rw_error :: "string option"
  rw_reason :: "string option"

definition mapOutcome :: "(jsval \<Rightarrow> rat option) \<Rightarrow> contract option \<Rightarrow> raw_outcome option \<Rightarrow> invoke_outcome res" where
  "mapOutcome num contract outcome =
     (case outcome of
        None \<Rightarrow> Inr \<lparr>iu_status = InvWaiting, iu_actionId = None, iu_reason = Some ''Waiting for approval or delivery'', iu_code = None, iu_output = None\<rparr>
      | Some o' \<Rightarrow>
          let answer = (\<lambda>st reason code. \<lparr>iu_status = st, iu_actionId = Some (rw_id o'), iu_reason = reason, iu_code = code, iu_output = None\<rparr>) in
          (case rw_status o' of
             S_executed \<Rightarrow>
               (let output = (case rw_result o' of Some v \<Rightarrow> v | None \<Rightarrow> JNull) in
                case (case Option.bind contract ct_outputSchema of
                        None \<Rightarrow> Inr []
                      | Some schema \<Rightarrow> validate num schema (of_json output) ''output'') of
                  Inl e \<Rightarrow> Inl e
                | Inr [] \<Rightarrow> Inr (answer InvCompleted None None \<lparr>iu_output := Some output\<rparr>)
                | Inr errors \<Rightarrow>
                    Inr (answer InvFailed (Some (''Invalid output from '' @ (case contract of Some c \<Rightarrow> ct_id c | None \<Rightarrow> []) @ '': '' @ join_with ''; '' errors))
                           (Some ''invalid_output'')))
           | S_rejected \<Rightarrow> Inr (answer InvDenied (Some ''The owner rejected this action'') (Some ''rejected''))
           | S_blocked \<Rightarrow> Inr (answer InvDenied (Some (first_text [rw_reason o', rw_error o'] ''Blocked by policy'')) (Some ''blocked''))
           | S_cancelled \<Rightarrow> Inr (answer InvDenied (Some (first_text [rw_reason o', rw_error o'] ''Blocked by policy'')) (Some ''blocked''))
           | S_failed \<Rightarrow> Inr (answer InvFailed (Some (first_text [rw_error o', rw_reason o'] ''Action failed'')) (Some ''action_failed''))
           | S_dead_letter \<Rightarrow> Inr (answer InvFailed (Some (first_text [rw_error o', rw_reason o'] ''Action failed'')) (Some ''action_failed''))
           | _ \<Rightarrow> Inr (answer InvWaiting (Some (first_text [rw_reason o'] ''Waiting for approval or delivery'')) None)))"

definition result_error :: "jsval option \<Rightarrow> string option" where
  "result_error v = (case js_get v ''error'' of Some (JStr s) \<Rightarrow> Some s | Some x \<Rightarrow> if truthy (Some x) then Some (js_str x) else None | None \<Rightarrow> None)"

definition contract_at :: "package_world \<Rightarrow> string \<Rightarrow> contract option" where
  "contract_at w cap = map_of (cr_contracts (pf_capabilities (wo_platform w))) cap"

definition actionOutcome :: "(jsval \<Rightarrow> rat option) \<Rightarrow> package_world \<Rightarrow> string \<Rightarrow> string \<Rightarrow> db \<Rightarrow> invoke_outcome res" where
  "actionOutcome num w cap actionId s =
     (case getAgentAction actionId s of
        None \<Rightarrow> Inr \<lparr>iu_status = InvFailed, iu_actionId = Some actionId, iu_reason = Some ''The proposed action record is missing'', iu_code = None, iu_output = None\<rparr>
      | Some a \<Rightarrow>
          mapOutcome num (contract_at w cap)
            (Some \<lparr>rw_id = a_id a, rw_status = step_of_action_status (a_status a), rw_result = a_result a,
                   rw_error = result_error (a_result a), rw_reason = result_error (a_result a)\<rparr>))"

section \<open>Hidden tools\<close>

text \<open>
  A package capability is a tool that reads its contract when asked. The names registered as
  hidden are part of the state.
\<close>

definition package_tool :: "contract \<Rightarrow> tool" where
  "package_tool c =
     \<lparr>t_name = ct_id c, t_domain = ct_domain c, t_category = (if ct_effect c = ''read'' then CatRead else CatConsequential),
      t_supportsIdempotency = False, t_requiresAccountBinding = False\<rparr>"

definition visible_tools :: "package_world \<Rightarrow> (string \<rightharpoonup> tool) \<Rightarrow> string list \<Rightarrow> (string \<rightharpoonup> tool)" where
  "visible_tools w core hidden name =
     (if name \<in> set hidden then map_option package_tool (contract_at w name) else core name)"

definition ensureTool :: "(string \<rightharpoonup> tool) \<Rightarrow> contract \<Rightarrow> (string list, unit) eff" where
  "ensureTool core c hidden =
     (if ct_id c \<in> set hidden then (Inr (), hidden)
      else if core (ct_id c) \<noteq> None then (Inl (Error (''Capability '' @ ct_id c @ '' collides with a core tool'')), hidden)
      else (Inr (), hidden @ [ct_id c]))"

definition syncTools :: "package_world \<Rightarrow> (string \<rightharpoonup> tool) \<Rightarrow> (string list, unit) eff" where
  "syncTools w core hidden =
     (case register_all (\<lambda>c h. map_sum id (\<lambda>_. snd (ensureTool core c h)) (fst (ensureTool core c h)))
             (filter (\<lambda>c. ct_source c \<noteq> ''core'') (map snd (cr_contracts (pf_capabilities (wo_platform w))))) hidden of
        (Inl e, h) \<Rightarrow> (Inl e, h)
      | (Inr _, h) \<Rightarrow> (Inr (), filter (\<lambda>n. contract_at w n \<noteq> None) h))"

section \<open>Invoking a capability\<close>

record invoke_ctx =
  ic_packageId :: string
  ic_automationId :: "string option"
  ic_skillId :: "string option"
  ic_workflowRunId :: "string option"
  ic_rootRunId :: "string option"
  ic_stepId :: "string option"
  ic_actionId :: "string option"
  ic_correlationId :: "string option"
  ic_policy :: "pkg_policy option"

definition invoke_authority :: "package_world \<Rightarrow> contract \<Rightarrow> provider \<Rightarrow> string \<Rightarrow> invoke_ctx \<Rightarrow> authority" where
  "invoke_authority w c p cap ctx =
     \<lparr>au_packageId = ic_packageId ctx, au_automationId = ic_automationId ctx, au_skillId = ic_skillId ctx,
      au_workflowRunId = ic_workflowRunId ctx,
      au_rootRunId = (case some_text (ic_rootRunId ctx) of Some r \<Rightarrow> Some r | None \<Rightarrow> ic_workflowRunId ctx),
      au_stepId = ic_stepId ctx, au_capabilityId = Some cap, au_providerId = Some (pv_id p),
      au_permission = Some (permissionFor w (ic_packageId ctx) (ct_requiredPermissions c)), au_policy = ic_policy ctx\<rparr>"

definition invoke_origin :: "invoke_ctx \<Rightarrow> string" where
  "invoke_origin ctx =
     (case some_text (ic_automationId ctx) of
        Some a \<Rightarrow> ''automation '' @ a
      | None \<Rightarrow> (case some_text (ic_skillId ctx) of Some k \<Rightarrow> ''skill '' @ k | None \<Rightarrow> ''package code''))"

definition invoke_proposal :: "package_world \<Rightarrow> contract \<Rightarrow> provider \<Rightarrow> string \<Rightarrow> xval \<Rightarrow> invoke_ctx \<Rightarrow> proposal" where
  "invoke_proposal w c p cap prepared ctx =
     \<lparr>pr_actionId = ic_actionId ctx, pr_tool = cap, pr_arguments = to_json prepared,
      pr_requestedBy = ''package:'' @ ic_packageId ctx, pr_requestText = None,
      pr_reasoningSummary = Some (ic_packageId ctx @ '' '' @ invoke_origin ctx @
         (case some_text (ic_stepId ctx) of Some k \<Rightarrow> '', step '' @ k | None \<Rightarrow> []) @
         (case ic_policy ctx of Some q \<Rightarrow> '', policy '' @ pp_name q | None \<Rightarrow> [])),
      pr_correlationId = ic_correlationId ctx, pr_actor = Some \<lparr>actor_type = ''package'', actor_id = ic_packageId ctx\<rparr>,
      pr_voice = None, pr_contextProvenance = [], pr_accountContext = None,
      pr_modelIdentity = Some ''none (deterministic package workflow)'', pr_runId = None,
      pr_authority = Some (invoke_authority w c p cap ctx)\<rparr>"

definition raw_of :: "proposal_outcome \<Rightarrow> raw_outcome" where
  "raw_of o' = \<lparr>rw_id = oc_id o', rw_status = oc_status o', rw_result = oc_result o', rw_error = oc_error o', rw_reason = oc_reason o'\<rparr>"

text \<open>The execution-time re-check: a reason to stop the action, or none.\<close>

definition recheck :: "package_world \<Rightarrow> action_row \<Rightarrow> string option res" where
  "recheck w a =
     (case js_get (a_packageContext a) ''package'' of
        Some (JStr p) \<Rightarrow>
          (case map_of (pf_packages (wo_platform w)) p of
             None \<Rightarrow> Inr (Some (''Package '' @ p @ '' is no longer installed''))
           | Some r \<Rightarrow>
               if \<not> pk_enabled r then Inr (Some (''Package '' @ p @ '' is disabled''))
               else (case contract_at w (a_tool a) of
                 None \<Rightarrow> Inr (Some (''Capability '' @ a_tool a @ '' is no longer available''))
               | Some c \<Rightarrow>
                   (let permission = permissionFor w p (ct_requiredPermissions c);
                        missing = join_with '', '' (pm_missingDeclared permission @ pm_missingGrant permission) in
                    if pm_allowed permission then Inr None
                    else Inr (Some (''Package '' @ p @ '' no longer holds '' @ (if missing = [] then ''the required permission'' else missing))))))
      | _ \<Rightarrow> Inr (Some ''Package undefined is no longer installed''))"

text \<open>The gate as the invoker calls it: its tools include the hidden ones, its worker re-checks packages.\<close>

definition gate_env :: "package_world \<Rightarrow> agent_env \<Rightarrow> string list \<Rightarrow> agent_env" where
  "gate_env w env hidden =
     env\<lparr>ae_worker := (ae_worker env)\<lparr>we_tools := visible_tools w (we_tools (ae_worker env)) hidden, we_packageAuthority := Some (recheck w)\<rparr>\<rparr>"

definition invoke ::
  "(jsval \<Rightarrow> rat option) \<Rightarrow> package_world \<Rightarrow> agent_env \<Rightarrow> string \<Rightarrow> xval \<Rightarrow> invoke_ctx \<Rightarrow> call_io \<Rightarrow> (string list \<times> db, invoke_outcome) eff" where
  "invoke num w env cap input ctx io st =
     (case contract_at w cap of
        None \<Rightarrow> (Inr (inv_failed (''Unknown capability '' @ cap) ''unknown_capability''), st)
      | Some c \<Rightarrow>
          let prepared = applyDefaults (Some (ct_inputSchema c)) (if nothing input then XObj [] else input) in
          (case validate num (ct_inputSchema c) prepared ''input'' of
             Inl e \<Rightarrow> (Inl e, st)
           | Inr errors \<Rightarrow>
               if errors \<noteq> [] then (Inr (inv_failed (''Invalid input for '' @ cap @ '': '' @ join_with ''; '' errors) ''invalid_input''), st)
               else (case resolveProvider (pf_capabilities (wo_platform w)) cap of
                 None \<Rightarrow> (Inr (inv_failed (''No provider for '' @ cap) ''no_provider''), st)
               | Some p \<Rightarrow>
                   (case (if ct_source c \<noteq> ''core'' then ensureTool (we_tools (ae_worker env)) c (fst st) else (Inr (), fst st)) of
                      (Inl e, h) \<Rightarrow> (Inl e, (h, snd st))
                    | (Inr _, h) \<Rightarrow>
                        (case evaluateAndMaybeExecute (gate_env w env h) io (invoke_proposal w c p cap prepared ctx) (snd st) of
                           (Inl e, s') \<Rightarrow> (Inl e, (h, s'))
                         | (Inr o', s') \<Rightarrow> (mapOutcome num (Some c) (map_option raw_of o'), (h, s')))))))"

section \<open>A call needs the owner's grant\<close>

text \<open>What it takes for a package to be permitted something.\<close>

definition holds_permissions :: "package_world \<Rightarrow> string \<Rightarrow> string list \<Rightarrow> bool" where
  "holds_permissions w packageId required \<longleftrightarrow>
     (\<exists>r. map_of (pf_packages (wo_platform w)) packageId = Some r \<and> pk_enabled r \<and>
        list_all (\<lambda>p. list_ex (\<lambda>h. covers h p) (mf_permissions (pk_manifest r)) \<and>
                      list_ex (\<lambda>h. covers h p) (listGrants packageId (wo_packages w))) required)"

lemma permissionFor_allowed: "pm_allowed (permissionFor w packageId required) \<longleftrightarrow> holds_permissions w packageId required"
  by (auto simp: permissionFor_def holds_permissions_def Let_def checkPermissions_def uncovered_def filter_empty_conv list_all_iff
      split: option.split)

lemma recheck_None: "recheck w a = Inr None \<Longrightarrow>
    \<exists>p c. js_get (a_packageContext a) ''package'' = Some (JStr p) \<and> contract_at w (a_tool a) = Some c \<and>
      holds_permissions w p (ct_requiredPermissions c)"
  by (auto simp: recheck_def Let_def permissionFor_allowed [symmetric] split: option.splits jsval.splits if_splits)

lemma queue_changed_authorized:
  assumes "evaluateAndMaybeExecute env io p s = (x, s')" and "queue s' \<noteq> queue s \<or> attempts s' \<noteq> attempts s"
  shows "\<exists>t. resolve_tool (we_tools (ae_worker env)) (pr_tool p) = Inr t \<and> executes (proposal_evaluation env p t s)"
proof -
  obtain g u where g: "gate_prepare env io p s = (g, u)" by (cases "gate_prepare env io p s")
  have "(\<exists>aid. g = Inr (Queued_as aid)) \<or> queue u \<noteq> queue s \<or> attempts u \<noteq> attempts s"
    using assms g by (auto simp: evaluateAndMaybeExecute_def split: sum.splits gate_result.splits)
  from gate_prepare_queue [OF g this] show ?thesis by blast
qed

lemma invoke_needs_grants:
  assumes "invoke num w env cap input ctx io st = (x, st')"
    and "queue (snd st') \<noteq> queue (snd st) \<or> attempts (snd st') \<noteq> attempts (snd st)"
  shows "\<exists>c p t. contract_at w cap = Some c \<and> resolveProvider (pf_capabilities (wo_platform w)) cap = Some p \<and>
    validate num (ct_inputSchema c) (applyDefaults (Some (ct_inputSchema c)) (if nothing input then XObj [] else input)) ''input'' = Inr [] \<and>
    holds_permissions w (ic_packageId ctx) (ct_requiredPermissions c) \<and>
    (case ic_policy ctx of None \<Rightarrow> True | Some q \<Rightarrow> pp_decision q = ''automatic'') \<and>
    executes (action_evaluate (we_policies (ae_worker env)) t
      (to_json (applyDefaults (Some (ct_inputSchema c)) (if nothing input then XObj [] else input))) (snd st))"
proof -
  let ?in = "\<lambda>c. applyDefaults (Some (ct_inputSchema c)) (if nothing input then XObj [] else input)"
  from assms obtain c where c: "contract_at w cap = Some c" by (cases "contract_at w cap") (auto simp: invoke_def)
  from assms c have v: "validate num (ct_inputSchema c) (?in c) ''input'' = Inr []"
    by (cases "validate num (ct_inputSchema c) (?in c) ''input''") (auto simp: invoke_def Let_def split: if_splits)
  from assms c v obtain p where p: "resolveProvider (pf_capabilities (wo_platform w)) cap = Some p"
    by (cases "resolveProvider (pf_capabilities (wo_platform w)) cap") (auto simp: invoke_def Let_def)
  obtain e h where h: "(if ct_source c \<noteq> ''core'' then ensureTool (we_tools (ae_worker env)) c (fst st) else (Inr (), fst st)) = (e, h)" by force
  let ?p = "invoke_proposal w c p cap (?in c) ctx" and ?env = "gate_env w env h"
  from assms c v p h obtain u where e: "e = Inr u" by (cases e) (auto simp: invoke_def Let_def)
  obtain y s' where g: "evaluateAndMaybeExecute ?env io ?p (snd st) = (y, s')" by force
  from assms(1) c v p h e g have "snd st' = s'" by (auto simp: invoke_def Let_def split: sum.splits)
  with assms(2) queue_changed_authorized [OF g] obtain t where ex: "executes (proposal_evaluation ?env ?p t (snd st))" by auto
  note ex' = ex [unfolded proposal_evaluation_def]
  have "pr_authority ?p = Some (invoke_authority w c p cap ctx)" by (simp add: invoke_proposal_def)
  with gate_executes_conditions(3) [OF ex'] have "pm_allowed (permissionFor w (ic_packageId ctx) (ct_requiredPermissions c))"
    "case ic_policy ctx of None \<Rightarrow> True | Some q \<Rightarrow> pp_decision q = ''automatic''" by (simp_all add: invoke_authority_def)
  moreover have "executes (action_evaluate (we_policies (ae_worker env)) t (to_json (?in c)) (snd st))"
    using gate_tightens [OF ex'] by (simp add: gate_env_def invoke_proposal_def)
  ultimately show ?thesis using c v p by (auto simp: permissionFor_allowed)
qed


text \<open>
  C30. A grant that is taken back stops what is already queued. With the re-check installed, the
  worker gets as far as calling the tool of an action that a package proposed only if at that
  moment the package is still installed and enabled, the capability still exists, and every
  permission it asks for is still declared and granted.
\<close>

theorem revoked_grant_stops_queued_action:
  assumes "prepare_leased (ae_worker (gate_env w env hidden)) newid item now s = (Inr (Begun att t action), s')"
    and "a_packageContext action \<noteq> None"
  shows "\<exists>p c. js_get (a_packageContext action) ''package'' = Some (JStr p) \<and> contract_at w (a_tool action) = Some c \<and>
    holds_permissions w p (ct_requiredPermissions c)"
proof (rule recheck_None)
  from prepare_leased_Begun [OF assms(1)] have "package_problem (ae_worker (gate_env w env hidden)) action = None" by blast
  with assms(2) have "recheck w action = Inr None \<or> recheck w action = Inr (Some [])"
    by (auto simp: package_problem_def gate_env_def split: sum.splits option.splits list.splits)
  moreover have "recheck w action \<noteq> Inr (Some [])" by (auto simp: recheck_def Let_def split: option.splits jsval.splits)
  ultimately show "recheck w action = Inr None" by blast
qed

text \<open>
  An action that waits for a retry is already reported as failed: the executor writes the
  failure into the audit row before the queue decides to retry, and \<open>actionOutcome\<close> reads the
  audit row only. A workflow that waits for the action then gives the step up while the queue
  goes on to retry it.
\<close>

lemma actions_failAction: "actions (snd (failActionAttempt tid owner err cls fo now s)) = actions s"
  by (auto simp: failActionAttempt_def settleAttempt_def Let_def split: option.split sum.split if_splits prod.splits)

lemma retrying_action_reported_failed:
  assumes "settle_leased env item att t action (Threw e) now s = (Inr out, s')" and "oc_status out = S_retry_wait"
    and "getAgentAction (a_id action) s \<noteq> None"
  shows "\<exists>o'. actionOutcome num w cap (a_id action) s' = Inr o' \<and> iu_status o' = InvFailed"
proof -
  let ?who = "case q_actor item of Some a \<Rightarrow> a | None \<Rightarrow> \<lparr>actor_type = ''agent'', actor_id = a_requested_by action\<rparr>"
  let ?s = "execute_recorded (a_id action) t (q_correlation_id item) ?who (Threw e) now s"
  from assms(1) have "actions s' = actions ?s"
    using actions_failAction [of "t_id att" "we_workerId env" "Some (th_message e)" "Some (worker_error_class t e)" default_fail_options now ?s]
    by (auto simp: settle_leased_def Let_def publishQueueStatus_def publish_def split: prod.splits sum.splits option.splits)
  then have "getAgentAction (a_id action) s' = getAgentAction (a_id action) ?s" by (simp add: getAgentAction_def)
  moreover from assms(3) obtain a where "getAgentAction (a_id action) ?s = Some a" "a_status a = AFailed"
    by (auto simp: execute_recorded_def getAgentAction_update patch_action_def no_patch_def)
  ultimately show ?thesis by (simp add: actionOutcome_def mapOutcome_def Let_def)
qed

section \<open>A package that sends mail\<close>

definition ex_contract :: contract where
  "ex_contract = \<lparr>ct_id = ''email.send'', ct_version = ''1.0.0'', ct_description = [], ct_effect = ''write'', ct_domain = ''email'',
     ct_inputSchema = JObj [(''type'', JStr ''object'')], ct_outputSchema = None,
     ct_requiredPermissions = [''email.send''], ct_source = ''core''\<rparr>"

definition ex_provider :: provider where
  "ex_provider = \<lparr>pv_id = ''core:email'', pv_capability = ''email.send'', pv_packageId = None, pv_kind = ''core'', pv_description = [], pv_executable = True\<rparr>"

definition ex_package_manifest :: manifest where
  "ex_package_manifest = \<lparr>mf_id = ''p'', mf_name = ''P'', mf_version = ''1.0.0'', mf_description = [],
     mf_requires = \<lparr>rq_u2os = None, rq_capabilities = [], rq_skills = []\<rparr>, mf_capabilities = [], mf_skills = [],
     mf_permissions = [''email.send''], mf_policies = [], mf_settings = [], mf_emits = []\<rparr>"

definition ex_world :: package_world where
  "ex_world = \<lparr>wo_platform = \<lparr>pf_packages = [(''p'', \<lparr>pk_manifest = ex_package_manifest, pk_enabled = True\<rparr>)],
       pf_capabilities = \<lparr>cr_contracts = [(''email.send'', ex_contract)], cr_providers = [(''email.send'', [ex_provider])], cr_selections = []\<rparr>,
       pf_skills = [], pf_automations = []\<rparr>,
     wo_packages = \<lparr>pd_packages = [], pd_grants = [\<lparr>gw_package = ''p'', gw_permission = ''email.send'', gw_grantedBy = ''owner'', gw_grantedAt = 1\<rparr>],
       pd_settings = [], pd_choices = []\<rparr>\<rparr>"

definition ex_invoke :: "invoke_ctx" where
  "ex_invoke = \<lparr>ic_packageId = ''p'', ic_automationId = None, ic_skillId = None, ic_workflowRunId = Some ''w'', ic_rootRunId = None,
     ic_stepId = Some ''s'', ic_actionId = Some ''a0'', ic_correlationId = None, ic_policy = None\<rparr>"

lemma ex_invoke_queue:
  "map q_status (queue (snd (snd (invoke (\<lambda>_. None) ex_world (ex_agent ex_env) ''email.send'' (XObj []) ex_invoke (ex_io 0) ([], empty_db))))) = [Completed]"
  by code_simp


definition ex_package_leased :: db where
  "ex_package_leased = ex_leased\<lparr>actions := map (\<lambda>a. a\<lparr>a_packageContext := Some (JObj [(''package'', JStr ''p'')])\<rparr>) (actions ex_leased)\<rparr>"

lemma ex_package_prepared:
  "case prepare_leased (ae_worker (gate_env ex_world (ex_agent ex_env) [])) ''t'' ex_item 6 ex_package_leased of
     (Inr (Begun att t action), s) \<Rightarrow> a_packageContext action \<noteq> None \<and> a_tool action = ''email.send'' | _ \<Rightarrow> False"
  by code_simp

theorem revoked_grant_stops_queued_action_witness:
  "\<exists>att t action s. prepare_leased (ae_worker (gate_env ex_world (ex_agent ex_env) [])) ''t'' ex_item 6 ex_package_leased = (Inr (Begun att t action), s) \<and>
     (\<exists>p c. js_get (a_packageContext action) ''package'' = Some (JStr p) \<and> contract_at ex_world ''email.send'' = Some c \<and>
        holds_permissions ex_world p (ct_requiredPermissions c))"
proof -
  from ex_package_prepared obtain att t action s where
    r: "prepare_leased (ae_worker (gate_env ex_world (ex_agent ex_env) [])) ''t'' ex_item 6 ex_package_leased = (Inr (Begun att t action), s)"
      "a_packageContext action \<noteq> None" "a_tool action = ''email.send''"
    by (auto split: prod.splits sum.splits prepared.splits)
  from revoked_grant_stops_queued_action [OF r(1,2)] r(1,3) show ?thesis by auto
qed

end
