(* ===== verification/U2_Workflow_Store.thy ===== *)
theory U2_Workflow_Store
  imports U2_Gate U2_Json_Schema
begin

text \<open>
  The rows behind automations and workflow runs, \<open>server/packages/workflow-store.js\<close>: automation
  instances, runs with their lease, checkpoint and wait handle, step records and the event
  cursor. Times are milliseconds, the clock and fresh ids are arguments.

  A run holds its checkpoint as JSON. Context and position are kept here as the values the
  engine works with; what a checkpoint writes is passed through \<open>stored\<close>, the round trip
  through JSON.
\<close>

section \<open>Rows\<close>

datatype wf_status = WPending | WRunning | WWaiting | WCompleted | WFailed | WCancelled | WSkipped | WThrottled

definition TERMINAL_RUN_STATUSES :: "wf_status list" where
  "TERMINAL_RUN_STATUSES = [WCompleted, WFailed, WCancelled, WSkipped, WThrottled]"

definition ACTIVE_RUN_STATUSES :: "wf_status list" where
  "ACTIVE_RUN_STATUSES = [WPending, WRunning, WWaiting]"

fun wf_status_text :: "wf_status \<Rightarrow> string" where
  "wf_status_text WPending = ''pending''"
| "wf_status_text WRunning = ''running''"
| "wf_status_text WWaiting = ''waiting''"
| "wf_status_text WCompleted = ''completed''"
| "wf_status_text WFailed = ''failed''"
| "wf_status_text WCancelled = ''cancelled''"
| "wf_status_text WSkipped = ''skipped''"
| "wf_status_text WThrottled = ''throttled''"

lemma active_not_terminal: "st \<in> set ACTIVE_RUN_STATUSES \<longleftrightarrow> st \<notin> set TERMINAL_RUN_STATUSES"
  by (cases st) (simp_all add: ACTIVE_RUN_STATUSES_def TERMINAL_RUN_STATUSES_def)

record instance_row =
  in_id :: string
  in_packageId :: string
  in_automationId :: string
  in_enabled :: bool
  in_paused :: bool
  in_status :: string
  in_state :: "(string \<times> jsval) list"
  in_stateVersion :: nat
  in_nextRunAt :: "int option"
  in_lastRunId :: "string option"
  in_lastRunAt :: "int option"
  in_lastStatus :: "string option"
  in_lastError :: "string option"
  in_createdAt :: int
  in_updatedAt :: int

text \<open>What a waiting run waits for.\<close>

datatype wait =
    Wait_action string "string option"   \<comment> \<open>action, capability\<close>
  | Wait_child string
  | Wait_timer int
  | Wait_retry nat int                   \<comment> \<open>attempt, until\<close>
  | Wait_event string "string option" int "int option"   \<comment> \<open>event, where, since, deadline\<close>

text \<open>The handle of the unit in progress; a key that was not set is \<open>None\<close> or \<open>False\<close>.\<close>

record handle =
  hd_attempt :: "nat option"
  hd_actionId :: "string option"
  hd_policy :: "pkg_policy option"
  hd_childRunId :: "string option"
  hd_until :: "int option"
  hd_event :: "jsval option"
  hd_timedOut :: bool
  hd_waiting :: bool
  hd_since :: "int option"
  hd_deadline :: "int option"

definition no_handle :: handle where
  "no_handle = \<lparr>hd_attempt = None, hd_actionId = None, hd_policy = None, hd_childRunId = None, hd_until = None, hd_event = None,
     hd_timedOut = False, hd_waiting = False, hd_since = None, hd_deadline = None\<rparr>"

record position =
  po_step :: nat
  po_iteration :: nat
  po_items :: "xval list option"
  po_results :: "xval list"
  po_handle :: "handle option"

definition initialPosition :: position where
  "initialPosition = \<lparr>po_step = 0, po_iteration = 0, po_items = None, po_results = [], po_handle = None\<rparr>"

record step_entry =
  se_status :: string
  se_output :: xval

type_synonym context_map = "(string \<times> step_entry) list"

definition stored :: "xval \<Rightarrow> xval" where
  "stored v = of_json (to_json v)"

definition stored_context :: "context_map \<Rightarrow> context_map" where
  "stored_context ctx = map (\<lambda>(k, e). (k, e\<lparr>se_output := stored (se_output e)\<rparr>)) ctx"

definition stored_position :: "position \<Rightarrow> position" where
  "stored_position p = p\<lparr>po_items := map_option (map stored) (po_items p), po_results := map stored (po_results p)\<rparr>"

record wf_row =
  wr_id :: string
  wr_kind :: string
  wr_definitionId :: string
  wr_packageId :: string
  wr_principal :: string
  wr_packageVersion :: "string option"
  wr_instanceId :: "string option"
  wr_rootRunId :: string
  wr_parentRunId :: "string option"
  wr_parentStepId :: "string option"
  wr_depth :: nat
  wr_trigger :: jsval
  wr_dedupeKey :: "string option"
  wr_status :: wf_status
  wr_workflow :: jsval
  wr_inputs :: xval
  wr_outputs :: "jsval option"
  wr_context :: context_map
  wr_position :: position
  wr_wait :: "wait option"
  wr_wakeAt :: "int option"
  wr_error :: "string option"
  wr_correlationId :: "string option"
  wr_leaseOwner :: "string option"
  wr_leaseExpiresAt :: "int option"
  wr_createdAt :: int
  wr_startedAt :: "int option"
  wr_updatedAt :: int
  wr_completedAt :: "int option"

record wf_step_row =
  wt_id :: string
  wt_runId :: string
  wt_stepId :: string
  wt_iteration :: int
  wt_kind :: string
  wt_status :: string
  wt_attempts :: nat
  wt_actionId :: "string option"
  wt_childRunId :: "string option"
  wt_policy :: "pkg_policy option"
  wt_output :: "jsval option"
  wt_error :: "string option"
  wt_startedAt :: int
  wt_updatedAt :: int
  wt_completedAt :: "int option"

record wf_db =
  wd_instances :: "instance_row list"
  wd_runs :: "wf_row list"
  wd_steps :: "wf_step_row list"
  wd_cursor :: "int option"

definition empty_wf :: wf_db where
  "empty_wf = \<lparr>wd_instances = [], wd_runs = [], wd_steps = [], wd_cursor = None\<rparr>"

section \<open>Automation instances\<close>

definition getInstance :: "string \<Rightarrow> wf_db \<Rightarrow> instance_row option" where
  "getInstance i d = sql_get (\<lambda>r. in_id r = i) (wd_instances d)"

definition getInstanceByAutomation :: "string \<Rightarrow> wf_db \<Rightarrow> instance_row option" where
  "getInstanceByAutomation a d = sql_get (\<lambda>r. in_automationId r = a) (wd_instances d)"

definition ensure_row :: "string \<times> (string \<times> jsval) list \<times> int \<Rightarrow> instance_row \<Rightarrow> instance_row" where
  "ensure_row p r =
     r\<lparr>in_packageId := fst p, in_status := ''installed'', in_state := js_spread (fst (snd p)) (in_state r), in_updatedAt := snd (snd p)\<rparr>"

text \<open>Keys new in the initial state are added, nothing the instance has is removed or overwritten.\<close>

definition ensureAutomationInstance ::
  "string \<Rightarrow> string \<Rightarrow> string \<Rightarrow> (string \<times> jsval) list \<Rightarrow> int \<Rightarrow> wf_db \<Rightarrow> instance_row option \<times> wf_db" where
  "ensureAutomationInstance newid packageId automationId initialState now d =
     (case getInstanceByAutomation automationId d of
        Some e \<Rightarrow>
          (let d' = d\<lparr>wd_instances := sql_update (\<lambda>r. in_id r = in_id e) (ensure_row (packageId, initialState, now)) (wd_instances d)\<rparr> in
           (getInstance (in_id e) d', d'))
      | None \<Rightarrow>
          (let d' = d\<lparr>wd_instances := wd_instances d @
                 [\<lparr>in_id = newid, in_packageId = packageId, in_automationId = automationId, in_enabled = False, in_paused = False,
                   in_status = ''installed'', in_state = initialState, in_stateVersion = 0, in_nextRunAt = None, in_lastRunId = None,
                   in_lastRunAt = None, in_lastStatus = None, in_lastError = None, in_createdAt = now, in_updatedAt = now\<rparr>]\<rparr> in
           (getInstance newid d', d')))"

definition listInstances :: "bool \<Rightarrow> string option \<Rightarrow> wf_db \<Rightarrow> instance_row list" where
  "listInstances includeUninstalled packageId d =
     filter (\<lambda>r. (includeUninstalled \<or> in_status r = ''installed'') \<and> (case packageId of Some (c # cs) \<Rightarrow> in_packageId r = c # cs | _ \<Rightarrow> True))
       (sort_key in_automationId (wd_instances d))"

text \<open>A patch names the columns it sets; a nullable column set to null is \<open>Some None\<close>.\<close>

record instance_patch =
  ip_enabled :: "bool option"
  ip_paused :: "bool option"
  ip_status :: "string option"
  ip_nextRunAt :: "int option option"
  ip_lastRunId :: "string option"
  ip_lastRunAt :: "int option"
  ip_lastStatus :: "string option"
  ip_lastError :: "string option option"
  ip_state :: "(string \<times> jsval) list option"

definition empty_patch :: instance_patch where
  "empty_patch = \<lparr>ip_enabled = None, ip_paused = None, ip_status = None, ip_nextRunAt = None, ip_lastRunId = None, ip_lastRunAt = None,
     ip_lastStatus = None, ip_lastError = None, ip_state = None\<rparr>"

definition or_keep :: "'a option \<Rightarrow> 'a \<Rightarrow> 'a" where
  "or_keep new old = (case new of Some v \<Rightarrow> v | None \<Rightarrow> old)"

definition patch_instance :: "instance_patch \<times> int \<Rightarrow> instance_row \<Rightarrow> instance_row" where
  "patch_instance p r =
     (let q = fst p in
      r\<lparr>in_enabled := or_keep (ip_enabled q) (in_enabled r), in_paused := or_keep (ip_paused q) (in_paused r),
        in_status := or_keep (ip_status q) (in_status r), in_nextRunAt := or_keep (ip_nextRunAt q) (in_nextRunAt r),
        in_lastRunId := (case ip_lastRunId q of Some v \<Rightarrow> Some v | None \<Rightarrow> in_lastRunId r),
        in_lastRunAt := (case ip_lastRunAt q of Some v \<Rightarrow> Some v | None \<Rightarrow> in_lastRunAt r),
        in_lastStatus := (case ip_lastStatus q of Some v \<Rightarrow> Some v | None \<Rightarrow> in_lastStatus r),
        in_lastError := or_keep (ip_lastError q) (in_lastError r),
        in_state := or_keep (ip_state q) (in_state r),
        in_stateVersion := (if ip_state q = None then in_stateVersion r else Suc (in_stateVersion r)),
        in_updatedAt := snd p\<rparr>)"

definition updateInstance :: "string \<Rightarrow> instance_patch \<Rightarrow> int \<Rightarrow> wf_db \<Rightarrow> instance_row option \<times> wf_db" where
  "updateInstance i patch now d =
     (if patch = empty_patch then (getInstance i d, d)
      else (let d' = d\<lparr>wd_instances := sql_update (\<lambda>r. in_id r = i) (patch_instance (patch, now)) (wd_instances d)\<rparr> in (getInstance i d', d')))"

section \<open>Runs\<close>

record wf_input =
  wi_kind :: string
  wi_definitionId :: string
  wi_packageId :: string
  wi_principal :: "string option"
  wi_packageVersion :: "string option"
  wi_instanceId :: "string option"
  wi_rootRunId :: "string option"
  wi_parentRunId :: "string option"
  wi_parentStepId :: "string option"
  wi_depth :: nat
  wi_trigger :: jsval
  wi_dedupeKey :: "string option"
  wi_status :: wf_status
  wi_workflow :: jsval
  wi_inputs :: xval
  wi_correlationId :: "string option"
  wi_error :: "string option"

definition new_wf_row :: "string \<Rightarrow> int \<Rightarrow> wf_input \<Rightarrow> wf_row" where
  "new_wf_row newid now p =
     \<lparr>wr_id = newid, wr_kind = wi_kind p, wr_definitionId = wi_definitionId p, wr_packageId = wi_packageId p,
      wr_principal = (case wi_principal p of Some (c # cs) \<Rightarrow> c # cs | _ \<Rightarrow> wi_packageId p), wr_packageVersion = wi_packageVersion p,
      wr_instanceId = wi_instanceId p, wr_rootRunId = or_keep (wi_rootRunId p) newid, wr_parentRunId = wi_parentRunId p,
      wr_parentStepId = wi_parentStepId p, wr_depth = wi_depth p, wr_trigger = wi_trigger p, wr_dedupeKey = wi_dedupeKey p,
      wr_status = wi_status p, wr_workflow = wi_workflow p, wr_inputs = stored (wi_inputs p), wr_outputs = None, wr_context = [],
      wr_position = initialPosition, wr_wait = None, wr_wakeAt = None, wr_error = wi_error p, wr_correlationId = wi_correlationId p,
      wr_leaseOwner = None, wr_leaseExpiresAt = None, wr_createdAt = now, wr_startedAt = None, wr_updatedAt = now,
      wr_completedAt = (if wi_status p \<in> set TERMINAL_RUN_STATUSES then Some now else None)\<rparr>"

definition wf_getRun :: "string \<Rightarrow> wf_db \<Rightarrow> wf_row option" where
  "wf_getRun i d = sql_get (\<lambda>r. wr_id r = i) (wd_runs d)"

definition getRunByDedupe :: "string \<Rightarrow> wf_db \<Rightarrow> wf_row option" where
  "getRunByDedupe k d = sql_get (\<lambda>r. wr_dedupeKey r = Some k) (wd_runs d)"

text \<open>\<open>INSERT OR IGNORE\<close>: nothing happens when the id or the dedupe key is taken.\<close>

definition insertRun :: "string \<Rightarrow> int \<Rightarrow> wf_input \<Rightarrow> wf_db \<Rightarrow> wf_row option \<times> wf_db" where
  "insertRun newid now p d =
     (if list_ex (\<lambda>r. wr_id r = newid \<or> (wi_dedupeKey p \<noteq> None \<and> wr_dedupeKey r = wi_dedupeKey p)) (wd_runs d) then (None, d)
      else (let d' = d\<lparr>wd_runs := wd_runs d @ [new_wf_row newid now p]\<rparr> in (wf_getRun newid d', d')))"

record run_filter =
  rf_instanceId :: "string option"
  rf_packageId :: "string option"
  rf_status :: "wf_status list option"
  rf_kind :: "string option"
  rf_parentRunId :: "string option"
  rf_limit :: int

definition all_runs :: run_filter where
  "all_runs = \<lparr>rf_instanceId = None, rf_packageId = None, rf_status = None, rf_kind = None, rf_parentRunId = None, rf_limit = 50\<rparr>"

definition filter_run :: "run_filter \<Rightarrow> wf_row \<Rightarrow> bool" where
  "filter_run f r \<longleftrightarrow>
     (case rf_instanceId f of Some (c # cs) \<Rightarrow> wr_instanceId r = Some (c # cs) | _ \<Rightarrow> True) \<and>
     (case rf_packageId f of Some (c # cs) \<Rightarrow> wr_packageId r = c # cs | _ \<Rightarrow> True) \<and>
     (case rf_kind f of Some (c # cs) \<Rightarrow> wr_kind r = c # cs | _ \<Rightarrow> True) \<and>
     (case rf_parentRunId f of Some (c # cs) \<Rightarrow> wr_parentRunId r = Some (c # cs) | _ \<Rightarrow> True) \<and>
     (case rf_status f of Some sts \<Rightarrow> wr_status r \<in> set sts | None \<Rightarrow> True)"

definition wf_listRuns :: "run_filter \<Rightarrow> wf_db \<Rightarrow> wf_row list" where
  "wf_listRuns f d =
     take (nat (min (max (if rf_limit f = 0 then 50 else rf_limit f) 1) 1000))
       (rev (sort_key wr_createdAt (sort_key wr_id (filter (filter_run f) (wd_runs d)))))"

text \<open>Claims a pending run for execution.\<close>

definition lease_run_row :: "string \<times> int \<times> int \<Rightarrow> wf_row \<Rightarrow> wf_row" where
  "lease_run_row p r =
     (case p of (owner, expires, now) \<Rightarrow>
        r\<lparr>wr_status := WRunning, wr_leaseOwner := Some owner, wr_leaseExpiresAt := Some expires,
          wr_startedAt := (case wr_startedAt r of None \<Rightarrow> Some now | s \<Rightarrow> s), wr_updatedAt := now\<rparr>)"

definition leaseRun :: "string \<Rightarrow> string \<Rightarrow> int \<Rightarrow> int \<Rightarrow> wf_db \<Rightarrow> wf_row option \<times> wf_db" where
  "leaseRun i owner ms now d =
     (let P = (\<lambda>r. wr_id r = i \<and> wr_status r = WPending);
          d' = d\<lparr>wd_runs := sql_update P (lease_run_row (owner, now + ms, now)) (wd_runs d)\<rparr> in
      (if sql_changes P (wd_runs d) = 1 then wf_getRun i d' else None, d'))"

text \<open>Only the worker that holds a running run renews, checkpoints or suspends it.\<close>

definition held_by :: "string \<Rightarrow> string \<Rightarrow> wf_row \<Rightarrow> bool" where
  "held_by i owner r \<longleftrightarrow> wr_id r = i \<and> wr_leaseOwner r = Some owner \<and> wr_status r = WRunning"

definition renew_run_row :: "int \<Rightarrow> wf_row \<Rightarrow> wf_row" where
  "renew_run_row expires r = r\<lparr>wr_leaseExpiresAt := Some expires\<rparr>"

definition renewRunLease :: "string \<Rightarrow> string \<Rightarrow> int \<Rightarrow> int \<Rightarrow> wf_db \<Rightarrow> wf_db" where
  "renewRunLease i owner ms now d = d\<lparr>wd_runs := sql_update (held_by i owner) (renew_run_row (now + ms)) (wd_runs d)\<rparr>"

definition checkpoint_row :: "context_map \<times> position \<times> int \<Rightarrow> wf_row \<Rightarrow> wf_row" where
  "checkpoint_row p r =
     (case p of (ctx, pos, now) \<Rightarrow> r\<lparr>wr_context := stored_context ctx, wr_position := stored_position pos, wr_updatedAt := now\<rparr>)"

definition checkpointRun :: "string \<Rightarrow> context_map \<Rightarrow> position \<Rightarrow> string \<Rightarrow> int \<Rightarrow> wf_db \<Rightarrow> wf_db" where
  "checkpointRun i ctx pos owner now d =
     d\<lparr>wd_runs := sql_update (held_by i owner) (checkpoint_row (ctx, pos, now)) (wd_runs d)\<rparr>"

definition suspend_row :: "(context_map \<times> position \<times> int) \<times> wait \<times> int option \<Rightarrow> wf_row \<Rightarrow> wf_row" where
  "suspend_row p r =
     (checkpoint_row (fst p) r)\<lparr>wr_status := WWaiting, wr_wait := Some (fst (snd p)), wr_wakeAt := snd (snd p),
       wr_leaseOwner := None, wr_leaseExpiresAt := None\<rparr>"

definition suspendRun ::
  "string \<Rightarrow> context_map \<Rightarrow> position \<Rightarrow> wait \<Rightarrow> int option \<Rightarrow> string \<Rightarrow> int \<Rightarrow> wf_db \<Rightarrow> wf_row option \<times> wf_db" where
  "suspendRun i ctx pos w wakeAt owner now d =
     (let d' = d\<lparr>wd_runs := sql_update (held_by i owner) (suspend_row ((ctx, pos, now), w, wakeAt)) (wd_runs d)\<rparr> in (wf_getRun i d', d'))"

text \<open>\<open>COALESCE\<close>: a context or position that is not given is kept.\<close>

record run_end =
  re_status :: wf_status
  re_outputs :: "jsval option"
  re_error :: "string option"
  re_context :: "context_map option"
  re_position :: "position option"

definition finish_row :: "run_end \<times> int \<Rightarrow> wf_row \<Rightarrow> wf_row" where
  "finish_row p r =
     (let e = fst p in
      r\<lparr>wr_status := re_status e, wr_outputs := re_outputs e, wr_error := re_error e,
        wr_context := (case re_context e of Some c \<Rightarrow> stored_context c | None \<Rightarrow> wr_context r),
        wr_position := (case re_position e of Some q \<Rightarrow> stored_position q | None \<Rightarrow> wr_position r),
        wr_wait := None, wr_wakeAt := None, wr_leaseOwner := None, wr_leaseExpiresAt := None,
        wr_updatedAt := snd p, wr_completedAt := Some (snd p)\<rparr>)"

text \<open>The statement has no condition but the id.\<close>

definition wf_finishRun :: "string \<Rightarrow> run_end \<Rightarrow> int \<Rightarrow> wf_db \<Rightarrow> wf_row option \<times> wf_db" where
  "wf_finishRun i e now d =
     (let d' = d\<lparr>wd_runs := sql_update (\<lambda>r. wr_id r = i) (finish_row (e, now)) (wd_runs d)\<rparr> in (wf_getRun i d', d'))"

definition wf_wake_row :: "position option \<times> int \<Rightarrow> wf_row \<Rightarrow> wf_row" where
  "wf_wake_row p r =
     r\<lparr>wr_status := WPending, wr_position := (case fst p of Some q \<Rightarrow> stored_position q | None \<Rightarrow> wr_position r),
       wr_wait := None, wr_wakeAt := None, wr_updatedAt := snd p\<rparr>"

definition wakeRun :: "string \<Rightarrow> position option \<Rightarrow> int \<Rightarrow> wf_db \<Rightarrow> bool \<times> wf_db" where
  "wakeRun i pos now d =
     (let P = (\<lambda>r. wr_id r = i \<and> wr_status r = WWaiting) in
      (sql_changes P (wd_runs d) = 1, d\<lparr>wd_runs := sql_update P (wf_wake_row (pos, now)) (wd_runs d)\<rparr>))"

definition recover_row :: "int \<Rightarrow> wf_row \<Rightarrow> wf_row" where
  "recover_row now r = r\<lparr>wr_status := WPending, wr_leaseOwner := None, wr_leaseExpiresAt := None, wr_updatedAt := now\<rparr>"

definition recoverInterruptedRuns :: "bool \<Rightarrow> int \<Rightarrow> wf_db \<Rightarrow> nat \<times> wf_db" where
  "recoverInterruptedRuns expiredOnly now d =
     (let P = (\<lambda>r. wr_status r = WRunning \<and> (expiredOnly \<longrightarrow> (case wr_leaseExpiresAt r of None \<Rightarrow> True | Some e \<Rightarrow> e \<le> now))) in
      (sql_changes P (wd_runs d), d\<lparr>wd_runs := sql_update P (recover_row now) (wd_runs d)\<rparr>))"

definition listWaitingRuns :: "int option \<Rightarrow> wf_db \<Rightarrow> wf_row list" where
  "listWaitingRuns dueBefore d =
     (case dueBefore of
        Some t \<Rightarrow> sort_key (\<lambda>r. the (wr_wakeAt r))
                   (filter (\<lambda>r. wr_status r = WWaiting \<and> (case wr_wakeAt r of Some w \<Rightarrow> w \<le> t | None \<Rightarrow> False)) (wd_runs d))
      | None \<Rightarrow> sort_key wr_createdAt (filter (\<lambda>r. wr_status r = WWaiting) (wd_runs d)))"

definition listRunnableRuns :: "nat \<Rightarrow> wf_db \<Rightarrow> wf_row list" where
  "listRunnableRuns limit d =
     take limit (sort_key wr_createdAt (sort_key wr_id (filter (\<lambda>r. wr_status r = WPending) (wd_runs d))))"

section \<open>Step records and the event cursor\<close>

record wf_step_input =
  si_runId :: string
  si_stepId :: string
  si_iteration :: int
  si_kind :: string
  si_status :: string
  si_attempts :: nat
  si_actionId :: "string option"
  si_childRunId :: "string option"
  si_policy :: "pkg_policy option"
  si_output :: "jsval option"
  si_error :: "string option"

definition step_completed :: "string \<Rightarrow> int \<Rightarrow> int option" where
  "step_completed st now = (if st \<in> {''completed'', ''failed'', ''skipped'', ''denied''} then Some now else None)"

definition new_step_row :: "string \<Rightarrow> int \<Rightarrow> wf_step_input \<Rightarrow> wf_step_row" where
  "new_step_row newid now p =
     \<lparr>wt_id = newid, wt_runId = si_runId p, wt_stepId = si_stepId p, wt_iteration = si_iteration p, wt_kind = si_kind p,
      wt_status = si_status p, wt_attempts = si_attempts p, wt_actionId = si_actionId p, wt_childRunId = si_childRunId p,
      wt_policy = si_policy p, wt_output = si_output p, wt_error = si_error p, wt_startedAt = now, wt_updatedAt = now,
      wt_completedAt = step_completed (si_status p) now\<rparr>"

definition keep_or :: "'a option \<Rightarrow> 'a option \<Rightarrow> 'a option" where
  "keep_or new old = (case new of Some v \<Rightarrow> Some v | None \<Rightarrow> old)"

definition update_step_row :: "wf_step_row \<Rightarrow> wf_step_row \<Rightarrow> wf_step_row" where
  "update_step_row new old =
     old\<lparr>wt_status := wt_status new, wt_attempts := wt_attempts new, wt_actionId := keep_or (wt_actionId new) (wt_actionId old),
       wt_childRunId := keep_or (wt_childRunId new) (wt_childRunId old), wt_policy := keep_or (wt_policy new) (wt_policy old),
       wt_output := wt_output new, wt_error := wt_error new, wt_updatedAt := wt_updatedAt new, wt_completedAt := wt_completedAt new\<rparr>"

definition recordStep :: "string \<Rightarrow> int \<Rightarrow> wf_step_input \<Rightarrow> wf_db \<Rightarrow> wf_db" where
  "recordStep newid now p d =
     (let same = (\<lambda>t. wt_runId t = si_runId p \<and> wt_stepId t = si_stepId p \<and> wt_iteration t = si_iteration p);
          new = new_step_row newid now p in
      d\<lparr>wd_steps := (if list_ex same (wd_steps d) then sql_update same (update_step_row new) (wd_steps d) else wd_steps d @ [new])\<rparr>)"

definition listSteps :: "string \<Rightarrow> wf_db \<Rightarrow> wf_step_row list" where
  "listSteps runId d = sort_key wt_startedAt (filter (\<lambda>t. wt_runId t = runId) (wd_steps d))"

definition setEventCursor :: "int \<Rightarrow> wf_db \<Rightarrow> wf_db" where
  "setEventCursor rowid d = d\<lparr>wd_cursor := Some (case wd_cursor d of None \<Rightarrow> rowid | Some c \<Rightarrow> max c rowid)\<rparr>"

section \<open>Updates of a run\<close>

text \<open>What a run is: its definition and inputs as they were at creation, and on whose behalf it acts.\<close>

record run_identity =
  ri_run :: string
  ri_what :: "string \<times> string \<times> string \<times> string option \<times> jsval \<times> xval"
  ri_principal :: string
  ri_place :: "string option \<times> string \<times> string option \<times> string option \<times> nat"
  ri_origin :: "jsval \<times> string option \<times> string option \<times> int"

definition identity_of :: "wf_row \<Rightarrow> run_identity" where
  "identity_of r =
     \<lparr>ri_run = wr_id r, ri_what = (wr_kind r, wr_definitionId r, wr_packageId r, wr_packageVersion r, wr_workflow r, wr_inputs r),
      ri_principal = wr_principal r, ri_place = (wr_instanceId r, wr_rootRunId r, wr_parentRunId r, wr_parentStepId r, wr_depth r),
      ri_origin = (wr_trigger r, wr_dedupeKey r, wr_correlationId r, wr_createdAt r)\<rparr>"

lemma identity_ofD:
  assumes "identity_of r = identity_of s"
  shows "wr_id r = wr_id s" "wr_dedupeKey r = wr_dedupeKey s" "wr_principal r = wr_principal s" "wr_kind r = wr_kind s"
    "wr_packageId r = wr_packageId s" "wr_instanceId r = wr_instanceId s" "wr_rootRunId r = wr_rootRunId s" "wr_depth r = wr_depth s"
    "wr_parentRunId r = wr_parentRunId s" "wr_workflow r = wr_workflow s" "wr_createdAt r = wr_createdAt s"
  using assms by (simp_all add: identity_of_def)

text \<open>The contract of every UPDATE of the table: it leaves the identity alone.\<close>

locale run_update =
  fixes upd :: "'p \<Rightarrow> wf_row \<Rightarrow> wf_row"
  assumes identity_upd: "identity_of (upd p r) = identity_of r"
begin

lemma id_upd: "wr_id (upd p r) = wr_id r"
  using identity_upd by (rule identity_ofD)

lemma identities_update: "map identity_of (sql_update P (upd p) rows) = map identity_of rows"
  by (simp add: sql_update_def identity_upd)

end

sublocale run_update \<subseteq> keyed_update wr_id upd
  by unfold_locales (rule id_upd)

interpretation lease: run_update lease_run_row
  by unfold_locales (simp add: lease_run_row_def identity_of_def split: prod.split)

interpretation renew: run_update renew_run_row
  by unfold_locales (simp add: renew_run_row_def identity_of_def)

interpretation checkpoint: run_update checkpoint_row
  by unfold_locales (simp add: checkpoint_row_def identity_of_def split: prod.split)

interpretation suspend: run_update suspend_row
  by unfold_locales (simp add: suspend_row_def checkpoint_row_def identity_of_def split: prod.split)

interpretation finish: run_update finish_row
  by unfold_locales (simp add: finish_row_def Let_def identity_of_def)

interpretation wake: run_update wf_wake_row
  by unfold_locales (simp add: wf_wake_row_def identity_of_def)

interpretation recover: run_update recover_row
  by unfold_locales (simp add: recover_row_def identity_of_def)

section \<open>The life of a run\<close>

text \<open>Every way the table of runs changes.\<close>

datatype wf_op =
    Insert string wf_input
  | Lease string string int
  | Renew string string int
  | Checkpoint string context_map position string
  | Suspend string context_map position wait "int option" string
  | Finish string run_end
  | Wake string "position option"
  | Recover bool

fun apply_wf :: "wf_op \<Rightarrow> int \<Rightarrow> wf_db \<Rightarrow> wf_db" where
  "apply_wf (Insert newid p) now d = snd (insertRun newid now p d)"
| "apply_wf (Lease i owner ms) now d = snd (leaseRun i owner ms now d)"
| "apply_wf (Renew i owner ms) now d = renewRunLease i owner ms now d"
| "apply_wf (Checkpoint i ctx pos owner) now d = checkpointRun i ctx pos owner now d"
| "apply_wf (Suspend i ctx pos w wakeAt owner) now d = snd (suspendRun i ctx pos w wakeAt owner now d)"
| "apply_wf (Finish i e) now d = snd (wf_finishRun i e now d)"
| "apply_wf (Wake i pos) now d = snd (wakeRun i pos now d)"
| "apply_wf (Recover expiredOnly) now d = snd (recoverInterruptedRuns expiredOnly now d)"

text \<open>The callers insert runs with a status of their own and finish them with a final one.\<close>

fun op_allowed :: "wf_op \<Rightarrow> bool" where
  "op_allowed (Insert newid p) \<longleftrightarrow> wi_status p \<notin> {WRunning, WWaiting}"
| "op_allowed (Finish i e) \<longleftrightarrow> re_status e \<in> set TERMINAL_RUN_STATUSES"
| "op_allowed _ \<longleftrightarrow> True"

definition terminal :: "wf_row \<Rightarrow> bool" where
  "terminal r \<longleftrightarrow> wr_status r \<in> set TERMINAL_RUN_STATUSES"

definition wf_row_ok :: "wf_row \<Rightarrow> bool" where
  "wf_row_ok r \<longleftrightarrow>
     (wr_leaseOwner r \<noteq> None \<longleftrightarrow> wr_status r = WRunning) \<and> (wr_leaseExpiresAt r \<noteq> None \<longleftrightarrow> wr_status r = WRunning) \<and>
     (wr_wait r \<noteq> None \<longleftrightarrow> wr_status r = WWaiting) \<and> (wr_wakeAt r \<noteq> None \<longrightarrow> wr_status r = WWaiting) \<and>
     (wr_completedAt r \<noteq> None \<longleftrightarrow> terminal r) \<and> (wr_status r = WRunning \<longrightarrow> wr_startedAt r \<noteq> None)"

definition wf_ok :: "wf_db \<Rightarrow> bool" where
  "wf_ok d \<longleftrightarrow>
     distinct (map wr_id (wd_runs d)) \<and>
     distinct (filter (\<lambda>k. k \<noteq> None) (map wr_dedupeKey (wd_runs d))) \<and>
     (\<forall>r\<in>set (wd_runs d). wf_row_ok r)"

context run_update
begin

lemma update_ok:
  assumes "wf_ok d" and "\<And>r. P r \<Longrightarrow> wf_row_ok r \<Longrightarrow> wf_row_ok (upd p r)"
  shows "wf_ok (d\<lparr>wd_runs := sql_update P (upd p) (wd_runs d)\<rparr>)"
proof -
  have k: "map wr_dedupeKey (sql_update P (upd p) rows) = map wr_dedupeKey rows" for rows
    by (simp add: sql_update_def identity_ofD(2) [OF identity_upd])
  have "wf_row_ok r" if "r \<in> set (sql_update P (upd p) (wd_runs d))" for r
    using that assms by (auto simp: set_sql_update wf_ok_def)
  then show ?thesis using assms(1) by (simp add: wf_ok_def map_key_update k)
qed

end

lemmas row_ok_simps = wf_row_ok_def terminal_def TERMINAL_RUN_STATUSES_def

lemma insertRun_ok:
  assumes "wf_ok d" and "wi_status p \<notin> {WRunning, WWaiting}"
  shows "wf_ok (snd (insertRun newid now p d))"
proof -
  have "wf_row_ok (new_wf_row newid now p)" using assms(2) by (cases "wi_status p") (simp_all add: new_wf_row_def row_ok_simps)
  moreover have "wr_id (new_wf_row newid now p) = newid" "wr_dedupeKey (new_wf_row newid now p) = wi_dedupeKey p"
    by (simp_all add: new_wf_row_def)
  ultimately show ?thesis
    using assms(1) by (auto simp: insertRun_def Let_def wf_ok_def list_ex_iff)
qed

lemma apply_wf_ok: "wf_ok d \<Longrightarrow> op_allowed op \<Longrightarrow> wf_ok (apply_wf op now d)"
proof (induction op now d rule: apply_wf.induct)
  case (1 newid p now d)
  then show ?case by (simp add: insertRun_ok)
next
  case (2 i owner ms now d)
  then show ?case by (auto simp: leaseRun_def Let_def intro!: lease.update_ok) (auto simp: row_ok_simps lease_run_row_def split: option.split)
next
  case (3 i owner ms now d)
  then show ?case by (auto simp: renewRunLease_def intro!: renew.update_ok) (auto simp: row_ok_simps renew_run_row_def held_by_def)
next
  case (4 i ctx pos owner now d)
  then show ?case by (auto simp: checkpointRun_def intro!: checkpoint.update_ok) (auto simp: row_ok_simps checkpoint_row_def)
next
  case (5 i ctx pos w wakeAt owner now d)
  then show ?case by (auto simp: suspendRun_def Let_def intro!: suspend.update_ok) (auto simp: row_ok_simps suspend_row_def checkpoint_row_def held_by_def)
next
  case (6 i e now d)
  then have "re_status e \<notin> {WPending, WRunning, WWaiting}" by (auto simp: TERMINAL_RUN_STATUSES_def)
  with 6(2) have "wf_row_ok (finish_row (e, now) r)" for r by (simp add: wf_row_ok_def terminal_def finish_row_def Let_def)
  with 6(1) show ?case by (simp add: wf_finishRun_def Let_def finish.update_ok)
next
  case (7 i pos now d)
  then show ?case by (auto simp: wakeRun_def Let_def intro!: wake.update_ok) (auto simp: row_ok_simps wf_wake_row_def)
next
  case (8 expiredOnly now d)
  then show ?case by (auto simp: recoverInterruptedRuns_def Let_def intro!: recover.update_ok) (auto simp: row_ok_simps recover_row_def)
qed

lemma insertRun_eq:
  "insertRun newid now p d =
     (if list_ex (\<lambda>r. wr_id r = newid \<or> (wi_dedupeKey p \<noteq> None \<and> wr_dedupeKey r = wi_dedupeKey p)) (wd_runs d) then (None, d)
      else (Some (new_wf_row newid now p), d\<lparr>wd_runs := wd_runs d @ [new_wf_row newid now p]\<rparr>))"
proof -
  have "wr_id (new_wf_row newid now p) = newid" by (simp add: new_wf_row_def)
  then have "wf_getRun newid (d\<lparr>wd_runs := wd_runs d @ [new_wf_row newid now p]\<rparr>) = Some (new_wf_row newid now p)"
    if "\<not> list_ex (\<lambda>r. wr_id r = newid) (wd_runs d)"
    using that by (auto simp: wf_getRun_def sql_get_append list_ex_iff split: option.split dest: sql_get_SomeD)
  then show ?thesis by (auto simp: insertRun_def Let_def list_ex_iff)
qed

lemma wf_getRun_id: "wf_getRun i d = Some r \<Longrightarrow> wr_id r = i \<and> r \<in> set (wd_runs d)"
  by (auto simp: wf_getRun_def dest: sql_get_SomeD)

definition wf_step :: "wf_db \<Rightarrow> wf_db \<Rightarrow> bool" where
  "wf_step d d' \<longleftrightarrow> (\<exists>op now. op_allowed op \<and> d' = apply_wf op now d)"

interpretation workflow_store: invariant_system wf_ok wf_step
  by unfold_locales (auto simp: wf_step_def apply_wf_ok)

text \<open>A later state of the table: every run is still there, as what it was, and final if it was.\<close>

definition continues :: "wf_db \<Rightarrow> wf_db \<Rightarrow> bool" where
  "continues d d' \<longleftrightarrow>
     (\<forall>i r. wf_getRun i d = Some r \<longrightarrow> (\<exists>r'. wf_getRun i d' = Some r' \<and> identity_of r' = identity_of r \<and> (terminal r \<longrightarrow> terminal r')))"

lemma continues_refl: "continues d d"
  by (auto simp: continues_def)

lemma continues_trans: "continues d e \<Longrightarrow> continues e f \<Longrightarrow> continues d f"
  unfolding continues_def by (metis (no_types, lifting))

context run_update
begin

lemma get_update: "wf_getRun i (d\<lparr>wd_runs := sql_update P (upd p) (wd_runs d)\<rparr>) = map_option (\<lambda>r. if P r then upd p r else r) (wf_getRun i d)"
  by (simp add: wf_getRun_def get_after_update)

lemma update_continues:
  assumes "\<And>r. P r \<Longrightarrow> terminal r \<Longrightarrow> terminal (upd p r)"
  shows "continues d (d\<lparr>wd_runs := sql_update P (upd p) (wd_runs d)\<rparr>)"
  using assms by (auto simp: continues_def get_update identity_upd)

end

lemma apply_wf_continues: "op_allowed op \<Longrightarrow> continues d (apply_wf op now d)"
proof (induction op now d rule: apply_wf.induct)
  case (1 newid p now d)
  show ?case by (auto simp: insertRun_def Let_def continues_def wf_getRun_def sql_get_append)
next
  case (2 i owner ms now d)
  show ?case by (auto simp: leaseRun_def Let_def terminal_def TERMINAL_RUN_STATUSES_def intro!: lease.update_continues)
next
  case (3 i owner ms now d)
  show ?case by (auto simp: renewRunLease_def terminal_def renew_run_row_def intro!: renew.update_continues)
next
  case (4 i ctx pos owner now d)
  show ?case by (auto simp: checkpointRun_def terminal_def checkpoint_row_def intro!: checkpoint.update_continues)
next
  case (5 i ctx pos w wakeAt owner now d)
  show ?case by (auto simp: suspendRun_def Let_def terminal_def held_by_def TERMINAL_RUN_STATUSES_def intro!: suspend.update_continues)
next
  case (6 i e now d)
  then show ?case by (auto simp: wf_finishRun_def Let_def terminal_def finish_row_def intro!: finish.update_continues)
next
  case (7 i pos now d)
  show ?case by (auto simp: wakeRun_def Let_def terminal_def TERMINAL_RUN_STATUSES_def intro!: wake.update_continues)
next
  case (8 expiredOnly now d)
  show ?case by (auto simp: recoverInterruptedRuns_def Let_def terminal_def TERMINAL_RUN_STATUSES_def intro!: recover.update_continues)
qed

lemma runs_continue: "run_of wf_step d d' \<Longrightarrow> continues d d'"
  by (induction rule: run_of.induct) (auto simp: wf_step_def intro: continues_refl continues_trans apply_wf_continues)

text \<open>
  C31. Whatever the workers, the timers and the owner do to the runs, in any order: no two runs
  share an id or a dedupe key, so a trigger delivered twice makes one run; a run keeps what it was
  created as, its definition, inputs and the package it acts for; a run is leased exactly while
  it is running and has a wait exactly while it is waiting; and a finished run stays finished.
\<close>

theorem runs_keep_identity:
  assumes "run_of wf_step d d'" and "wf_ok d"
  shows "wf_ok d' \<and> continues d d'"
proof
  show "wf_ok d'" by (rule workflow_store.run_inv [OF assms])
  show "continues d d'" by (rule runs_continue [OF assms(1)])
qed

section \<open>One worker at a time\<close>

lemma leaseRun_pending:
  assumes "wf_ok d" and "wf_getRun i d = Some r"
  shows "fst (leaseRun i owner ms now d) = (if wr_status r = WPending then Some (lease_run_row (owner, now + ms, now) r) else None)"
proof -
  from sql_get_SomeD [OF assms(2) [unfolded wf_getRun_def]] have r: "r \<in> set (wd_runs d)" "wr_id r = i" by auto
  from assms(1) have d: "distinct (map wr_id (wd_runs d))" by (simp add: wf_ok_def)
  let ?P = "\<lambda>x. wr_id x = i \<and> wr_status x = WPending"
  have c: "sql_changes ?P (wd_runs d) \<le> 1" by (rule sql_changes_keyed [OF d]) simp
  have "sql_changes ?P (wd_runs d) = 0 \<longleftrightarrow> wr_status r \<noteq> WPending"
    using r key_unique [OF d] by (auto simp: sql_changes_0_iff)
  with c have "sql_changes ?P (wd_runs d) = 1 \<longleftrightarrow> wr_status r = WPending" by linarith
  then show ?thesis using assms(2) r(2) by (simp add: leaseRun_def Let_def lease.get_update)
qed

text \<open>What ends a lease: the holder suspends the run, someone finishes it, or a recovery at or after its expiry.\<close>

fun releases :: "string \<Rightarrow> int \<Rightarrow> wf_op \<times> int \<Rightarrow> bool" where
  "releases i til (Suspend j ctx pos w wakeAt owner, now) \<longleftrightarrow> j = i"
| "releases i til (Finish j e, now) \<longleftrightarrow> j = i"
| "releases i til (Recover expiredOnly, now) \<longleftrightarrow> \<not> expiredOnly \<or> til \<le> now"
| "releases i til (Renew j owner ms, now) \<longleftrightarrow> j = i \<and> now + ms < til"
| "releases i til _ \<longleftrightarrow> False"

definition leased_until :: "string \<Rightarrow> string \<Rightarrow> int \<Rightarrow> wf_db \<Rightarrow> bool" where
  "leased_until i owner til d \<longleftrightarrow>
     (\<exists>r. wf_getRun i d = Some r \<and> wr_status r = WRunning \<and> wr_leaseOwner r = Some owner \<and>
        (\<exists>e. wr_leaseExpiresAt r = Some e \<and> til \<le> e))"

lemma apply_leased_until:
  assumes "leased_until i owner til d" and "\<not> releases i til (op, now)"
  shows "leased_until i owner til (apply_wf op now d)"
proof -
  from assms(1) obtain r e where r: "wf_getRun i d = Some r" "wr_status r = WRunning" "wr_leaseOwner r = Some owner"
    "wr_leaseExpiresAt r = Some e" "til \<le> e" by (auto simp: leased_until_def)
  from sql_get_SomeD [OF r(1) [unfolded wf_getRun_def]] have i: "wr_id r = i" by simp
  show ?thesis using assms(2)
  proof (cases op)
    case (Insert newid p)
    then show ?thesis using r by (auto simp: leased_until_def insertRun_def Let_def wf_getRun_def sql_get_append)
  next
    case (Lease j o' ms)
    then show ?thesis using r by (simp add: leased_until_def leaseRun_def Let_def lease.get_update)
  next
    case (Renew j o' ms)
    then show ?thesis using r assms(2)
      by (auto simp: leased_until_def renewRunLease_def renew.get_update renew_run_row_def held_by_def i)
  next
    case (Checkpoint j ctx pos o')
    then show ?thesis using r by (simp add: leased_until_def checkpointRun_def checkpoint.get_update checkpoint_row_def)
  next
    case (Suspend j ctx pos w wakeAt o')
    then show ?thesis using r assms(2) by (simp add: leased_until_def suspendRun_def Let_def suspend.get_update held_by_def i)
  next
    case (Finish j e')
    then show ?thesis using r assms(2) by (simp add: leased_until_def wf_finishRun_def Let_def finish.get_update i)
  next
    case (Wake j pos)
    then show ?thesis using r by (simp add: leased_until_def wakeRun_def Let_def wake.get_update)
  next
    case (Recover expiredOnly)
    then show ?thesis using r assms(2) by (simp add: leased_until_def recoverInterruptedRuns_def Let_def recover.get_update)
  qed
qed


section \<open>Recovery\<close>

text \<open>
  No run is lost with the process that executed it: after the recovery at the start of the
  runtime every run that was running or pending can be leased by any worker, and with
  \<open>expiredOnly\<close> exactly those whose lease had not expired stay with their holder.
\<close>

theorem interrupted_run_is_executed:
  assumes "wf_ok d" and "wf_getRun i d = Some r" and "wr_status r \<in> {WPending, WRunning}"
  shows "fst (leaseRun i owner ms now' (snd (recoverInterruptedRuns False now d))) \<noteq> None \<and>
    (fst (leaseRun i owner ms now' (snd (recoverInterruptedRuns True now d))) = None \<longleftrightarrow>
      wr_status r = WRunning \<and> now < the (wr_leaseExpiresAt r))"
proof -
  have g: "wf_getRun i (snd (recoverInterruptedRuns b now d)) =
      Some (if wr_status r = WRunning \<and> (b \<longrightarrow> (case wr_leaseExpiresAt r of None \<Rightarrow> True | Some e \<Rightarrow> e \<le> now)) then recover_row now r else r)" for b
    using assms(2) by (simp add: recoverInterruptedRuns_def Let_def recover.get_update)
  have ok: "wf_ok (snd (recoverInterruptedRuns b now d))" for b using apply_wf_ok [OF assms(1), of "Recover b" now] by simp
  have "wf_row_ok r" using assms(1) sql_get_SomeD [OF assms(2) [unfolded wf_getRun_def]] by (auto simp: wf_ok_def)
  then show ?thesis
    using assms(3) by (auto simp: leaseRun_pending [OF ok g] recover_row_def wf_row_ok_def)
qed

section \<open>A run\<close>

definition ex_wf_input :: wf_input where
  "ex_wf_input = \<lparr>wi_kind = ''automation'', wi_definitionId = ''mail'', wi_packageId = ''p'', wi_principal = None, wi_packageVersion = None,
     wi_instanceId = None, wi_rootRunId = None, wi_parentRunId = None, wi_parentStepId = None, wi_depth = 0, wi_trigger = JObj [],
     wi_dedupeKey = Some ''k'', wi_status = WPending, wi_workflow = JObj [(''steps'', JArr [])], wi_inputs = XObj [],
     wi_correlationId = None, wi_error = None\<rparr>"

definition ex_wf :: wf_db where
  "ex_wf = snd (insertRun ''r'' 0 ex_wf_input empty_wf)"

lemma empty_wf_ok: "wf_ok empty_wf"
  by (simp add: wf_ok_def empty_wf_def)

lemma ex_wf_runs: "wd_runs ex_wf = [new_wf_row ''r'' 0 ex_wf_input]"
  by (simp add: ex_wf_def insertRun_def empty_wf_def Let_def)

lemma ex_wf_ok: "wf_ok ex_wf"
  unfolding ex_wf_def by (rule insertRun_ok [OF empty_wf_ok]) (simp add: ex_wf_input_def)

lemma ex_wf_row: "wf_getRun ''r'' ex_wf = Some (new_wf_row ''r'' 0 ex_wf_input)" "wr_status (new_wf_row ''r'' 0 ex_wf_input) = WPending"
  by (simp_all add: wf_getRun_def ex_wf_runs new_wf_row_def ex_wf_input_def)

text \<open>The delivery of the same trigger again changes nothing.\<close>

theorem runs_keep_identity_witness:
  "wf_ok (apply_wf (Insert ''r2'' ex_wf_input) 1 ex_wf) \<and> continues ex_wf (apply_wf (Insert ''r2'' ex_wf_input) 1 ex_wf) \<and>
   length (wd_runs (apply_wf (Insert ''r2'' ex_wf_input) 1 ex_wf)) = 1"
proof -
  have "op_allowed (Insert ''r2'' ex_wf_input)" by (simp add: ex_wf_input_def)
  then have "wf_step ex_wf (apply_wf (Insert ''r2'' ex_wf_input) 1 ex_wf)" unfolding wf_step_def by blast
  then have "run_of wf_step ex_wf (apply_wf (Insert ''r2'' ex_wf_input) 1 ex_wf)" by (rule run_more [OF run_start])
  from runs_keep_identity [OF this ex_wf_ok]
  have "wf_ok (apply_wf (Insert ''r2'' ex_wf_input) 1 ex_wf) \<and> continues ex_wf (apply_wf (Insert ''r2'' ex_wf_input) 1 ex_wf)" .
  then show ?thesis by (simp add: insertRun_def ex_wf_runs new_wf_row_def ex_wf_input_def)
qed

definition ex_ops :: "(wf_op \<times> int) list" where
  "ex_ops = [(Checkpoint ''r'' [] initialPosition ''w1'', 6), (Renew ''r'' ''w1'' 1000, 500), (Recover True, 900)]"


theorem interrupted_run_is_executed_witness:
  "fst (leaseRun ''r'' ''w2'' 1000 9 (snd (recoverInterruptedRuns False 8 (snd (leaseRun ''r'' ''w1'' 1000 5 ex_wf))))) \<noteq> None"
proof -
  let ?d = "snd (leaseRun ''r'' ''w1'' 1000 5 ex_wf)"
  have "wf_ok ?d" using apply_wf_ok [OF ex_wf_ok, of "Lease ''r'' ''w1'' 1000" 5] by simp
  moreover have "wf_getRun ''r'' ?d = Some (lease_run_row (''w1'', 1005, 5) (new_wf_row ''r'' 0 ex_wf_input))"
    using ex_wf_row by (simp add: leaseRun_def Let_def lease.get_update new_wf_row_def)
  ultimately show ?thesis using interrupted_run_is_executed [of ?d "''r''"] by (simp add: lease_run_row_def)
qed

end
