(* ===== verification/U2_Workflow_Engine.thy ===== *)
theory U2_Workflow_Engine
  imports U2_Invoker U2_Workflow_Store
begin

text \<open>
  The durable engine of \<open>server/packages/workflow-engine.js\<close>: it leases a pending run, executes its
  steps one unit at a time (a step, or one item of a \<open>foreach\<close>), checkpoints after each, and
  suspends the run with a handle when it has to wait. Capabilities go through \<open>invoke\<close> of
  \<open>U2_Invoker\<close>; a child skill is a run of its own.

  Clock readings, fresh ids, the tool calls and what others do while a call is awaited are
  functions of a tick that every operation on the tables advances. The code of packages and the
  subscribers of the event bus are parameters.
\<close>

section \<open>State and environment\<close>

record pkg_event =
  ev_id :: string
  ev_timestamp :: int
  ev_type :: string
  ev_source :: string
  ev_actor :: "actor option"
  ev_subject :: "(string \<times> string) option"
  ev_data :: jsval
  ev_correlationId :: "string option"
  ev_causationId :: "string option"
  ev_createdAt :: int
  ev_metadata :: "(string \<times> jsval) list"

record engine_state =
  es_tick :: nat
  es_db :: db
  es_hidden :: "string list"
  es_wf :: wf_db
  es_world :: package_world
  es_events :: "pkg_event list"

record engine_env =
  en_num :: "jsval \<Rightarrow> rat option"
  en_expr :: expr_env
  en_agent :: agent_env
  en_owner :: string
  en_leaseMs :: int
  en_clock :: "nat \<Rightarrow> int"
  en_id :: "nat \<Rightarrow> string"
  en_call :: "nat \<Rightarrow> call_io"
  en_timer :: "nat \<Rightarrow> bool"   \<comment> \<open>the timeout of a step fires before the call returns\<close>
  en_code :: "string \<Rightarrow> xval \<Rightarrow> engine_state \<Rightarrow> xval res \<times> engine_state"
  en_notify :: "pkg_event \<Rightarrow> engine_state \<Rightarrow> engine_state"
  en_meanwhile :: "nat \<Rightarrow> engine_state \<Rightarrow> engine_state"

definition MAX_FOREACH_ITEMS :: nat where "MAX_FOREACH_ITEMS = 500"
definition MAX_SKILL_DEPTH :: nat where "MAX_SKILL_DEPTH = 8"
definition MAX_ERROR_LENGTH :: nat where "MAX_ERROR_LENGTH = 500"

text \<open>The ellipsis that marks a cut is U+2026, three bytes.\<close>

definition engine_error :: "js_error \<Rightarrow> string" where
  "engine_error e =
     (let m = (case error_message e of [] \<Rightarrow> ''unknown error'' | c # cs \<Rightarrow> c # cs) in
      if length m > MAX_ERROR_LENGTH then take MAX_ERROR_LENGTH m @ map char_of [226, 128, 166 :: nat] else m)"

definition now_at :: "engine_env \<Rightarrow> engine_state \<Rightarrow> int" where
  "now_at en st = en_clock en (es_tick st)"

definition wf_act :: "engine_env \<Rightarrow> (string \<Rightarrow> int \<Rightarrow> wf_db \<Rightarrow> 'a \<times> wf_db) \<Rightarrow> engine_state \<Rightarrow> 'a \<times> engine_state" where
  "wf_act en f st =
     (case f (en_id en (es_tick st)) (now_at en st) (es_wf st) of (x, d) \<Rightarrow> (x, st\<lparr>es_tick := Suc (es_tick st), es_wf := d\<rparr>))"

definition wf_do :: "engine_env \<Rightarrow> (string \<Rightarrow> int \<Rightarrow> wf_db \<Rightarrow> wf_db) \<Rightarrow> engine_state \<Rightarrow> engine_state" where
  "wf_do en f st = snd (wf_act en (\<lambda>i t d. ((), f i t d)) st)"

definition publish_event :: "engine_env \<Rightarrow> pkg_event \<Rightarrow> engine_state \<Rightarrow> pkg_event \<times> engine_state" where
  "publish_event en ev st =
     (let e = ev\<lparr>ev_id := en_id en (es_tick st), ev_timestamp := now_at en st, ev_createdAt := now_at en st\<rparr> in
      (e, en_notify en e (st\<lparr>es_tick := Suc (es_tick st), es_events := es_events st @ [e]\<rparr>)))"

definition js_or_null :: "string option \<Rightarrow> jsval" where
  "js_or_null s = (case some_text s of Some t \<Rightarrow> JStr t | None \<Rightarrow> JNull)"

definition text_or_null :: "string option \<Rightarrow> jsval" where
  "text_or_null s = (case s of Some t \<Rightarrow> JStr t | None \<Rightarrow> JNull)"

definition run_event :: "string \<Rightarrow> wf_row \<Rightarrow> (string \<times> jsval) list \<Rightarrow> pkg_event" where
  "run_event type r data =
     \<lparr>ev_id = [], ev_timestamp = 0, ev_type = type, ev_source = ''automation-runtime'',
      ev_actor = Some \<lparr>actor_type = ''package'', actor_id = wr_packageId r\<rparr>, ev_subject = Some (''workflow_run'', wr_id r),
      ev_data = JObj (js_spread [(''automation'', JStr (wr_definitionId r)), (''package'', JStr (wr_packageId r)), (''runId'', JStr (wr_id r)),
         (''status'', JStr (wf_status_text (wr_status r))),
         (''trigger'', case js_get (Some (wr_trigger r)) ''type'' of Some v \<Rightarrow> if truthy (Some v) then v else JNull | None \<Rightarrow> JNull)] data),
      ev_correlationId = wr_correlationId r, ev_causationId = None, ev_createdAt = 0,
      ev_metadata = [(''automationInstanceId'', js_or_null (wr_instanceId r)), (''workflowRunId'', JStr (wr_id r)),
         (''provenance'', JStr ''automation-runtime'')]\<rparr>"

definition publish_run :: "engine_env \<Rightarrow> string \<Rightarrow> wf_row option \<Rightarrow> (string \<times> jsval) list \<Rightarrow> engine_state \<Rightarrow> engine_state" where
  "publish_run en type r data st = (case r of None \<Rightarrow> st | Some row \<Rightarrow> snd (publish_event en (run_event type row data) st))"

section \<open>Completion\<close>

definition wakeParent :: "engine_env \<Rightarrow> string \<Rightarrow> string \<Rightarrow> engine_state \<Rightarrow> engine_state" where
  "wakeParent en parentId childId st =
     (case wf_getRun parentId (es_wf st) of
        None \<Rightarrow> st
      | Some p \<Rightarrow>
          if wr_status p = WWaiting \<and> wr_wait p = Some (Wait_child childId) then wf_do en (\<lambda>_ now d. snd (wakeRun parentId None now d)) st
          else st)"

definition finish_patch :: "wf_row \<Rightarrow> run_end \<Rightarrow> instance_patch" where
  "finish_patch r e = empty_patch\<lparr>ip_lastRunId := Some (wr_id r), ip_lastStatus := Some (wf_status_text (re_status e)), ip_lastError := Some (re_error e)\<rparr>"

definition engine_finish :: "engine_env \<Rightarrow> wf_row \<Rightarrow> run_end \<Rightarrow> engine_state \<Rightarrow> wf_row option \<times> engine_state" where
  "engine_finish en r e st =
     (case wf_act en (\<lambda>_ now. wf_finishRun (wr_id r) e now) st of
        (finished, st1) \<Rightarrow>
          let st2 = (if wr_kind r = ''automation'' then
                publish_run en (if re_status e = WCompleted then ''automation.completed'' else ''automation.failed'') finished
                  (if re_status e = WCompleted then [] else [(''reason'', JStr (if re_status e = WCancelled then ''cancelled'' else ''run_failed''))])
                  (case some_text (wr_instanceId r) of
                     Some i \<Rightarrow> wf_do en (\<lambda>_ now d. snd (updateInstance i (finish_patch r e) now d)) st1
                   | None \<Rightarrow> st1)
              else st1) in
          (finished, case some_text (wr_parentRunId r) of Some p \<Rightarrow> wakeParent en p (wr_id r) st2 | None \<Rightarrow> st2))"

abbreviation failed_end :: "string \<Rightarrow> run_end" where
  "failed_end m \<equiv> \<lparr>re_status = WFailed, re_outputs = None, re_error = Some m, re_context = None, re_position = None\<rparr>"

section \<open>Units\<close>

text \<open>What a run is executed with.\<close>

record run_env =
  rn_run :: wf_row
  rn_manifest :: manifest
  rn_instance :: "instance_row option"
  rn_settings :: "(string \<times> jsval) list"

text \<open>What a unit changes: the handle of the position, the automation's state in scope, and the world.\<close>

record unit_state =
  us_handle :: "handle option"
  us_state :: "(string \<times> jsval) list"
  us_engine :: engine_state

datatype unit_status = UCompleted | UWaiting | UDenied | USkipped | UFailed

record unit_outcome =
  uo_status :: unit_status
  uo_output :: xval
  uo_reason :: "string option"
  uo_actionId :: "string option"
  uo_retryable :: bool
  uo_wait :: "(wait \<times> int option) option"

definition unit_end :: "unit_status \<Rightarrow> unit_outcome" where
  "unit_end s = \<lparr>uo_status = s, uo_output = XUndef, uo_reason = None, uo_actionId = None, uo_retryable = True, uo_wait = None\<rparr>"

abbreviation unit_done :: "xval \<Rightarrow> unit_outcome" where "unit_done v \<equiv> (unit_end UCompleted)\<lparr>uo_output := v\<rparr>"
abbreviation unit_error :: "string \<Rightarrow> unit_outcome" where "unit_error m \<equiv> (unit_end UFailed)\<lparr>uo_reason := Some m\<rparr>"
abbreviation unit_failed :: "string \<Rightarrow> unit_outcome" where "unit_failed m \<equiv> (unit_error m)\<lparr>uo_retryable := False\<rparr>"
abbreviation unit_waits :: "wait \<Rightarrow> int option \<Rightarrow> unit_outcome" where "unit_waits w t \<equiv> (unit_end UWaiting)\<lparr>uo_wait := Some (w, t)\<rparr>"

type_synonym pairs = "(string \<times> xval) list"
type_synonym unit_run = "unit_state \<Rightarrow> unit_outcome res \<times> unit_state"

definition context_value :: "context_map \<Rightarrow> xval" where
  "context_value ctx = XObj (map (\<lambda>(k, e). (k, XObj [(''status'', XStr (se_status e)), (''output'', se_output e)])) ctx)"

definition json_pairs :: "(string \<times> jsval) list \<Rightarrow> xval" where
  "json_pairs ps = of_json (JObj ps)"

definition run_scope :: "run_env \<Rightarrow> context_map \<Rightarrow> unit_state \<Rightarrow> pairs" where
  "run_scope u ctx us =
     [(''inputs'', wr_inputs (rn_run u)), (''steps'', context_value ctx),
      (''settings'', json_pairs (rn_settings u)),
      (''state'', json_pairs (us_state us)), (''trigger'', of_json (wr_trigger (rn_run u))),
      (''run'', XObj [(''id'', XStr (wr_id (rn_run u))),
         (''startedAt'', case wr_startedAt (rn_run u) of Some t \<Rightarrow> XStr (iso_string t) | None \<Rightarrow> XNull)])]"

definition env_at :: "engine_env \<Rightarrow> engine_state \<Rightarrow> expr_env" where
  "env_at en st = (en_expr en)\<lparr>xe_now := now_at en st\<rparr>"

definition template :: "engine_env \<Rightarrow> pairs \<Rightarrow> jsval option \<Rightarrow> engine_state \<Rightarrow> xval res" where
  "template en scope v st = (case v of None \<Rightarrow> Inr XUndef | Some t \<Rightarrow> resolveTemplate (env_at en st) (XObj scope) t)"

definition step_field :: "jsval \<Rightarrow> string \<Rightarrow> jsval option" where
  "step_field step k = js_get (Some step) k"

definition step_id :: "jsval \<Rightarrow> string" where
  "step_id step = (case step_field step ''id'' of Some v \<Rightarrow> js_str v | None \<Rightarrow> ''undefined'')"

text \<open>\<open>step.with || {}\<close>, and \<open>step.with.key\<close>, an error when there is no \<open>with\<close>.\<close>

definition step_with :: "jsval \<Rightarrow> jsval" where
  "step_with step = (case step_field step ''with'' of Some v \<Rightarrow> if truthy (Some v) then v else JObj [] | None \<Rightarrow> JObj [])"

definition with_key :: "jsval \<Rightarrow> string \<Rightarrow> jsval option res" where
  "with_key step k =
     (case step_field step ''with'' of
        None \<Rightarrow> Inl (TypeError ''Cannot read properties of undefined'')
      | Some JNull \<Rightarrow> Inl (TypeError ''Cannot read properties of null'')
      | Some v \<Rightarrow> Inr (js_get (Some v) k))"

definition the_handle :: "unit_state \<Rightarrow> handle" where
  "the_handle us = (case us_handle us of Some h \<Rightarrow> h | None \<Rightarrow> no_handle)"

text \<open>\<open>position.handle = h; checkpointRun(\<dots>)\<close>. The handle of \<open>pos\<close> itself is not used.\<close>

definition save_point :: "engine_env \<Rightarrow> run_env \<Rightarrow> context_map \<Rightarrow> position \<Rightarrow> unit_state \<Rightarrow> unit_state" where
  "save_point en u ctx pos us =
     us\<lparr>us_engine := wf_do en (\<lambda>_ now. checkpointRun (wr_id (rn_run u)) ctx (pos\<lparr>po_handle := us_handle us\<rparr>) (en_owner en) now) (us_engine us)\<rparr>"

definition save_handle :: "engine_env \<Rightarrow> run_env \<Rightarrow> context_map \<Rightarrow> position \<Rightarrow> handle \<Rightarrow> unit_state \<Rightarrow> unit_state" where
  "save_handle en u ctx pos h us = save_point en u ctx pos (us\<lparr>us_handle := Some h\<rparr>)"

section \<open>Capability units\<close>

definition decision_text :: "policy_decision \<Rightarrow> string" where
  "decision_text d = (case d of Automatic \<Rightarrow> ''automatic'' | Approval \<Rightarrow> ''approval'' | Deny \<Rightarrow> ''deny'')"

text \<open>The package's own policy of a step, evaluated on the scope and the input.\<close>

definition step_policy :: "engine_env \<Rightarrow> run_env \<Rightarrow> jsval \<Rightarrow> pairs \<Rightarrow> xval \<Rightarrow> engine_state \<Rightarrow> pkg_policy option" where
  "step_policy en u step scope input st =
     (case step_field step ''policy'' of
        Some (JStr (c # cs)) \<Rightarrow>
          (let name = c # cs; m = rn_manifest u; overrides = ss_policies (getStoredSettings (mf_id m) (wo_packages (es_world st)));
               result = evaluatePackagePolicy (env_at en st) name (map_of (mf_policies m) name) (XObj (js_put ''input'' input scope))
                          (case map_of overrides name of Some (JStr o') \<Rightarrow> Some o' | _ \<Rightarrow> None) in
           Some \<lparr>pp_name = name, pp_decision = decision_text (pr_decision result), pp_reasons = pr_reasons result\<rparr>)
      | _ \<Rightarrow> None)"

definition mapCapabilityOutcome :: "invoke_outcome \<Rightarrow> contract option \<Rightarrow> string \<Rightarrow> db \<Rightarrow> unit_outcome" where
  "mapCapabilityOutcome o' contract actionId s =
     (let named = (\<lambda>r. r\<lparr>uo_actionId := Some actionId, uo_reason := iu_reason o'\<rparr>) in
      case iu_status o' of
        InvCompleted \<Rightarrow> (unit_done (of_json (case iu_output o' of Some v \<Rightarrow> v | None \<Rightarrow> JNull)))\<lparr>uo_actionId := Some actionId\<rparr>
      | InvWaiting \<Rightarrow> (unit_waits (Wait_action actionId (map_option ct_id contract)) None)\<lparr>uo_actionId := Some actionId\<rparr>
      | InvDenied \<Rightarrow>
          (let rule = (case Option.bind (getAgentAction actionId s) a_policy_rule of Some r \<Rightarrow> r | None \<Rightarrow> []) in
           if starts_with rule ''package-policy:'' \<or> iu_code o' = Some ''rejected'' then named (unit_end USkipped)
           else named ((unit_end UDenied)\<lparr>uo_retryable := False\<rparr>))
      | InvFailed \<Rightarrow>
          named ((unit_end UFailed)\<lparr>uo_retryable := (case contract of Some c \<Rightarrow> ct_effect c = ''read'' | None \<Rightarrow> False) \<and>
                   iu_code o' \<notin> Some ` {''invalid_input'', ''unknown_capability'', ''no_provider''}\<rparr>))"

definition call_ctx :: "run_env \<Rightarrow> jsval \<Rightarrow> string \<Rightarrow> pkg_policy option \<Rightarrow> wf_db \<Rightarrow> invoke_ctx" where
  "call_ctx u step actionId policy d =
     (let r = rn_run u; root = (if wr_rootRunId r \<noteq> [] \<and> wr_rootRunId r \<noteq> wr_id r then wf_getRun (wr_rootRunId r) d else Some r) in
      \<lparr>ic_packageId = wr_principal r,
       ic_automationId = (case root of Some q \<Rightarrow> if wr_kind q = ''automation'' then Some (wr_definitionId q) else None | None \<Rightarrow> None),
       ic_skillId = (if wr_kind r = ''skill'' then Some (wr_definitionId r) else None), ic_workflowRunId = Some (wr_id r),
       ic_rootRunId = Some (case root of Some q \<Rightarrow> wr_id q | None \<Rightarrow> wr_id r), ic_stepId = Some (step_id step),
       ic_actionId = Some actionId, ic_correlationId = wr_correlationId r, ic_policy = policy\<rparr>)"

text \<open>The awaited call: the proposal takes effect, others act meanwhile, and a timeout may answer first.\<close>

definition invoke_call ::
  "engine_env \<Rightarrow> string \<Rightarrow> xval \<Rightarrow> invoke_ctx \<Rightarrow> bool \<Rightarrow> engine_state \<Rightarrow> invoke_outcome res \<times> engine_state" where
  "invoke_call en cap input ctx timed st =
     (let n = es_tick st in
      case invoke (en_num en) (es_world st) (en_agent en) cap input ctx (en_call en n) (es_hidden st, es_db st) of
        (o', (h, s)) \<Rightarrow>
          (if timed \<and> en_timer en n then Inr (inv_failed (cap @ '' timed out'') ''timeout'') else o',
           en_meanwhile en n (st\<lparr>es_tick := Suc n, es_hidden := h, es_db := s\<rparr>)))"

definition call_timeout :: "jsval \<Rightarrow> contract option \<Rightarrow> bool" where
  "call_timeout step contract \<longleftrightarrow>
     (case contract of
        Some c \<Rightarrow> ct_effect c = ''read'' \<and> (case step_field step ''timeout'' of
            Some v \<Rightarrow> (case parseDuration (Some v) of Some ms \<Rightarrow> ms \<noteq> 0 | None \<Rightarrow> False) | None \<Rightarrow> False)
      | None \<Rightarrow> False)"

text \<open>An action proposed for this unit before: \<open>handle.actionId && getAgentAction(handle.actionId)\<close>.\<close>

definition proposed_before :: "unit_state \<Rightarrow> string option" where
  "proposed_before us =
     (case some_text (hd_actionId (the_handle us)) of
        Some a \<Rightarrow> if getAgentAction a (es_db (us_engine us)) = None then None else Some a
      | None \<Rightarrow> None)"

definition capability_unit ::
  "engine_env \<Rightarrow> run_env \<Rightarrow> jsval \<Rightarrow> string \<Rightarrow> pairs \<Rightarrow> context_map \<Rightarrow> position \<Rightarrow> unit_run" where
  "capability_unit en u step cap scope ctx pos us =
     (let st = us_engine us; contract = contract_at (es_world st) cap in
      case proposed_before us of
        Some a \<Rightarrow>
          (case actionOutcome (en_num en) (es_world st) cap a (es_db st) of
             Inl e \<Rightarrow> (Inl e, us)
           | Inr o' \<Rightarrow> (Inr (mapCapabilityOutcome o' contract a (es_db st)), us))
      | None \<Rightarrow>
          (case template en scope (Some (step_with step)) st of
             Inl e \<Rightarrow> (Inl e, us)
           | Inr input \<Rightarrow>
               let policy = step_policy en u step scope input st;
                   actionId = (case some_text (hd_actionId (the_handle us)) of Some a \<Rightarrow> a | None \<Rightarrow> en_id en (es_tick st));
                   us1 = save_handle en u ctx pos ((the_handle us)\<lparr>hd_actionId := Some actionId, hd_policy := policy\<rparr>) us in
               (case invoke_call en cap input (call_ctx u step actionId policy (es_wf (us_engine us1))) (call_timeout step contract) (us_engine us1) of
                  (Inl e, st') \<Rightarrow> (Inl e, us1\<lparr>us_engine := st'\<rparr>)
                | (Inr o', st') \<Rightarrow> (Inr (mapCapabilityOutcome o' contract actionId (es_db st')), us1\<lparr>us_engine := st'\<rparr>))))"

section \<open>Skill units\<close>

definition prepareInputs :: "jsval option \<Rightarrow> xval \<Rightarrow> xval" where
  "prepareInputs workflow inputs =
     (let given = (if x_truthy inputs then inputs else XObj []) in
      case js_get workflow ''inputs'' of
        Some p \<Rightarrow> if truthy (Some p) then applyDefaults (Some (JObj [(''type'', JStr ''object''), (''properties'', p)])) given else given
      | None \<Rightarrow> given)"

definition prepareSkillInput :: "skill_def \<Rightarrow> xval \<Rightarrow> xval" where
  "prepareSkillInput s input =
     (let prepared = applyDefaults (Some (sd_inputSchema s)) (if nothing input then XObj [] else input) in
      if truthy (sd_workflow s) then prepareInputs (sd_workflow s) prepared else prepared)"

definition skill_snapshot :: "skill_def \<Rightarrow> jsval" where
  "skill_snapshot s =
     (if truthy (sd_workflow s) then the (sd_workflow s)
      else JObj (case sd_implementation s of Some i \<Rightarrow> [(''implementation'', i)] | None \<Rightarrow> []))"

type_synonym advance = "string \<Rightarrow> engine_state \<Rightarrow> wf_row option \<times> engine_state"

definition child_key :: "run_env \<Rightarrow> jsval \<Rightarrow> int \<Rightarrow> handle \<Rightarrow> string" where
  "child_key u step iteration h =
     ''child:'' @ wr_id (rn_run u) @ '':'' @ step_id step @ '':'' @ int_str iteration @ '':'' @
       nat_str (case hd_attempt h of Some n \<Rightarrow> n | None \<Rightarrow> 0)"

definition child_input :: "run_env \<Rightarrow> jsval \<Rightarrow> int \<Rightarrow> handle \<Rightarrow> string \<Rightarrow> skill_def \<Rightarrow> xval \<Rightarrow> wf_input" where
  "child_input u step iteration h skillId s input =
     (let r = rn_run u in
      \<lparr>wi_kind = ''skill'', wi_definitionId = skillId, wi_packageId = sd_packageId s, wi_principal = Some (wr_principal r),
       wi_packageVersion = Some (sd_version s), wi_instanceId = None, wi_rootRunId = Some (wr_rootRunId r), wi_parentRunId = Some (wr_id r),
       wi_parentStepId = Some (step_id step), wi_depth = wr_depth r + 1,
       wi_trigger = JObj [(''type'', JStr ''skill''), (''parentRunId'', JStr (wr_id r))], wi_dedupeKey = Some (child_key u step iteration h),
       wi_status = WPending, wi_workflow = skill_snapshot s, wi_inputs = input, wi_correlationId = wr_correlationId r, wi_error = None\<rparr>)"

text \<open>\<open>insertRun(\<dots>) || getRunByDedupe(dedupeKey)\<close>\<close>

definition insert_child :: "engine_env \<Rightarrow> wf_input \<Rightarrow> engine_state \<Rightarrow> wf_row option \<times> engine_state" where
  "insert_child en p st =
     (case wf_act en (\<lambda>i now. insertRun i now p) st of
        (Some r, st') \<Rightarrow> (Some r, st')
      | (None, st') \<Rightarrow> (Option.bind (wi_dedupeKey p) (\<lambda>k. getRunByDedupe k (es_wf st')), st'))"

text \<open>The child of the unit: the one in the handle, or a new run; or an outcome that ends the unit.\<close>

definition skill_child ::
  "engine_env \<Rightarrow> run_env \<Rightarrow> jsval \<Rightarrow> string \<Rightarrow> pairs \<Rightarrow> int \<Rightarrow> context_map \<Rightarrow> position \<Rightarrow> unit_state \<Rightarrow> (unit_outcome + wf_row) res \<times> unit_state" where
  "skill_child en u step skillId scope iteration ctx pos us =
     (let st = us_engine us; h = the_handle us in
      case Option.bind (some_text (hd_childRunId h)) (\<lambda>c. wf_getRun c (es_wf st)) of
        Some c \<Rightarrow> (Inr (Inr c), us)
      | None \<Rightarrow>
          (case map_of (pf_skills (wo_platform (es_world st))) skillId of
             None \<Rightarrow> (Inr (Inl (unit_failed (''Unknown skill '' @ skillId))), us)
           | Some s \<Rightarrow>
               if wr_depth (rn_run u) + 1 > MAX_SKILL_DEPTH
               then (Inr (Inl (unit_failed (''Skills are nested more than '' @ nat_str MAX_SKILL_DEPTH @ '' levels deep''))), us)
               else (case template en scope (Some (step_with step)) st of
                 Inl e \<Rightarrow> (Inl e, us)
               | Inr value \<Rightarrow>
                   let input = prepareSkillInput s value in
                   (case validate (en_num en) (sd_inputSchema s) input ''input'' of
                      Inl e \<Rightarrow> (Inl e, us)
                    | Inr errors \<Rightarrow>
                        if errors \<noteq> [] then (Inr (Inl (unit_failed (''Invalid input for skill '' @ skillId @ '': '' @ join_with ''; '' errors))), us)
                        else (case insert_child en (child_input u step iteration h skillId s input) st of
                          (None, st') \<Rightarrow> (Inl (TypeError ''Cannot read properties of null''), us\<lparr>us_engine := st'\<rparr>)
                        | (Some c, st') \<Rightarrow>
                            (Inr (Inr c), save_handle en u ctx pos (h\<lparr>hd_childRunId := Some (wr_id c)\<rparr>) (us\<lparr>us_engine := st'\<rparr>)))))))"

definition child_outcome :: "string \<Rightarrow> wf_row \<Rightarrow> unit_outcome" where
  "child_outcome skillId c =
     (if wr_status c = WCompleted then unit_done (of_json (case wr_outputs c of Some v \<Rightarrow> v | None \<Rightarrow> JNull))
      else if wr_status c = WFailed \<or> wr_status c = WCancelled then
        unit_error (''skill '' @ skillId @ '': '' @ (case some_text (wr_error c) of Some e \<Rightarrow> e | None \<Rightarrow> wf_status_text (wr_status c)))
      else unit_waits (Wait_child (wr_id c)) None)"

definition skill_unit ::
  "advance \<Rightarrow> engine_env \<Rightarrow> run_env \<Rightarrow> jsval \<Rightarrow> string \<Rightarrow> pairs \<Rightarrow> int \<Rightarrow> context_map \<Rightarrow> position \<Rightarrow> unit_run" where
  "skill_unit adv en u step skillId scope iteration ctx pos us =
     (case skill_child en u step skillId scope iteration ctx pos us of
        (Inl e, us1) \<Rightarrow> (Inl e, us1)
      | (Inr (Inl o'), us1) \<Rightarrow> (Inr o', us1)
      | (Inr (Inr c), us1) \<Rightarrow>
          if wr_status c = WPending then
            (case adv (wr_id c) (us_engine us1) of
               (None, st') \<Rightarrow> (Inl (TypeError ''Cannot read properties of null''), us1\<lparr>us_engine := st'\<rparr>)
             | (Some c', st') \<Rightarrow> (Inr (child_outcome skillId c'), us1\<lparr>us_engine := st'\<rparr>))
          else (Inr (child_outcome skillId c), us1))"

section \<open>The other units\<close>

fun filter_items :: "expr_env \<Rightarrow> string \<Rightarrow> pairs \<Rightarrow> xval list \<Rightarrow> xval list res" where
  "filter_items env cond scope [] = Inr []"
| "filter_items env cond scope (v # vs) =
     (case evaluate env cond (XObj (js_put ''item'' v scope)) of
        Inl e \<Rightarrow> Inl e
      | Inr b \<Rightarrow> map_sum id (\<lambda>kept. if x_truthy b then v # kept else kept) (filter_items env cond scope vs))"

definition condition_text :: "jsval option \<Rightarrow> string" where
  "condition_text v = (case v of Some c \<Rightarrow> conditionSource c | None \<Rightarrow> ''undefined'')"

definition filter_unit :: "engine_env \<Rightarrow> jsval \<Rightarrow> pairs \<Rightarrow> engine_state \<Rightarrow> unit_outcome res" where
  "filter_unit en step scope st =
     (case with_key step ''source'' of
        Inl e \<Rightarrow> Inl e
      | Inr source \<Rightarrow>
          (case template en scope source st of
             Inl e \<Rightarrow> Inl e
           | Inr (XArr vs) \<Rightarrow> map_sum id (\<lambda>kept. unit_done (XArr kept)) (filter_items (env_at en st) (condition_text (js_get (step_field step ''with'') ''where'')) scope vs)
           | Inr _ \<Rightarrow> Inr (unit_failed ''filter source must be a list'')))"

definition transform_unit :: "engine_env \<Rightarrow> jsval \<Rightarrow> pairs \<Rightarrow> engine_state \<Rightarrow> unit_outcome res" where
  "transform_unit en step scope st = map_sum id (\<lambda>v. unit_done v) (template en scope (js_get (step_field step ''with'') ''value'') st)"

fun subject_of :: "xval \<Rightarrow> (string \<times> string) option option" where
  "subject_of XNull = Some None"
| "subject_of (XObj ps) =
     (case (map_of ps ''type'', map_of ps ''id'') of (Some (XStr t), Some (XStr i)) \<Rightarrow> Some (Some (t, i)) | _ \<Rightarrow> None)"
| "subject_of v = None"

fun event_data :: "xval \<Rightarrow> jsval" where
  "event_data (XObj ps) = to_json (XObj ps)"
| "event_data (XArr vs) = to_json (XArr vs)"
| "event_data v = to_json (XObj [(''value'', v)])"

definition emit_event :: "run_env \<Rightarrow> jsval \<Rightarrow> string \<Rightarrow> (string \<times> string) option \<Rightarrow> xval \<Rightarrow> pkg_event" where
  "emit_event u step type subject data =
     (let r = rn_run u; source = ''package:'' @ wr_packageId r in
      \<lparr>ev_id = [], ev_timestamp = 0, ev_type = type, ev_source = source, ev_actor = Some \<lparr>actor_type = ''package'', actor_id = wr_packageId r\<rparr>,
       ev_subject = subject, ev_data = event_data data, ev_correlationId = wr_correlationId r, ev_causationId = None, ev_createdAt = 0,
       ev_metadata = [(''packageId'', JStr (wr_packageId r)), (''workflowRunId'', JStr (wr_id r)), (''automationInstanceId'', js_or_null (wr_instanceId r)),
          (''stepId'', JStr (step_id step)), (''provenance'', JStr source)]\<rparr>)"

definition emit_unit :: "engine_env \<Rightarrow> run_env \<Rightarrow> jsval \<Rightarrow> pairs \<Rightarrow> unit_run" where
  "emit_unit en u step scope us =
     (let st = us_engine us; subject_key = js_get (step_field step ''with'') ''subject'' in
      case with_key step ''type'' of
        Inl e \<Rightarrow> (Inl e, us)
      | Inr given \<Rightarrow>
          let type = (case given of Some v \<Rightarrow> js_str v | None \<Rightarrow> ''undefined'') in
          (case emitProblem type (mf_emits (rn_manifest u)) of
             Some problem \<Rightarrow> (Inr (unit_failed problem), us)
           | None \<Rightarrow>
               (case template en scope (Some (case js_get (step_field step ''with'') ''data'' of Some d \<Rightarrow> if d = JNull then JObj [] else d | None \<Rightarrow> JObj [])) st of
                  Inl e \<Rightarrow> (Inl e, us)
                | Inr data \<Rightarrow>
                    (case (if subject_key = None then Inr XNull else template en scope subject_key st) of
                       Inl e \<Rightarrow> (Inl e, us)
                     | Inr s \<Rightarrow>
                         (case subject_of s of
                            None \<Rightarrow> (Inr (unit_failed ''emit subject must be { type, id }''), us)
                          | Some subject \<Rightarrow>
                              (case publish_event en (emit_event u step type subject data) st of
                                 (ev, st') \<Rightarrow>
                                   (Inr (unit_done (XObj [(''eventId'', XStr (ev_id ev)), (''type'', XStr type)])), us\<lparr>us_engine := st'\<rparr>)))))))"

text \<open>\<open>{ ...state, ...updates }\<close>: only an object has members to spread here.\<close>

definition spread_value :: "pairs \<Rightarrow> xval \<Rightarrow> pairs" where
  "spread_value ps v = (case v of XObj qs \<Rightarrow> js_spread ps qs | _ \<Rightarrow> ps)"

definition own_pairs :: "xval \<Rightarrow> pairs" where
  "own_pairs v = (case v of XObj ps \<Rightarrow> ps | _ \<Rightarrow> [])"

definition json_object :: "pairs \<Rightarrow> (string \<times> jsval) list" where
  "json_object ps = (case to_json (XObj ps) of JObj qs \<Rightarrow> qs | _ \<Rightarrow> [])"

definition state_schema :: "run_env \<Rightarrow> engine_state \<Rightarrow> jsval option" where
  "state_schema u st = Option.bind (map_of (pf_automations (wo_platform (es_world st))) (wr_definitionId (rn_run u))) ad_state_schema"

definition state_unit :: "engine_env \<Rightarrow> run_env \<Rightarrow> jsval \<Rightarrow> pairs \<Rightarrow> unit_run" where
  "state_unit en u step scope us =
     (let st = us_engine us in
      case rn_instance u of
        None \<Rightarrow> (Inr (unit_failed ''state steps need an automation instance''), us)
      | Some i \<Rightarrow>
          (case with_key step ''set'' of
             Inl e \<Rightarrow> (Inl e, us)
           | Inr given \<Rightarrow>
               (case template en scope given st of
                  Inl e \<Rightarrow> (Inl e, us)
                | Inr updates \<Rightarrow>
                    let next' = spread_value (own_pairs (json_pairs (us_state us))) updates in
                    (case (case state_schema u st of Some s \<Rightarrow> if truthy (Some s) then validate (en_num en) s (XObj next') ''state'' else Inr [] | None \<Rightarrow> Inr []) of
                       Inl e \<Rightarrow> (Inl e, us)
                     | Inr errors \<Rightarrow>
                         if errors \<noteq> [] then (Inr (unit_failed (''Invalid automation state: '' @ join_with ''; '' errors)), us)
                         else (case wf_act en (\<lambda>_ now. updateInstance (in_id i) (empty_patch\<lparr>ip_state := Some (json_object next')\<rparr>) now) st of
                           (None, st') \<Rightarrow> (Inl (TypeError ''Cannot read properties of null''), us\<lparr>us_engine := st'\<rparr>)
                         | (Some saved, st') \<Rightarrow>
                             (Inr (unit_done (json_pairs (in_state saved))), us\<lparr>us_state := in_state saved, us_engine := st'\<rparr>))))))"

text \<open>When a sleep ends: at a date, or after a duration.\<close>

definition sleep_until :: "engine_env \<Rightarrow> jsval \<Rightarrow> pairs \<Rightarrow> engine_state \<Rightarrow> (unit_outcome + int) res" where
  "sleep_until en step scope st =
     (case with_key step ''until'' of
        Inl e \<Rightarrow> Inl e
      | Inr (Some v) \<Rightarrow>
          map_sum id (\<lambda>x. case xe_parse_date (en_expr en) x of
              None \<Rightarrow> Inl (unit_failed ''sleep.until must be a date'') | Some t \<Rightarrow> Inr t) (template en scope (Some v) st)
      | Inr None \<Rightarrow>
          map_sum id (\<lambda>x. case parseDuration (if x = XUndef then None else Some (to_json x)) of
              None \<Rightarrow> Inl (unit_failed ''sleep.duration must be a duration such as 10m'')
            | Some ms \<Rightarrow> Inr (now_at en st + \<lfloor>ms\<rfloor>)) (template en scope (js_get (step_field step ''with'') ''duration'') st))"

definition sleep_outcome :: "engine_env \<Rightarrow> int \<Rightarrow> engine_state \<Rightarrow> unit_outcome" where
  "sleep_outcome en t st =
     (if t \<le> now_at en st then unit_done (XObj [(''sleptUntil'', XStr (iso_string t))]) else unit_waits (Wait_timer t) (Some t))"

definition sleep_unit :: "engine_env \<Rightarrow> run_env \<Rightarrow> jsval \<Rightarrow> pairs \<Rightarrow> context_map \<Rightarrow> position \<Rightarrow> unit_run" where
  "sleep_unit en u step scope ctx pos us =
     (case hd_until (the_handle us) of
        Some t \<Rightarrow> (Inr (sleep_outcome en t (us_engine us)), us)
      | None \<Rightarrow>
          (case sleep_until en step scope (us_engine us) of
             Inl e \<Rightarrow> (Inl e, us)
           | Inr (Inl o') \<Rightarrow> (Inr o', us)
           | Inr (Inr t) \<Rightarrow>
               (let us1 = save_handle en u ctx pos ((the_handle us)\<lparr>hd_until := Some t\<rparr>) us in (Inr (sleep_outcome en t (us_engine us1)), us1))))"

definition event_wait :: "jsval \<Rightarrow> handle \<Rightarrow> unit_outcome" where
  "event_wait step h =
     unit_waits (Wait_event (case js_get (step_field step ''with'') ''event'' of Some v \<Rightarrow> js_str v | None \<Rightarrow> ''undefined'')
        (case js_get (step_field step ''with'') ''where'' of Some v \<Rightarrow> if truthy (Some v) then Some (conditionSource v) else None | None \<Rightarrow> None)
        (case hd_since h of Some t \<Rightarrow> t | None \<Rightarrow> 0) (hd_deadline h)) (hd_deadline h)"

definition wait_timeout :: "jsval \<Rightarrow> int option" where
  "wait_timeout step =
     (case js_get (step_field step ''with'') ''timeout'' of
        None \<Rightarrow> None
      | Some v \<Rightarrow> (case parseDuration (Some v) of Some ms \<Rightarrow> if ms = 0 then None else Some \<lfloor>ms\<rfloor> | None \<Rightarrow> None))"

definition wait_unit :: "engine_env \<Rightarrow> run_env \<Rightarrow> jsval \<Rightarrow> context_map \<Rightarrow> position \<Rightarrow> unit_run" where
  "wait_unit en u step ctx pos us =
     (let h = the_handle us in
      case hd_event h of
        Some e \<Rightarrow> (Inr (unit_done (of_json e)), us)
      | None \<Rightarrow>
          if hd_timedOut h then (Inr (unit_done (XObj [(''timedOut'', XBool True)])), us)
          else if hd_waiting h then (Inr (event_wait step h), us)
          else (case with_key step ''event'' of
            Inl e \<Rightarrow> (Inl e, us)
          | Inr _ \<Rightarrow>
              (let t = now_at en (us_engine us);
                   h' = h\<lparr>hd_waiting := True, hd_since := Some t, hd_deadline := map_option (\<lambda>ms. t + ms) (wait_timeout step)\<rparr> in
               (Inr (event_wait step h'), save_handle en u ctx pos h' us))))"

section \<open>One unit\<close>

text \<open>\<open>_runUnit\<close>: what a unit throws becomes a failure that may be retried.\<close>

definition dispatch_unit ::
  "advance \<Rightarrow> engine_env \<Rightarrow> run_env \<Rightarrow> jsval \<Rightarrow> use \<Rightarrow> pairs \<Rightarrow> int \<Rightarrow> context_map \<Rightarrow> position \<Rightarrow> unit_run" where
  "dispatch_unit adv en u step k scope iteration ctx pos us =
     (let target = (case u_target k of Some t \<Rightarrow> t | None \<Rightarrow> []) in
      if u_kind k = ''capability'' then capability_unit en u step target scope ctx pos us
      else if u_kind k = ''skill'' then skill_unit adv en u step target scope iteration ctx pos us
      else if u_kind k = ''transform'' then (transform_unit en step scope (us_engine us), us)
      else if u_kind k = ''filter'' then (filter_unit en step scope (us_engine us), us)
      else if u_kind k = ''emit'' then emit_unit en u step scope us
      else if u_kind k = ''state'' then state_unit en u step scope us
      else if u_kind k = ''sleep'' then sleep_unit en u step scope ctx pos us
      else wait_unit en u step ctx pos us)"

definition run_unit ::
  "advance \<Rightarrow> engine_env \<Rightarrow> run_env \<Rightarrow> jsval \<Rightarrow> use \<Rightarrow> pairs \<Rightarrow> int \<Rightarrow> context_map \<Rightarrow> position \<Rightarrow> unit_state \<Rightarrow> unit_outcome \<times> unit_state" where
  "run_unit adv en u step k scope iteration ctx pos us =
     (case dispatch_unit adv en u step k scope iteration ctx pos us of
        (Inl e, us') \<Rightarrow> (unit_error (engine_error e), us')
      | (Inr o', us') \<Rightarrow> (o', us'))"

section \<open>One step\<close>

datatype step_result = Step_next | Step_wait wait "int option" | Step_fail string

definition has_foreach :: "jsval \<Rightarrow> bool" where
  "has_foreach step \<longleftrightarrow> step_field step ''foreach'' \<noteq> None"

definition items_of :: "position \<Rightarrow> xval list" where
  "items_of pos = (case po_items pos of Some vs \<Rightarrow> vs | None \<Rightarrow> [])"

definition iterations :: "jsval \<Rightarrow> position \<Rightarrow> nat" where
  "iterations step pos = (if has_foreach step then length (items_of pos) else 1)"

definition attempt_of :: "handle option \<Rightarrow> nat" where
  "attempt_of h = (case Option.bind h hd_attempt of Some n \<Rightarrow> n | None \<Rightarrow> 0)"

definition retry_limit :: "(jsval \<Rightarrow> rat option) \<Rightarrow> jsval \<Rightarrow> rat" where
  "retry_limit num step =
     (case js_get (step_field step ''retry'') ''attempts'' of
        None \<Rightarrow> 0
      | Some (JNum n) \<Rightarrow> n
      | Some v \<Rightarrow> (case num v of Some n \<Rightarrow> n | None \<Rightarrow> 0))"

definition retry_backoff :: "jsval \<Rightarrow> rat" where
  "retry_backoff step =
     (case parseDuration (case js_get (step_field step ''retry'') ''backoff'' of Some v \<Rightarrow> if v = JNull then Some (JNum 0) else Some v | None \<Rightarrow> Some (JNum 0)) of
        Some ms \<Rightarrow> ms | None \<Rightarrow> 0)"

text \<open>How a unit ended for the run, \<open>_advanceIteration\<close>'s third argument.\<close>

datatype unit_result = Result_output xval | Result_skipped | Result_failed

definition add_result :: "jsval \<Rightarrow> unit_result \<Rightarrow> context_map \<times> position \<Rightarrow> context_map \<times> position" where
  "add_result step res cp =
     (case cp of (ctx, pos) \<Rightarrow>
        let value = (case res of Result_output v \<Rightarrow> if v = XUndef then XNull else v | _ \<Rightarrow> XNull) in
        if has_foreach step then (ctx, if res = Result_skipped then pos else pos\<lparr>po_results := po_results pos @ [value]\<rparr>)
        else (js_put (step_id step)
                \<lparr>se_status = (case res of Result_output _ \<Rightarrow> ''completed'' | Result_skipped \<Rightarrow> ''skipped'' | Result_failed \<Rightarrow> ''failed''), se_output = value\<rparr> ctx, pos))"

definition advanceIteration ::
  "engine_env \<Rightarrow> run_env \<Rightarrow> jsval \<Rightarrow> unit_result \<Rightarrow> context_map \<times> position \<Rightarrow> unit_state \<Rightarrow> (context_map \<times> position) \<times> unit_state" where
  "advanceIteration en u step res cp us =
     (case add_result step res cp of
        (ctx, pos) \<Rightarrow>
          let pos' = pos\<lparr>po_iteration := Suc (po_iteration pos)\<rparr> in
          ((ctx, pos'), save_point en u ctx pos' (us\<lparr>us_handle := None\<rparr>)))"

text \<open>A step record of the unit, with the action, child and policy of the handle.\<close>

definition unit_record ::
  "run_env \<Rightarrow> jsval \<Rightarrow> string \<Rightarrow> int \<Rightarrow> string \<Rightarrow> nat \<Rightarrow> string option \<Rightarrow> handle \<Rightarrow> jsval option \<Rightarrow> string option \<Rightarrow> wf_step_input" where
  "unit_record u step kind iteration status tries actionId h output err =
     \<lparr>si_runId = wr_id (rn_run u), si_stepId = step_id step, si_iteration = iteration, si_kind = kind, si_status = status, si_attempts = tries,
      si_actionId = actionId, si_childRunId = hd_childRunId h, si_policy = hd_policy h, si_output = output, si_error = err\<rparr>"

definition record_unit :: "engine_env \<Rightarrow> wf_step_input \<Rightarrow> unit_state \<Rightarrow> unit_state" where
  "record_unit en p us = us\<lparr>us_engine := wf_do en (\<lambda>i now. recordStep i now p) (us_engine us)\<rparr>"

text \<open>\<open>foreach\<close>: the list is computed once and checkpointed.\<close>

definition start_items ::
  "engine_env \<Rightarrow> run_env \<Rightarrow> jsval \<Rightarrow> context_map \<Rightarrow> position \<Rightarrow> unit_state \<Rightarrow> (string + position) \<times> unit_state" where
  "start_items en u step ctx pos us =
     (case step_field step ''foreach'' of
        None \<Rightarrow> (Inr pos, us)
      | Some f \<Rightarrow>
          if po_items pos \<noteq> None then (Inr pos, us)
          else (case template en (run_scope u ctx us) (Some f) (us_engine us) of
            Inl e \<Rightarrow> (Inl (step_id step @ ''.foreach: '' @ engine_error e), us)
          | Inr v \<Rightarrow>
              (case (if nothing v then XArr [] else v) of
                 XArr items \<Rightarrow>
                   if length items > MAX_FOREACH_ITEMS
                   then (Inl (step_id step @ ''.foreach has more than '' @ nat_str MAX_FOREACH_ITEMS @ '' items''), us)
                   else (let pos' = pos\<lparr>po_items := Some items, po_results := [], po_iteration := 0\<rparr> in (Inr pos', save_point en u ctx pos' us))
               | _ \<Rightarrow> (Inl (step_id step @ ''.foreach must resolve to a list''), us))))"

definition unit_scope :: "run_env \<Rightarrow> jsval \<Rightarrow> context_map \<Rightarrow> position \<Rightarrow> unit_state \<Rightarrow> pairs" where
  "unit_scope u step ctx pos us =
     (let scope = run_scope u ctx us in
      if has_foreach step then js_put ''index'' (XNum (of_nat (po_iteration pos))) (js_put ''item'' (items_of pos ! po_iteration pos) scope)
      else scope)"

text \<open>\<open>step.when\<close>, looked at unless a unit is in progress.\<close>

definition step_passes :: "engine_env \<Rightarrow> jsval \<Rightarrow> pairs \<Rightarrow> unit_state \<Rightarrow> bool res" where
  "step_passes en step scope us =
     (case step_field step ''when'' of
        None \<Rightarrow> Inr True
      | Some c \<Rightarrow>
          if us_handle us \<noteq> None then Inr True
          else map_sum id x_truthy (evaluate (env_at en (us_engine us)) (conditionSource c) (XObj scope)))"

text \<open>
  What follows from a unit's outcome: the run goes on (\<open>Unit_on\<close>), the unit is tried again at once
  (\<open>Unit_again\<close>), or the step ends. A failure is retried while attempts are left.
\<close>

datatype unit_next = Unit_on unit_result | Unit_again | Unit_stop step_result

definition failure_text :: "jsval \<Rightarrow> int \<Rightarrow> unit_outcome \<Rightarrow> string" where
  "failure_text step iteration o' =
     ''Step '' @ step_id step @ (if iteration \<ge> 0 then ''['' @ int_str iteration @ '']'' else []) @ '' '' @
     (if uo_status o' = UDenied then ''was denied'' else ''failed'') @ '': '' @
     (case some_text (uo_reason o') of Some r \<Rightarrow> r | None \<Rightarrow> ''unknown error'')"

definition unit_action :: "unit_outcome \<Rightarrow> unit_state \<Rightarrow> string option" where
  "unit_action o' us = (case some_text (uo_actionId o') of Some a \<Rightarrow> Some a | None \<Rightarrow> hd_actionId (the_handle us))"

definition after_failure ::
  "engine_env \<Rightarrow> run_env \<Rightarrow> jsval \<Rightarrow> string \<Rightarrow> int \<Rightarrow> context_map \<Rightarrow> position \<Rightarrow> unit_outcome \<Rightarrow> unit_state \<Rightarrow> unit_next \<times> unit_state" where
  "after_failure en u step kind iteration ctx pos o' us =
     (let attempt = attempt_of (us_handle us) + 1; h = the_handle us in
      if truthy (step_field step ''retry'') \<and> uo_retryable o' \<and> of_nat attempt < retry_limit (en_num en) step then
        (let us1 = record_unit en (unit_record u step kind iteration ''waiting'' attempt None no_handle None (uo_reason o'))
                     (us\<lparr>us_handle := Some (no_handle\<lparr>hd_attempt := Some attempt\<rparr>)\<rparr>) in
         if retry_backoff step > 0
         then (let t = now_at en (us_engine us1) + \<lfloor>retry_backoff step\<rfloor> in (Unit_stop (Step_wait (Wait_retry attempt t) (Some t)), us1))
         else (Unit_again, save_point en u ctx pos us1))
      else
        (let us1 = record_unit en (unit_record u step kind iteration (if uo_status o' = UDenied then ''denied'' else ''failed'') attempt
                     (unit_action o' us) h (Some JNull) (uo_reason o')) us in
         if step_field step ''onError'' = Some (JStr ''continue'') then (Unit_on Result_failed, us1)
         else (Unit_stop (Step_fail (failure_text step iteration o')), us1)))"

definition after_unit ::
  "engine_env \<Rightarrow> run_env \<Rightarrow> jsval \<Rightarrow> string \<Rightarrow> int \<Rightarrow> context_map \<Rightarrow> position \<Rightarrow> unit_outcome \<Rightarrow> unit_state \<Rightarrow> unit_next \<times> unit_state" where
  "after_unit en u step kind iteration ctx pos o' us =
     (let h = the_handle us; record' = (\<lambda>st n a h out err. record_unit en (unit_record u step kind iteration st n a h out err) us) in
      case uo_status o' of
        UWaiting \<Rightarrow>
          (Unit_stop (case uo_wait o' of Some (w, t) \<Rightarrow> Step_wait w t | None \<Rightarrow> Step_fail ''unknown error''),
           record' ''waiting'' (attempt_of (us_handle us)) (hd_actionId h) h None None)
      | UCompleted \<Rightarrow>
          (Unit_on (Result_output (uo_output o')),
           record' ''completed'' (attempt_of (us_handle us) + 1) (unit_action o' us) h (Some (to_json (uo_output o'))) None)
      | USkipped \<Rightarrow> (Unit_on Result_skipped, record' ''skipped'' 0 (uo_actionId o') (no_handle\<lparr>hd_policy := hd_policy h\<rparr>) (Some JNull) (uo_reason o'))
      | _ \<Rightarrow> after_failure en u step kind iteration ctx pos o' us)"

text \<open>A unit of a \<open>foreach\<close> runs in a copy of the scope: what it does to \<open>state\<close> there is not seen by the next.\<close>

definition scope_back :: "jsval \<Rightarrow> unit_state \<Rightarrow> unit_state \<Rightarrow> unit_state" where
  "scope_back step us us' = (if has_foreach step then us'\<lparr>us_state := us_state us\<rparr> else us')"

definition one_unit ::
  "advance \<Rightarrow> engine_env \<Rightarrow> run_env \<Rightarrow> jsval \<Rightarrow> context_map \<Rightarrow> position \<Rightarrow> unit_state \<Rightarrow> unit_next res \<times> unit_state" where
  "one_unit adv en u step ctx pos us =
     (let iteration = (if has_foreach step then int (po_iteration pos) else -1); scope = unit_scope u step ctx pos us; k = parseUse (step_field step ''use'') in
      case step_passes en step scope us of
        Inl e \<Rightarrow> (Inr (Unit_stop (Step_fail (step_id step @ ''.when: '' @ engine_error e))), us)
      | Inr pass \<Rightarrow>
          (case k of
             None \<Rightarrow> (Inl (TypeError ''Cannot read properties of null''), us)
           | Some use' \<Rightarrow>
               if \<not> pass then
                 (Inr (Unit_on Result_skipped),
                  record_unit en (unit_record u step (u_kind use') iteration ''skipped'' 0 None no_handle (Some JNull) None) us)
               else (case run_unit adv en u step use' scope iteration ctx pos us of
                 (o', us1) \<Rightarrow>
                   (case after_unit en u step (u_kind use') iteration ctx pos o' (scope_back step us us1) of
                      (n, us2) \<Rightarrow> (Inr n, us2)))))"

text \<open>
  Units keep count of the attempts: what a unit does to the handle leaves its attempt alone.
\<close>

lemma wf_do_simps: "attempt_of (us_handle (save_point en u ctx pos us)) = attempt_of (us_handle us)"
  "us_handle (save_point en u ctx pos us) = us_handle us" "us_state (save_point en u ctx pos us) = us_state us"
  "us_handle (record_unit en p us) = us_handle us" "us_state (record_unit en p us) = us_state us"
  "us_handle (save_handle en u ctx pos h us) = Some h" "us_state (save_handle en u ctx pos h us) = us_state us"
  by (simp_all add: save_point_def record_unit_def save_handle_def)

lemma attempt_of_handle: "attempt_of (us_handle us) = attempt_of (Some (the_handle us))"
  by (simp add: attempt_of_def the_handle_def no_handle_def split: option.split)

lemma attempt_of_update [simp]:
  "attempt_of (Some (h\<lparr>hd_actionId := a, hd_policy := q\<rparr>)) = attempt_of (Some h)" "attempt_of (Some (h\<lparr>hd_childRunId := c\<rparr>)) = attempt_of (Some h)"
  "attempt_of (Some (h\<lparr>hd_until := x\<rparr>)) = attempt_of (Some h)"
  "attempt_of (Some (h\<lparr>hd_waiting := b, hd_since := x, hd_deadline := y\<rparr>)) = attempt_of (Some h)"
  by (simp_all add: attempt_of_def)

lemma skill_child_attempt:
  "attempt_of (us_handle (snd (skill_child en u step sid scope i ctx pos us))) = attempt_of (us_handle us)"
  by (auto simp: skill_child_def Let_def wf_do_simps attempt_of_handle [of us] split: option.split sum.split prod.split)

lemma skill_unit_attempt: "attempt_of (us_handle (snd (skill_unit adv en u step sid scope i ctx pos us))) = attempt_of (us_handle us)"
  using skill_child_attempt [of en u step sid scope i ctx pos us]
  by (auto simp: skill_unit_def split: prod.split sum.split option.split)

lemma capability_unit_attempt: "attempt_of (us_handle (snd (capability_unit en u step cap scope ctx pos us))) = attempt_of (us_handle us)"
  by (auto simp: capability_unit_def Let_def wf_do_simps attempt_of_handle [of us] split: option.split sum.split prod.split)

lemma emit_unit_handle: "us_handle (snd (emit_unit en u step scope us)) = us_handle us"
  by (auto simp: emit_unit_def Let_def split: option.split sum.split prod.split)

lemma state_unit_handle: "us_handle (snd (state_unit en u step scope us)) = us_handle us"
  by (auto simp: state_unit_def Let_def split: option.split sum.split prod.split)

lemma sleep_unit_attempt: "attempt_of (us_handle (snd (sleep_unit en u step scope ctx pos us))) = attempt_of (us_handle us)"
  by (auto simp: sleep_unit_def Let_def wf_do_simps attempt_of_handle [of us] split: option.split sum.split)

lemma wait_unit_attempt: "attempt_of (us_handle (snd (wait_unit en u step ctx pos us))) = attempt_of (us_handle us)"
  by (auto simp: wait_unit_def Let_def wf_do_simps attempt_of_handle [of us] split: option.split sum.split)

lemma dispatch_attempt: "attempt_of (us_handle (snd (dispatch_unit adv en u step k scope i ctx pos us))) = attempt_of (us_handle us)"
  by (simp add: dispatch_unit_def Let_def skill_unit_attempt capability_unit_attempt emit_unit_handle state_unit_handle
      sleep_unit_attempt wait_unit_attempt)

lemma run_unit_attempt: "attempt_of (us_handle (snd (run_unit adv en u step k scope i ctx pos us))) = attempt_of (us_handle us)"
  using dispatch_attempt [of adv en u step k scope i ctx pos us] by (auto simp: run_unit_def split: prod.split sum.split)

lemma after_failure_again:
  assumes "after_failure en u step kind i ctx pos o' us = (Unit_again, us')"
  shows "attempt_of (us_handle us') = Suc (attempt_of (us_handle us)) \<and> of_nat (attempt_of (us_handle us')) < retry_limit (en_num en) step"
proof (cases "truthy (step_field step ''retry'') \<and> uo_retryable o' \<and> of_nat (attempt_of (us_handle us) + 1) < retry_limit (en_num en) step")
  case True
  with assms have "us_handle us' = Some (no_handle\<lparr>hd_attempt := Some (attempt_of (us_handle us) + 1)\<rparr>)"
    by (cases "retry_backoff step > 0") (auto simp: after_failure_def Let_def wf_do_simps)
  with True show ?thesis by (simp add: attempt_of_def)
next
  case False
  with assms show ?thesis by (cases "step_field step ''onError'' = Some (JStr ''continue'')") (auto simp: after_failure_def Let_def)
qed

lemma after_unit_again:
  assumes "after_unit en u step kind i ctx pos o' us = (Unit_again, us')"
  shows "attempt_of (us_handle us') = Suc (attempt_of (us_handle us)) \<and> of_nat (attempt_of (us_handle us')) < retry_limit (en_num en) step"
proof (rule after_failure_again)
  show "after_failure en u step kind i ctx pos o' us = (Unit_again, us')"
    using assms by (cases "uo_status o'") (simp_all add: after_unit_def Let_def)
qed

lemma one_unit_again:
  assumes "one_unit adv en u step ctx pos us = (Inr Unit_again, us')"
  shows "attempt_of (us_handle us') = Suc (attempt_of (us_handle us))" "of_nat (attempt_of (us_handle us')) < retry_limit (en_num en) step"
proof -
  define scope i where "scope = unit_scope u step ctx pos us" and "i = (if has_foreach step then int (po_iteration pos) else -1)"
  note d = one_unit_def [of adv en u step ctx pos us, unfolded Let_def, folded scope_def i_def]
  from assms obtain pass where pass: "step_passes en step scope us = Inr pass" by (cases "step_passes en step scope us") (simp_all add: d)
  with assms obtain k where k: "parseUse (step_field step ''use'') = Some k" by (cases "parseUse (step_field step ''use'')") (simp_all add: d)
  with assms pass have pass by (cases pass) (simp_all add: d)
  obtain o' us1 where r: "run_unit adv en u step k scope i ctx pos us = (o', us1)" by force
  from assms pass k \<open>pass\<close> r have a: "after_unit en u step (u_kind k) i ctx pos o' (scope_back step us us1) = (Unit_again, us')"
    by (simp add: d split: prod.splits)
  from run_unit_attempt [of adv en u step k scope i ctx pos us] r
  have e: "attempt_of (us_handle (scope_back step us us1)) = attempt_of (us_handle us)" by (simp add: scope_back_def)
  from after_unit_again [OF a] e show "attempt_of (us_handle us') = Suc (attempt_of (us_handle us))" "of_nat (attempt_of (us_handle us')) < retry_limit (en_num en) step"
    by simp_all
qed

lemma again_decreases:
  assumes "one_unit adv en u step ctx pos us = (Inr Unit_again, us')"
  shows "nat \<lceil>retry_limit (en_num en) step\<rceil> - attempt_of (us_handle us') < nat \<lceil>retry_limit (en_num en) step\<rceil> - attempt_of (us_handle us)"
proof -
  have "rat_of_nat (attempt_of (us_handle us')) < of_int \<lceil>retry_limit (en_num en) step\<rceil>"
    by (rule less_le_trans [OF one_unit_again(2) [OF assms] le_of_int_ceiling])
  then have "int (attempt_of (us_handle us')) < \<lceil>retry_limit (en_num en) step\<rceil>" by linarith
  with one_unit_again(1) [OF assms] show ?thesis by linarith
qed

lemma advanceIteration_pos:
  assumes "advanceIteration en u step res (ctx, pos) us = ((ctx', pos'), us')"
  shows "po_iteration pos' = Suc (po_iteration pos)" "po_items pos' = po_items pos" "po_step pos' = po_step pos" "us_handle us' = None"
  using assms by (auto simp: advanceIteration_def add_result_def Let_def wf_do_simps split: if_splits)

text \<open>The loop over the units of a step.\<close>

function unit_loop ::
  "advance \<Rightarrow> engine_env \<Rightarrow> run_env \<Rightarrow> jsval \<Rightarrow> context_map \<Rightarrow> position \<Rightarrow> unit_state \<Rightarrow> (step_result \<times> context_map \<times> position) res \<times> unit_state" where
  "unit_loop adv en u step ctx pos us =
     (if po_iteration pos \<ge> iterations step pos then
        (Inr (Step_next, (if has_foreach step then js_put (step_id step) \<lparr>se_status = ''completed'', se_output = XArr (po_results pos)\<rparr> ctx else ctx), pos), us)
      else (case one_unit adv en u step ctx pos us of
        (Inl e, us1) \<Rightarrow> (Inl e, us1)
      | (Inr (Unit_stop r), us1) \<Rightarrow> (Inr (r, ctx, pos), us1)
      | (Inr Unit_again, us1) \<Rightarrow> unit_loop adv en u step ctx pos us1
      | (Inr (Unit_on res), us1) \<Rightarrow>
          (case advanceIteration en u step res (ctx, pos) us1 of
             ((ctx', pos'), us2) \<Rightarrow> unit_loop adv en u step ctx' pos' us2)))"
  by pat_completeness auto
termination
proof (relation "measures [\<lambda>(adv, en, u, step, ctx, pos, us). iterations step pos - po_iteration pos,
                           \<lambda>(adv, en, u, step, ctx, pos, us). nat \<lceil>retry_limit (en_num en) step\<rceil> - attempt_of (us_handle us)]", goal_cases)
  case 1
  show ?case by simp
next
  case (2 adv en u step ctx pos us x us1 n res cp us2 ctx' pos')
  then have "advanceIteration en u step res (ctx, pos) us1 = ((ctx', pos'), us2)" by simp
  note p = advanceIteration_pos [OF this]
  then have "iterations step pos' = iterations step pos" by (simp add: iterations_def items_of_def)
  moreover from p(1) 2(1) have "iterations step pos - po_iteration pos' < iterations step pos - po_iteration pos" by linarith
  ultimately show ?case by simp
next
  case (3 adv en u step ctx pos us x us1 n)
  then have "one_unit adv en u step ctx pos us = (Inr Unit_again, us1)" by simp
  from again_decreases [OF this] show ?case by simp
qed

declare unit_loop.simps [simp del]

definition execute_step ::
  "advance \<Rightarrow> engine_env \<Rightarrow> run_env \<Rightarrow> jsval \<Rightarrow> context_map \<Rightarrow> position \<Rightarrow> unit_state \<Rightarrow> (step_result \<times> context_map \<times> position) res \<times> unit_state" where
  "execute_step adv en u step ctx pos us =
     (case start_items en u step ctx pos us of
        (Inl m, us1) \<Rightarrow> (Inr (Step_fail m, ctx, pos), us1)
      | (Inr pos1, us1) \<Rightarrow> unit_loop adv en u step ctx pos1 us1)"

section \<open>One run\<close>

definition next_position :: "position \<Rightarrow> position" where
  "next_position pos = \<lparr>po_step = Suc (po_step pos), po_iteration = 0, po_items = None, po_results = [], po_handle = None\<rparr>"

text \<open>The steps from the position on; the last component is the result of the step the run stops at.\<close>

function exec_steps ::
  "advance \<Rightarrow> engine_env \<Rightarrow> run_env \<Rightarrow> jsval list \<Rightarrow> context_map \<Rightarrow> position \<Rightarrow> unit_state \<Rightarrow> (step_result \<times> context_map \<times> position) res \<times> unit_state" where
  "exec_steps adv en u steps' ctx pos us =
     (if po_step pos \<ge> length steps' then (Inr (Step_next, ctx, pos), us)
      else (case execute_step adv en u (steps' ! po_step pos) ctx pos us of
        (Inl e, us1) \<Rightarrow> (Inl e, us1)
      | (Inr (r, ctx1, pos1), us1) \<Rightarrow>
          (if r = Step_next then
             (let pos2 = next_position pos in exec_steps adv en u steps' ctx1 pos2 (save_point en u ctx1 pos2 (us1\<lparr>us_handle := None\<rparr>)))
           else (Inr (r, ctx1, pos1\<lparr>po_handle := us_handle us1\<rparr>), us1))))"
  by pat_completeness auto
termination
  by (relation "measure (\<lambda>(adv, en, u, steps', ctx, pos, us). length steps' - po_step pos)") (auto simp: next_position_def)

declare exec_steps.simps [simp del]

definition lastOutput :: "jsval list \<Rightarrow> context_map \<Rightarrow> xval" where
  "lastOutput steps' ctx =
     (case filter (\<lambda>e. se_status e = ''completed'') (concat (map (\<lambda>s. case map_of ctx (step_id s) of Some e \<Rightarrow> [e] | None \<Rightarrow> []) (rev steps'))) of
        [] \<Rightarrow> XNull | e # _ \<Rightarrow> se_output e)"

text \<open>The output of a run that executed all its steps, checked against the schema of a skill.\<close>

definition output_problems :: "engine_env \<Rightarrow> wf_row \<Rightarrow> xval \<Rightarrow> engine_state \<Rightarrow> string list res" where
  "output_problems en r output st =
     (case Option.bind (map_of (pf_skills (wo_platform (es_world st))) (wr_definitionId r)) sd_outputSchema of
        Some s \<Rightarrow> if truthy (Some s) then validate (en_num en) s output ''output'' else Inr []
      | None \<Rightarrow> Inr [])"

definition completed_end :: "xval \<Rightarrow> run_end" where
  "completed_end output =
     \<lparr>re_status = WCompleted, re_outputs = Some (to_json output), re_error = None, re_context = None, re_position = None\<rparr>"

definition finish_output :: "engine_env \<Rightarrow> wf_row \<Rightarrow> bool \<Rightarrow> (run_end \<Rightarrow> run_end) \<Rightarrow> (run_end \<Rightarrow> run_end) \<Rightarrow> xval \<Rightarrow> engine_state \<Rightarrow> wf_row option res \<times> engine_state" where
  "finish_output en r checked ok bad output st =
     (case (if checked then output_problems en r output st else Inr []) of
        Inl e \<Rightarrow> (Inl e, st)
      | Inr errors \<Rightarrow>
          (case (if errors \<noteq> []
                 then engine_finish en r (bad (failed_end (''Skill '' @ wr_definitionId r @ '' returned invalid output: '' @ join_with ''; '' errors))) st
                 else engine_finish en r (ok (completed_end output)) st) of
             (row, st') \<Rightarrow> (Inr row, st')))"

definition execute_code :: "engine_env \<Rightarrow> wf_row \<Rightarrow> engine_state \<Rightarrow> wf_row option res \<times> engine_state" where
  "execute_code en r st =
     (let failed = (\<lambda>e s. case engine_finish en r (failed_end (engine_error e)) s of (row, s') \<Rightarrow> (Inr row, s')) in
      case en_code en (wr_definitionId r) (wr_inputs r) st of
        (Inl e, st1) \<Rightarrow> failed e st1
      | (Inr output, st1) \<Rightarrow>
          (case finish_output en r True (\<lambda>e. e\<lparr>re_position := Some (wr_position r)\<rparr>) id output st1 of
             (Inl e, st2) \<Rightarrow> failed e st2
           | other \<Rightarrow> other))"

definition workflow_output :: "engine_env \<Rightarrow> run_env \<Rightarrow> jsval list \<Rightarrow> context_map \<Rightarrow> unit_state \<Rightarrow> xval res" where
  "workflow_output en u steps' ctx us =
     (case js_get (Some (wr_workflow (rn_run u))) ''output'' of
        Some v \<Rightarrow> template en (run_scope u ctx us) (Some v) (us_engine us)
      | None \<Rightarrow> Inr (lastOutput steps' ctx))"

definition suspend_run :: "engine_env \<Rightarrow> wf_row \<Rightarrow> context_map \<Rightarrow> position \<Rightarrow> wait \<Rightarrow> int option \<Rightarrow> engine_state \<Rightarrow> wf_row option \<times> engine_state" where
  "suspend_run en r ctx pos w t st =
     (case wf_act en (\<lambda>_ now. suspendRun (wr_id r) ctx pos w t (en_owner en) now) st of
        (row, st1) \<Rightarrow>
          (row, if wr_kind r = ''automation'' then
             (let st2 = publish_run en ''automation.waiting'' row [(''waitingFor'', JStr (case w of Wait_action _ _ \<Rightarrow> ''action'' | Wait_child _ \<Rightarrow> ''child''
                    | Wait_timer _ \<Rightarrow> ''timer'' | Wait_retry _ _ \<Rightarrow> ''retry'' | Wait_event _ _ _ _ \<Rightarrow> ''event''))] st1 in
              (case some_text (wr_instanceId r) of
                 Some i \<Rightarrow> wf_do en (\<lambda>_ now d. snd (updateInstance i (empty_patch\<lparr>ip_lastStatus := Some ''waiting''\<rparr>) now d)) st2
               | None \<Rightarrow> st2))
           else st1))"

definition execute_workflow :: "advance \<Rightarrow> engine_env \<Rightarrow> run_env \<Rightarrow> jsval list \<Rightarrow> unit_state \<Rightarrow> wf_row option res \<times> engine_state" where
  "execute_workflow adv en u steps' us =
     (let r = rn_run u; finished = (\<lambda>p. case p of (row, st) \<Rightarrow> (Inr row, st)) in
      case exec_steps adv en u steps' (wr_context r) (wr_position r) us of
        (Inl e, us1) \<Rightarrow> (Inl e, us_engine us1)
      | (Inr (Step_wait w t, ctx, pos), us1) \<Rightarrow> finished (suspend_run en r ctx pos w t (us_engine us1))
      | (Inr (Step_fail m, ctx, pos), us1) \<Rightarrow>
          finished (engine_finish en r ((failed_end m)\<lparr>re_context := Some ctx, re_position := Some pos\<rparr>) (us_engine us1))
      | (Inr (Step_next, ctx, pos), us1) \<Rightarrow>
          (let at_end = (\<lambda>e. e\<lparr>re_context := Some ctx, re_position := Some pos\<rparr>) in
           case workflow_output en u steps' ctx us1 of
             Inl e \<Rightarrow> finished (engine_finish en r (at_end (failed_end (''output: '' @ engine_error e))) (us_engine us1))
           | Inr output \<Rightarrow> finish_output en r (wr_kind r = ''skill'') at_end at_end output (us_engine us1)))"

definition execute_run :: "advance \<Rightarrow> engine_env \<Rightarrow> wf_row \<Rightarrow> engine_state \<Rightarrow> wf_row option res \<times> engine_state" where
  "execute_run adv en r st =
     (let failed = (\<lambda>m. case engine_finish en r (failed_end m) st of (row, st') \<Rightarrow> (Inr row, st')) in
      case map_of (pf_packages (wo_platform (es_world st))) (wr_packageId r) of
        None \<Rightarrow> failed (''Package '' @ wr_packageId r @ '' is not installed'')
      | Some k \<Rightarrow>
          if \<not> pk_enabled k then failed (''Package '' @ wr_packageId r @ '' is disabled'')
          else if truthy (js_get (Some (wr_workflow r)) ''implementation'') then execute_code en r st
          else (let m = pk_manifest k; i = Option.bind (some_text (wr_instanceId r)) (\<lambda>i. getInstance i (es_wf st));
                    u = \<lparr>rn_run = r, rn_manifest = m, rn_instance = i, rn_settings = effectiveSettings m (getStoredSettings (mf_id m) (wo_packages (es_world st)))\<rparr>;
                    us = \<lparr>us_handle = po_handle (wr_position r), us_state = (case i of Some x \<Rightarrow> in_state x | None \<Rightarrow> []), us_engine = st\<rparr> in
                case js_get (Some (wr_workflow r)) ''steps'' of
                  Some (JArr steps') \<Rightarrow> execute_workflow adv en u steps' us
                | _ \<Rightarrow> (Inl (TypeError ''Cannot read properties of undefined''), st)))"

definition starts_fresh :: "wf_row \<Rightarrow> bool" where
  "starts_fresh r \<longleftrightarrow> wr_kind r = ''automation'' \<and> po_step (wr_position r) = 0 \<and> po_handle (wr_position r) = None \<and> wr_context r = []"

text \<open>
  \<open>advance(runId)\<close>, with what advances a child run as an argument: lease, execute, and fail the
  run when the execution throws. A run that is not pending is returned as it is.
\<close>

definition advance_with :: "advance \<Rightarrow> engine_env \<Rightarrow> advance" where
  "advance_with adv en runId st =
     (case wf_act en (\<lambda>_ now. leaseRun runId (en_owner en) (en_leaseMs en) now) st of
        (None, st1) \<Rightarrow> (wf_getRun runId (es_wf st1), st1)
      | (Some r, st1) \<Rightarrow>
          (case execute_run adv en r (if starts_fresh r then publish_run en ''automation.started'' (Some r) [] st1 else st1) of
             (Inr row, st2) \<Rightarrow> (row, st2)
           | (Inl e, st2) \<Rightarrow>
               (case wf_getRun runId (es_wf st2) of
                  None \<Rightarrow> (None, st2)
                | Some r' \<Rightarrow> engine_finish en r' (failed_end (engine_error e)) st2)))"

text \<open>A run of depth \<open>d\<close> starts children of depth \<open>d + 1\<close>, and none below \<open>MAX_SKILL_DEPTH\<close>.\<close>

fun advance_at :: "nat \<Rightarrow> engine_env \<Rightarrow> advance" where
  "advance_at 0 en = advance_with (\<lambda>i st. (wf_getRun i (es_wf st), st)) en"
| "advance_at (Suc n) en = advance_with (advance_at n en) en"

definition engine_advance :: "engine_env \<Rightarrow> advance" where
  "engine_advance en = advance_at MAX_SKILL_DEPTH en"

section \<open>Creating runs\<close>

definition new_run_input :: "string \<Rightarrow> string \<Rightarrow> string \<Rightarrow> jsval \<Rightarrow> xval \<Rightarrow> string \<Rightarrow> wf_input" where
  "new_run_input kind definitionId packageId workflow inputs corr =
     \<lparr>wi_kind = kind, wi_definitionId = definitionId, wi_packageId = packageId, wi_principal = None, wi_packageVersion = None,
      wi_instanceId = None, wi_rootRunId = None, wi_parentRunId = None, wi_parentStepId = None, wi_depth = 0,
      wi_trigger = JObj [(''type'', JStr ''manual'')], wi_dedupeKey = None, wi_status = WPending, wi_workflow = workflow, wi_inputs = inputs,
      wi_correlationId = Some corr, wi_error = None\<rparr>"

text \<open>What an automation run is created with besides its definition.\<close>

record run_request =
  rq_automationId :: string
  rq_trigger :: jsval
  rq_inputs :: xval
  rq_dedupeKey :: "string option"
  rq_status :: wf_status
  rq_error :: "string option"

definition created_patch :: "run_request \<Rightarrow> wf_row \<Rightarrow> instance_patch" where
  "created_patch q r =
     (let p = empty_patch\<lparr>ip_lastRunId := Some (wr_id r), ip_lastRunAt := Some (wr_createdAt r), ip_lastStatus := Some (wf_status_text (rq_status q))\<rparr> in
      if rq_status q \<in> set ACTIVE_RUN_STATUSES then p else p\<lparr>ip_lastError := Some (rq_error q)\<rparr>)"

definition createAutomationRun :: "engine_env \<Rightarrow> run_request \<Rightarrow> engine_state \<Rightarrow> (wf_row option \<times> bool) res \<times> engine_state" where
  "createAutomationRun en q st =
     (case map_of (pf_automations (wo_platform (es_world st))) (rq_automationId q) of
        None \<Rightarrow> (Inl (HttpError 404 (''Unknown automation: '' @ rq_automationId q)), st)
      | Some def \<Rightarrow>
          let version = map_option (mf_version \<circ> pk_manifest) (map_of (pf_packages (wo_platform (es_world st))) (ad_packageId def));
              i = getInstanceByAutomation (rq_automationId q) (es_wf st);
              p = (new_run_input ''automation'' (rq_automationId q) (ad_packageId def) (ad_workflow def)
                    (prepareInputs (Some (ad_workflow def)) (rq_inputs q)) (en_id en (Suc (es_tick st))))
                  \<lparr>wi_packageVersion := version, wi_instanceId := map_option in_id i, wi_trigger := rq_trigger q, wi_dedupeKey := rq_dedupeKey q,
                   wi_status := rq_status q, wi_error := rq_error q\<rparr> in
          (case wf_act en (\<lambda>newid now. insertRun newid now p) st of
             (None, st1) \<Rightarrow> (Inr (Option.bind (some_text (rq_dedupeKey q)) (\<lambda>k. getRunByDedupe k (es_wf st1)), False), st1)
           | (Some r, st1) \<Rightarrow>
               (Inr (Some r, True),
                case i of None \<Rightarrow> st1 | Some x \<Rightarrow> wf_do en (\<lambda>_ now d. snd (updateInstance (in_id x) (created_patch q r) now d)) st1)))"

definition runSkill :: "engine_env \<Rightarrow> string \<Rightarrow> xval \<Rightarrow> string option \<Rightarrow> engine_state \<Rightarrow> wf_row option res \<times> engine_state" where
  "runSkill en skillId input packageId st =
     (case map_of (pf_skills (wo_platform (es_world st))) skillId of
        None \<Rightarrow> (Inl (HttpError 404 (''Unknown skill: '' @ skillId)), st)
      | Some s \<Rightarrow>
          let inputs = prepareSkillInput s input in
          (case validate (en_num en) (sd_inputSchema s) inputs ''input'' of
             Inl e \<Rightarrow> (Inl e, st)
           | Inr errors \<Rightarrow>
               let p = (new_run_input ''skill'' skillId (case some_text packageId of Some k \<Rightarrow> k | None \<Rightarrow> sd_packageId s) (skill_snapshot s) inputs
                         (en_id en (Suc (es_tick st))))\<lparr>wi_packageVersion := Some (sd_version s)\<rparr>;
                   p' = (if errors = [] then p
                         else p\<lparr>wi_status := WFailed, wi_error := Some (''Invalid input for skill '' @ skillId @ '': '' @ join_with ''; '' errors)\<rparr>) in
               (case wf_act en (\<lambda>newid now. insertRun newid now p') st of
                  (r, st1) \<Rightarrow>
                    if errors \<noteq> [] then (Inr r, st1)
                    else (case r of
                      None \<Rightarrow> (Inl (TypeError ''Cannot read properties of null''), st1)
                    | Some row \<Rightarrow> (case engine_advance en (wr_id row) st1 of (r', st2) \<Rightarrow> (Inr r', st2))))))"

section \<open>Waking\<close>

definition wake_all :: "engine_env \<Rightarrow> (wf_row \<Rightarrow> wf_db \<Rightarrow> position option option) \<Rightarrow> wf_row \<Rightarrow> string list \<times> engine_state \<Rightarrow> string list \<times> engine_state" where
  "wake_all en pick r acc =
     (case acc of (woken, st) \<Rightarrow>
        (case pick r (es_wf st) of
           None \<Rightarrow> (woken, st)
         | Some pos \<Rightarrow>
             (case wf_act en (\<lambda>_ now. wakeRun (wr_id r) pos now) st of
                (b, st') \<Rightarrow> (if b then woken @ [wr_id r] else woken, st'))))"

definition with_handle :: "wf_row \<Rightarrow> (handle \<Rightarrow> handle) \<Rightarrow> position" where
  "with_handle r f =
     (wr_position r)\<lparr>po_handle := Some (f (case po_handle (wr_position r) of Some h \<Rightarrow> h | None \<Rightarrow> no_handle))\<rparr>"

definition due_wake :: "wf_row \<Rightarrow> position option option" where
  "due_wake r =
     (case wr_wait r of
        Some (Wait_event _ _ _ _) \<Rightarrow> Some (Some (with_handle r (\<lambda>h. h\<lparr>hd_timedOut := True\<rparr>)))
      | Some (Wait_timer _) \<Rightarrow> Some None
      | Some (Wait_retry _ _) \<Rightarrow> Some None
      | _ \<Rightarrow> None)"

definition wakeDueRuns :: "engine_env \<Rightarrow> int \<Rightarrow> engine_state \<Rightarrow> string list \<times> engine_state" where
  "wakeDueRuns en now st = fold (wake_all en (\<lambda>r _. due_wake r)) (listWaitingRuns (Some now) (es_wf st)) ([], st)"

text \<open>\<open>actionOutcome\<close> that throws ends the loop with its error; the runs woken before stay woken.\<close>

fun wake_actions :: "engine_env \<Rightarrow> wf_row list \<Rightarrow> string list \<times> engine_state \<Rightarrow> string list res \<times> engine_state" where
  "wake_actions en [] acc = (Inr (fst acc), snd acc)"
| "wake_actions en (r # rs) acc =
     (case wr_wait r of
        Some (Wait_action a cap) \<Rightarrow>
          (case actionOutcome (en_num en) (es_world (snd acc)) (case cap of Some c \<Rightarrow> c | None \<Rightarrow> ''undefined'') a (es_db (snd acc)) of
             Inl e \<Rightarrow> (Inl e, snd acc)
           | Inr o' \<Rightarrow> wake_actions en rs (if iu_status o' \<noteq> InvWaiting then wake_all en (\<lambda>_ _. Some None) r acc else acc))
      | _ \<Rightarrow> wake_actions en rs acc)"

definition wakeActionWaits :: "engine_env \<Rightarrow> engine_state \<Rightarrow> string list res \<times> engine_state" where
  "wakeActionWaits en st = wake_actions en (listWaitingRuns None (es_wf st)) ([], st)"

definition child_settled :: "wf_row \<Rightarrow> wf_db \<Rightarrow> position option option" where
  "child_settled r d =
     (case wr_wait r of
        Some (Wait_child c) \<Rightarrow>
          (case wf_getRun c d of
             None \<Rightarrow> Some None
           | Some k \<Rightarrow> if wr_status k \<in> set TERMINAL_RUN_STATUSES \<or> wr_status k = WPending then Some None else None)
      | _ \<Rightarrow> None)"

definition wakeChildWaits :: "engine_env \<Rightarrow> engine_state \<Rightarrow> string list \<times> engine_state" where
  "wakeChildWaits en st = fold (wake_all en child_settled) (listWaitingRuns None (es_wf st)) ([], st)"

definition subject_json :: "(string \<times> string) option \<Rightarrow> jsval" where
  "subject_json s = (case s of None \<Rightarrow> JNull | Some (t, i) \<Rightarrow> JObj [(''type'', JStr t), (''id'', JStr i)])"

definition publicEvent :: "pkg_event \<Rightarrow> jsval" where
  "publicEvent ev =
     JObj [(''id'', JStr (ev_id ev)), (''type'', JStr (ev_type ev)), (''timestamp'', JStr (iso_string (ev_timestamp ev))), (''source'', JStr (ev_source ev)),
           (''subject'', subject_json (ev_subject ev)), (''data'', ev_data ev)]"

text \<open>The event as an expression sees it.\<close>

definition event_value :: "pkg_event \<Rightarrow> xval" where
  "event_value ev =
     of_json (JObj [(''id'', JStr (ev_id ev)), (''type'', JStr (ev_type ev)), (''timestamp'', JStr (iso_string (ev_timestamp ev))), (''source'', JStr (ev_source ev)),
        (''actor'', subject_json (map_option (\<lambda>a. (actor_type a, actor_id a)) (ev_actor ev))), (''subject'', subject_json (ev_subject ev)),
        (''data'', ev_data ev), (''metadata'', JObj (ev_metadata ev)), (''correlationId'', text_or_null (ev_correlationId ev)),
        (''causationId'', text_or_null (ev_causationId ev)), (''createdAt'', JStr (iso_string (ev_createdAt ev)))])"

definition event_wake :: "engine_env \<Rightarrow> int \<Rightarrow> pkg_event \<Rightarrow> wf_row \<Rightarrow> position option option" where
  "event_wake en now ev r =
     (case wr_wait r of
        Some (Wait_event type cond since deadline) \<Rightarrow>
          if type \<noteq> ev_type ev then None
          else if map_of (ev_metadata ev) ''workflowRunId'' = Some (JStr (wr_id r)) then None
          else if ev_timestamp ev < since then None
          else if (case some_text cond of None \<Rightarrow> True
                   | Some c \<Rightarrow> (case evaluate ((en_expr en)\<lparr>xe_now := now\<rparr>) c (XObj [(''event'', event_value ev), (''inputs'', wr_inputs r)]) of
                                 Inl e \<Rightarrow> False | Inr v \<Rightarrow> x_truthy v))
          then Some (Some (with_handle r (\<lambda>h. h\<lparr>hd_event := Some (publicEvent ev)\<rparr>)))
          else None
      | _ \<Rightarrow> None)"

definition deliverEvent :: "engine_env \<Rightarrow> pkg_event \<Rightarrow> engine_state \<Rightarrow> string list \<times> engine_state" where
  "deliverEvent en ev st =
     fold (wake_all en (\<lambda>r _. event_wake en (now_at en st) ev r)) (listWaitingRuns None (es_wf st)) ([], st)"

section \<open>Cancelling\<close>

definition withdraw_action :: "engine_env \<Rightarrow> wf_row \<Rightarrow> engine_state \<Rightarrow> engine_state" where
  "withdraw_action en r st =
     (case wr_wait r of
        Some (Wait_action a cap) \<Rightarrow>
          if map_option a_status (getAgentAction a (es_db st)) = Some APending
          then st\<lparr>es_tick := Suc (es_tick st),
                  es_db := snd (updateAgentAction a (set_failure ACancelled ''Workflow run cancelled'') (now_at en st) (es_db st))\<rparr>
          else st
      | _ \<Rightarrow> st)"

definition cancelled_end :: "string \<Rightarrow> run_end" where
  "cancelled_end reason = \<lparr>re_status = WCancelled, re_outputs = None, re_error = Some reason, re_context = None, re_position = None\<rparr>"

text \<open>
  \<open>cancelRun\<close>, children first. The first argument bounds the nesting: a child is created after
  its parent, so there are at most as many levels as runs.
\<close>

fun cancel_at :: "nat \<Rightarrow> engine_env \<Rightarrow> string \<Rightarrow> string \<Rightarrow> engine_state \<Rightarrow> wf_row option \<times> engine_state" where
  "cancel_at 0 en reason runId st = (wf_getRun runId (es_wf st), st)"
| "cancel_at (Suc n) en reason runId st =
     (case wf_getRun runId (es_wf st) of
        None \<Rightarrow> (None, st)
      | Some r \<Rightarrow>
          if wr_status r \<in> set TERMINAL_RUN_STATUSES then (Some r, st)
          else (let children = wf_listRuns (all_runs\<lparr>rf_parentRunId := Some runId, rf_status := Some ACTIVE_RUN_STATUSES\<rparr>) (es_wf st);
                    st1 = fold (\<lambda>c s. snd (cancel_at n en reason (wr_id c) s)) children st in
                engine_finish en r (cancelled_end reason) (withdraw_action en r st1)))"

definition engine_cancelRun :: "engine_env \<Rightarrow> string \<Rightarrow> string \<Rightarrow> engine_state \<Rightarrow> wf_row option \<times> engine_state" where
  "engine_cancelRun en runId reason st = cancel_at (length (wd_runs (es_wf st))) en reason runId st"

end
