(* ===== verification/U2_Workflow_Safety.thy ===== *)
theory U2_Workflow_Safety
  imports U2_Workflow_Engine
begin

text \<open>
  What the engine guarantees of the runs it executes: a unit proposes an action at most once,
  also across a crash; a capability step needs the grants of the package the run acts for, also
  inside a composed skill; runs that are due are woken; and a \<open>foreach\<close> computes the list of its
  units' outputs.
\<close>

section \<open>What a capability unit does\<close>

lemma wf_do_sel [simp]:
  "es_db (wf_do en f st) = es_db st" "es_hidden (wf_do en f st) = es_hidden st" "es_world (wf_do en f st) = es_world st"
  "es_wf (wf_do en f st) = f (en_id en (es_tick st)) (now_at en st) (es_wf st)"
  by (simp_all add: wf_do_def wf_act_def)

lemma save_handle_sel:
  "es_db (us_engine (save_handle en u ctx pos h us)) = es_db (us_engine us)"
  "es_hidden (us_engine (save_handle en u ctx pos h us)) = es_hidden (us_engine us)"
  "es_world (us_engine (save_handle en u ctx pos h us)) = es_world (us_engine us)"
  "es_wf (us_engine (save_handle en u ctx pos h us)) =
     checkpointRun (wr_id (rn_run u)) ctx (pos\<lparr>po_handle := Some h\<rparr>) (en_owner en) (now_at en (us_engine us)) (es_wf (us_engine us))"
  by (simp_all add: save_handle_def save_point_def)

text \<open>The id the unit proposes under, and the handle that carries it.\<close>

definition proposal_id :: "engine_env \<Rightarrow> unit_state \<Rightarrow> string" where
  "proposal_id en us = (case some_text (hd_actionId (the_handle us)) of Some a \<Rightarrow> a | None \<Rightarrow> en_id en (es_tick (us_engine us)))"

definition proposal_handle :: "engine_env \<Rightarrow> unit_state \<Rightarrow> pkg_policy option \<Rightarrow> handle" where
  "proposal_handle en us policy = (the_handle us)\<lparr>hd_actionId := Some (proposal_id en us), hd_policy := policy\<rparr>"

lemma capability_proposal:
  assumes "capability_unit en u step cap scope ctx pos us = (r, us')" and "es_db (us_engine us') \<noteq> es_db (us_engine us)"
    and "en_meanwhile en = (\<lambda>n st. st)"
  obtains input policy ictx x y where "template en scope (Some (step_with step)) (us_engine us) = Inr input"
    "policy = step_policy en u step scope input (us_engine us)"
    "us_handle us' = Some (proposal_handle en us policy)"
    "es_wf (us_engine us') = checkpointRun (wr_id (rn_run u)) ctx (pos\<lparr>po_handle := Some (proposal_handle en us policy)\<rparr>) (en_owner en)
       (now_at en (us_engine us)) (es_wf (us_engine us))"
    "ic_actionId ictx = Some (proposal_id en us)" "ic_packageId ictx = wr_principal (rn_run u)" "ic_policy ictx = policy"
    "invoke (en_num en) (es_world (us_engine us)) (en_agent en) cap input ictx x (es_hidden (us_engine us), es_db (us_engine us)) =
       (y, (es_hidden (us_engine us'), es_db (us_engine us')))"
proof -
  have p: "proposed_before us = None"
    using assms(1,2) by (cases "proposed_before us") (auto simp: capability_unit_def Let_def split: sum.splits)
  obtain input where i: "template en scope (Some (step_with step)) (us_engine us) = Inr input"
    using assms(1,2) p by (cases "template en scope (Some (step_with step)) (us_engine us)") (auto simp: capability_unit_def Let_def)
  define policy where "policy = step_policy en u step scope input (us_engine us)"
  define us1 where "us1 = save_handle en u ctx pos (proposal_handle en us policy) us"
  define ictx where "ictx = call_ctx u step (proposal_id en us) policy (es_wf (us_engine us1))"
  obtain o' st' where c: "invoke_call en cap input ictx (call_timeout step (contract_at (es_world (us_engine us)) cap)) (us_engine us1) = (o', st')"
    by force
  have us': "us' = us1\<lparr>us_engine := st'\<rparr>"
    using assms(1) p i c
    by (auto simp: capability_unit_def Let_def policy_def us1_def ictx_def proposal_handle_def proposal_id_def split: sum.splits)
  obtain y h s where v: "invoke (en_num en) (es_world (us_engine us1)) (en_agent en) cap input ictx (en_call en (es_tick (us_engine us1)))
      (es_hidden (us_engine us1), es_db (us_engine us1)) = (y, (h, s))" by (metis prod.exhaust)
  with c assms(3) have st': "es_hidden st' = h" "es_db st' = s" "es_wf st' = es_wf (us_engine us1)"
    by (auto simp: invoke_call_def Let_def)
  show thesis
    by (rule that [OF i policy_def, of ictx _ y]) (use v us' st' in \<open>simp_all add: us1_def wf_do_simps save_handle_sel ictx_def call_ctx_def Let_def\<close>)
qed

lemma checkpoint_held:
  assumes "wf_getRun i d = Some row" and "held_by i owner row"
  shows "wf_getRun i (checkpointRun i ctx pos owner now d) = Some (checkpoint_row (ctx, pos, now) row)"
  using assms by (simp add: checkpointRun_def checkpoint.get_update)

lemma resumed_unit_reads:
  assumes "us_handle us = Some h" and "hd_actionId h = Some a" and "a \<noteq> []" and "getAgentAction a (es_db (us_engine us)) \<noteq> None"
  shows "snd (capability_unit en u step cap scope ctx pos us) = us"
proof -
  have "proposed_before us = Some a" using assms by (cases a) (simp_all add: proposed_before_def the_handle_def)
  then show ?thesis by (simp add: capability_unit_def Let_def split: sum.split)
qed


text \<open>
  A step acts with the grants of the package its run acts for. A capability step puts
  something on the queue, or lets a worker run, only if the capability has a contract, the
  run's principal, the package of the root automation, is installed, enabled, and declares and
  holds every permission the contract asks for, and the package policy the step names, if any,
  answers automatic on the scope and the input.
\<close>

lemma step_grants:
  assumes "capability_unit en u step cap scope ctx pos us = (r, us')" and "en_meanwhile en = (\<lambda>n st. st)"
    and "queue (es_db (us_engine us')) \<noteq> queue (es_db (us_engine us)) \<or> attempts (es_db (us_engine us')) \<noteq> attempts (es_db (us_engine us))"
  shows "\<exists>c input. contract_at (es_world (us_engine us)) cap = Some c \<and>
    holds_permissions (es_world (us_engine us)) (wr_principal (rn_run u)) (ct_requiredPermissions c) \<and>
    template en scope (Some (step_with step)) (us_engine us) = Inr input \<and>
    (case step_policy en u step scope input (us_engine us) of None \<Rightarrow> True | Some q \<Rightarrow> pp_decision q = ''automatic'')"
proof -
  from assms(3) have "es_db (us_engine us') \<noteq> es_db (us_engine us)" by auto
  from capability_proposal [OF assms(1) this assms(2)] obtain input policy ictx x y where
    i: "template en scope (Some (step_with step)) (us_engine us) = Inr input" "policy = step_policy en u step scope input (us_engine us)"
    and c: "ic_packageId ictx = wr_principal (rn_run u)" "ic_policy ictx = policy"
    and v: "invoke (en_num en) (es_world (us_engine us)) (en_agent en) cap input ictx x (es_hidden (us_engine us), es_db (us_engine us)) =
       (y, (es_hidden (us_engine us'), es_db (us_engine us')))" by metis
  from invoke_needs_grants [OF v] assms(3) i c show ?thesis by auto
qed

section \<open>Composed skills\<close>

lemma insert_child_new:
  assumes "insert_child en p st = (Some c, st')" and "wf_getRun (wr_id c) (es_wf st) = None"
  shows "c = new_wf_row (wr_id c) (now_at en st) p"
proof (cases "fst (insertRun (en_id en (es_tick st)) (now_at en st) p (es_wf st))")
  case None
  with assms(1) have "Option.bind (wi_dedupeKey p) (\<lambda>k. getRunByDedupe k (es_wf st)) = Some c"
    by (auto simp: insert_child_def wf_act_def insertRun_eq split: if_splits)
  then have "c \<in> set (wd_runs (es_wf st))" by (auto simp: getRunByDedupe_def bind_eq_Some_conv dest: sql_get_SomeD)
  with assms(2) show ?thesis by (auto simp: wf_getRun_def sql_get_None_iff)
next
  case (Some r)
  with assms(1) have "c = new_wf_row (en_id en (es_tick st)) (now_at en st) p"
    by (auto simp: insert_child_def wf_act_def insertRun_eq split: if_splits)
  then show ?thesis by (simp add: new_wf_row_def)
qed

lemma skill_child_new:
  assumes "skill_child en u step skillId scope i ctx pos us = (Inr (Inr c), us')" and "wf_getRun (wr_id c) (es_wf (us_engine us)) = None"
  shows "wr_principal (rn_run u) \<noteq> [] \<Longrightarrow> wr_principal c = wr_principal (rn_run u)" "wr_rootRunId c = wr_rootRunId (rn_run u)"
    "wr_parentRunId c = Some (wr_id (rn_run u))" "wr_depth c = wr_depth (rn_run u) + 1" "wr_depth c \<le> MAX_SKILL_DEPTH"
proof -
  have n: "Option.bind (some_text (hd_childRunId (the_handle us))) (\<lambda>c. wf_getRun c (es_wf (us_engine us))) = None"
  proof (rule ccontr)
    assume "\<not> ?thesis"
    then obtain x k where x: "wf_getRun x (es_wf (us_engine us)) = Some k"
      "Option.bind (some_text (hd_childRunId (the_handle us))) (\<lambda>c. wf_getRun c (es_wf (us_engine us))) = Some k"
      by (auto simp: bind_eq_Some_conv)
    with assms(1) have "k = c" by (simp add: skill_child_def Let_def)
    moreover from x(1) have "wr_id k = x" by (auto simp: wf_getRun_def dest: sql_get_SomeD)
    ultimately show False using x(1) assms(2) by simp
  qed
  from assms(1) n obtain s input st' where
    d: "\<not> wr_depth (rn_run u) + 1 > MAX_SKILL_DEPTH"
    and c: "insert_child en (child_input u step i (the_handle us) skillId s input) (us_engine us) = (Some c, st')"
    by (auto simp: skill_child_def Let_def split: option.splits if_splits sum.splits prod.splits)
  have e: "c = new_wf_row (wr_id c) (now_at en (us_engine us)) (child_input u step i (the_handle us) skillId s input)"
    by (rule insert_child_new [OF c assms(2)])
  show "wr_principal c = wr_principal (rn_run u)" if "wr_principal (rn_run u) \<noteq> []"
    by (subst e) (use that in \<open>simp add: new_wf_row_def child_input_def Let_def split: list.split\<close>)
  show "wr_rootRunId c = wr_rootRunId (rn_run u)" by (subst e) (simp add: new_wf_row_def child_input_def Let_def or_keep_def)
  show "wr_parentRunId c = Some (wr_id (rn_run u))" by (subst e) (simp add: new_wf_row_def child_input_def Let_def)
  show "wr_depth c = wr_depth (rn_run u) + 1" by (subst e) (simp add: new_wf_row_def child_input_def Let_def)
  with d show "wr_depth c \<le> MAX_SKILL_DEPTH" by simp
qed

lemma child_step_grants:
  assumes "wr_principal c = wr_principal (rn_run u)" and "run_of wf_step d d'" and "wf_getRun (wr_id c) d = Some c"
    and "wf_getRun (wr_id c) d' = Some (rn_run u2)" and "en_meanwhile en = (\<lambda>n st. st)"
    and "capability_unit en u2 step cap scope ctx pos us = (x, us')" and "queue (es_db (us_engine us')) \<noteq> queue (es_db (us_engine us))"
  shows "\<exists>k. contract_at (es_world (us_engine us)) cap = Some k \<and>
    holds_permissions (es_world (us_engine us)) (wr_principal (rn_run u)) (ct_requiredPermissions k)"
proof -
  from runs_continue [OF assms(2)] assms(3) obtain r' where "wf_getRun (wr_id c) d' = Some r'" "identity_of r' = identity_of c"
    unfolding continues_def by blast
  with assms(4) have "identity_of (rn_run u2) = identity_of c" by simp
  then have "wr_principal (rn_run u2) = wr_principal (rn_run u)" using assms(1) identity_ofD(3) by metis
  with step_grants [OF assms(6,5)] assms(7) show ?thesis by auto
qed

text \<open>
  C34. A skill never borrows permissions. When a step starts a skill, also one of another
  package, the child run is one level deeper, at most eight deep, under the same root; and every
  capability step executed for it, at any later time, by any worker, acts only with what the
  principal of the calling run declares and the owner granted that package.
\<close>

theorem skill_borrows_no_permission:
  assumes "skill_child en u step skillId scope i ctx pos us = (Inr (Inr c), us')" and "wf_getRun (wr_id c) (es_wf (us_engine us)) = None"
    and "wr_principal (rn_run u) \<noteq> []"
  shows "wr_rootRunId c = wr_rootRunId (rn_run u) \<and> wr_parentRunId c = Some (wr_id (rn_run u)) \<and>
    wr_depth c = wr_depth (rn_run u) + 1 \<and> wr_depth c \<le> 8 \<and>
    (\<forall>d' en2 u2 step2 cap scope2 ctx2 pos2 us2 x us3.
       run_of wf_step (es_wf (us_engine us')) d' \<and>
       wf_getRun (wr_id c) (es_wf (us_engine us')) = Some c \<and> wf_getRun (wr_id c) d' = Some (rn_run u2) \<and>
       en_meanwhile en2 = (\<lambda>n st. st) \<and> capability_unit en2 u2 step2 cap scope2 ctx2 pos2 us2 = (x, us3) \<and>
       queue (es_db (us_engine us3)) \<noteq> queue (es_db (us_engine us2)) \<longrightarrow>
       (\<exists>k. contract_at (es_world (us_engine us2)) cap = Some k \<and>
          holds_permissions (es_world (us_engine us2)) (wr_principal (rn_run u)) (ct_requiredPermissions k)))"
proof (intro conjI allI impI)
  note n = skill_child_new [OF assms(1,2)]
  show "wr_rootRunId c = wr_rootRunId (rn_run u)" "wr_parentRunId c = Some (wr_id (rn_run u))" "wr_depth c = wr_depth (rn_run u) + 1"
    by (rule n)+
  show "wr_depth c \<le> 8" using n(5) by (simp add: MAX_SKILL_DEPTH_def)
  fix d' en2 u2 step2 cap scope2 ctx2 pos2 us2 x us3
  assume "run_of wf_step (es_wf (us_engine us')) d' \<and>
    wf_getRun (wr_id c) (es_wf (us_engine us')) = Some c \<and> wf_getRun (wr_id c) d' = Some (rn_run u2) \<and>
    en_meanwhile en2 = (\<lambda>n st. st) \<and> capability_unit en2 u2 step2 cap scope2 ctx2 pos2 us2 = (x, us3) \<and>
    queue (es_db (us_engine us3)) \<noteq> queue (es_db (us_engine us2))"
  then show "\<exists>k. contract_at (es_world (us_engine us2)) cap = Some k \<and>
      holds_permissions (es_world (us_engine us2)) (wr_principal (rn_run u)) (ct_requiredPermissions k)"
    by (elim conjE) (rule child_step_grants [OF n(1) [OF assms(3)]])
qed

section \<open>Waking what is due\<close>

lemma wake_all_eq:
  "wake_all en pick r acc =
     (case pick r (es_wf (snd acc)) of
        None \<Rightarrow> acc
      | Some pos \<Rightarrow>
          (if sql_changes (\<lambda>x. wr_id x = wr_id r \<and> wr_status x = WWaiting) (wd_runs (es_wf (snd acc))) = 1 then fst acc @ [wr_id r] else fst acc,
           (snd acc)\<lparr>es_tick := Suc (es_tick (snd acc)), es_wf := apply_wf (Wake (wr_id r) pos) (now_at en (snd acc)) (es_wf (snd acc))\<rparr>))"
  by (cases acc) (simp add: wake_all_def wf_act_def wakeRun_def Let_def split: option.split)

lemma get_after_wake:
  "wf_getRun i (apply_wf (Wake j pos) now d) =
     map_option (\<lambda>r. if wr_id r = j \<and> wr_status r = WWaiting then wf_wake_row (pos, now) r else r) (wf_getRun i d)"
  by (simp add: wakeRun_def Let_def wake.get_update)

lemma wake_other:
  assumes "wr_id r \<noteq> i"
  shows "wf_getRun i (es_wf (snd (wake_all en pick r acc))) = wf_getRun i (es_wf (snd acc))"
    "i \<in> set (fst acc) \<Longrightarrow> i \<in> set (fst (wake_all en pick r acc))"
proof -
  have "map_option (\<lambda>x. if wr_id x = wr_id r \<and> wr_status x = WWaiting then f x else x) (wf_getRun i d) = wf_getRun i d" for f d
    using assms by (cases "wf_getRun i d") (auto dest: wf_getRun_id)
  then show "wf_getRun i (es_wf (snd (wake_all en pick r acc))) = wf_getRun i (es_wf (snd acc))"
    unfolding wake_all_eq by (cases "pick r (es_wf (snd acc))") (simp_all add: get_after_wake del: apply_wf.simps)
  show "i \<in> set (fst acc) \<Longrightarrow> i \<in> set (fst (wake_all en pick r acc))"
    unfolding wake_all_eq by (cases "pick r (es_wf (snd acc))") simp_all
qed

lemma fold_wake_other:
  assumes "\<forall>r\<in>set rs. wr_id r \<noteq> i"
  shows "wf_getRun i (es_wf (snd (fold (wake_all en pick) rs acc))) = wf_getRun i (es_wf (snd acc)) \<and>
    (i \<in> set (fst acc) \<longrightarrow> i \<in> set (fst (fold (wake_all en pick) rs acc)))"
  using assms by (induction rs arbitrary: acc) (simp_all add: wake_other)

lemma wake_all_ok: "wf_ok (es_wf (snd acc)) \<Longrightarrow> wf_ok (es_wf (snd (wake_all en pick r acc)))"
  unfolding wake_all_eq by (cases "pick r (es_wf (snd acc))") (simp_all add: apply_wf_ok del: apply_wf.simps)

lemma wake_one:
  assumes "wf_ok (es_wf (snd acc))" and "pick r (es_wf (snd acc)) = Some pos" and "wf_getRun (wr_id r) (es_wf (snd acc)) = Some r"
    and "wr_status r = WWaiting"
  shows "wf_getRun (wr_id r) (es_wf (snd (wake_all en pick r acc))) = Some (wf_wake_row (pos, now_at en (snd acc)) r)"
    "wr_id r \<in> set (fst (wake_all en pick r acc))"
proof -
  let ?P = "\<lambda>x. wr_id x = wr_id r \<and> wr_status x = WWaiting" and ?rows = "wd_runs (es_wf (snd acc))"
  from assms(1) have "sql_changes ?P ?rows \<le> 1" by (intro sql_changes_keyed [where key = wr_id]) (auto simp: wf_ok_def)
  moreover have "sql_changes ?P ?rows \<noteq> 0" using assms(4) wf_getRun_id [OF assms(3)] by (auto simp: sql_changes_0_iff)
  ultimately have "sql_changes ?P ?rows = 1" by linarith
  with assms(2-4) show "wf_getRun (wr_id r) (es_wf (snd (wake_all en pick r acc))) = Some (wf_wake_row (pos, now_at en (snd acc)) r)"
    "wr_id r \<in> set (fst (wake_all en pick r acc))"
    unfolding wake_all_eq by (simp_all add: get_after_wake del: apply_wf.simps)
qed

lemma fold_wakes:
  assumes "r \<in> set rs" and "distinct (map wr_id rs)" and "\<forall>d. pick r d = Some pos" and "wf_getRun (wr_id r) (es_wf (snd acc)) = Some r"
    and "wr_status r = WWaiting" and "wf_ok (es_wf (snd acc))"
  shows "(\<exists>now. wf_getRun (wr_id r) (es_wf (snd (fold (wake_all en pick) rs acc))) = Some (wf_wake_row (pos, now) r)) \<and>
    wr_id r \<in> set (fst (fold (wake_all en pick) rs acc))"
  using assms
proof (induction rs arbitrary: acc)
  case (Cons x rs)
  show ?case
  proof (cases "x = r")
    case True
    with Cons.prems(2) have "wr_id r \<notin> wr_id ` set rs" by simp
    then have o: "\<forall>y\<in>set rs. wr_id y \<noteq> wr_id r" by (metis imageI)
    from wake_one [OF Cons.prems(6) _ Cons.prems(4,5)] Cons.prems(3) fold_wake_other [OF o, of en pick "wake_all en pick r acc"] True
    show ?thesis by auto
  next
    case False
    with Cons.prems(1,2) have "wr_id x \<noteq> wr_id r" by auto
    with Cons False show ?thesis by (simp add: wake_other wake_all_ok)
  qed
qed simp

text \<open>
  C35. What is due wakes. After \<open>wakeDueRuns\<close> every run whose timer, retry backoff or event deadline
  has passed is pending again, is reported as woken, knows of a timeout if it waited for an
  event, and is executed by whoever leases it next.
\<close>

theorem due_runs_are_woken:
  assumes "wf_ok (es_wf st)" and "wf_getRun i (es_wf st) = Some r" and "wr_status r = WWaiting" and "wr_wakeAt r = Some t" and "t \<le> now"
    and "\<forall>a c. wr_wait r \<noteq> Some (Wait_action a c)" and "\<forall>c. wr_wait r \<noteq> Some (Wait_child c)"
  shows "i \<in> set (fst (wakeDueRuns en now st)) \<and>
    (\<exists>r'. wf_getRun i (es_wf (snd (wakeDueRuns en now st))) = Some r' \<and> wr_status r' = WPending \<and> identity_of r' = identity_of r \<and>
       (\<forall>e c s d. wr_wait r = Some (Wait_event e c s d) \<longrightarrow> (\<exists>h. po_handle (wr_position r') = Some h \<and> hd_timedOut h)) \<and>
       fst (leaseRun i owner ms later (es_wf (snd (wakeDueRuns en now st)))) \<noteq> None)"
proof -
  let ?rs = "listWaitingRuns (Some now) (es_wf st)" and ?f = "\<lambda>r (_ :: wf_db). due_wake r"
  from wf_getRun_id [OF assms(2)] have r: "wr_id r = i" "r \<in> set (wd_runs (es_wf st))" by auto
  have m: "r \<in> set ?rs" using assms(3-5) r(2) by (simp add: listWaitingRuns_def)
  from assms(1) have "distinct (map wr_id (filter P (wd_runs (es_wf st))))" for P by (simp add: wf_ok_def distinct_map_filter)
  then have d: "distinct (map wr_id ?rs)" by (simp add: listWaitingRuns_def distinct_map)
  from assms(1) r(2) obtain wt where wt: "wr_wait r = Some wt" using assms(3) by (auto simp: wf_ok_def wf_row_ok_def)
  with assms(6,7) obtain pos where p: "due_wake r = Some pos"
    and q: "\<forall>e c s d. wr_wait r = Some (Wait_event e c s d) \<longrightarrow> pos = Some (with_handle r (\<lambda>h. h\<lparr>hd_timedOut := True\<rparr>))"
    by (cases wt) (simp_all add: due_wake_def)
  from fold_wakes [OF m d, of ?f pos "([], st)" en] p assms(1-3) r(1) obtain t' where
    w: "wf_getRun i (es_wf (snd (wakeDueRuns en now st))) = Some (wf_wake_row (pos, t') r)" "i \<in> set (fst (wakeDueRuns en now st))"
    by (auto simp: wakeDueRuns_def)
  have ok: "wf_ok (es_wf (snd (wakeDueRuns en now st)))"
  proof -
    have "wf_ok (es_wf (snd acc)) \<Longrightarrow> wf_ok (es_wf (snd (fold (wake_all en ?f) xs acc)))" for xs acc
      by (induction xs arbitrary: acc) (simp_all add: wake_all_ok)
    with assms(1) show ?thesis by (simp add: wakeDueRuns_def)
  qed
  have "wr_status (wf_wake_row (pos, t') r) = WPending" by (simp add: wf_wake_row_def)
  moreover have "\<exists>h. po_handle (wr_position (wf_wake_row (pos, t') r)) = Some h \<and> hd_timedOut h" if "wr_wait r = Some (Wait_event e c s d)" for e c s d
    using that q by (simp add: wf_wake_row_def stored_position_def with_handle_def)
  moreover have "fst (leaseRun i owner ms later (es_wf (snd (wakeDueRuns en now st)))) \<noteq> None"
    using leaseRun_pending [OF ok w(1)] by (simp add: wf_wake_row_def)
  ultimately show ?thesis using w wake.identity_upd [of "(pos, t')" r] by auto
qed

section \<open>A list of units\<close>

text \<open>The value of a \<open>transform\<close> at one item, and what the run keeps of it.\<close>

definition item_value :: "engine_env \<Rightarrow> run_env \<Rightarrow> jsval \<Rightarrow> context_map \<Rightarrow> xval list \<Rightarrow> unit_state \<Rightarrow> nat \<Rightarrow> xval res" where
  "item_value en u step ctx items us i =
     template en (js_put ''index'' (XNum (of_nat i)) (js_put ''item'' (items ! i) (run_scope u ctx us)))
       (js_get (step_field step ''with'') ''value'') (us_engine us)"

definition kept_value :: "xval \<Rightarrow> xval" where
  "kept_value v = (if v = XUndef then XNull else v)"

text \<open>A \<open>transform\<close> over a list, without condition, retry or \<open>onError\<close>.\<close>

definition plain_transform :: "jsval \<Rightarrow> bool" where
  "plain_transform step \<longleftrightarrow> has_foreach step \<and> step_field step ''when'' = None \<and>
     (\<exists>k. parseUse (step_field step ''use'') = Some k \<and> u_kind k = ''transform'') \<and>
     \<not> truthy (step_field step ''retry'') \<and> step_field step ''onError'' \<noteq> Some (JStr ''continue'')"

lemma item_value_cong:
  assumes "us_state us' = us_state us" and "\<forall>m n. en_clock en m = en_clock en n"
  shows "item_value en u step ctx items us' i = item_value en u step ctx items us i"
proof -
  have "env_at en (us_engine us') = env_at en (us_engine us)" using assms(2) by (simp add: env_at_def now_at_def)
  with assms(1) show ?thesis by (simp add: item_value_def template_def run_scope_def split: option.split)
qed

lemma transform_one_unit:
  assumes "plain_transform step" and "us_handle us = None" and "po_items pos = Some items"
  shows "case item_value en u step ctx items us (po_iteration pos) of
      Inr v \<Rightarrow> \<exists>us'. one_unit adv en u step ctx pos us = (Inr (Unit_on (Result_output v)), us') \<and> us_handle us' = None \<and> us_state us' = us_state us
    | Inl e \<Rightarrow> \<exists>us'. one_unit adv en u step ctx pos us =
        (Inr (Unit_stop (Step_fail (failure_text step (int (po_iteration pos)) (unit_error (engine_error e))))), us')"
proof -
  from assms(1) obtain k where k: "parseUse (step_field step ''use'') = Some k" "u_kind k = ''transform''" by (auto simp: plain_transform_def)
  from assms(1) have p: "has_foreach step" "step_field step ''when'' = None" "\<not> truthy (step_field step ''retry'')"
    "step_field step ''onError'' \<noteq> Some (JStr ''continue'')" by (auto simp: plain_transform_def)
  have s: "unit_scope u step ctx pos us = js_put ''index'' (XNum (of_nat (po_iteration pos))) (js_put ''item'' (items ! po_iteration pos) (run_scope u ctx us))"
    using p(1) assms(3) by (simp add: unit_scope_def items_of_def Let_def)
  have t: "transform_unit en step (unit_scope u step ctx pos us) (us_engine us) =
      map_sum id unit_done (item_value en u step ctx items us (po_iteration pos))"
    by (simp add: transform_unit_def item_value_def s)
  have o: "one_unit adv en u step ctx pos us =
      (case run_unit adv en u step k (unit_scope u step ctx pos us) (int (po_iteration pos)) ctx pos us of
         (o', us1) \<Rightarrow> (case after_unit en u step (u_kind k) (int (po_iteration pos)) ctx pos o' (scope_back step us us1) of (n, us2) \<Rightarrow> (Inr n, us2)))"
    using p k(1) by (simp add: one_unit_def Let_def step_passes_def)
  show ?thesis
  proof (cases "item_value en u step ctx items us (po_iteration pos)")
    case (Inl e)
    have "run_unit adv en u step k (unit_scope u step ctx pos us) (int (po_iteration pos)) ctx pos us = (unit_error (engine_error e), us)"
      using t k(2) Inl by (simp add: run_unit_def dispatch_unit_def Let_def)
    with o p Inl assms(2) show ?thesis
      by (simp add: scope_back_def after_unit_def after_failure_def Let_def unit_end_def attempt_of_def)
  next
    case (Inr v)
    have "run_unit adv en u step k (unit_scope u step ctx pos us) (int (po_iteration pos)) ctx pos us = (unit_done v, us)"
      using t k(2) Inr by (simp add: run_unit_def dispatch_unit_def Let_def)
    with o p Inr assms(2) show ?thesis
      by (simp add: scope_back_def after_unit_def Let_def unit_end_def wf_do_simps)
  qed
qed

lemma transform_loop:
  assumes "plain_transform step" and "us_handle us = None" and "po_items pos = Some items" and "\<forall>m n. en_clock en m = en_clock en n"
    and "po_iteration pos \<le> length items"
  shows "case all_or_error (map (item_value en u step ctx items us) [po_iteration pos..<length items]) of
      Inr vs \<Rightarrow> \<exists>pos'. fst (unit_loop adv en u step ctx pos us) =
        Inr (Step_next, js_put (step_id step) \<lparr>se_status = ''completed'', se_output = XArr (po_results pos @ map kept_value vs)\<rparr> ctx, pos')
    | Inl e \<Rightarrow> \<exists>i pos'. i < length items \<and> fst (unit_loop adv en u step ctx pos us) =
        Inr (Step_fail (failure_text step (int i) (unit_error (engine_error e))), ctx, pos')"
  using assms(2-)
proof (induction "length items - po_iteration pos" arbitrary: pos us)
  case 0
  then have "po_iteration pos = length items" by simp
  with assms(1) 0 show ?case by (simp add: unit_loop.simps [of adv en u step ctx pos us] iterations_def items_of_def plain_transform_def)
next
  case (Suc n)
  then have i: "po_iteration pos < length items" by simp
  then have up: "[po_iteration pos..<length items] = po_iteration pos # [Suc (po_iteration pos)..<length items]" by (simp add: upt_conv_Cons)
  from i assms(1) Suc.prems(2) have go: "\<not> po_iteration pos \<ge> iterations step pos" by (simp add: iterations_def items_of_def plain_transform_def)
  note one = transform_one_unit [OF assms(1) Suc.prems(1,2), where en = en and u = u and ctx = ctx and adv = adv]
  show ?case
  proof (cases "item_value en u step ctx items us (po_iteration pos)")
    case (Inl e)
    with one obtain us' where "one_unit adv en u step ctx pos us =
        (Inr (Unit_stop (Step_fail (failure_text step (int (po_iteration pos)) (unit_error (engine_error e))))), us')" by auto
    with go i Inl up show ?thesis by (auto simp: unit_loop.simps [of adv en u step ctx pos us])
  next
    case (Inr v)
    with one obtain us1 where u1: "one_unit adv en u step ctx pos us = (Inr (Unit_on (Result_output v)), us1)"
      "us_handle us1 = None" "us_state us1 = us_state us" by auto
    let ?pos = "pos\<lparr>po_results := po_results pos @ [kept_value v], po_iteration := Suc (po_iteration pos)\<rparr>"
    let ?us = "save_point en u ctx ?pos (us1\<lparr>us_handle := None\<rparr>)"
    have "advanceIteration en u step (Result_output v) (ctx, pos) us1 = ((ctx, ?pos), ?us)"
      using assms(1) by (simp add: advanceIteration_def add_result_def Let_def plain_transform_def kept_value_def)
    with u1 go have l: "unit_loop adv en u step ctx pos us = unit_loop adv en u step ctx ?pos ?us"
      by (simp add: unit_loop.simps [of adv en u step ctx pos us])
    have "us_state ?us = us_state us" using u1 by (simp add: wf_do_simps)
    then have f: "item_value en u step ctx items ?us = item_value en u step ctx items us" using item_value_cong [OF _ Suc.prems(3)] by blast
    have "n = length items - po_iteration ?pos" using Suc.hyps(2) by simp
    note IH = Suc.hyps(1) [OF this, of ?us]
    have "us_handle ?us = None" "po_items ?pos = Some items" "po_iteration ?pos \<le> length items" using Suc.prems i by (simp_all add: wf_do_simps)
    note IH' = IH [OF this(1,2) Suc.prems(3) this(3)]
    show ?thesis
    proof (cases "all_or_error (map (item_value en u step ctx items us) [Suc (po_iteration pos)..<length items])")
      case (Inl e)
      with IH' l Inr up f show ?thesis by simp
    next
      case (Inr vs)
      with IH' l \<open>item_value en u step ctx items us (po_iteration pos) = Inr v\<close> up f show ?thesis by simp
    qed
  qed
qed


section \<open>A workflow that sends mail\<close>

definition ex_engine :: engine_env where
  "ex_engine = \<lparr>en_num = (\<lambda>_. None), en_expr = ex_expr_env, en_agent = ex_agent ex_env, en_owner = ''w1'', en_leaseMs = 1000,
     en_clock = (\<lambda>_. 5), en_id = (\<lambda>_. ''a0''), en_call = (\<lambda>_. ex_io 0), en_timer = (\<lambda>_. False),
     en_code = (\<lambda>_ _ st. (Inr XNull, st)), en_notify = (\<lambda>_ st. st), en_meanwhile = (\<lambda>_ st. st)\<rparr>"

definition ex_skill :: skill_def where
  "ex_skill = \<lparr>sd_id = ''k'', sd_packageId = ''q'', sd_version = ''1.0.0'', sd_inputSchema = JObj [(''type'', JStr ''object'')],
     sd_outputSchema = None, sd_requires = \<lparr>rq_u2os = None, rq_capabilities = [], rq_skills = []\<rparr>,
     sd_workflow = Some (JObj [(''steps'', JArr [])]), sd_implementation = None\<rparr>"

definition ex_state :: "wf_db \<Rightarrow> engine_state" where
  "ex_state d = \<lparr>es_tick = 0, es_db = empty_db, es_hidden = [], es_wf = d,
     es_world = ex_world\<lparr>wo_platform := (wo_platform ex_world)\<lparr>pf_skills := [(''k'', ex_skill)]\<rparr>\<rparr>, es_events = []\<rparr>"

definition ex_running_wf :: wf_db where
  "ex_running_wf = snd (leaseRun ''r'' ''w1'' 1000 5 ex_wf)"

definition ex_running_row :: wf_row where
  "ex_running_row = lease_run_row (''w1'', 1005, 5) (new_wf_row ''r'' 0 ex_wf_input)"

definition ex_run_env :: run_env where
  "ex_run_env = \<lparr>rn_run = ex_running_row, rn_manifest = ex_package_manifest, rn_instance = None, rn_settings = []\<rparr>"

definition ex_unit :: unit_state where
  "ex_unit = \<lparr>us_handle = None, us_state = [], us_engine = ex_state ex_running_wf\<rparr>"

definition ex_use_step :: jsval where
  "ex_use_step = JObj [(''id'', JStr ''s''), (''use'', JStr ''capability:email.send''), (''with'', JObj [])]"

lemma ex_running_wf_row: "wf_getRun ''r'' ex_running_wf = Some ex_running_row" "wf_ok ex_running_wf"
proof -
  show "wf_getRun ''r'' ex_running_wf = Some ex_running_row"
    using ex_wf_row by (simp add: ex_running_wf_def ex_running_row_def leaseRun_def Let_def lease.get_update new_wf_row_def)
  show "wf_ok ex_running_wf" using apply_wf_ok [OF ex_wf_ok, of "Lease ''r'' ''w1'' 1000" 5] by (simp add: ex_running_wf_def)
qed

lemma ex_running_row_sel: "wr_id ex_running_row = ''r''" "wr_principal ex_running_row = ''p''" "held_by ''r'' ''w1'' ex_running_row"
  by (simp_all add: ex_running_row_def lease_run_row_def new_wf_row_def ex_wf_input_def held_by_def)

lemma ex_capability_queue:
  "map q_status (queue (es_db (us_engine (snd (capability_unit ex_engine ex_run_env ex_use_step ''email.send'' [] [] initialPosition ex_unit))))) = [Completed]"
  by code_simp

lemma ex_quiet: "en_meanwhile ex_engine = (\<lambda>n st. st)" "en_owner ex_engine = ''w1''" "en_id ex_engine n \<noteq> []"
  by (simp_all add: ex_engine_def)


definition ex_skill_result :: "(unit_outcome + wf_row) res \<times> unit_state" where
  "ex_skill_result = skill_child ex_engine ex_run_env ex_use_step ''k'' [] (-1) [] initialPosition ex_unit"

lemma ex_skill_started: "case ex_skill_result of (Inr (Inr c), us) \<Rightarrow> wr_id c = ''a0'' | _ \<Rightarrow> False"
  by code_simp

theorem skill_borrows_no_permission_witness:
  "\<exists>c us'. ex_skill_result = (Inr (Inr c), us') \<and> wr_parentRunId c = Some ''r'' \<and> wr_depth c \<le> 8"
proof -
  from ex_skill_started obtain c us' where c: "ex_skill_result = (Inr (Inr c), us')" "wr_id c = ''a0''"
    by (auto split: prod.splits sum.splits)
  have "wf_getRun (wr_id c) (es_wf (us_engine ex_unit)) = None"
    by (simp add: c ex_unit_def ex_state_def ex_running_wf_def leaseRun_def Let_def lease.get_update wf_getRun_def ex_wf_runs
        new_wf_row_def ex_wf_input_def lease_run_row_def)
  moreover have "wr_principal (rn_run ex_run_env) \<noteq> []" "wr_id (rn_run ex_run_env) = ''r''" by (simp_all add: ex_run_env_def ex_running_row_sel)
  ultimately show ?thesis using skill_borrows_no_permission [OF c(1) [unfolded ex_skill_result_def]] c(1) by auto
qed

definition ex_sleeping_wf :: wf_db where
  "ex_sleeping_wf = snd (suspendRun ''r'' [] initialPosition (Wait_timer 10) (Some 10) ''w1'' 6 ex_running_wf)"

theorem due_runs_are_woken_witness:
  "''r'' \<in> set (fst (wakeDueRuns ex_engine 12 (ex_state ex_sleeping_wf)))"
proof -
  have ok: "wf_ok ex_sleeping_wf"
    using apply_wf_ok [OF ex_running_wf_row(2), of "Suspend ''r'' [] initialPosition (Wait_timer 10) (Some 10) ''w1''" 6] by (simp add: ex_sleeping_wf_def)
  let ?row = "suspend_row (([], initialPosition, 6), Wait_timer 10, Some 10) ex_running_row"
  have "wf_getRun ''r'' ex_sleeping_wf = Some ?row"
    using ex_running_wf_row(1) ex_running_row_sel by (simp add: ex_sleeping_wf_def suspendRun_def Let_def suspend.get_update)
  moreover have "wr_status ?row = WWaiting" "wr_wakeAt ?row = Some 10" "wr_wait ?row = Some (Wait_timer 10)" by (simp_all add: suspend_row_def)
  ultimately show ?thesis using due_runs_are_woken [of "ex_state ex_sleeping_wf" "''r''" ?row 10 12] ok by (simp add: ex_state_def)
qed

definition ex_map_step :: jsval where
  "ex_map_step = JObj [(''id'', JStr ''m''), (''use'', JStr ''transform''), (''foreach'', JStr ''{{ inputs.x }}''), (''with'', JObj [(''value'', JStr ''{{ item }}'')])]"

definition ex_items :: position where
  "ex_items = initialPosition\<lparr>po_items := Some [XNum 1, XStr ''a'']\<rparr>"

lemma ex_map_kind: "parseUse (step_field ex_map_step ''use'') = Some \<lparr>u_kind = ''transform'', u_target = None\<rparr>"
  by code_simp

definition ex_map_env :: run_env where
  "ex_map_env = \<lparr>rn_run = new_wf_row ''r'' 0 ex_wf_input, rn_manifest = ex_package_manifest, rn_instance = None, rn_settings = []\<rparr>"

lemma ex_map_values: "all_or_error (map (item_value ex_engine ex_map_env ex_map_step [] [XNum 1, XStr ''a''] ex_unit) [0..<2]) = Inr [XNum 1, XStr ''a'']"
  by code_simp


end
