(* ===== verification/U2_Cron.thy ===== *)
theory U2_Cron
  imports U2_Date U2_Semver U2_Workflow
begin

text \<open>
  Five-field cron expressions, \<open>server/packages/cron.js\<close>: parsing, and the search for the next
  matching minute in local time. The local time zone is what JavaScript's \<open>Date\<close> has of it, the
  local time of an instant and the instant of a local time; for a zone without transitions the
  search is proved to return the first matching minute.
\<close>

section \<open>The calendar\<close>

text \<open>Years are counted from March inside an era of 400 years.\<close>

definition year_start :: "int \<Rightarrow> int" where
  "year_start y = 365 * y + y div 4 - y div 100"

definition year_end :: "int \<Rightarrow> int" where
  "year_end y = (if y = 399 then 146097 else year_start (y + 1))"

definition year_of_doe :: "int \<Rightarrow> int" where
  "year_of_doe doe = (doe - doe div 1460 + doe div 36524 - doe div 146096) div 365"

definition month_start :: "int \<Rightarrow> int" where
  "month_start mp = (153 * mp + 2) div 5"

lemma year_table:
  "\<forall>y\<in>set (map int [0..<400]). year_of_doe (year_start y) = y \<and> year_of_doe (year_end y - 1) = y"
  by code_simp

lemma length_table:
  "\<forall>y\<in>set (map int [0..<400]). (let n = year_end y - year_start y in 365 \<le> n \<and> n \<le> 366)"
  by code_simp

lemma year_facts:
  assumes "0 \<le> y" "y < 400"
  shows "year_of_doe (year_start y) = y" "year_of_doe (year_end y - 1) = y"
    "year_start y + 365 \<le> year_end y" "year_end y \<le> year_start y + 366" "year_end y \<le> 146097" "0 \<le> year_start y"
proof -
  have y: "y \<in> set (map int [0..<400])" using assms by (auto simp: image_iff intro!: bexI [where x = "nat y"])
  from year_table [rule_format, OF y]
  show "year_of_doe (year_start y) = y" "year_of_doe (year_end y - 1) = y" by auto
  have "0 \<le> y div 4" "y div 100 \<le> y" using assms by (simp_all add: div_le_dividend)
  then show "0 \<le> year_start y" using assms unfolding year_start_def by linarith
  from length_table [rule_format, OF y]
  show "year_start y + 365 \<le> year_end y" "year_end y \<le> year_start y + 366" by (simp_all add: Let_def)
  show "year_end y \<le> 146097"
  proof (cases "y = 399")
    case False
    have "(y + 1) div 4 \<le> 99" "0 \<le> (y + 1) div 100" using assms False by auto
    with assms False show ?thesis by (simp add: year_end_def year_start_def)
  qed (simp add: year_end_def)
qed

lemma div_slower:
  fixes a b k :: int
  assumes "a \<le> b" "0 < k"
  shows "a - a div k \<le> b - b div k"
proof -
  have "b div k \<le> (a + (b - a) * k) div k"
    using assms mult_left_mono [of 1 k "b - a"] by (intro zdiv_mono1) (auto simp: algebra_simps)
  also have "\<dots> = a div k + (b - a)" using assms by simp
  finally show ?thesis by simp
qed

lemma year_of_doe_mono:
  assumes "0 \<le> a" "a \<le> b" "b \<le> 146096"
  shows "year_of_doe a \<le> year_of_doe b"
proof -
  have 1: "a - a div 1460 \<le> b - b div 1460" by (rule div_slower) (use assms in auto)
  have last_day: "x div 146096 = (if x = 146096 then 1 else 0)" if "0 \<le> x" "x \<le> 146096" for x :: int
    using that by (auto simp: div_pos_pos_trivial)
  have 2: "a div 36524 - a div 146096 \<le> b div 36524 - b div 146096"
  proof (cases "b = 146096 \<and> a \<noteq> b")
    case True
    then have "a div 36524 \<le> 146095 div 36524" using assms by (intro zdiv_mono1) auto
    with True assms show ?thesis by (simp add: last_day)
  next
    case False
    have "a div 36524 \<le> b div 36524" using assms by (intro zdiv_mono1) auto
    with False assms show ?thesis by (auto simp: last_day)
  qed
  show ?thesis unfolding year_of_doe_def by (rule zdiv_mono1) (use 1 2 in linarith)+
qed

lemma year_of_doe_in:
  assumes "0 \<le> y" "y < 400" "year_start y \<le> doe" "doe < year_end y"
  shows "year_of_doe doe = y"
proof -
  note f = year_facts [OF assms(1,2)]
  have "year_of_doe (year_start y) \<le> year_of_doe doe" by (rule year_of_doe_mono) (use assms f in linarith)+
  moreover have "year_of_doe doe \<le> year_of_doe (year_end y - 1)" by (rule year_of_doe_mono) (use assms f in linarith)+
  ultimately show ?thesis using f by simp
qed

lemma year_exists:
  assumes "0 \<le> doe" "doe < 146097"
  shows "\<exists>y. 0 \<le> y \<and> y < 400 \<and> year_start y \<le> doe \<and> doe < year_end y"
proof -
  have "\<exists>y. 0 \<le> y \<and> y < int n \<and> year_start y \<le> doe \<and> doe < year_end y" if "n \<le> 400" "n < 400 \<longrightarrow> doe < year_start (int n)" for n
    using that
  proof (induction n)
    case 0
    with assms show ?case by (simp add: year_start_def)
  next
    case (Suc n)
    show ?case
    proof (cases "doe < year_start (int n)")
      case True
      with Suc.IH Suc.prems(1) obtain y where "0 \<le> y" "y < int n" "year_start y \<le> doe" "doe < year_end y" by force
      then show ?thesis by (intro exI [where x = y]) simp
    next
      case False
      with Suc.prems assms show ?thesis
        by (intro exI [where x = "int n"]) (auto simp: year_end_def add.commute)
    qed
  qed
  from this [of 400] show ?thesis by simp
qed

text \<open>Every day is one day of a month of a March year of an era.\<close>

definition day_number :: "int \<Rightarrow> int \<Rightarrow> int \<Rightarrow> int" where
  "day_number era y doy = era * 146097 + year_start y + doy - 719468"

lemma day_number_exists:
  "\<exists>era y doy. 0 \<le> y \<and> y < 400 \<and> 0 \<le> doy \<and> year_start y + doy < year_end y \<and> days = day_number era y doy"
proof -
  let ?doe = "(days + 719468) mod 146097" and ?era = "(days + 719468) div 146097"
  obtain y where y: "0 \<le> y" "y < 400" "year_start y \<le> ?doe" "?doe < year_end y"
    using year_exists [of ?doe] by auto
  have "days = day_number ?era y (?doe - year_start y)"
    using div_mult_mod_eq [of "days + 719468" 146097] unfolding day_number_def by linarith
  with y show ?thesis by (intro exI [where x = ?era] exI [where x = y] exI [where x = "?doe - year_start y"]) simp
qed

definition month_at :: "int \<Rightarrow> int" where
  "month_at mp = (if mp < 10 then mp + 3 else mp - 9)"

lemma civil_of_day_number:
  assumes "0 \<le> y" "y < 400" "0 \<le> doy" "year_start y + doy < year_end y"
  shows "civil_of_days (day_number era y doy) =
    (let mp = (5 * doy + 2) div 153 in
     (y + era * 400 + (if month_at mp \<le> 2 then 1 else 0), month_at mp, doy - month_start mp + 1))"
proof -
  note f = year_facts [OF assms(1,2)]
  let ?doe = "year_start y + doy"
  have b: "0 \<le> ?doe" "?doe < 146097" using assms f by linarith+
  have z: "day_number era y doy + 719468 = ?doe + era * 146097" by (simp add: day_number_def)
  have e: "(day_number era y doy + 719468) div 146097 = era" "(day_number era y doy + 719468) mod 146097 = ?doe"
    unfolding z using b by simp_all
  have w: "year_of_doe ?doe = y" by (rule year_of_doe_in) (use assms in simp_all)
  have d: "?doe - (365 * y + y div 4 - y div 100) = doy" by (simp add: year_start_def)
  show ?thesis
    unfolding civil_of_days_def Let_def e
    by (simp only: year_of_doe_def [symmetric] w d month_at_def month_start_def)
qed

lemma div_bounds:
  fixes a k :: int
  assumes "0 < k"
  shows "k * (a div k) \<le> a" "a < k * (a div k) + k"
  using assms pos_mod_sign [of k a] pos_mod_bound [of k a] mult_div_mod_eq [of k a] by linarith+

lemma below_next_block:
  fixes a k :: int
  assumes "0 < k"
  shows "a < (a div k + 1) * k"
  using div_bounds(2) [OF assms, of a] by (simp add: algebra_simps)

lemma month_facts:
  fixes doy :: int
  assumes "0 \<le> doy" "doy \<le> 365"
  shows "0 \<le> (5 * doy + 2) div 153" "(5 * doy + 2) div 153 \<le> 11"
    "month_start ((5 * doy + 2) div 153) \<le> doy" "doy < month_start ((5 * doy + 2) div 153 + 1)"
proof -
  let ?q = "(5 * doy + 2) div 153"
  note q = div_bounds [of 153 "5 * doy + 2"]
  show "0 \<le> ?q" using assms by simp
  show "?q \<le> 11" using q assms by simp
  show "month_start ?q \<le> doy" using q div_bounds [of 5 "153 * ?q + 2"] unfolding month_start_def by simp
  show "doy < month_start (?q + 1)" using q div_bounds [of 5 "153 * (?q + 1) + 2"] unfolding month_start_def by simp
qed

lemma month_unique:
  fixes doy :: int
  assumes "month_start mp \<le> doy" "doy < month_start (mp + 1)"
  shows "(5 * doy + 2) div 153 = mp"
  using assms div_bounds [of 153 "5 * doy + 2"] div_bounds [of 5 "153 * mp + 2"] div_bounds [of 5 "153 * (mp + 1) + 2"]
  unfolding month_start_def by simp

lemma days_of_civil_start:
  assumes "0 \<le> y" "y < 400" "0 \<le> mp" "mp \<le> 11"
  shows "days_of_civil (y + era * 400 + (if month_at mp \<le> 2 then 1 else 0)) (month_at mp) d = day_number era y (month_start mp + d - 1)"
proof -
  have m: "(if month_at mp > 2 then month_at mp - 3 else month_at mp + 9) = mp" using assms by (auto simp: month_at_def)
  have e: "(y + era * 400) div 400 = era" "(y + era * 400) mod 400 = y" using assms by simp_all
  have v: "(if month_at mp \<le> 2 then y + era * 400 + (if month_at mp \<le> 2 then 1 else 0) - 1
            else y + era * 400 + (if month_at mp \<le> 2 then 1 else 0)) = y + era * 400" by simp
  show ?thesis unfolding days_of_civil_def Let_def v e m by (simp add: day_number_def year_start_def month_start_def)
qed

lemma days_of_civil_of_days:
  assumes "civil_of_days days = (y, m, d)"
  shows "days_of_civil y m d = days" "1 \<le> m" "m \<le> 12" "1 \<le> d"
proof -
  obtain era yy doy where w: "0 \<le> yy" "yy < 400" "0 \<le> doy" "year_start yy + doy < year_end yy" "days = day_number era yy doy"
    using day_number_exists by blast
  have "doy \<le> 365" using w(4) year_facts(4) [OF w(1,2)] by linarith
  note f = month_facts [OF w(3) this]
  from assms civil_of_day_number [OF w(1-4), of era] w(5)
  have c: "y = yy + era * 400 + (if month_at ((5 * doy + 2) div 153) \<le> 2 then 1 else 0)" "m = month_at ((5 * doy + 2) div 153)"
    "d = doy - month_start ((5 * doy + 2) div 153) + 1" by (auto simp: Let_def)
  show "days_of_civil y m d = days" unfolding c(1,2) days_of_civil_start [OF w(1,2) f(1,2)] using c(3) w(5) by simp
  show "1 \<le> m" "m \<le> 12" "1 \<le> d" using c f by (simp_all add: month_at_def)
qed

text \<open>\<open>MakeDay\<close>: the day of a year, a month counted from 0 that may overflow, and a day of the month.\<close>

definition make_day :: "int \<Rightarrow> int \<Rightarrow> int \<Rightarrow> int" where
  "make_day y mon d = days_of_civil (y + mon div 12) (mon mod 12 + 1) 1 + d - 1"

lemma days_of_civil_linear: "days_of_civil y m d = days_of_civil y m 1 + d - 1"
  by (simp add: days_of_civil_def Let_def)

lemma make_day_next:
  assumes "civil_of_days days = (y, m, d)"
  shows "make_day y (m - 1) (d + 1) = days + 1"
proof -
  note f = days_of_civil_of_days [OF assms]
  have "(m - 1) div 12 = 0" "(m - 1) mod 12 + 1 = m" using f by auto
  with f(1) days_of_civil_linear [of y m d] show ?thesis by (simp add: make_day_def)
qed

lemma month_step:
  assumes "0 \<le> mp" "mp < 11"
  shows "(if month_at mp \<le> 2 then 1 else 0) + month_at mp div 12 = (if month_at (mp + 1) \<le> 2 then 1 else 0)"
    and "month_at mp mod 12 + 1 = month_at (mp + 1)"
proof -
  have "mp = 0 \<or> mp = 1 \<or> mp = 2 \<or> mp = 3 \<or> mp = 4 \<or> mp = 5 \<or> mp = 6 \<or> mp = 7 \<or> mp = 8 \<or> mp = 9 \<or> mp = 10"
    using assms by presburger
  then show "(if month_at mp \<le> 2 then 1 else 0) + month_at mp div 12 = (if month_at (mp + 1) \<le> 2 then 1 else 0)"
    "month_at mp mod 12 + 1 = month_at (mp + 1)" by (auto simp: month_at_def)
qed

text \<open>Up to the first of the next month every day has the same month.\<close>

lemma next_month:
  assumes "civil_of_days days = (y, m, d)"
  shows "days < make_day y m 1"
    and "days \<le> e \<Longrightarrow> e < make_day y m 1 \<Longrightarrow> fst (snd (civil_of_days e)) = m"
proof -
  obtain era yy doy where w: "0 \<le> yy" "yy < 400" "0 \<le> doy" "year_start yy + doy < year_end yy" "days = day_number era yy doy"
    using day_number_exists by blast
  let ?mp = "(5 * doy + 2) div 153"
  have r: "x \<le> 365" if "year_start yy + x < year_end yy" for x using that year_facts(4) [OF w(1,2)] by linarith
  note f = month_facts [OF w(3) r [OF w(4)]]
  from assms civil_of_day_number [OF w(1-4), of era] w(5)
  have c: "y = yy + era * 400 + (if month_at ?mp \<le> 2 then 1 else 0)" "m = month_at ?mp" by (auto simp: Let_def)
  have eleven: "month_start (?mp + 1) \<le> 365" if "?mp < 11"
    using that f(1) div_bounds [of 5 "153 * (?mp + 1) + 2"] unfolding month_start_def by simp
  have n: "make_day y m 1 = era * 146097 + (if ?mp < 11 then year_start yy + month_start (?mp + 1) else year_end yy) - 719468"
  proof (cases "?mp < 11")
    case True
    have "y + m div 12 = yy + era * 400 + (if month_at (?mp + 1) \<le> 2 then 1 else 0)" "m mod 12 + 1 = month_at (?mp + 1)"
      using month_step [OF f(1) True] by (simp_all add: c)
    then show ?thesis unfolding make_day_def using days_of_civil_start [OF w(1,2), of "?mp + 1" era 1] True f(1)
      by (simp add: day_number_def)
  next
    case False
    then have e: "?mp = 11" using f by simp
    have ym: "y + m div 12 = yy + 1 + era * 400" "m mod 12 + 1 = 3" using c e by (simp_all add: month_at_def)
    have "days_of_civil (yy + 1 + era * 400) 3 1 = era * 146097 + year_end yy - 719468"
    proof (cases "yy = 399")
      case True
      have "days_of_civil (0 + (era + 1) * 400 + (if month_at 0 \<le> 2 then 1 else 0)) (month_at 0) 1 = day_number (era + 1) 0 (month_start 0 + 1 - 1)"
        by (rule days_of_civil_start) simp_all
      with True show ?thesis by (simp add: month_at_def month_start_def day_number_def year_start_def year_end_def algebra_simps)
    next
      case False
      have "days_of_civil (yy + 1 + era * 400 + (if month_at 0 \<le> 2 then 1 else 0)) (month_at 0) 1 = day_number era (yy + 1) (month_start 0 + 1 - 1)"
        by (rule days_of_civil_start) (use w False in simp_all)
      with False show ?thesis by (simp add: month_at_def month_start_def day_number_def year_end_def)
    qed
    then show ?thesis using e unfolding make_day_def ym by simp
  qed
  have y365: "year_start yy + 365 \<le> year_end yy" by (rule year_facts(3) [OF w(1,2)])
  show "days < make_day y m 1" using f(4) w(4,5) by (simp add: n day_number_def)
  assume e: "days \<le> e" "e < make_day y m 1"
  define x where "x = e + 719468 - era * 146097 - year_start yy"
  have x: "e = day_number era yy x" by (simp add: x_def day_number_def)
  have b: "doy \<le> x" "year_start yy + x < year_end yy" "?mp < 11 \<longrightarrow> x < month_start (?mp + 1)"
    using e w(5) n x eleven y365 by (auto simp: day_number_def split: if_splits)
  have "x < month_start (?mp + 1)"
  proof (cases "?mp < 11")
    case False
    then have "?mp = 11" using f by simp
    then show ?thesis using r [OF b(2)] by (simp add: month_start_def)
  qed (use b in simp)
  then have "(5 * x + 2) div 153 = ?mp" by (intro month_unique) (use f b in simp_all)
  with x c(2) civil_of_day_number [of yy x era] w b(1,2) show "fst (snd (civil_of_days e)) = m" by (simp add: Let_def)
qed

section \<open>Parsing\<close>

record cron_field =
  cf_name :: string
  cf_min :: int
  cf_max :: int

definition FIELDS_cron :: "cron_field list" where
  "FIELDS_cron = [\<lparr>cf_name = ''minute'', cf_min = 0, cf_max = 59\<rparr>, \<lparr>cf_name = ''hour'', cf_min = 0, cf_max = 23\<rparr>,
     \<lparr>cf_name = ''day of month'', cf_min = 1, cf_max = 31\<rparr>, \<lparr>cf_name = ''month'', cf_min = 1, cf_max = 12\<rparr>,
     \<lparr>cf_name = ''day of week'', cf_min = 0, cf_max = 7\<rparr>]"

definition DAYS :: "(string \<times> int) list" where
  "DAYS = [(''sun'', 0), (''mon'', 1), (''tue'', 2), (''wed'', 3), (''thu'', 4), (''fri'', 5), (''sat'', 6)]"

definition MACROS :: "(string \<times> string) list" where
  "MACROS = [(''@hourly'', ''0 * * * *''), (''@daily'', ''0 0 * * *''), (''@weekly'', ''0 0 * * 0'')]"

text \<open>A set of the source is the list of the values added to it.\<close>

record cron =
  cn_minutes :: "int list"
  cn_hours :: "int list"
  cn_days :: "int list"
  cn_months :: "int list"
  cn_weekdays :: "int list"
  cn_dayOr :: bool

definition quoted :: "string \<Rightarrow> string" where
  "quoted s = CHR 0x22 # s @ [CHR 0x22]"

definition cron_word :: "string \<Rightarrow> bool" where
  "cron_word w \<longleftrightarrow> w \<noteq> [] \<and> list_all (\<lambda>c. lower_letter c \<or> is_digit c) w"

text \<open>\<open>^(\*|[a-z0-9]+(?:-[a-z0-9]+)?)(?:\/(\d+))?$\<close>: the words of the range, none for \<open>*\<close>, and the step.\<close>

definition cron_range :: "string \<Rightarrow> string list option" where
  "cron_range a =
     (if a = ''*'' then Some []
      else let ws = split_on CHR ''-'' a in if length ws \<le> 2 \<and> list_all cron_word ws then Some ws else None)"

definition cron_item :: "string \<Rightarrow> (string list \<times> string option) option" where
  "cron_item item =
     (case split_on CHR ''/'' item of
        [a] \<Rightarrow> map_option (\<lambda>ws. (ws, None)) (cron_range a)
      | [a, n] \<Rightarrow> if n \<noteq> [] \<and> list_all is_digit n then map_option (\<lambda>ws. (ws, Some n)) (cron_range a) else None
      | _ \<Rightarrow> None)"

definition toNumber :: "string \<Rightarrow> cron_field \<Rightarrow> int res" where
  "toNumber v f =
     (case (if cf_name f = ''day of week'' then map_of DAYS v else None) of
        Some n \<Rightarrow> Inr n
      | None \<Rightarrow>
          if v = [] \<or> \<not> list_all is_digit v then Inl (Error (''invalid '' @ cf_name f @ '' '' @ quoted v))
          else Inr (int (number_of v)))"

text \<open>The bounds of an item; the upper one is missing when a single value is given.\<close>

definition cron_bounds :: "string list \<Rightarrow> cron_field \<Rightarrow> (int \<times> int option) res" where
  "cron_bounds ws f =
     (case ws of
        [] \<Rightarrow> Inr (cf_min f, Some (cf_max f))
      | [v] \<Rightarrow> map_sum id (\<lambda>a. (a, None)) (toNumber v f)
      | v # w # _ \<Rightarrow>
          (case toNumber v f of
             Inl e \<Rightarrow> Inl e
           | Inr a \<Rightarrow> map_sum id (\<lambda>b. (a, Some b)) (toNumber w f)))"

text \<open>\<open>for (value = lo; value <= hi; value += step)\<close>\<close>

definition values_from :: "int \<Rightarrow> int \<Rightarrow> int \<Rightarrow> int list" where
  "values_from lo hi step = map (\<lambda>k. lo + step * k) [0..(hi - lo) div step]"

definition parseItem :: "cron_field \<Rightarrow> string \<Rightarrow> int list res" where
  "parseItem f item =
     (case cron_item item of
        None \<Rightarrow> Inl (Error (''invalid '' @ cf_name f @ '' '' @ quoted item))
      | Some (ws, n) \<Rightarrow>
          let step = (case n of None \<Rightarrow> 1 | Some d \<Rightarrow> int (number_of d)) in
          if step < 1 then Inl (Error (''invalid '' @ cf_name f @ '' step''))
          else (case cron_bounds ws f of
                  Inl e \<Rightarrow> Inl e
                | Inr (lo, hi') \<Rightarrow>
                    let hi = (case hi' of Some h \<Rightarrow> h | None \<Rightarrow> if n = None then lo else cf_max f) in
                    if lo < cf_min f \<or> hi > cf_max f \<or> lo > hi then Inl (Error (cf_name f @ '' out of range''))
                    else Inr (values_from lo hi step)))"

fun parse_items :: "cron_field \<Rightarrow> string list \<Rightarrow> int list \<Rightarrow> int list res" where
  "parse_items f [] values' = Inr values'"
| "parse_items f (i # is) values' = (case parseItem f i of Inl e \<Rightarrow> Inl e | Inr vs \<Rightarrow> parse_items f is (values' @ vs))"

definition parseField :: "string \<Rightarrow> cron_field \<Rightarrow> int list res" where
  "parseField part f = parse_items f (split_on CHR '','' part) []"

fun parse_fields :: "string list \<Rightarrow> cron_field list \<Rightarrow> int list list res" where
  "parse_fields (p # ps) (f # fs) =
     (case parseField (map lower_char p) f of
        Inl e \<Rightarrow> Inl e
      | Inr vs \<Rightarrow> map_sum id (\<lambda>vss. vs # vss) (parse_fields ps fs))"
| "parse_fields _ _ = Inr []"

text \<open>\<open>MACROS[...]\<close> finds inherited members too, and they have no \<open>split\<close>.\<close>

definition parseCron :: "string \<Rightarrow> cron res" where
  "parseCron expression =
     (let key = js_trim expression; text' = (case map_of MACROS key of Some t \<Rightarrow> t | None \<Rightarrow> key);
          parts = (if text' = [] then [[]] else split_spaces text') in
      if key \<in> set object_prototype_keys then Inl (TypeError ''text.split is not a function'')
      else if length parts \<noteq> 5 then Inl (Error ''cron must have five fields: minute hour day-of-month month day-of-week'')
      else (case parse_fields parts FIELDS_cron of
              Inr [mi, ho, da, mo, wd] \<Rightarrow>
                Inr \<lparr>cn_minutes = mi, cn_hours = ho, cn_days = da, cn_months = mo,
                     cn_weekdays = (if 7 \<in> set wd then filter (\<lambda>v. v \<noteq> 7) wd @ [0] else wd),
                     cn_dayOr = (parts ! 2 \<noteq> ''*'' \<and> parts ! 4 \<noteq> ''*'')\<rparr>
            | Inr _ \<Rightarrow> Inl (TypeError ''Cannot read properties of undefined'')
            | Inl e \<Rightarrow> Inl e))"

definition isValidCron :: "string \<Rightarrow> bool" where
  "isValidCron expression = (case parseCron expression of Inl _ \<Rightarrow> False | Inr _ \<Rightarrow> True)"

section \<open>Local time\<close>

text \<open>\<open>LocalTime(t)\<close> and \<open>UTC(t)\<close> of the environment's time zone; \<open>fixed_zone\<close> is a zone without transitions.\<close>

record zone =
  zn_local :: "int \<Rightarrow> int"
  zn_utc :: "int \<Rightarrow> int"

definition fixed_zone :: "int \<Rightarrow> zone" where
  "fixed_zone off = \<lparr>zn_local = (\<lambda>t. t + off), zn_utc = (\<lambda>l. l - off)\<rparr>"

abbreviation day_ms :: int where "day_ms \<equiv> 86400000"
abbreviation hour_ms :: int where "hour_ms \<equiv> 3600000"
abbreviation minute_ms :: int where "minute_ms \<equiv> 60000"

text \<open>The fields of a local time; months count from 1 here, from 0 in the source.\<close>

definition lt_year :: "int \<Rightarrow> int" where "lt_year l = fst (civil_of_days (l div day_ms))"
definition lt_month :: "int \<Rightarrow> int" where "lt_month l = fst (snd (civil_of_days (l div day_ms)))"
definition lt_date :: "int \<Rightarrow> int" where "lt_date l = snd (snd (civil_of_days (l div day_ms)))"
definition lt_weekday :: "int \<Rightarrow> int" where "lt_weekday l = int (weekday (l div day_ms))"
definition lt_hour :: "int \<Rightarrow> int" where "lt_hour l = l mod day_ms div hour_ms"
definition lt_minute :: "int \<Rightarrow> int" where "lt_minute l = l mod hour_ms div minute_ms"

text \<open>
  \<open>setMonth(m, d)\<close>, \<open>setDate(d)\<close>, \<open>setHours(h, 0, 0, 0)\<close>, \<open>setMinutes(m)\<close>, \<open>setMinutes(m, 0, 0)\<close> and
  \<open>setSeconds(0, 0)\<close>.
\<close>

definition setMonth :: "zone \<Rightarrow> int \<Rightarrow> int \<Rightarrow> int \<Rightarrow> int" where
  "setMonth z m d t = (let l = zn_local z t in zn_utc z (make_day (lt_year l) m d * day_ms + l mod day_ms))"

definition setDate :: "zone \<Rightarrow> int \<Rightarrow> int \<Rightarrow> int" where
  "setDate z d t = (let l = zn_local z t in zn_utc z (make_day (lt_year l) (lt_month l - 1) d * day_ms + l mod day_ms))"

definition setHours :: "zone \<Rightarrow> int \<Rightarrow> int \<Rightarrow> int" where
  "setHours z h t = (let l = zn_local z t in zn_utc z (l div day_ms * day_ms + h * hour_ms))"

definition setMinutes :: "zone \<Rightarrow> int \<Rightarrow> int \<Rightarrow> int" where
  "setMinutes z m t = (let l = zn_local z t in zn_utc z (l div hour_ms * hour_ms + m * minute_ms + l mod minute_ms))"

definition setMinutesZero :: "zone \<Rightarrow> int \<Rightarrow> int \<Rightarrow> int" where
  "setMinutesZero z m t = (let l = zn_local z t in zn_utc z (l div hour_ms * hour_ms + m * minute_ms))"

definition setSeconds :: "zone \<Rightarrow> int \<Rightarrow> int" where
  "setSeconds z t = (let l = zn_local z t in zn_utc z (l div minute_ms * minute_ms))"

section \<open>The next matching minute\<close>

definition matchesDay :: "cron \<Rightarrow> int \<Rightarrow> bool" where
  "matchesDay c l =
     (let dom = lt_date l \<in> set (cn_days c); dow = lt_weekday l \<in> set (cn_weekdays c) in
      if cn_dayOr c then dom \<or> dow else dom \<and> dow)"

text \<open>One round of the loop: where the search goes on, or nothing when the minute matches.\<close>

definition cron_step :: "zone \<Rightarrow> cron \<Rightarrow> int \<Rightarrow> int option" where
  "cron_step z c t =
     (let l = zn_local z t in
      if lt_month l \<notin> set (cn_months c) then Some (setHours z 0 (setMonth z (lt_month l) 1 t))
      else if \<not> matchesDay c l then Some (setHours z 0 (setDate z (lt_date l + 1) t))
      else if lt_hour l \<notin> set (cn_hours c) then Some (setHours z (lt_hour l + 1) t)
      else if lt_minute l \<notin> set (cn_minutes c) then Some (setMinutesZero z (lt_minute l + 1) t)
      else None)"

text \<open>The outer option says whether the loop ends, the inner one is \<open>null\<close> or the time found.\<close>

partial_function (option) cron_search :: "zone \<Rightarrow> cron \<Rightarrow> int \<Rightarrow> int \<Rightarrow> int option option" where
  [code]: "cron_search z c limit t =
     (if t \<le> limit then (case cron_step z c t of None \<Rightarrow> Some (Some t) | Some t' \<Rightarrow> cron_search z c limit t') else Some None)"

definition cron_limit :: "int \<Rightarrow> int" where
  "cron_limit from' = from' + 4 * 366 * day_ms"

definition nextCronTime :: "zone \<Rightarrow> cron \<Rightarrow> int \<Rightarrow> int option option" where
  "nextCronTime z c from' =
     (let t = setSeconds z from' in cron_search z c (cron_limit from') (setMinutes z (lt_minute (zn_local z t) + 1) t))"

section \<open>The search is right\<close>

text \<open>What a cron expression means: the fields of the local time are in its sets, at the start of a minute.\<close>

definition cron_matches :: "zone \<Rightarrow> cron \<Rightarrow> int \<Rightarrow> bool" where
  "cron_matches z c t \<longleftrightarrow>
     (let l = zn_local z t in
      l mod minute_ms = 0 \<and> lt_month l \<in> set (cn_months c) \<and> matchesDay c l \<and> lt_hour l \<in> set (cn_hours c) \<and> lt_minute l \<in> set (cn_minutes c))"

lemma same_block:
  fixes l u k :: int
  assumes "0 < k" "l \<le> u" "u < (l div k + 1) * k"
  shows "u div k = l div k"
proof -
  have "l div k \<le> u div k" using assms by (intro zdiv_mono1) auto
  moreover have "u div k < l div k + 1" using div_bounds [OF assms(1), of u] assms(1,3)
    by (metis mult.commute mult_less_cancel_right_pos order_le_less_trans)
  ultimately show ?thesis by simp
qed

lemma lt_hour_div: "lt_hour l = l div hour_ms mod 24"
proof -
  have "l mod (hour_ms * 24) = hour_ms * (l div hour_ms mod 24) + l mod hour_ms" by (rule zmod_zmult2_eq) simp
  then show ?thesis by (simp add: lt_hour_def)
qed

lemma lt_minute_div: "lt_minute l = l div minute_ms mod 60"
proof -
  have "l mod (minute_ms * 60) = minute_ms * (l div minute_ms mod 60) + l mod minute_ms" by (rule zmod_zmult2_eq) simp
  then show ?thesis by (simp add: lt_minute_def)
qed

lemma day_of_hour: "l div day_ms = l div hour_ms div 24"
  using zdiv_zmult2_eq [of 24 l hour_ms] by simp

lemma hour_of_minute: "l div hour_ms = l div minute_ms div 60"
  using zdiv_zmult2_eq [of 60 l minute_ms] by simp

lemma day_block:
  assumes "u div day_ms = l div day_ms"
  shows "lt_month u = lt_month l" "matchesDay c u = matchesDay c l"
  by (simp_all add: lt_month_def matchesDay_def lt_date_def lt_weekday_def assms)

lemma hour_block:
  assumes "u div hour_ms = l div hour_ms"
  shows "u div day_ms = l div day_ms" "lt_hour u = lt_hour l"
  by (simp_all only: day_of_hour lt_hour_div assms)

lemma minute_block:
  assumes "u div minute_ms = l div minute_ms"
  shows "u div hour_ms = l div hour_ms" "lt_minute u = lt_minute l"
  by (simp_all only: hour_of_minute lt_minute_div assms)

lemma fixed_zone_simps [simp]: "zn_local (fixed_zone off) t = t + off" "zn_utc (fixed_zone off) l = l - off"
  by (simp_all add: fixed_zone_def)

text \<open>Where each round goes on, in local time.\<close>

lemma set_fixed:
  "setHours (fixed_zone off) 0 (setMonth (fixed_zone off) m d t) + off = make_day (lt_year (t + off)) m d * day_ms"
  "setHours (fixed_zone off) 0 (setDate (fixed_zone off) d t) + off = make_day (lt_year (t + off)) (lt_month (t + off) - 1) d * day_ms"
  "setHours (fixed_zone off) h t + off = (t + off) div day_ms * day_ms + h * hour_ms"
  "setMinutesZero (fixed_zone off) m t + off = (t + off) div hour_ms * hour_ms + m * minute_ms"
  by (simp_all add: setHours_def setMonth_def setDate_def setMinutesZero_def Let_def)

lemma hour_split: "l div day_ms * day_ms + lt_hour l * hour_ms = l div hour_ms * hour_ms"
  using div_mult_mod_eq [of "l div hour_ms" 24] unfolding day_of_hour lt_hour_div by linarith

lemma minute_split: "l div hour_ms * hour_ms + lt_minute l * minute_ms = l div minute_ms * minute_ms"
  using div_mult_mod_eq [of "l div minute_ms" 60] unfolding hour_of_minute lt_minute_div by linarith

text \<open>A round moves on to a later full minute, and passes over no match.\<close>

lemma cron_step_passes:
  assumes "cron_step (fixed_zone off) c t = Some t'" and "(t + off) mod minute_ms = 0"
  shows "t < t' \<and> (t' + off) mod minute_ms = 0 \<and> (\<forall>u. t \<le> u \<and> u < t' \<longrightarrow> \<not> cron_matches (fixed_zone off) c u)"
proof -
  define l where "l = t + off"
  obtain y m d where c: "civil_of_days (l div day_ms) = (y, m, d)" using prod_cases3 by blast
  then have f: "lt_year l = y" "lt_month l = m" "lt_date l = d" by (simp_all add: lt_year_def lt_month_def lt_date_def)
  have l: "l div minute_ms * minute_ms = l" using assms(2) div_mult_mod_eq [of l minute_ms] by (simp add: l_def)
  have block: "u div k = l div k" if "0 < k" "t \<le> u - off" "u - off < t'" "t' + off \<le> (l div k + 1) * k" for u k :: int
    by (rule same_block) (use that in \<open>simp_all add: l_def\<close>)
  note step = assms(1) [unfolded cron_step_def Let_def fixed_zone_simps l_def [symmetric]]
  consider (month) "lt_month l \<notin> set (cn_months c)" | (day) "lt_month l \<in> set (cn_months c)" "\<not> matchesDay c l"
    | (hour) "lt_month l \<in> set (cn_months c)" "matchesDay c l" "lt_hour l \<notin> set (cn_hours c)"
    | (minute) "lt_month l \<in> set (cn_months c)" "matchesDay c l" "lt_hour l \<in> set (cn_hours c)" "lt_minute l \<notin> set (cn_minutes c)"
    using step by (auto split: if_splits)
  then show ?thesis
  proof cases
    case month
    then have t': "t' + off = make_day y m 1 * day_ms"
      using step set_fixed(1) [of off "lt_month l" 1 t, folded l_def] f by auto
    have "l div day_ms + 1 \<le> make_day y m 1" using next_month(1) [OF c] by simp
    then have gt: "l < t' + off" unfolding t' using below_next_block [of day_ms l] by linarith
    have "\<not> cron_matches (fixed_zone off) c u" if "t \<le> u" "u < t'" for u
    proof -
      have "l div day_ms \<le> (u + off) div day_ms" using that by (intro zdiv_mono1) (simp_all add: l_def)
      moreover have "(u + off) div day_ms < make_day y m 1"
        using that t' div_bounds(1) [of day_ms "u + off"] by linarith
      ultimately have "lt_month (u + off) = m" unfolding lt_month_def by (rule next_month(2) [OF c])
      with month f show ?thesis by (simp add: cron_matches_def Let_def)
    qed
    moreover have "(t' + off) mod minute_ms = 0" by (simp add: t' mod_mult_eq [symmetric] mod_eq_0_iff_dvd)
    ultimately show ?thesis using gt by (simp add: l_def)
  next
    case day
    then have "t' = setHours (fixed_zone off) 0 (setDate (fixed_zone off) (lt_date l + 1) t)" using step by auto
    then have t': "t' + off = (l div day_ms + 1) * day_ms"
      using set_fixed(2) [of off "lt_date l + 1" t, folded l_def] f make_day_next [OF c] by simp
    have "\<not> cron_matches (fixed_zone off) c u" if "t \<le> u" "u < t'" for u
      using day_block(2) [OF block [of day_ms "u + off"], of c] that day(2) t' by (simp add: cron_matches_def Let_def)
    moreover have "l < t' + off" unfolding t' by (rule below_next_block) simp
    moreover have "(t' + off) mod minute_ms = 0" by (simp add: t' mod_eq_0_iff_dvd)
    ultimately show ?thesis by (simp add: l_def)
  next
    case hour
    then have "t' = setHours (fixed_zone off) (lt_hour l + 1) t" using step by auto
    then have t': "t' + off = (l div hour_ms + 1) * hour_ms"
      using set_fixed(3) [of off "lt_hour l + 1" t, folded l_def] hour_split [of l] by (simp add: algebra_simps)
    have "\<not> cron_matches (fixed_zone off) c u" if "t \<le> u" "u < t'" for u
      using hour_block(2) [OF block [of hour_ms "u + off"]] that hour(3) t' by (simp add: cron_matches_def Let_def)
    moreover have "l < t' + off" unfolding t' by (rule below_next_block) simp
    moreover have "(t' + off) mod minute_ms = 0" by (simp add: t' mod_eq_0_iff_dvd)
    ultimately show ?thesis by (simp add: l_def)
  next
    case minute
    then have "t' = setMinutesZero (fixed_zone off) (lt_minute l + 1) t" using step by auto
    then have t': "t' + off = (l div minute_ms + 1) * minute_ms"
      using set_fixed(4) [of off "lt_minute l + 1" t, folded l_def] minute_split [of l] by (simp add: algebra_simps)
    have "\<not> cron_matches (fixed_zone off) c u" if "t \<le> u" "u < t'" for u
      using minute_block(2) [OF block [of minute_ms "u + off"]] that minute(4) t' by (simp add: cron_matches_def Let_def)
    moreover have "l < t' + off" unfolding t' by (rule below_next_block) simp
    moreover have "(t' + off) mod minute_ms = 0" by (simp add: t' mod_eq_0_iff_dvd)
    ultimately show ?thesis by (simp add: l_def)
  qed
qed

lemma cron_step_None: "cron_step z c t = None \<Longrightarrow> zn_local z t mod minute_ms = 0 \<Longrightarrow> cron_matches z c t"
  by (auto simp: cron_step_def cron_matches_def Let_def split: if_splits)

text \<open>The answer of the search: the first match from \<open>t\<close> up to the limit.\<close>

definition first_match :: "zone \<Rightarrow> cron \<Rightarrow> int \<Rightarrow> int \<Rightarrow> int option \<Rightarrow> bool" where
  "first_match z c t limit r \<longleftrightarrow>
     (case r of
        Some s \<Rightarrow> t \<le> s \<and> s \<le> limit \<and> cron_matches z c s \<and> (\<forall>u. t \<le> u \<and> u < s \<longrightarrow> \<not> cron_matches z c u)
      | None \<Rightarrow> \<forall>u. t \<le> u \<and> u \<le> limit \<longrightarrow> \<not> cron_matches z c u)"

lemma cron_search_first:
  assumes "(t + off) mod minute_ms = 0"
  shows "\<exists>r. cron_search (fixed_zone off) c limit t = Some r \<and> first_match (fixed_zone off) c t limit r"
  using assms
proof (induction "nat (limit + 1 - t)" arbitrary: t rule: less_induct)
  case less
  show ?case
  proof (cases "t \<le> limit")
    case False
    then have "cron_search (fixed_zone off) c limit t = Some None" by (subst cron_search.simps) simp
    with False show ?thesis by (auto simp: first_match_def)
  next
    case True
    show ?thesis
    proof (cases "cron_step (fixed_zone off) c t")
      case None
      with True have "cron_search (fixed_zone off) c limit t = Some (Some t)" by (subst cron_search.simps) simp
      moreover have "cron_matches (fixed_zone off) c t" using cron_step_None [OF None] less.prems by simp
      ultimately show ?thesis using True by (auto simp: first_match_def)
    next
      case (Some t')
      with True have e: "cron_search (fixed_zone off) c limit t = cron_search (fixed_zone off) c limit t'"
        by (subst cron_search.simps) simp
      note p = cron_step_passes [OF Some less.prems]
      then obtain r where r: "cron_search (fixed_zone off) c limit t' = Some r" "first_match (fixed_zone off) c t' limit r"
        using less.hyps [of t'] True by auto
      have "first_match (fixed_zone off) c t limit r"
        using r(2) p unfolding first_match_def by (cases r) (auto; metis not_le)+
      with e r(1) show ?thesis by simp
    qed
  qed
qed

lemma search_start:
  "setMinutes (fixed_zone off) (lt_minute (zn_local (fixed_zone off) (setSeconds (fixed_zone off) t)) + 1) (setSeconds (fixed_zone off) t) + off =
     ((t + off) div minute_ms + 1) * minute_ms"
proof -
  define k where "k = (t + off) div minute_ms"
  have "setSeconds (fixed_zone off) t + off = k * minute_ms" by (simp add: setSeconds_def Let_def k_def)
  then show ?thesis
    using minute_split [of "k * minute_ms"] unfolding k_def [symmetric] by (simp add: setMinutes_def Let_def algebra_simps)
qed

lemma next_cron_ends: "\<exists>r. nextCronTime (fixed_zone off) c t = Some r"
proof -
  have "(setMinutes (fixed_zone off) (lt_minute (zn_local (fixed_zone off) (setSeconds (fixed_zone off) t)) + 1) (setSeconds (fixed_zone off) t) + off)
      mod minute_ms = 0" unfolding search_start by simp
  from cron_search_first [OF this] show ?thesis unfolding nextCronTime_def Let_def by blast
qed

text \<open>
  C40. In a zone without transitions \<open>nextCronTime\<close> returns the first instant after \<open>from\<close> at which the
  cron expression matches, and null exactly when none matches within four leap years.
\<close>

theorem next_cron_is_first:
  "\<exists>r. nextCronTime (fixed_zone off) c t = Some r \<and>
     (case r of
        Some s \<Rightarrow> t < s \<and> s \<le> t + 4 * 366 * 86400000 \<and> cron_matches (fixed_zone off) c s \<and>
                  \<not> (\<exists>u. t < u \<and> u < s \<and> cron_matches (fixed_zone off) c u)
      | None \<Rightarrow> \<not> (\<exists>u. t < u \<and> u \<le> t + 4 * 366 * 86400000 \<and> cron_matches (fixed_zone off) c u))"
proof -
  let ?z = "fixed_zone off" and ?s = "setSeconds (fixed_zone off) t"
  define t0 where "t0 = setMinutes ?z (lt_minute (zn_local ?z ?s) + 1) ?s"
  have t0: "t0 + off = ((t + off) div minute_ms + 1) * minute_ms" unfolding t0_def by (rule search_start)
  then have "(t0 + off) mod minute_ms = 0" by simp
  from cron_search_first [OF this] obtain r where r: "cron_search ?z c (cron_limit t) t0 = Some r" "first_match ?z c t0 (cron_limit t) r"
    by blast
  have later: "t < t0" using t0 below_next_block [of minute_ms "t + off"] by linarith
  have skip: "\<not> cron_matches ?z c u" if "t < u" "u < t0" for u
  proof
    assume "cron_matches ?z c u"
    then have "(u + off) mod minute_ms = 0" by (simp add: cron_matches_def Let_def)
    moreover have "(u + off) div minute_ms = (t + off) div minute_ms" by (rule same_block) (use that t0 in simp_all)
    ultimately have "u + off \<le> t + off" using div_mult_mod_eq [of "u + off" minute_ms] div_bounds(1) [of minute_ms "t + off"] by linarith
    with that show False by simp
  qed
  have "nextCronTime ?z c t = Some r" using r(1) by (simp add: nextCronTime_def Let_def t0_def)
  with r(2) later skip show ?thesis
    unfolding first_match_def cron_limit_def by (intro exI [where x = r]) (cases r; simp; meson linorder_not_le order_le_less_trans)
qed

definition ex_cron :: cron where
  "ex_cron = \<lparr>cn_minutes = [0, 15, 30, 45], cn_hours = [0..23], cn_days = [1..31], cn_months = [1..12], cn_weekdays = [1, 2, 3, 4, 5], cn_dayOr = False\<rparr>"

lemma ex_cron_parses: "parseCron ''*/15 * * * mon-fri'' = Inr ex_cron"
  by code_simp

section \<open>Parsed expressions\<close>

definition within_field :: "cron_field \<Rightarrow> int list \<Rightarrow> bool" where
  "within_field f vs \<longleftrightarrow> vs \<noteq> [] \<and> (\<forall>v\<in>set vs. cf_min f \<le> v \<and> v \<le> cf_max f)"

lemma values_from_within:
  assumes "1 \<le> step" "lo \<le> hi"
  shows "values_from lo hi step \<noteq> []" "v \<in> set (values_from lo hi step) \<Longrightarrow> lo \<le> v \<and> v \<le> hi"
proof -
  have "step * k \<le> hi - lo" if "k \<le> (hi - lo) div step" for k
    using mult_left_mono [OF that, of step] div_bounds(1) [of step "hi - lo"] assms by linarith
  then show "v \<in> set (values_from lo hi step) \<Longrightarrow> lo \<le> v \<and> v \<le> hi" using assms by (force simp: values_from_def)
  show "values_from lo hi step \<noteq> []" using assms pos_imp_zdiv_nonneg_iff [of step "hi - lo"] by (simp add: values_from_def)
qed

lemma parseItem_within:
  assumes "parseItem f item = Inr vs"
  shows "within_field f vs"
proof -
  from assms obtain ws n where i: "cron_item item = Some (ws, n)" by (auto simp: parseItem_def split: option.splits)
  define step where "step = (case n of None \<Rightarrow> 1 | Some d \<Rightarrow> int (number_of d))"
  from assms i obtain lo h where b: "cron_bounds ws f = Inr (lo, h)"
    by (auto simp: parseItem_def Let_def split: if_splits sum.splits)
  define hi where "hi = (case h of Some h \<Rightarrow> h | None \<Rightarrow> if n = None then lo else cf_max f)"
  from assms i b have w: "1 \<le> step" "cf_min f \<le> lo" "hi \<le> cf_max f" "lo \<le> hi" "vs = values_from lo hi step"
    by (simp_all add: parseItem_def Let_def step_def [symmetric] hi_def [symmetric] split: if_splits)
  with values_from_within [OF w(1,4)] show ?thesis by (force simp: within_field_def)
qed

lemma parse_items_within:
  assumes "parse_items f is vs = Inr ws" and "is \<noteq> [] \<or> vs \<noteq> []" and "\<forall>v\<in>set vs. cf_min f \<le> v \<and> v \<le> cf_max f"
  shows "within_field f ws"
  using assms
proof (induction f "is" vs rule: parse_items.induct)
  case (2 f i "is" values')
  then obtain us where us: "parseItem f i = Inr us" "parse_items f is (values' @ us) = Inr ws" by (auto split: sum.splits)
  from parseItem_within [OF us(1)] have "us \<noteq> []" "\<forall>v\<in>set us. cf_min f \<le> v \<and> v \<le> cf_max f" by (auto simp: within_field_def)
  with 2(1) [OF us(1,2)] 2(4) show ?case by auto
qed (simp add: within_field_def)

lemma parseField_within: "parseField part f = Inr vs \<Longrightarrow> within_field f vs"
  unfolding parseField_def by (erule parse_items_within) (auto simp: split_on_nonempty)

definition cron_ok :: "cron \<Rightarrow> bool" where
  "cron_ok c \<longleftrightarrow>
     (\<forall>v\<in>set (cn_minutes c). 0 \<le> v \<and> v \<le> 59) \<and> (\<forall>v\<in>set (cn_hours c). 0 \<le> v \<and> v \<le> 23) \<and>
     (\<forall>v\<in>set (cn_days c). 1 \<le> v \<and> v \<le> 31) \<and> (\<forall>v\<in>set (cn_months c). 1 \<le> v \<and> v \<le> 12) \<and>
     (\<forall>v\<in>set (cn_weekdays c). 0 \<le> v \<and> v \<le> 6) \<and>
     cn_minutes c \<noteq> [] \<and> cn_hours c \<noteq> [] \<and> cn_days c \<noteq> [] \<and> cn_months c \<noteq> [] \<and> cn_weekdays c \<noteq> []"

text \<open>Whatever parses has no empty field and only values a date can have; Sunday is 0, never 7.\<close>

lemma parsed_cron_ok:
  assumes "parseCron s = Inr c"
  shows "cron_ok c"
proof -
  from assms obtain parts vss where p: "length parts = 5" "parse_fields parts FIELDS_cron = Inr vss"
    and c: "case vss of [mi, ho, da, mo, wd] \<Rightarrow>
       c = \<lparr>cn_minutes = mi, cn_hours = ho, cn_days = da, cn_months = mo,
            cn_weekdays = (if 7 \<in> set wd then filter (\<lambda>v. v \<noteq> 7) wd @ [0] else wd), cn_dayOr = (parts ! 2 \<noteq> ''*'' \<and> parts ! 4 \<noteq> ''*'')\<rparr> | _ \<Rightarrow> False"
    by (auto simp: parseCron_def Let_def split: if_splits sum.splits list.splits)
  from p(1) obtain a b d e g where parts: "parts = [a, b, d, e, g]" by (auto simp: length_Suc_conv eval_nat_numeral)
  from p(2) obtain mi ho da mo wd where v: "vss = [mi, ho, da, mo, wd]"
    and w: "within_field (FIELDS_cron ! 0) mi" "within_field (FIELDS_cron ! 1) ho" "within_field (FIELDS_cron ! 2) da" "within_field (FIELDS_cron ! 3) mo"
      "within_field (FIELDS_cron ! 4) wd"
    by (auto simp: parts FIELDS_cron_def map_sum_def split: sum.splits dest!: parseField_within)
  have r: "\<forall>v\<in>set mi. 0 \<le> v \<and> v \<le> 59" "\<forall>v\<in>set ho. 0 \<le> v \<and> v \<le> 23" "\<forall>v\<in>set da. 1 \<le> v \<and> v \<le> 31"
    "\<forall>v\<in>set mo. 1 \<le> v \<and> v \<le> 12" "\<forall>v\<in>set wd. 0 \<le> v \<and> v \<le> 7"
    "mi \<noteq> []" "ho \<noteq> []" "da \<noteq> []" "mo \<noteq> []" "wd \<noteq> []"
    using w by (simp_all add: within_field_def FIELDS_cron_def)
  have "\<forall>v\<in>set wd. v \<noteq> 7 \<longrightarrow> v \<le> 6" using r(5) by force
  then have "7 \<notin> set wd \<longrightarrow> (\<forall>v\<in>set wd. v \<le> 6)" by metis
  moreover have "\<forall>v\<in>set wd. v \<noteq> 7 \<longrightarrow> v \<le> 6" using r(5) by force
  ultimately show ?thesis using r c v by (simp add: cron_ok_def)
qed

section \<open>The hour that is repeated\<close>

text \<open>
  At the end of daylight saving time an hour is repeated, and a local time in it means its first
  occurrence: in the second occurrence the search for the next minute goes back an hour.
\<close>

definition ex_transition :: int where "ex_transition = 1730613600000"

definition ex_zone :: zone where
  "ex_zone = \<lparr>zn_local = (\<lambda>t. if t < ex_transition then t - 4 * hour_ms else t - 5 * hour_ms),
     zn_utc = (\<lambda>l. if l < ex_transition - 4 * hour_ms then l + 4 * hour_ms else l + 5 * hour_ms)\<rparr>"

lemma next_cron_may_be_past:
  "nextCronTime ex_zone (ex_cron\<lparr>cn_weekdays := [0..6]\<rparr>) (ex_transition + 20 * minute_ms) = Some (Some (ex_transition - 30 * minute_ms))"
  by code_simp

end
