(* ===== verification/U2_Automation.thy ===== *)
theory U2_Automation
  imports U2_Workflow_Safety U2_Cron
begin

text \<open>
  Triggers and the automation runtime, \<open>server/packages/triggers.js\<close> and
  \<open>server/packages/automation-runtime.js\<close>: schedules and events become runs of the workflow engine,
  guarded by a recursion check, an hourly limit, single concurrency and a key per slot or event;
  a pass over the runnable runs executes them one at a time.

  The trigger registry is what the runtime is constructed with. Log lines, the interval timer and
  the view of an automation are left out; when the runtime was stopped is a function of the tick.
\<close>

section \<open>Trigger providers\<close>

definition MIN_EVERY_MS :: rat where "MIN_EVERY_MS = 60000"

definition TRIGGER_TYPES :: "string list" where
  "TRIGGER_TYPES = [''schedule'', ''event'', ''manual'', ''watch'']"

definition cron_problems :: "jsval option \<Rightarrow> string \<Rightarrow> string list" where
  "cron_problems v w =
     (case v of None \<Rightarrow> [] | Some c \<Rightarrow> (case parseCron (js_str c) of Inl e \<Rightarrow> [w @ ''.cron: '' @ error_message e] | Inr _ \<Rightarrow> []))"

definition every_problems :: "jsval option \<Rightarrow> string \<Rightarrow> string list" where
  "every_problems v w =
     when_true (v \<noteq> None \<and> (case parseDuration v of None \<Rightarrow> True | Some ms \<Rightarrow> ms < MIN_EVERY_MS))
       (w @ ''.every: a duration of at least 1m, such as 1h'')"

definition schedule_validate :: "(string \<times> jsval) list \<Rightarrow> string \<Rightarrow> string list" where
  "schedule_validate ps w =
     unknown_keys [''type'', ''cron'', ''every'', ''with''] ps w @
     when_true ((map_of ps ''cron'' = None) = (map_of ps ''every'' = None)) (w @ '': schedule takes exactly one of cron or every'') @
     cron_problems (map_of ps ''cron'') w @ every_problems (map_of ps ''every'') w"

definition event_validate :: "(string \<times> jsval) list \<Rightarrow> string \<Rightarrow> string list" where
  "event_validate ps w =
     unknown_keys [''type'', ''event'', ''where'', ''with''] ps w @
     when_true (\<not> isValidEventType (map_of ps ''event'')) (w @ ''.event: an event type such as mail.received'') @
     condition_check (map_of ps ''where'') (w @ ''.where'')"

text \<open>\<open>TriggerRegistry.validate\<close> with the providers of the default registry.\<close>

definition validateTrigger :: "jsval \<Rightarrow> string \<Rightarrow> string list" where
  "validateTrigger trigger w =
     (case trigger of
        JObj ps \<Rightarrow>
          (let errors = (case map_of ps ''type'' of
                Some (JStr t) \<Rightarrow>
                  (if t = ''schedule'' then Some (schedule_validate ps w)
                   else if t = ''event'' then Some (event_validate ps w)
                   else if t = ''manual'' then Some (unknown_keys [''type'', ''with''] ps w)
                   else if t = ''watch'' then Some [w @ '': watch triggers are reserved and not available yet'']
                   else None)
              | _ \<Rightarrow> None) in
           case errors of
             None \<Rightarrow> [w @ ''.type: use one of '' @ join_with '', '' TRIGGER_TYPES]
           | Some es \<Rightarrow>
               es @ (case map_of ps ''with'' of
                       None \<Rightarrow> []
                     | Some (JObj qs) \<Rightarrow> checkTemplate (JObj qs) (w @ ''.with'')
                     | Some _ \<Rightarrow> [w @ ''.with: must map workflow inputs to values'']))
      | _ \<Rightarrow> [w @ '': must be a mapping''])"

text \<open>
  \<open>nextRun\<close> of a schedule; the outer option says whether the search of a cron trigger ends. A date
  that is no time value makes the caller's \<open>toISOString\<close> throw, which is the \<open>Inl\<close> here.
\<close>

abbreviation invalid_time :: js_error where "invalid_time \<equiv> Error ''Invalid time value''"

definition every_next :: "rat \<Rightarrow> int \<Rightarrow> int" where
  "every_next ms from' = \<lfloor>(of_int \<lfloor>of_int from' / ms\<rfloor> + 1) * ms\<rfloor>"

definition every_nextRun :: "jsval \<Rightarrow> int \<Rightarrow> int option res" where
  "every_nextRun trigger from' =
     (case parseDuration (js_get (Some trigger) ''every'') of
        None \<Rightarrow> Inl invalid_time
      | Some ms \<Rightarrow>
          if ms = 0 \<or> 8640000000000000 < \<bar>every_next ms from'\<bar> then Inl invalid_time else Inr (Some (every_next ms from')))"

definition schedule_nextRun :: "zone \<Rightarrow> jsval \<Rightarrow> int \<Rightarrow> int option res option" where
  "schedule_nextRun z trigger from' =
     (case js_get (Some trigger) ''cron'' of
        Some v \<Rightarrow>
          if truthy (Some v) then
            (case v of
               JStr s \<Rightarrow> (case parseCron s of Inl e \<Rightarrow> Some (Inl e) | Inr c \<Rightarrow> map_option Inr (nextCronTime z c from'))
             | _ \<Rightarrow> Some (Inl (TypeError ''Cannot read properties of undefined'')))
          else Some (every_nextRun trigger from')
      | None \<Rightarrow> Some (every_nextRun trigger from'))"

definition event_matches :: "expr_env \<Rightarrow> jsval \<Rightarrow> pkg_event \<Rightarrow> pairs \<Rightarrow> bool" where
  "event_matches env trigger ev scope \<longleftrightarrow>
     js_get (Some trigger) ''event'' = Some (JStr (ev_type ev)) \<and>
     (case js_get (Some trigger) ''where'' of
        None \<Rightarrow> True
      | Some w \<Rightarrow> (case evaluate env (conditionSource w) (XObj (js_put ''event'' (event_value ev) scope)) of Inl _ \<Rightarrow> False | Inr v \<Rightarrow> x_truthy v))"

section \<open>Starting runs\<close>

record automation_env =
  ar_engine :: engine_env
  ar_nextRun :: "jsval \<Rightarrow> int \<Rightarrow> int option res"
  ar_matches :: "expr_env \<Rightarrow> jsval \<Rightarrow> pkg_event \<Rightarrow> pairs \<Rightarrow> bool"
  ar_maxRuns :: nat
  ar_stopped :: "nat \<Rightarrow> bool"

definition MAX_RUNS_PER_HOUR :: nat where "MAX_RUNS_PER_HOUR = 60"
definition SCHEDULE_GRACE_MS :: int where "SCHEDULE_GRACE_MS = 60 * 60000"
definition CATCH_UP_LIMIT :: nat where "CATCH_UP_LIMIT = 500"

definition packageEnabled :: "automation_def \<Rightarrow> engine_state \<Rightarrow> bool" where
  "packageEnabled def st = (case map_of (pf_packages (wo_platform (es_world st))) (ad_packageId def) of Some k \<Rightarrow> pk_enabled k | None \<Rightarrow> False)"

definition automation_settings :: "automation_def \<Rightarrow> engine_state \<Rightarrow> (string \<times> jsval) list" where
  "automation_settings def st =
     (case map_of (pf_packages (wo_platform (es_world st))) (ad_packageId def) of
        Some k \<Rightarrow> effectiveSettings (pk_manifest k) (getStoredSettings (mf_id (pk_manifest k)) (wo_packages (es_world st)))
      | None \<Rightarrow> [])"

definition automations :: "engine_state \<Rightarrow> automation_def list" where
  "automations st = map snd (pf_automations (wo_platform (es_world st)))"

definition triggers_of :: "string \<Rightarrow> automation_def \<Rightarrow> jsval list" where
  "triggers_of type def = filter (\<lambda>t. js_get (Some t) ''type'' = Some (JStr type)) (ad_triggers def)"

text \<open>\<open>_createRun\<close>: the run when one was created.\<close>

definition create_run ::
  "automation_env \<Rightarrow> automation_def \<Rightarrow> jsval \<Rightarrow> string option \<Rightarrow> pairs \<Rightarrow> wf_status \<Rightarrow> string option \<Rightarrow> engine_state \<Rightarrow>
    wf_row option res \<times> engine_state" where
  "create_run ae def trigger dedupeKey inputs status err st =
     (case createAutomationRun (ar_engine ae)
             \<lparr>rq_automationId = ad_id def, rq_trigger = trigger, rq_inputs = XObj inputs, rq_dedupeKey = dedupeKey, rq_status = status, rq_error = err\<rparr> st of
        (Inl e, st') \<Rightarrow> (Inl e, st')
      | (Inr (r, created), st') \<Rightarrow> (Inr (if created then r else None), st'))"

text \<open>The pairs a spread of a value adds.\<close>

definition spread_pairs :: "xval \<Rightarrow> pairs" where
  "spread_pairs v =
     (case v of
        XObj ps \<Rightarrow> ps
      | XArr vs \<Rightarrow> map (\<lambda>(i, x). (nat_str i, x)) (zip [0..<length vs] vs)
      | XStr s \<Rightarrow> map (\<lambda>(i, c). (nat_str i, XStr [c])) (zip [0..<length s] s)
      | _ \<Rightarrow> [])"

definition trigger_inputs :: "automation_env \<Rightarrow> automation_def \<Rightarrow> jsval option \<Rightarrow> jsval \<Rightarrow> pairs \<Rightarrow> engine_state \<Rightarrow> pairs res" where
  "trigger_inputs ae def trigger triggerData extra st =
     (case js_get trigger ''with'' of
        None \<Rightarrow> Inr (js_spread [] extra)
      | Some w \<Rightarrow>
          if \<not> truthy (Some w) then Inr (js_spread [] extra)
          else map_sum id (\<lambda>v. js_spread (js_spread [] (spread_pairs v)) extra)
            (resolveTemplate (env_at (ar_engine ae) st)
               (XObj [(''trigger'', of_json triggerData),
                  (''event'', case js_get (Some triggerData) ''event'' of Some e \<Rightarrow> if truthy (Some e) then of_json e else XNull | None \<Rightarrow> XNull),
                  (''settings'', json_pairs (automation_settings def st))]) w))"

definition counted_run :: "string \<Rightarrow> int \<Rightarrow> wf_row \<Rightarrow> bool" where
  "counted_run i since r \<longleftrightarrow>
     wr_instanceId r = Some i \<and> wr_parentRunId r = None \<and> since < wr_createdAt r \<and> wr_status r \<notin> {WSkipped, WThrottled}"

definition active_root :: "string \<Rightarrow> wf_db \<Rightarrow> bool" where
  "active_root i d = list_ex (\<lambda>r. some_text (wr_parentRunId r) = None)
     (wf_listRuns (all_runs\<lparr>rf_instanceId := Some i, rf_status := Some ACTIVE_RUN_STATUSES, rf_limit := 1\<rparr>) d)"

definition fire ::
  "automation_env \<Rightarrow> automation_def \<Rightarrow> instance_row \<Rightarrow> jsval option \<Rightarrow> jsval \<Rightarrow> string option \<Rightarrow> pairs \<Rightarrow> engine_state \<Rightarrow>
    wf_row option res \<times> engine_state" where
  "fire ae def inst trigger triggerData dedupeKey extra st =
     (case trigger_inputs ae def trigger triggerData extra st of
        Inl e \<Rightarrow> create_run ae def triggerData dedupeKey [] WFailed (Some (''trigger inputs: '' @ error_message e)) st
      | Inr inputs \<Rightarrow>
          let recent = length (filter (counted_run (in_id inst) (now_at (ar_engine ae) st - 3600000)) (wd_runs (es_wf st))) in
          if recent \<ge> ar_maxRuns ae then create_run ae def triggerData dedupeKey inputs WThrottled (Some ''hourly_run_limit'') st
          else if ad_concurrency def \<noteq> ''parallel'' \<and> active_root (in_id inst) (es_wf st)
          then create_run ae def triggerData dedupeKey inputs WSkipped (Some ''already_running'') st
          else create_run ae def triggerData dedupeKey inputs WPending None st)"

section \<open>Schedules\<close>

fun next_times :: "automation_env \<Rightarrow> int \<Rightarrow> jsval list \<Rightarrow> int list res" where
  "next_times ae from' [] = Inr []"
| "next_times ae from' (t # ts) =
     (case ar_nextRun ae t from' of
        Inl e \<Rightarrow> Inl e
      | Inr x \<Rightarrow> map_sum id (\<lambda>xs. (case x of Some n \<Rightarrow> n # xs | None \<Rightarrow> xs)) (next_times ae from' ts))"

definition set_nextRun :: "int option \<Rightarrow> instance_patch" where
  "set_nextRun t = empty_patch\<lparr>ip_nextRunAt := Some t\<rparr>"

definition reschedule :: "automation_env \<Rightarrow> string \<Rightarrow> automation_def \<Rightarrow> int \<Rightarrow> engine_state \<Rightarrow> int option res \<times> engine_state" where
  "reschedule ae instanceId def from' st =
     (case next_times ae from' (triggers_of ''schedule'' def) of
        Inl e \<Rightarrow> (Inl e, st)
      | Inr ts \<Rightarrow>
          let next' = (if ts = [] then None else Some (Min (set ts))) in
          (Inr next', wf_do (ar_engine ae) (\<lambda>_ now d. snd (updateInstance instanceId (set_nextRun next') now d)) st))"

text \<open>The schedule whose next time from just before the slot is the slot, else the first one.\<close>

fun slot_trigger :: "automation_env \<Rightarrow> int \<Rightarrow> jsval list \<Rightarrow> jsval option res" where
  "slot_trigger ae due' [] = Inr None"
| "slot_trigger ae due' (t # ts) =
     (case ar_nextRun ae t (due' - 60000) of
        Inl e \<Rightarrow> Inl e
      | Inr x \<Rightarrow> if x = Some due' then Inr (Some t) else slot_trigger ae due' ts)"

definition value_or_null :: "jsval option \<Rightarrow> jsval" where
  "value_or_null v = (case v of Some x \<Rightarrow> if truthy (Some x) then x else JNull | None \<Rightarrow> JNull)"

definition schedule_key :: "automation_def \<Rightarrow> int \<Rightarrow> string" where
  "schedule_key def slot = ''schedule:'' @ ad_id def @ '':'' @ iso_string slot"

definition fire_slot :: "automation_env \<Rightarrow> automation_def \<Rightarrow> instance_row \<Rightarrow> jsval list \<Rightarrow> int \<Rightarrow> int \<Rightarrow> engine_state \<Rightarrow> string list res \<times> engine_state" where
  "fire_slot ae def inst schedules slot now st =
     (case slot_trigger ae slot schedules of
        Inl e \<Rightarrow> (Inl e, st)
      | Inr found \<Rightarrow>
          let trigger = or_keep found (hd schedules) in
          if now - slot > SCHEDULE_GRACE_MS then
            (case create_run ae def (JObj [(''type'', JStr ''schedule''), (''slot'', JStr (iso_string slot)), (''missed'', JBool True)])
                    (Some (schedule_key def slot)) [] WSkipped (Some ''missed_schedule'') st of
               (r, st') \<Rightarrow> (map_sum id (\<lambda>_. []) r, st'))
          else
            (case fire ae def inst (Some trigger)
                    (JObj [(''type'', JStr ''schedule''), (''slot'', JStr (iso_string slot)), (''cron'', value_or_null (js_get (Some trigger) ''cron'')),
                       (''every'', value_or_null (js_get (Some trigger) ''every''))])
                    (Some (schedule_key def slot)) [] st of
               (r, st') \<Rightarrow> (map_sum id (\<lambda>x. case x of Some row \<Rightarrow> [wr_id row] | None \<Rightarrow> []) r, st')))"

definition startable :: "automation_def \<Rightarrow> engine_state \<Rightarrow> instance_row option" where
  "startable def st =
     (case getInstanceByAutomation (ad_id def) (es_wf st) of
        Some i \<Rightarrow> if in_enabled i \<and> \<not> in_paused i \<and> packageEnabled def st then Some i else None
      | None \<Rightarrow> None)"

definition fire_due :: "automation_env \<Rightarrow> int \<Rightarrow> automation_def \<Rightarrow> engine_state \<Rightarrow> string list res \<times> engine_state" where
  "fire_due ae now def st =
     (let schedules = triggers_of ''schedule'' def in
      if schedules = [] then (Inr [], st)
      else (case startable def st of
        None \<Rightarrow> (Inr [], st)
      | Some inst \<Rightarrow>
          (case in_nextRunAt inst of
             None \<Rightarrow> (case reschedule ae (in_id inst) def now st of (r, st') \<Rightarrow> (map_sum id (\<lambda>_. []) r, st'))
           | Some due' \<Rightarrow>
               if due' > now then (Inr [], st)
               else (case fire_slot ae def inst schedules due' now st of
                       (Inl e, st1) \<Rightarrow> (Inl e, st1)
                     | (Inr fired, st1) \<Rightarrow>
                         (case getInstanceByAutomation (ad_id def) (es_wf st1) of
                            None \<Rightarrow> (Inl (TypeError ''Cannot read properties of null''), st1)
                          | Some i \<Rightarrow> (case reschedule ae (in_id i) def now st1 of (r, st2) \<Rightarrow> (map_sum id (\<lambda>_. fired) r, st2)))))))"

text \<open>A loop over the automations that an exception ends.\<close>

fun for_automations :: "(automation_def \<Rightarrow> engine_state \<Rightarrow> 'a list res \<times> engine_state) \<Rightarrow> automation_def list \<Rightarrow> engine_state \<Rightarrow> 'a list res \<times> engine_state" where
  "for_automations f [] st = (Inr [], st)"
| "for_automations f (d # ds) st =
     (case f d st of
        (Inl e, st') \<Rightarrow> (Inl e, st')
      | (Inr xs, st') \<Rightarrow> (case for_automations f ds st' of (r, st'') \<Rightarrow> (map_sum id (\<lambda>ys. xs @ ys) r, st'')))"

definition fireDueSchedules :: "automation_env \<Rightarrow> int \<Rightarrow> engine_state \<Rightarrow> string list res \<times> engine_state" where
  "fireDueSchedules ae now st = for_automations (fire_due ae now) (automations st) st"

section \<open>Events\<close>

definition event_key :: "automation_def \<Rightarrow> pkg_event \<Rightarrow> string" where
  "event_key def ev = ''event:'' @ ad_id def @ '':'' @ ev_id ev"

definition trigger_event :: "pkg_event \<Rightarrow> jsval" where
  "trigger_event ev =
     JObj [(''type'', JStr ''event''), (''event'', JObj [(''id'', JStr (ev_id ev)), (''type'', JStr (ev_type ev)), (''source'', JStr (ev_source ev)),
        (''subject'', subject_json (ev_subject ev)), (''data'', if truthy (Some (ev_data ev)) then ev_data ev else JObj [])])]"

definition react :: "automation_env \<Rightarrow> pkg_event \<Rightarrow> automation_def \<Rightarrow> engine_state \<Rightarrow> string list res \<times> engine_state" where
  "react ae ev def st =
     (let triggers = triggers_of ''event'' def in
      if triggers = [] then (Inr [], st)
      else (case startable def st of
        None \<Rightarrow> (Inr [], st)
      | Some inst \<Rightarrow>
          if map_of (ev_metadata ev) ''automationInstanceId'' = Some (JStr (in_id inst)) then (Inr [], st)
          else (case find (\<lambda>t. ar_matches ae (env_at (ar_engine ae) st) t ev [(''settings'', json_pairs (automation_settings def st))]) triggers of
                  None \<Rightarrow> (Inr [], st)
                | Some t \<Rightarrow>
                    (case fire ae def inst (Some t) (trigger_event ev) (Some (event_key def ev)) [] st of
                       (r, st') \<Rightarrow> (map_sum id (\<lambda>x. case x of Some row \<Rightarrow> [wr_id row] | None \<Rightarrow> []) r, st')))))"

definition processEvent :: "automation_env \<Rightarrow> pkg_event \<Rightarrow> engine_state \<Rightarrow> string list res \<times> engine_state" where
  "processEvent ae ev st =
     (case (if starts_with (ev_type ev) ''agent.action.'' then wakeActionWaits (ar_engine ae) st else (Inr [], st)) of
        (Inl e, st1) \<Rightarrow> (Inl e, st1)
      | (Inr _, st1) \<Rightarrow> (let st2 = snd (deliverEvent (ar_engine ae) ev st1) in for_automations (react ae ev) (automations st2) st2))"

definition move_cursor :: "int \<Rightarrow> engine_state \<Rightarrow> engine_state" where
  "move_cursor rowid st = st\<lparr>es_wf := setEventCursor rowid (es_wf st)\<rparr>"

text \<open>The subscriber, without the pass over the runs that it schedules; \<open>rowid\<close> is the row of the event, if it is stored.\<close>

definition handleEvent :: "automation_env \<Rightarrow> bool \<Rightarrow> int option \<Rightarrow> pkg_event \<Rightarrow> engine_state \<Rightarrow> engine_state" where
  "handleEvent ae subscribed rowid ev st =
     (if ar_stopped ae (es_tick st) \<or> \<not> subscribed then st
      else (case processEvent ae ev st of
              (Inl _, st') \<Rightarrow> st'
            | (Inr _, st') \<Rightarrow> (case rowid of Some i \<Rightarrow> if i = 0 then st' else move_cursor i st' | None \<Rightarrow> st')))"

fun catch_up :: "automation_env \<Rightarrow> (int \<times> pkg_event) list \<Rightarrow> engine_state \<Rightarrow> engine_state" where
  "catch_up ae [] st = st"
| "catch_up ae ((i, ev) # rows) st = catch_up ae rows (move_cursor i (snd (processEvent ae ev st)))"

text \<open>The rows of the event table come as an argument.\<close>

definition missed_rows :: "(int \<times> pkg_event) list \<Rightarrow> engine_state \<Rightarrow> (int \<times> pkg_event) list" where
  "missed_rows stored_rows st =
     (let cursor = or_keep (wd_cursor (es_wf st)) 0 in take CATCH_UP_LIMIT (sort_key fst (filter (\<lambda>p. fst p > cursor) stored_rows)))"

definition catchUpEvents :: "automation_env \<Rightarrow> (int \<times> pkg_event) list \<Rightarrow> engine_state \<Rightarrow> nat \<times> engine_state" where
  "catchUpEvents ae stored_rows st = (length (missed_rows stored_rows st), catch_up ae (missed_rows stored_rows st) st)"

section \<open>Executing runs\<close>

definition instancePaused :: "string \<Rightarrow> wf_db \<Rightarrow> bool" where
  "instancePaused i d = (case getInstance i d of Some r \<Rightarrow> in_paused r | None \<Rightarrow> False)"

definition mayExecute :: "wf_row \<Rightarrow> wf_db \<Rightarrow> bool" where
  "mayExecute r d =
     (case some_text (wr_instanceId r) of
        None \<Rightarrow> True
      | Some _ \<Rightarrow>
          (let root = (if wr_rootRunId r \<noteq> [] \<and> wr_rootRunId r \<noteq> wr_id r then wf_getRun (wr_rootRunId r) d else Some r) in
           case Option.bind root (\<lambda>q. some_text (wr_instanceId q)) of Some i \<Rightarrow> \<not> instancePaused i d | None \<Rightarrow> True))"

fun advance_runs :: "automation_env \<Rightarrow> wf_row list \<Rightarrow> engine_state \<Rightarrow> engine_state" where
  "advance_runs ae [] st = st"
| "advance_runs ae (r # rs) st =
     (if ar_stopped ae (es_tick st) then st else advance_runs ae rs (snd (engine_advance (ar_engine ae) (wr_id r) st)))"

text \<open>At most as many rounds as the first argument says, a hundred in the source.\<close>

fun drain_pass :: "nat \<Rightarrow> automation_env \<Rightarrow> engine_state \<Rightarrow> engine_state" where
  "drain_pass 0 ae st = st"
| "drain_pass (Suc n) ae st =
     (if ar_stopped ae (es_tick st) then st
      else (let runnable = filter (\<lambda>r. mayExecute r (es_wf st)) (listRunnableRuns 25 (es_wf st)) in
            if runnable = [] then st else drain_pass n ae (advance_runs ae runnable st)))"

definition drain :: "automation_env \<Rightarrow> engine_state \<Rightarrow> engine_state" where
  "drain ae st = drain_pass 100 ae st"

definition runtime_tick :: "automation_env \<Rightarrow> int \<Rightarrow> engine_state \<Rightarrow> unit res \<times> engine_state" where
  "runtime_tick ae now st =
     (case fireDueSchedules ae now st of
        (Inl e, st1) \<Rightarrow> (Inl e, st1)
      | (Inr _, st1) \<Rightarrow>
          (case wakeActionWaits (ar_engine ae) (snd (wakeDueRuns (ar_engine ae) now st1)) of
             (Inl e, st2) \<Rightarrow> (Inl e, st2)
           | (Inr _, st2) \<Rightarrow> (Inr (), drain ae (snd (wakeChildWaits (ar_engine ae) st2)))))"

text \<open>The start, without its first tick.\<close>

definition runtime_start :: "automation_env \<Rightarrow> (int \<times> pkg_event) list \<Rightarrow> engine_state \<Rightarrow> engine_state" where
  "runtime_start ae stored_rows st =
     (let st1 = wf_do (ar_engine ae) (\<lambda>_ now d. snd (recoverInterruptedRuns False now d)) st;
          st2 = (if wd_cursor (es_wf st1) = None then move_cursor (if stored_rows = [] then 0 else Max (set (map fst stored_rows))) st1 else st1) in
      snd (catchUpEvents ae stored_rows st2))"

section \<open>Owner operations\<close>

definition get_automation :: "string \<Rightarrow> engine_state \<Rightarrow> automation_def res" where
  "get_automation i st =
     (case map_of (pf_automations (wo_platform (es_world st))) i of
        None \<Rightarrow> Inl (HttpError 404 (''Unknown automation: '' @ i))
      | Some def \<Rightarrow> Inr def)"

definition requireInstance :: "string \<Rightarrow> engine_state \<Rightarrow> (automation_def \<times> instance_row) res" where
  "requireInstance i st =
     (case get_automation i st of
        Inl e \<Rightarrow> Inl e
      | Inr def \<Rightarrow>
          (case getInstanceByAutomation i (es_wf st) of
             None \<Rightarrow> Inl (HttpError 404 (''Automation '' @ i @ '' is not installed''))
           | Some inst \<Rightarrow> Inr (def, inst)))"

definition missing_permissions :: "automation_def \<Rightarrow> engine_state \<Rightarrow> string list" where
  "missing_permissions def st =
     (let pf = wo_platform (es_world st);
          declared = (case map_of (pf_packages pf) (ad_packageId def) of Some k \<Rightarrow> mf_permissions (pk_manifest k) | None \<Rightarrow> []);
          c = checkPermissions (an_permissions (automationRequirements def pf)) declared (listGrants (ad_packageId def) (wo_packages (es_world st))) in
      remdups (pc_missingDeclared c @ pc_missingGrant c))"

definition disabled_package :: "automation_def \<Rightarrow> js_error" where
  "disabled_package def = HttpError 409 (''Package '' @ ad_packageId def @ '' is disabled'')"

definition patch_automation :: "automation_env \<Rightarrow> string \<Rightarrow> instance_patch \<Rightarrow> engine_state \<Rightarrow> engine_state" where
  "patch_automation ae i p st = wf_do (ar_engine ae) (\<lambda>_ now d. snd (updateInstance i p now d)) st"

definition enable :: "automation_env \<Rightarrow> string \<Rightarrow> engine_state \<Rightarrow> unit res \<times> engine_state" where
  "enable ae i st =
     (case requireInstance i st of
        Inl e \<Rightarrow> (Inl e, st)
      | Inr (def, inst) \<Rightarrow>
          if \<not> packageEnabled def st then (Inl (disabled_package def), st)
          else if missing_permissions def st \<noteq> [] then
            (Inl (HttpError 409 (''Grant '' @ ad_packageId def @ '' these permissions before enabling '' @ i @ '': '' @
               join_with '', '' (missing_permissions def st))), st)
          else (case reschedule ae (in_id inst) def (now_at (ar_engine ae) st)
                       (patch_automation ae (in_id inst) (empty_patch\<lparr>ip_enabled := Some True, ip_paused := Some False\<rparr>) st) of
                  (r, st') \<Rightarrow> (map_sum id (\<lambda>_. ()) r, st')))"

definition owner_patch :: "automation_env \<Rightarrow> instance_patch \<Rightarrow> string \<Rightarrow> engine_state \<Rightarrow> unit res \<times> engine_state" where
  "owner_patch ae p i st = (case requireInstance i st of Inl e \<Rightarrow> (Inl e, st) | Inr (def, inst) \<Rightarrow> (Inr (), patch_automation ae (in_id inst) p st))"

definition disable :: "automation_env \<Rightarrow> string \<Rightarrow> engine_state \<Rightarrow> unit res \<times> engine_state" where
  "disable ae = owner_patch ae (empty_patch\<lparr>ip_enabled := Some False, ip_nextRunAt := Some None\<rparr>)"

definition pause :: "automation_env \<Rightarrow> string \<Rightarrow> engine_state \<Rightarrow> unit res \<times> engine_state" where
  "pause ae = owner_patch ae (empty_patch\<lparr>ip_paused := Some True\<rparr>)"

definition resume :: "automation_env \<Rightarrow> string \<Rightarrow> engine_state \<Rightarrow> unit res \<times> engine_state" where
  "resume ae = owner_patch ae (empty_patch\<lparr>ip_paused := Some False\<rparr>)"

definition runNow :: "automation_env \<Rightarrow> string \<Rightarrow> pairs \<Rightarrow> bool \<Rightarrow> engine_state \<Rightarrow> wf_row option res \<times> engine_state" where
  "runNow ae i inputs wait st =
     (case requireInstance i st of
        Inl e \<Rightarrow> (Inl e, st)
      | Inr (def, inst) \<Rightarrow>
          if in_paused inst then (Inl (HttpError 409 (i @ '' is paused'')), st)
          else if \<not> packageEnabled def st then (Inl (disabled_package def), st)
          else
            (case fire ae def inst (case triggers_of ''manual'' def of t # _ \<Rightarrow> Some t | [] \<Rightarrow> None)
                    (JObj [(''type'', JStr ''manual''), (''requestedAt'', JStr (iso_string (now_at (ar_engine ae) st)))]) None inputs st of
               (Inl e, st1) \<Rightarrow> (Inl e, st1)
             | (Inr None, st1) \<Rightarrow> (Inl (HttpError 409 ''Run could not be created''), st1)
             | (Inr (Some r), st1) \<Rightarrow>
                 if wr_status r \<noteq> WPending then (Inr (Some r), st1)
                 else (let st2 = (if wait then drain ae st1 else st1) in (Inr (wf_getRun (wr_id r) (es_wf st2)), st2))))"

definition stopRuns :: "automation_env \<Rightarrow> string \<Rightarrow> engine_state \<Rightarrow> string list res \<times> engine_state" where
  "stopRuns ae i st =
     (case requireInstance i st of
        Inl e \<Rightarrow> (Inl e, st)
      | Inr (def, inst) \<Rightarrow>
          (let rs = filter (\<lambda>r. some_text (wr_parentRunId r) = None)
                 (wf_listRuns (all_runs\<lparr>rf_instanceId := Some (in_id inst), rf_status := Some ACTIVE_RUN_STATUSES, rf_limit := 1000\<rparr>) (es_wf st)) in
           (Inr (map wr_id rs), fold (\<lambda>r s. snd (engine_cancelRun (ar_engine ae) (wr_id r) ''stopped by owner'' s)) rs st)))"

section \<open>What starting a run changes\<close>

text \<open>The identity of an instance and what the owner switches.\<close>

definition switch_of :: "instance_row \<Rightarrow> string \<times> string \<times> bool \<times> bool" where
  "switch_of i = (in_id i, in_automationId i, in_enabled i, in_paused i)"

lemma switches_update:
  assumes "ip_enabled p = None" "ip_paused p = None"
  shows "map switch_of (wd_instances (snd (updateInstance i p now d))) = map switch_of (wd_instances d)"
  using assms by (auto simp: updateInstance_def Let_def switch_of_def sql_update_def patch_instance_def or_keep_def)

lemma update_runs [simp]: "wd_runs (snd (updateInstance i p now d)) = wd_runs d"
  by (simp add: updateInstance_def Let_def)

text \<open>Nothing but the runs and what instances record of them differs.\<close>

definition same_switches :: "engine_state \<Rightarrow> engine_state \<Rightarrow> bool" where
  "same_switches st st' \<longleftrightarrow>
     es_world st' = es_world st \<and> map switch_of (wd_instances (es_wf st')) = map switch_of (wd_instances (es_wf st))"

lemma same_switches_refl [simp]: "same_switches st st"
  by (simp add: same_switches_def)

lemma same_switches_trans: "same_switches st st' \<Longrightarrow> same_switches st' st'' \<Longrightarrow> same_switches st st''"
  by (simp add: same_switches_def)

lemma wf_do_fields [simp]:
  "es_world (wf_do en f st) = es_world st" "es_wf (wf_do en f st) = f (en_id en (es_tick st)) (now_at en st) (es_wf st)"
  by (simp_all add: wf_do_def wf_act_def split: prod.split)

definition starts :: "automation_def \<Rightarrow> engine_state \<Rightarrow> string option" where
  "starts def st = map_option in_id (startable def st)"

lemma get_switch:
  "map_option switch_of (sql_get (\<lambda>r. in_automationId r = a) is) = sql_get (\<lambda>x. fst (snd x) = a) (map switch_of is)"
  by (induction "is") (auto simp: switch_of_def)

lemma starts_same:
  assumes "same_switches st st'"
  shows "starts def st' = starts def st"
proof -
  have "packageEnabled def st' = packageEnabled def st" using assms by (simp add: packageEnabled_def same_switches_def)
  moreover have "map_option switch_of (getInstanceByAutomation (ad_id def) (es_wf st')) = map_option switch_of (getInstanceByAutomation (ad_id def) (es_wf st))"
    using assms by (simp add: getInstanceByAutomation_def get_switch same_switches_def)
  ultimately show ?thesis
    by (cases "getInstanceByAutomation (ad_id def) (es_wf st)"; cases "getInstanceByAutomation (ad_id def) (es_wf st')")
       (auto simp: starts_def startable_def switch_of_def)
qed

lemma set_nextRun_keeps: "ip_enabled (set_nextRun t) = None" "ip_paused (set_nextRun t) = None"
  by (simp_all add: set_nextRun_def empty_patch_def)

lemma created_patch_keeps: "ip_enabled (created_patch q r) = None" "ip_paused (created_patch q r) = None"
  by (simp_all add: created_patch_def empty_patch_def Let_def)

text \<open>\<open>_createRun\<close> appends the one run it returns, with a key no run had.\<close>

definition created_as :: "automation_env \<Rightarrow> automation_def \<Rightarrow> string option \<Rightarrow> wf_status \<Rightarrow> engine_state \<Rightarrow> wf_row \<Rightarrow> bool" where
  "created_as ae def key s st r \<longleftrightarrow>
     wr_definitionId r = ad_id def \<and> wr_status r = s \<and> wr_dedupeKey r = key \<and> wr_parentRunId r = None \<and>
     wr_instanceId r = map_option in_id (getInstanceByAutomation (ad_id def) (es_wf st)) \<and> wr_createdAt r = now_at (ar_engine ae) st \<and>
     (key \<noteq> None \<longrightarrow> (\<forall>p\<in>set (wd_runs (es_wf st)). wr_dedupeKey p \<noteq> key))"

lemma create_run_cases:
  assumes "create_run ae def trigger key inputs s err st = (x, st')"
  shows "same_switches st st'"
    and "(\<exists>r. x = Inr (Some r) \<and> wd_runs (es_wf st') = wd_runs (es_wf st) @ [r] \<and> created_as ae def key s st r) \<or>
         (\<forall>r. x \<noteq> Inr (Some r)) \<and> wd_runs (es_wf st') = wd_runs (es_wf st)"
proof -
  let ?en = "ar_engine ae"
  let ?q = "\<lparr>rq_automationId = ad_id def, rq_trigger = trigger, rq_inputs = XObj inputs, rq_dedupeKey = key, rq_status = s, rq_error = err\<rparr>"
  let ?i = "getInstanceByAutomation (ad_id def) (es_wf st)"
  have "same_switches st st' \<and>
      ((\<exists>r. x = Inr (Some r) \<and> wd_runs (es_wf st') = wd_runs (es_wf st) @ [r] \<and> created_as ae def key s st r) \<or>
       (\<forall>r. x \<noteq> Inr (Some r)) \<and> wd_runs (es_wf st') = wd_runs (es_wf st))"
  proof (cases "map_of (pf_automations (wo_platform (es_world st))) (ad_id def)")
    case None
    with assms show ?thesis by (auto simp: create_run_def createAutomationRun_def)
  next
    case (Some def')
    define p where "p = (new_run_input ''automation'' (ad_id def) (ad_packageId def') (ad_workflow def')
          (prepareInputs (Some (ad_workflow def')) (XObj inputs)) (en_id ?en (Suc (es_tick st))))
        \<lparr>wi_packageVersion := map_option (mf_version \<circ> pk_manifest) (map_of (pf_packages (wo_platform (es_world st))) (ad_packageId def')),
         wi_instanceId := map_option in_id ?i, wi_trigger := trigger, wi_dedupeKey := key, wi_status := s, wi_error := err\<rparr>"
    have p: "createAutomationRun ?en ?q st =
        (case wf_act ?en (\<lambda>newid now. insertRun newid now p) st of
           (None, st1) \<Rightarrow> (Inr (Option.bind (some_text key) (\<lambda>k. getRunByDedupe k (es_wf st1)), False), st1)
         | (Some r, st1) \<Rightarrow>
             (Inr (Some r, True),
              case ?i of None \<Rightarrow> st1 | Some x \<Rightarrow> wf_do ?en (\<lambda>_ now d. snd (updateInstance (in_id x) (created_patch ?q r) now d)) st1))"
      by (simp only: createAutomationRun_def Let_def p_def run_request.simps Some option.simps)
    have w: "wi_definitionId p = ad_id def" "wi_status p = s" "wi_dedupeKey p = key" "wi_parentRunId p = None" "wi_instanceId p = map_option in_id ?i"
      by (simp_all add: p_def new_run_input_def)
    let ?row = "new_wf_row (en_id ?en (es_tick st)) (now_at ?en st) p"
    show ?thesis
    proof (cases "list_ex (\<lambda>r. wr_id r = en_id ?en (es_tick st) \<or> (wi_dedupeKey p \<noteq> None \<and> wr_dedupeKey r = wi_dedupeKey p)) (wd_runs (es_wf st))")
      case True
      then have "wf_act ?en (\<lambda>newid now. insertRun newid now p) st = (None, st\<lparr>es_tick := Suc (es_tick st)\<rparr>)"
        by (simp add: wf_act_def insertRun_eq)
      with assms p show ?thesis by (auto simp: create_run_def same_switches_def)
    next
      case False
      then have "wf_act ?en (\<lambda>newid now. insertRun newid now p) st =
          (Some ?row, st\<lparr>es_tick := Suc (es_tick st), es_wf := (es_wf st)\<lparr>wd_runs := wd_runs (es_wf st) @ [?row]\<rparr>\<rparr>)"
        by (simp add: wf_act_def insertRun_eq)
      moreover have "created_as ae def key s st ?row"
        using False w by (auto simp: created_as_def new_wf_row_def list_ex_iff)
      ultimately show ?thesis using assms p
        by (auto simp: create_run_def same_switches_def switches_update created_patch_keeps split: option.splits)
    qed
  qed
  then show "same_switches st st'"
    and "(\<exists>r. x = Inr (Some r) \<and> wd_runs (es_wf st') = wd_runs (es_wf st) @ [r] \<and> created_as ae def key s st r) \<or>
         (\<forall>r. x \<noteq> Inr (Some r)) \<and> wd_runs (es_wf st') = wd_runs (es_wf st)" by blast+
qed

text \<open>What \<open>_fire\<close> creates: a run that will execute only within the limits.\<close>

definition within_limits :: "automation_env \<Rightarrow> automation_def \<Rightarrow> string \<Rightarrow> engine_state \<Rightarrow> bool" where
  "within_limits ae def i st \<longleftrightarrow>
     length (filter (counted_run i (now_at (ar_engine ae) st - 3600000)) (wd_runs (es_wf st))) < ar_maxRuns ae \<and>
     (ad_concurrency def = ''parallel'' \<or> \<not> active_root i (es_wf st))"

lemma fire_cases:
  assumes "fire ae def inst trigger data key extra st = (x, st')"
  obtains inputs s err where "create_run ae def data key inputs s err st = (x, st')"
    and "s = WPending \<longrightarrow> within_limits ae def (in_id inst) st" and "s \<in> {WPending, WFailed, WSkipped, WThrottled}"
  using assms unfolding fire_def within_limits_def Let_def
  by (auto split: sum.splits if_splits)

section \<open>Loops over the automations\<close>

text \<open>
  The contract of a step of such a loop: it only appends runs, leaves the switches alone, and what
  it starts belongs to an automation that may start.
\<close>

locale automation_loop =
  fixes step :: "automation_def \<Rightarrow> engine_state \<Rightarrow> 'a list res \<times> engine_state"
    and starts_run :: "automation_def \<Rightarrow> string \<Rightarrow> wf_row \<Rightarrow> bool"
  assumes step_same: "same_switches st (snd (step def st))"
    and step_appends: "\<exists>new. wd_runs (es_wf (snd (step def st))) = wd_runs (es_wf st) @ new \<and>
      (\<forall>q\<in>set new. (\<exists>i. starts def st = Some i \<and> starts_run def i q) \<and> (\<forall>p\<in>set (wd_runs (es_wf st)). wr_dedupeKey p \<noteq> wr_dedupeKey q))"
begin

lemma loop_same: "same_switches st (snd (for_automations step ds st))"
proof (induction ds arbitrary: st)
  case (Cons d ds)
  from step_same [of st d] Cons [of "snd (step d st)"] show ?case
    by (auto split: prod.splits sum.splits intro: same_switches_trans)
qed simp

lemma loop_starts:
  assumes "q \<in> set (wd_runs (es_wf (snd (for_automations step ds st))))" and "q \<notin> set (wd_runs (es_wf st))"
  shows "\<exists>def\<in>set ds. \<exists>i. starts def st = Some i \<and> starts_run def i q \<and> (\<forall>p\<in>set (wd_runs (es_wf st)). wr_dedupeKey p \<noteq> wr_dedupeKey q)"
  using assms
proof (induction ds arbitrary: st)
  case (Cons d ds)
  let ?st = "snd (step d st)"
  obtain new where n: "wd_runs (es_wf ?st) = wd_runs (es_wf st) @ new"
    "\<forall>q\<in>set new. (\<exists>i. starts d st = Some i \<and> starts_run d i q) \<and> (\<forall>p\<in>set (wd_runs (es_wf st)). wr_dedupeKey p \<noteq> wr_dedupeKey q)"
    using step_appends [of d st] by blast
  show ?case
  proof (cases "q \<in> set (wd_runs (es_wf ?st))")
    case True
    with Cons.prems(2) n show ?thesis by auto
  next
    case False
    with Cons.prems(1) have "q \<in> set (wd_runs (es_wf (snd (for_automations step ds ?st))))"
      by (auto split: prod.splits sum.splits)
    from Cons.IH [OF this False] obtain def i where "def \<in> set ds" "starts def ?st = Some i" "starts_run def i q"
      "\<forall>p\<in>set (wd_runs (es_wf ?st)). wr_dedupeKey p \<noteq> wr_dedupeKey q" by blast
    with n(1) starts_same [OF step_same [of st d]] show ?thesis by auto
  qed
qed simp

end

text \<open>What a trigger starts: a run under the trigger's key.\<close>

lemma create_run_appends:
  assumes "create_run ae def data key inputs s err st = (x, st')" and "key \<noteq> None"
  shows "same_switches st st'"
    and "\<exists>new. wd_runs (es_wf st') = wd_runs (es_wf st) @ new \<and>
      (\<forall>q\<in>set new. wr_definitionId q = ad_id def \<and> wr_dedupeKey q = key \<and> wr_status q = s \<and> (\<forall>p\<in>set (wd_runs (es_wf st)). wr_dedupeKey p \<noteq> wr_dedupeKey q))"
  using create_run_cases [OF assms(1)] assms(2) by (auto simp: created_as_def)

lemma fire_appends:
  assumes "fire ae def inst trigger data key extra st = (x, st')" and "key \<noteq> None"
  shows "same_switches st st'"
    and "\<exists>new. wd_runs (es_wf st') = wd_runs (es_wf st) @ new \<and>
      (\<forall>q\<in>set new. wr_definitionId q = ad_id def \<and> wr_dedupeKey q = key \<and> (\<forall>p\<in>set (wd_runs (es_wf st)). wr_dedupeKey p \<noteq> wr_dedupeKey q))"
proof -
  obtain inputs s err where c: "create_run ae def data key inputs s err st = (x, st')"
    using assms(1) by (rule fire_cases)
  show "same_switches st st'" by (rule create_run_appends(1) [OF c assms(2)])
  show "\<exists>new. wd_runs (es_wf st') = wd_runs (es_wf st) @ new \<and>
      (\<forall>q\<in>set new. wr_definitionId q = ad_id def \<and> wr_dedupeKey q = key \<and> (\<forall>p\<in>set (wd_runs (es_wf st)). wr_dedupeKey p \<noteq> wr_dedupeKey q))"
    using create_run_appends(2) [OF c assms(2)] by blast
qed

lemma startableD:
  assumes "startable def st = Some inst"
  shows "getInstanceByAutomation (ad_id def) (es_wf st) = Some inst" "in_enabled inst" "\<not> in_paused inst" "packageEnabled def st"
    "starts def st = Some (in_id inst)"
  using assms by (auto simp: startable_def starts_def split: option.splits if_splits)

definition event_run :: "pkg_event \<Rightarrow> automation_def \<Rightarrow> string \<Rightarrow> wf_row \<Rightarrow> bool" where
  "event_run ev def i q \<longleftrightarrow>
     map_of (ev_metadata ev) ''automationInstanceId'' \<noteq> Some (JStr i) \<and> wr_definitionId q = ad_id def \<and> wr_dedupeKey q = Some (event_key def ev)"

lemma react_step:
  "same_switches st (snd (react ae ev def st)) \<and>
   (\<exists>new. wd_runs (es_wf (snd (react ae ev def st))) = wd_runs (es_wf st) @ new \<and>
      (\<forall>q\<in>set new. (\<exists>i. starts def st = Some i \<and> event_run ev def i q) \<and> (\<forall>p\<in>set (wd_runs (es_wf st)). wr_dedupeKey p \<noteq> wr_dedupeKey q)))"
proof (cases "snd (react ae ev def st) = st")
  case False
  then obtain inst t where s: "startable def st = Some inst" "map_of (ev_metadata ev) ''automationInstanceId'' \<noteq> Some (JStr (in_id inst))"
    and f: "snd (react ae ev def st) = snd (fire ae def inst (Some t) (trigger_event ev) (Some (event_key def ev)) [] st)"
    by (auto simp: react_def Let_def case_prod_beta split: option.splits if_splits)
  obtain x st' where x: "fire ae def inst (Some t) (trigger_event ev) (Some (event_key def ev)) [] st = (x, st')" by fastforce
  note a = fire_appends [OF x]
  have st': "snd (react ae ev def st) = st'" using f x by simp
  show ?thesis unfolding st' using a startableD(5) [OF s(1)] s(2) by (auto simp: event_run_def)
qed simp

interpretation event_loop: automation_loop "react ae ev" "event_run ev" for ae ev
  by unfold_locales (use react_step in blast)+

text \<open>A slot starts a run only when its time has come, and none that executes when it is over an hour late.\<close>

definition slot_run :: "int \<Rightarrow> automation_def \<Rightarrow> string \<Rightarrow> wf_row \<Rightarrow> bool" where
  "slot_run now def i q \<longleftrightarrow>
     wr_definitionId q = ad_id def \<and>
     (\<exists>slot\<le>now. wr_dedupeKey q = Some (schedule_key def slot) \<and> (SCHEDULE_GRACE_MS < now - slot \<longrightarrow> wr_status q = WSkipped))"

lemma fire_slot_appends:
  "same_switches st (snd (fire_slot ae def inst schedules slot now st)) \<and>
   (\<exists>new. wd_runs (es_wf (snd (fire_slot ae def inst schedules slot now st))) = wd_runs (es_wf st) @ new \<and>
      (\<forall>q\<in>set new. wr_definitionId q = ad_id def \<and> wr_dedupeKey q = Some (schedule_key def slot) \<and>
         (SCHEDULE_GRACE_MS < now - slot \<longrightarrow> wr_status q = WSkipped) \<and> (\<forall>p\<in>set (wd_runs (es_wf st)). wr_dedupeKey p \<noteq> wr_dedupeKey q)))"
proof (cases "slot_trigger ae slot schedules")
  case (Inl e)
  then show ?thesis by (simp add: fire_slot_def)
next
  case (Inr found)
  show ?thesis
  proof (cases "SCHEDULE_GRACE_MS < now - slot")
    case True
    obtain x st' where x: "create_run ae def (JObj [(''type'', JStr ''schedule''), (''slot'', JStr (iso_string slot)), (''missed'', JBool True)])
        (Some (schedule_key def slot)) [] WSkipped (Some ''missed_schedule'') st = (x, st')" by fastforce
    with Inr True have "snd (fire_slot ae def inst schedules slot now st) = st'" by (simp add: fire_slot_def Let_def)
    with create_run_appends [OF x] show ?thesis by auto
  next
    case False
    obtain x st' where x: "fire ae def inst (Some (or_keep found (hd schedules)))
        (JObj [(''type'', JStr ''schedule''), (''slot'', JStr (iso_string slot)),
           (''cron'', value_or_null (js_get (Some (or_keep found (hd schedules))) ''cron'')),
           (''every'', value_or_null (js_get (Some (or_keep found (hd schedules))) ''every''))])
        (Some (schedule_key def slot)) [] st = (x, st')" by fastforce
    with Inr False have "snd (fire_slot ae def inst schedules slot now st) = st'" by (simp add: fire_slot_def Let_def)
    with fire_appends [OF x] False show ?thesis by auto
  qed
qed

lemma reschedule_same:
  "same_switches st (snd (reschedule ae i def now st))" "wd_runs (es_wf (snd (reschedule ae i def now st))) = wd_runs (es_wf st)"
  by (auto simp: reschedule_def Let_def same_switches_def switches_update set_nextRun_keeps split: sum.splits)

lemma fire_due_step:
  "same_switches st (snd (fire_due ae now def st)) \<and>
   (\<exists>new. wd_runs (es_wf (snd (fire_due ae now def st))) = wd_runs (es_wf st) @ new \<and>
      (\<forall>q\<in>set new. (\<exists>i. starts def st = Some i \<and> slot_run now def i q) \<and> (\<forall>p\<in>set (wd_runs (es_wf st)). wr_dedupeKey p \<noteq> wr_dedupeKey q)))"
  (is "?step (snd (fire_due ae now def st))")
proof (cases "triggers_of ''schedule'' def = [] \<or> startable def st = None")
  case True
  then have "snd (fire_due ae now def st) = st" by (auto simp: fire_due_def Let_def)
  then show ?thesis by simp
next
  case False
  then obtain inst where s: "startable def st = Some inst" by blast
  show ?thesis
  proof (cases "in_nextRunAt inst")
    case None
    with False s have "snd (fire_due ae now def st) = snd (reschedule ae (in_id inst) def now st)"
      by (simp add: fire_due_def Let_def case_prod_beta)
    then show ?thesis using reschedule_same [where st = st and ae = ae and i = "in_id inst" and def = def and now = now] by simp
  next
    case (Some due')
    show ?thesis
    proof (cases "due' > now")
      case True
      with False s Some have "snd (fire_due ae now def st) = st" by (simp add: fire_due_def Let_def)
      then show ?thesis by simp
    next
      case late: False
      let ?f = "fire_slot ae def inst (triggers_of ''schedule'' def) due' now st"
      have either: "snd (fire_due ae now def st) = snd ?f \<or> (\<exists>i. snd (fire_due ae now def st) = snd (reschedule ae i def now (snd ?f)))"
        using False s Some late by (auto simp: fire_due_def Let_def case_prod_beta split: sum.splits option.splits prod.splits)
      have step: "?step (snd ?f)"
      proof -
        obtain new where n: "same_switches st (snd ?f)" "wd_runs (es_wf (snd ?f)) = wd_runs (es_wf st) @ new"
          "\<forall>q\<in>set new. wr_definitionId q = ad_id def \<and> wr_dedupeKey q = Some (schedule_key def due') \<and>
             (SCHEDULE_GRACE_MS < now - due' \<longrightarrow> wr_status q = WSkipped) \<and> (\<forall>p\<in>set (wd_runs (es_wf st)). wr_dedupeKey p \<noteq> wr_dedupeKey q)"
          using fire_slot_appends by blast
        have "\<forall>q\<in>set new. slot_run now def (in_id inst) q \<and> (\<forall>p\<in>set (wd_runs (es_wf st)). wr_dedupeKey p \<noteq> wr_dedupeKey q)"
          using n(3) late by (auto simp: slot_run_def intro!: exI [where x = due'])
        then show ?thesis using n(1,2) startableD(5) [OF s] by blast
      qed
      from either show ?thesis
      proof
        assume "snd (fire_due ae now def st) = snd ?f"
        with step show ?thesis by simp
      next
        assume "\<exists>i. snd (fire_due ae now def st) = snd (reschedule ae i def now (snd ?f))"
        then obtain i where e: "snd (fire_due ae now def st) = snd (reschedule ae i def now (snd ?f))" by blast
        note r = reschedule_same [where st = "snd ?f" and ae = ae and i = i and def = def and now = now]
        from step r(1) have "same_switches st (snd (reschedule ae i def now (snd ?f)))" by (blast intro: same_switches_trans)
        with step show ?thesis unfolding e r(2) by blast
      qed
    qed
  qed
qed

interpretation schedule_loop: automation_loop "fire_due ae now" "slot_run now" for ae now
  by unfold_locales (use fire_due_step in blast)+

section \<open>Waking keeps what the triggers look at\<close>

definition same_runs :: "engine_state \<Rightarrow> engine_state \<Rightarrow> bool" where
  "same_runs st st' \<longleftrightarrow> same_switches st st' \<and> map identity_of (wd_runs (es_wf st')) = map identity_of (wd_runs (es_wf st))"

lemma same_runs_trans: "same_runs st st' \<Longrightarrow> same_runs st' st'' \<Longrightarrow> same_runs st st''"
  by (auto simp: same_runs_def intro: same_switches_trans)

lemma wake_all_same: "same_runs (snd acc) (snd (wake_all en pick r acc))"
  unfolding wake_all_eq
  by (cases "pick r (es_wf (snd acc))") (simp_all add: same_runs_def same_switches_def wakeRun_def Let_def wake.identities_update)

lemma fold_wake_same: "same_runs (snd acc) (snd (fold (wake_all en pick) rs acc))"
proof (induction rs arbitrary: acc)
  case (Cons r rs)
  show ?case using same_runs_trans [OF wake_all_same Cons [of "wake_all en pick r acc"]] by simp
qed (simp add: same_runs_def)

lemma wake_actions_same: "same_runs (snd acc) (snd (wake_actions en rs acc))"
proof (induction rs arbitrary: acc)
  case (Cons r rs)
  have "same_runs (snd acc) (snd (wake_actions en rs (wake_all en pick r acc)))" for pick
    using same_runs_trans [OF wake_all_same Cons [of "wake_all en pick r acc"]] by simp
  then show ?case using Cons [of acc]
    by (auto simp: same_runs_def split: option.splits wait.splits sum.splits)
qed (simp add: same_runs_def)

lemma same_runs_keys:
  assumes "same_runs st st'"
  shows "wr_id ` set (wd_runs (es_wf st')) = wr_id ` set (wd_runs (es_wf st))"
    "wr_dedupeKey ` set (wd_runs (es_wf st')) = wr_dedupeKey ` set (wd_runs (es_wf st))"
proof -
  have e: "identity_of ` set (wd_runs (es_wf st')) = identity_of ` set (wd_runs (es_wf st))"
    using assms unfolding same_runs_def by (metis set_map)
  have "(\<lambda>k. ri_run k) ` identity_of ` set rs = wr_id ` set rs"
    "(\<lambda>k. fst (snd (ri_origin k))) ` identity_of ` set rs = wr_dedupeKey ` set rs" for rs
    by (simp_all add: image_image identity_of_def)
  with e show "wr_id ` set (wd_runs (es_wf st')) = wr_id ` set (wd_runs (es_wf st))"
    "wr_dedupeKey ` set (wd_runs (es_wf st')) = wr_dedupeKey ` set (wd_runs (es_wf st))" by metis+
qed

section \<open>What triggers start\<close>

lemma startsD:
  assumes "starts def st = Some i"
  obtains inst where "getInstanceByAutomation (ad_id def) (es_wf st) = Some inst" "in_id inst = i" "in_enabled inst" "\<not> in_paused inst"
    "packageEnabled def st"
  using assms startableD by (auto simp: starts_def)


text \<open>
  C39. A pass over the schedules starts a run only for an installed automation that is enabled and
  not paused, of an enabled package, for a slot whose time has come and that has no run yet; of a
  slot over an hour late it only records that it was missed.
\<close>

theorem schedules_start_only_due:
  assumes "fireDueSchedules ae now st = (x, st')" and "q \<in> set (wd_runs (es_wf st'))" and "q \<notin> set (wd_runs (es_wf st))"
  shows "\<exists>def inst slot. def \<in> set (automations st) \<and> wr_definitionId q = ad_id def \<and>
     getInstanceByAutomation (ad_id def) (es_wf st) = Some inst \<and> in_enabled inst \<and> \<not> in_paused inst \<and> packageEnabled def st \<and>
     slot \<le> now \<and> wr_dedupeKey q = Some (schedule_key def slot) \<and>
     Some (schedule_key def slot) \<notin> wr_dedupeKey ` set (wd_runs (es_wf st)) \<and> (now - slot \<le> 3600000 \<or> wr_status q = WSkipped)"
proof -
  have "q \<in> set (wd_runs (es_wf (snd (for_automations (fire_due ae now) (automations st) st))))"
    using assms(1,2) by (simp add: fireDueSchedules_def)
  from schedule_loop.loop_starts [OF this assms(3)] obtain def i where d: "def \<in> set (automations st)" "starts def st = Some i"
    "slot_run now def i q" "\<forall>p\<in>set (wd_runs (es_wf st)). wr_dedupeKey p \<noteq> wr_dedupeKey q" by blast
  from d(3) obtain slot where s: "slot \<le> now" "wr_definitionId q = ad_id def" "wr_dedupeKey q = Some (schedule_key def slot)"
    "SCHEDULE_GRACE_MS < now - slot \<longrightarrow> wr_status q = WSkipped" by (auto simp: slot_run_def)
  from d(2) obtain inst where "getInstanceByAutomation (ad_id def) (es_wf st) = Some inst" "in_enabled inst" "\<not> in_paused inst" "packageEnabled def st"
    by (rule startsD)
  then show ?thesis using d(1,4) s
    by (intro exI [where x = def] exI [where x = inst] exI [where x = slot]) (auto simp: SCHEDULE_GRACE_MS_def)
qed

section \<open>Limits\<close>

text \<open>Runs of an automation are roots: only \<open>createAutomationRun\<close> names an instance.\<close>

definition roots_ok :: "wf_db \<Rightarrow> bool" where
  "roots_ok d \<longleftrightarrow> (\<forall>r\<in>set (wd_runs d). wr_instanceId r \<noteq> None \<longrightarrow> wr_parentRunId r = None)"

lemma no_active_root:
  assumes "\<not> active_root i d" "roots_ok d" "i \<noteq> []" "r \<in> set (wd_runs d)" "wr_instanceId r = Some i"
  shows "wr_status r \<notin> set ACTIVE_RUN_STATUSES"
proof
  assume st: "wr_status r \<in> set ACTIVE_RUN_STATUSES"
  define f where "f = all_runs\<lparr>rf_instanceId := Some i, rf_status := Some ACTIVE_RUN_STATUSES, rf_limit := 1\<rparr>"
  define xs where "xs = rev (sort_key wr_createdAt (sort_key wr_id (filter (filter_run f) (wd_runs d))))"
  obtain c cs where i: "i = c # cs" using assms(3) by (cases i) auto
  then have mem: "filter_run f q \<longleftrightarrow> wr_instanceId q = Some i \<and> wr_status q \<in> set ACTIVE_RUN_STATUSES" for q
    by (simp add: f_def filter_run_def all_runs_def)
  have set: "set xs = {q \<in> set (wd_runs d). filter_run f q}" by (auto simp: xs_def)
  then have "r \<in> set xs" using assms(4,5) st mem by simp
  then obtain y ys where xs: "xs = y # ys" by (cases xs) auto
  then have y: "y \<in> set (wd_runs d)" "wr_instanceId y = Some i" using set mem by auto
  with assms(2) have "wr_parentRunId y = None" by (auto simp: roots_ok_def)
  moreover have "wf_listRuns f d = [y]" using xs by (simp add: wf_listRuns_def xs_def f_def)
  ultimately show False using assms(1) by (simp add: active_root_def f_def [symmetric])
qed

text \<open>
  C38. A run of an automation that will execute is created only if, counting it, at most as many
  runs as the hourly limit were created for the automation in the last hour, and, unless its
  concurrency is parallel, no other run of it is pending, running or waiting.
\<close>

theorem runs_within_limits:
  assumes "fire ae def inst trigger data key extra st = (Inr (Some r), st')" and "wr_status r = WPending"
    and "getInstanceByAutomation (ad_id def) (es_wf st) = Some inst" and "in_id inst \<noteq> []" and "roots_ok (es_wf st)"
  shows "wd_runs (es_wf st') = wd_runs (es_wf st) @ [r] \<and> wr_instanceId r = Some (in_id inst) \<and>
     length (filter (\<lambda>q. wr_instanceId q = Some (in_id inst) \<and> wr_parentRunId q = None \<and> wr_createdAt r - 3600000 < wr_createdAt q \<and>
                         wr_status q \<notin> {WSkipped, WThrottled}) (wd_runs (es_wf st'))) \<le> ar_maxRuns ae \<and>
     (ad_concurrency def = ''parallel'' \<or>
      filter (\<lambda>q. wr_instanceId q = Some (in_id inst) \<and> wr_status q \<in> set ACTIVE_RUN_STATUSES) (wd_runs (es_wf st')) = [r])"
proof -
  obtain inputs s err where c: "create_run ae def data key inputs s err st = (Inr (Some r), st')"
    and l: "s = WPending \<longrightarrow> within_limits ae def (in_id inst) st" using assms(1) by (rule fire_cases)
  from create_run_cases(2) [OF c] have r: "wd_runs (es_wf st') = wd_runs (es_wf st) @ [r]" "created_as ae def key s st r" by auto
  with assms(2,3) have f: "s = WPending" "wr_instanceId r = Some (in_id inst)" "wr_parentRunId r = None" "wr_createdAt r = now_at (ar_engine ae) st"
    by (auto simp: created_as_def)
  with l have w: "within_limits ae def (in_id inst) st" by simp
  have "filter (\<lambda>q. wr_instanceId q = Some (in_id inst) \<and> wr_status q \<in> set ACTIVE_RUN_STATUSES) (wd_runs (es_wf st)) = []"
    if "ad_concurrency def \<noteq> ''parallel''"
    using w that no_active_root [OF _ assms(5,4)] by (auto simp: within_limits_def filter_empty_conv)
  then show ?thesis using r(1) f w assms(2)
    by (auto simp: within_limits_def counted_run_def [abs_def] ACTIVE_RUN_STATUSES_def)
qed

text \<open>Runs keep that form: an automation's run is a root, and a child run names no instance.\<close>

lemma created_run_root:
  assumes "create_run ae def trigger key inputs s err st = (x, st')" and "roots_ok (es_wf st)"
  shows "roots_ok (es_wf st')"
  using create_run_cases(2) [OF assms(1)] assms(2) by (auto simp: roots_ok_def created_as_def)

lemma child_run_names_no_instance:
  "wr_instanceId (new_wf_row newid now (child_input u step iteration h k s input)) = None"
  by (simp add: new_wf_row_def child_input_def Let_def)

lemma update_keeps_roots:
  assumes "map identity_of (wd_runs d') = map identity_of (wd_runs d)" and "roots_ok d"
  shows "roots_ok d'"
  unfolding roots_ok_def
proof (intro ballI impI)
  fix r assume r: "r \<in> set (wd_runs d')" "wr_instanceId r \<noteq> None"
  then have "identity_of r \<in> set (map identity_of (wd_runs d))" by (simp add: assms(1) [symmetric])
  then obtain q where q: "q \<in> set (wd_runs d)" "identity_of r = identity_of q" by auto
  with identity_ofD [OF q(2)] r assms(2) show "wr_parentRunId r = None" by (auto simp: roots_ok_def)
qed

section \<open>Enabling\<close>

text \<open>
  Enabling succeeds only for an enabled package that declares, and was granted, every permission
  of every capability the workflow reaches.
\<close>

lemma enabled_automation_has_grants:
  assumes "enable ae i st = (Inr (), st')"
  shows "\<exists>def. map_of (pf_automations (wo_platform (es_world st))) i = Some def \<and>
     holds_permissions (es_world st) (ad_packageId def) (an_permissions (automationRequirements def (wo_platform (es_world st))))"
proof -
  from assms obtain def where d: "map_of (pf_automations (wo_platform (es_world st))) i = Some def" "packageEnabled def st"
    "missing_permissions def st = []"
    by (auto simp: enable_def requireInstance_def get_automation_def split: sum.splits option.splits if_splits prod.splits)
  then obtain k where k: "map_of (pf_packages (wo_platform (es_world st))) (ad_packageId def) = Some k" "pk_enabled k"
    by (auto simp: packageEnabled_def split: option.splits)
  let ?req = "an_permissions (automationRequirements def (wo_platform (es_world st)))"
  have "pm_allowed (permissionFor (es_world st) (ad_packageId def) ?req)"
    using d(3) k by (simp add: missing_permissions_def permissionFor_def Let_def checkPermissions_def)
  with d(1) show ?thesis by (auto simp: permissionFor_allowed)
qed

section \<open>What the guards do not cover\<close>

text \<open>
  A child run names no instance, so it executes while its automation is paused, and the events it
  emits do not carry the automation's instance, so they may start the automation again.
\<close>

lemma child_run_executes_while_paused:
  "mayExecute (new_wf_row newid now (child_input u step iteration h k s input)) d"
  by (simp add: mayExecute_def child_run_names_no_instance)

lemma event_of_child_is_unmarked:
  "wr_instanceId (rn_run u) = None \<Longrightarrow> map_of (ev_metadata (emit_event u step type subject data)) ''automationInstanceId'' = Some JNull"
  by (simp add: emit_event_def Let_def js_or_null_def)

text \<open>
  Catching up reads at most five hundred events, and the next live event moves the cursor past the
  rest: what lies before the cursor is never read again.
\<close>

lemma passed_events_are_lost:
  "p \<in> set (missed_rows rows (move_cursor n st)) \<Longrightarrow> n < fst p"
  by (auto simp: missed_rows_def move_cursor_def setEventCursor_def or_keep_def Let_def split: option.splits dest: in_set_takeD)

text \<open>Finishing a run does not look at its status: a cancelled run that was still executing ends as completed.\<close>

lemma finish_overwrites_cancel:
  assumes "wf_getRun i d = Some r" "wr_status r = WCancelled"
  shows "map_option wr_status (wf_getRun i (snd (wf_finishRun i e now d))) = Some (re_status e)"
  using assms wf_getRun_id [OF assms(1)] by (simp add: wf_finishRun_def Let_def finish.get_update finish_row_def)

section \<open>An automation that reacts to mail\<close>

text \<open>The default registry in a zone without transitions, where the search always ends.\<close>

definition default_nextRun :: "int \<Rightarrow> jsval \<Rightarrow> int \<Rightarrow> int option res" where
  "default_nextRun off trigger from' = (case schedule_nextRun (fixed_zone off) trigger from' of Some r \<Rightarrow> r | None \<Rightarrow> Inr None)"

lemma default_nextRun_ends: "schedule_nextRun (fixed_zone off) trigger from' = Some (default_nextRun off trigger from')"
proof -
  have "nextCronTime (fixed_zone off) c t \<noteq> None" for c t using next_cron_ends [of off c t] by auto
  then have "map_option f (nextCronTime (fixed_zone off) c t) \<noteq> None" for f :: "int option \<Rightarrow> int option res" and c t by simp
  then have "schedule_nextRun (fixed_zone off) trigger from' \<noteq> None"
    by (simp add: schedule_nextRun_def split: option.split jsval.split sum.split)
  then show ?thesis by (auto simp: default_nextRun_def)
qed

lemma every_next_is_later:
  assumes "0 < ms"
  shows "from' < every_next (of_int ms) from'" "every_next (of_int ms) from' \<le> from' + ms"
proof -
  have "\<lfloor>(of_int from' :: rat) / of_int ms\<rfloor> = from' div ms" by (rule floor_divide_of_int_eq)
  moreover have "(of_int (from' div ms) + 1) * (of_int ms :: rat) = of_int ((from' div ms + 1) * ms)" by simp
  ultimately have "every_next (of_int ms) from' = (from' div ms + 1) * ms" unfolding every_next_def by (simp only: floor_of_int)
  moreover note div_bounds [OF assms, of from']
  ultimately show "from' < every_next (of_int ms) from'" "every_next (of_int ms) from' \<le> from' + ms"
    by (simp_all add: algebra_simps)
qed

definition ex_automation :: automation_def where
  "ex_automation = \<lparr>ad_id = ''m'', ad_packageId = ''p'',
     ad_triggers = [JObj [(''type'', JStr ''event''), (''event'', JStr ''mail.received'')], JObj [(''type'', JStr ''schedule''), (''every'', JStr ''1h'')]],
     ad_concurrency = ''single'', ad_workflow = JObj [(''steps'', JArr [])], ad_state_schema = None\<rparr>"

definition ex_automation_env :: "int \<Rightarrow> automation_env" where
  "ex_automation_env t = \<lparr>ar_engine = ex_engine\<lparr>en_clock := (\<lambda>_. t)\<rparr>, ar_nextRun = default_nextRun 0, ar_matches = event_matches,
     ar_maxRuns = MAX_RUNS_PER_HOUR, ar_stopped = (\<lambda>_. False)\<rparr>"

definition ex_instance :: instance_row where
  "ex_instance = \<lparr>in_id = ''i'', in_packageId = ''p'', in_automationId = ''m'', in_enabled = True, in_paused = False, in_status = ''installed'',
     in_state = [], in_stateVersion = 0, in_nextRunAt = Some (-62135596800000), in_lastRunId = None, in_lastRunAt = None, in_lastStatus = None,
     in_lastError = None, in_createdAt = 0, in_updatedAt = 0\<rparr>"

definition ex_automation_state :: engine_state where
  "ex_automation_state = \<lparr>es_tick = 0, es_db = empty_db, es_hidden = [], es_wf = empty_wf\<lparr>wd_instances := [ex_instance]\<rparr>,
     es_world = ex_world\<lparr>wo_platform := (wo_platform ex_world)\<lparr>pf_automations := [(''m'', ex_automation)]\<rparr>\<rparr>, es_events = []\<rparr>"

definition ex_mail_event :: pkg_event where
  "ex_mail_event = \<lparr>ev_id = ''e'', ev_timestamp = 1, ev_type = ''mail.received'', ev_source = ''gmail'', ev_actor = None, ev_subject = None,
     ev_data = JObj [], ev_correlationId = None, ev_causationId = None, ev_createdAt = 1, ev_metadata = []\<rparr>"

lemma ex_mail_starts: "map wr_status (wd_runs (es_wf (snd (processEvent (ex_automation_env 5) ex_mail_event ex_automation_state)))) = [WPending]"
  by code_simp


lemma ex_slot_starts: "map wr_status (wd_runs (es_wf (snd (fireDueSchedules (ex_automation_env (-62135596799995)) (-62135596799995) ex_automation_state)))) = [WPending]"
  by code_simp

theorem schedules_start_only_due_witness:
  "\<exists>q. wd_runs (es_wf (snd (fireDueSchedules (ex_automation_env (-62135596799995)) (-62135596799995) ex_automation_state))) = [q] \<and> wr_definitionId q = ''m''"
proof -
  obtain x st' where p: "fireDueSchedules (ex_automation_env (-62135596799995)) (-62135596799995) ex_automation_state = (x, st')" by fastforce
  then obtain q where q: "wd_runs (es_wf st') = [q]" using ex_slot_starts by (auto simp: map_eq_Cons_conv)
  have "q \<notin> set (wd_runs (es_wf ex_automation_state))" by (simp add: ex_automation_state_def empty_wf_def)
  from schedules_start_only_due [OF p _ this] q obtain def where "def \<in> set (automations ex_automation_state)" "wr_definitionId q = ad_id def"
    by auto
  then show ?thesis using p q by (simp add: automations_def ex_automation_state_def ex_automation_def)
qed

lemma ex_fire_pending:
  "case fst (fire (ex_automation_env 5) ex_automation ex_instance None (JObj []) None [] ex_automation_state) of
     Inr (Some r) \<Rightarrow> wr_status r = WPending | _ \<Rightarrow> False"
  by code_simp

theorem runs_within_limits_witness:
  "\<exists>r. fst (fire (ex_automation_env 5) ex_automation ex_instance None (JObj []) None [] ex_automation_state) = Inr (Some r) \<and> wr_instanceId r = Some ''i''"
proof -
  obtain r st' where r: "fire (ex_automation_env 5) ex_automation ex_instance None (JObj []) None [] ex_automation_state = (Inr (Some r), st')"
      "wr_status r = WPending"
    using ex_fire_pending by (auto split: sum.splits option.splits) (metis prod.collapse)
  have "getInstanceByAutomation (ad_id ex_automation) (es_wf ex_automation_state) = Some ex_instance" "roots_ok (es_wf ex_automation_state)"
    by (simp_all add: getInstanceByAutomation_def ex_automation_def ex_automation_state_def ex_instance_def empty_wf_def roots_ok_def)
  from runs_within_limits [OF r this(1) _ this(2)] r(1) show ?thesis by (auto simp: ex_instance_def)
qed

end
