(* ===== verification/Spec2Isabelle.thy ===== *)
theory Spec2Isabelle
  imports U2_Runs_Safety U2_Agent U2_Plan U2_Semver U2_Permissions U2_Goal_Wakes U2_Automation
begin

text \<open>
  This library models the core of the U2OS server, the part that decides which actions an agent, a
  package or an automation may take, that queues and executes them once, and that runs workflows
  durably. All paths below are under \<open>src/server\<close>.

  \<^bold>\<open>The program.\<close> A message, a goal or a package proposes actions: calls of tools. Every proposal passes
  one gate, which consults the action policy, the scope of the goal, the binding to an account, the
  authority of a package and voice recognition; what passes is executed or queued, what needs the
  owner waits for approval. A worker leases queued actions, checks everything again, calls the tool
  and settles the attempt. An agent run plans actions in rounds under budgets. Packages bring
  capabilities, skills and automations; an automation's triggers start workflow runs, whose steps
  call capabilities through the same gate.

  \<^bold>\<open>Theories and sources.\<close>
  \<^item> \<open>U2_Prelude\<close>: JavaScript values, results and exceptions, SQL updates of tables of rows, texts;
    the locales \<open>keyed_update\<close> (an UPDATE that keeps the key) and \<open>invariant_system\<close> (runs of steps
    that keep an invariant). \<open>U2_Date\<close>: calendar days and ISO texts.
  \<^item> \<open>U2_Policy\<close>: \<open>policy/policies-loader.js\<close> and \<open>policy/policy-engine.js\<close>.
  \<^item> \<open>U2_Schema\<close>, \<open>U2_Audit\<close>: the rows of \<open>db/schema.sql\<close> and the audit trail of actions.
  \<^item> \<open>U2_Queue\<close>, \<open>U2_Queue_Inv\<close>, \<open>U2_Queue_Safety\<close>: \<open>agent/action-queue-store.js\<close>, its invariant, and
    the abstract row machine it refines.
  \<^item> \<open>U2_Runs\<close>, \<open>U2_Runs_Safety\<close>: \<open>agent/run-store.js\<close>. \<open>U2_Goals\<close>: \<open>agent/goal-store.js\<close>.
  \<^item> \<open>U2_Goal_Wakes\<close>: \<open>agent/goal-wakes.js\<close>, with the leases and timers of \<open>triggers/trigger-engine.js\<close>; the
    step relation \<open>goal_op\<close> and its invariant \<open>goals_ok\<close> over the tables of wakes and series.
  \<^item> \<open>U2_Gate\<close>: \<open>agent/action-evaluator.js\<close>, \<open>agent/action-executor.js\<close>, \<open>agent/account-binding.js\<close>,
    \<open>packages/authority.js\<close>, \<open>voice/authorize.js\<close>; the locale \<open>tightening\<close> says that an overlay of the
    policy can only make a decision stricter.
  \<^item> \<open>U2_Worker\<close>: \<open>agent/action-queue-worker.js\<close>. \<open>U2_Approval\<close>: \<open>agent/approval-manager.js\<close>.
    \<open>U2_Remember\<close>: \<open>policy/remember-approval.js\<close>. \<open>U2_Agent\<close>: the proposing rounds of \<open>agent/agent.js\<close>.
    \<open>U2_Plan\<close>: \<open>agent/plan-validator.js\<close> and \<open>agent/result-references.js\<close>.
  \<^item> \<open>U2_Semver\<close>, \<open>U2_Permissions\<close>, \<open>U2_Expression\<close>, \<open>U2_Evaluate\<close>, \<open>U2_Json_Schema\<close>, \<open>U2_Workflow\<close>: the
    pure libraries \<open>packages/semver.js\<close>, \<open>permissions.js\<close> with \<open>ids.js\<close> and \<open>events.js\<close>,
    \<open>expression.js\<close> with \<open>policy.js\<close>, \<open>json-schema.js\<close>, \<open>workflow.js\<close>. The locale \<open>permission_order\<close>
    is the order in which permissions cover each other.
  \<^item> \<open>U2_Registries\<close>: \<open>packages/registries.js\<close>, \<open>capability-registry.js\<close>, \<open>dependencies.js\<close>; the locale
    \<open>owned_registry\<close> is the contract contracts, skills and automations are registered under.
  \<^item> \<open>U2_Package_Store\<close>: \<open>packages/store.js\<close>. \<open>U2_Invoker\<close>: \<open>packages/invoker.js\<close>.
  \<^item> \<open>U2_Workflow_Store\<close>, \<open>U2_Workflow_Engine\<close>, \<open>U2_Workflow_Safety\<close>: \<open>packages/workflow-store.js\<close> and
    \<open>packages/workflow-engine.js\<close>; the locale \<open>run_update\<close> is what every UPDATE of a run leaves alone.
  \<^item> \<open>U2_Cron\<close>: \<open>packages/cron.js\<close>. \<open>U2_Automation\<close>: \<open>packages/triggers.js\<close> and
    \<open>packages/automation-runtime.js\<close>; the locale \<open>automation_loop\<close> is the contract of a loop over the
    automations that starts runs.

  \<^bold>\<open>Conventions.\<close> A table is the list of its rows in the order of insertion, and the constraints of the
  schema that the code relies on are error branches. An operation takes the clock reading and the
  fresh ids it uses as arguments and returns a result or an exception beside the new state; a
  transaction that throws leaves the old state. Where an operation reads the clock several times
  the readings are separate arguments; the engine, which reads it at every statement, takes clock
  and ids as functions of a tick. Instants are milliseconds, JSON columns hold JSON values,
  \<open>undefined\<close> is \<open>None\<close> or \<open>XUndef\<close>, numbers are rationals, and members inherited from
  \<open>Object.prototype\<close> are found where the code looks a name up without asking whether it is own. An
  asynchronous handler is split at its awaits, and what others do while it waits is a parameter or
  a step of the transition system.

  \<^bold>\<open>Parameters.\<close> Not modelled but taken as arguments: YAML and the file system, tool bodies and their
  validation of arguments, the provider registry, connected accounts, the results of model calls,
  \<open>Date.parse\<close> and the conversion and rounding of numbers, package code, event subscribers, the
  local time zone, the version of U2OS.

  \<^bold>\<open>Bounds.\<close> The expression parser runs with fuel of 16 times the number of tokens plus 16, proved
  enough; evaluation is bounded by the step budget of the source. Child runs nest at most
  \<open>MAX_SKILL_DEPTH\<close> deep, which is the recursion depth of \<open>engine_advance\<close>; the cancellation of a run
  recurses at most as deep as there are runs, since a child is created after its parent. The loop
  over the steps of a workflow and the units of a step have termination proofs. A pass over the
  runnable runs has a hundred rounds, as in the source. The search for the next minute of a
  schedule is a partial function, and \<open>next_cron_ends\<close> shows that it ends in a zone without
  transitions.

  \<^bold>\<open>What is shown.\<close> The policy never lets a tool act silently unless a rule says so, and asks when the
  vault policy is broken; the gate, the worker and the approvals check every authority at the
  moment of the action; one worker holds a queued action, one attempt executes, retries are
  bounded and made only where safe; a cancelled run and a stopped goal start nothing, and budgets
  hold; a wake of a goal starts one run at most, and a research series counts only confirmed passes
  and no more than its owner chose; plans, schemas, workflows and versions that pass validation are well formed; expressions
  always answer; a package calls only what it declared and was granted, also through a skill and
  also when a grant was revoked after queueing; registering a package leaves the others alone; a
  workflow run keeps its identity, is executed by one worker, proposes an action at most once, is
  woken when due; triggers start only what is enabled, within the limits, once per event and slot.
  The negative results, where the code does not do what it says, are lemmas beside the models.

  \<^bold>\<open>Not modelled.\<close> Connectors, tools, model providers and the coding agent are network or process
  I/O; the HTTP API, the command lines and the loading of packages are glue; the vault and the
  backups are file I/O, and the security module is cryptography; devices, add-ons, memory, the
  event rules, watches and schedules of the older trigger engine and its routines, job hunting and the browser code are outside the scope
  of this library. In \<open>agent/agent.js\<close> prompts, conversations and dashboards are left out, and in
  \<open>packages/automation-runtime.js\<close> the views for the owner.
\<close>

end
